(* ===== verification/Hive_Prelude.thy ===== *)
theory Hive_Prelude
  imports Main "HOL-Library.Char_ord" "HOL-Library.List_Lexorder" "HOL-Library.Sublist"
begin

section \<open>Prelude: errors, 64-bit integers, Go strings, atomic file replacement\<close>

text \<open>
  What every component shares.
  \<^item> \<open>herr\<close> is the error value of a handler: one constructor for each code of
    \<^verbatim>\<open>internal/protocol/errors.go\<close> and \<open>Plain\<close> for an ordinary Go \<^verbatim>\<open>error\<close>. Error texts
    are not modelled, only the code the peer can branch on.
  \<^item> \<open>wrap64\<close> is the result of Go's \<^verbatim>\<open>int\<close> arithmetic (64-bit two's complement).
  \<^item> the functions on strings are those of Go's package \<^verbatim>\<open>strings\<close> the sources call, on byte
    strings; white space is the ASCII white space.
  \<^item> \<open>atomic_replace\<close> is the temp-file-then-rename sequence that four packages use
    to write a file, with the outcome of each system call as a parameter.
\<close>

named_theorems hive_defs \<open>definitions unfolded by the component proofs\<close>

subsection \<open>Errors\<close>

datatype herr =
    InvalidParams | Internal | MethodNotFound
  | PermissionDenied | QuotaExceeded | RoomNotFound | PeerNotFound
  | AgentNotFound | ImageNotFound | InvalidManifest | RankViolation
  | Plain

text \<open>The numeric codes of \<^verbatim>\<open>errors.go\<close>. A \<open>Plain\<close> error has no code of its own: the
  dispatchers send it as \<open>Internal\<close>.\<close>

fun err_code :: "herr \<Rightarrow> int" where
  "err_code MethodNotFound = -32601"
| "err_code InvalidParams = -32602"
| "err_code Internal = -32603"
| "err_code PermissionDenied = -33001"
| "err_code QuotaExceeded = -33002"
| "err_code RoomNotFound = -33003"
| "err_code PeerNotFound = -33004"
| "err_code AgentNotFound = -33005"
| "err_code ImageNotFound = -33006"
| "err_code InvalidManifest = -33007"
| "err_code RankViolation = -33008"
| "err_code Plain = -32603"

definition as_protocol_error :: "herr \<Rightarrow> herr" where
  "as_protocol_error e = (case e of Plain \<Rightarrow> Internal | _ \<Rightarrow> e)"

type_synonym 'a res = "herr + 'a"

definition is_ok :: "'a res \<Rightarrow> bool" where
  "is_ok r = (case r of Inl _ \<Rightarrow> False | Inr _ \<Rightarrow> True)"

lemma is_ok_simps [simp]: "is_ok (Inr x)" "\<not> is_ok (Inl e)"
  by (simp_all add: is_ok_def)

lemma is_ok_iff: "is_ok r \<longleftrightarrow> (\<exists>x. r = Inr x)"
  by (cases r) auto

lemma as_protocol_error_code: "err_code (as_protocol_error e) = err_code e"
  by (cases e) (simp_all add: as_protocol_error_def)

lemma as_protocol_error_not_plain: "as_protocol_error e \<noteq> Plain"
  by (cases e) (simp_all add: as_protocol_error_def)

subsection \<open>64-bit integers\<close>

definition max_int64 :: int where "max_int64 = 9223372036854775807"
definition min_int64 :: int where "min_int64 = - 9223372036854775808"

definition in_int64 :: "int \<Rightarrow> bool" where
  "in_int64 x \<longleftrightarrow> min_int64 \<le> x \<and> x \<le> max_int64"

definition wrap64 :: "int \<Rightarrow> int" where
  "wrap64 x = (x + 9223372036854775808) mod 18446744073709551616 - 9223372036854775808"

lemma wrap64_id: "in_int64 x \<Longrightarrow> wrap64 x = x"
  by (simp add: in_int64_def wrap64_def min_int64_def max_int64_def)

lemma wrap64_range: "in_int64 (wrap64 x)"
proof -
  have "0 \<le> (x + 9223372036854775808) mod 18446744073709551616"
    and "(x + 9223372036854775808) mod 18446744073709551616 < 18446744073709551616"
    by simp_all
  then show ?thesis
    unfolding in_int64_def wrap64_def min_int64_def max_int64_def by linarith
qed

lemma wrap64_wrap64 [simp]: "wrap64 (wrap64 x) = wrap64 x"
  by (rule wrap64_id) (rule wrap64_range)

lemma in_int64_between: "in_int64 a \<Longrightarrow> in_int64 b \<Longrightarrow> a \<le> x \<Longrightarrow> x \<le> b \<Longrightarrow> in_int64 x"
  by (simp add: in_int64_def)

lemma in_int64_0 [simp]: "in_int64 0"
  by (simp add: in_int64_def min_int64_def max_int64_def)

subsection \<open>Go maps\<close>

text \<open>Reading an absent key of a Go map of integers gives 0.\<close>

definition map_get0 :: "('k \<rightharpoonup> int) \<Rightarrow> 'k \<Rightarrow> int" where
  "map_get0 m k = (case m k of None \<Rightarrow> 0 | Some v \<Rightarrow> v)"

lemma map_get0_upd [simp]:
  "map_get0 (m(k \<mapsto> v)) j = (if j = k then v else map_get0 m j)"
  by (simp add: map_get0_def)

lemma map_get0_del [simp]:
  "map_get0 (m(k := None)) j = (if j = k then 0 else map_get0 m j)"
  by (simp add: map_get0_def)

lemma map_get0_empty [simp]: "map_get0 Map.empty k = 0"
  by (simp add: map_get0_def)

subsection \<open>Package strings\<close>

definition has_prefix :: "string \<Rightarrow> string \<Rightarrow> bool" where
  "has_prefix s p = (take (length p) s = p)"

definition has_suffix :: "string \<Rightarrow> string \<Rightarrow> bool" where
  "has_suffix s p = has_prefix (rev s) (rev p)"

definition trim_prefix :: "string \<Rightarrow> string \<Rightarrow> string" where
  "trim_prefix s p = (if has_prefix s p then drop (length p) s else s)"

definition trim_suffix :: "string \<Rightarrow> string \<Rightarrow> string" where
  "trim_suffix s p = (if has_suffix s p then take (length s - length p) s else s)"

fun contains_str :: "string \<Rightarrow> string \<Rightarrow> bool" where
  "contains_str [] p = (p = [])"
| "contains_str (c # s) p = (has_prefix (c # s) p \<or> contains_str s p)"

definition trim_left :: "string \<Rightarrow> string \<Rightarrow> string" where
  "trim_left s cs = dropWhile (\<lambda>c. c \<in> set cs) s"

definition trim_right :: "string \<Rightarrow> string \<Rightarrow> string" where
  "trim_right s cs = rev (trim_left (rev s) cs)"

definition trim_set :: "string \<Rightarrow> string \<Rightarrow> string" where
  "trim_set s cs = trim_right (trim_left s cs) cs"

definition white :: string where
  "white = [CHR 0x09, CHR 0x0A, CHR 0x0B, CHR 0x0C, CHR 0x0D, CHR '' '']"

definition trim_space :: "string \<Rightarrow> string" where
  "trim_space s = trim_set s white"

fun split_on :: "char \<Rightarrow> string \<Rightarrow> string list" where
  "split_on c [] = [[]]"
| "split_on c (x # xs) =
     (if x = c then [] # split_on c xs
      else (case split_on c xs of [] \<Rightarrow> [[x]] | y # ys \<Rightarrow> (x # y) # ys))"

fun join_with :: "char \<Rightarrow> string list \<Rightarrow> string" where
  "join_with c [] = []"
| "join_with c [s] = s"
| "join_with c (s # t # ts) = s @ [c] @ join_with c (t # ts)"

fun index_of :: "char \<Rightarrow> string \<Rightarrow> nat option" where
  "index_of c [] = None"
| "index_of c (x # xs) = (if x = c then Some 0 else map_option Suc (index_of c xs))"

definition last_index :: "char \<Rightarrow> string \<Rightarrow> nat option" where
  "last_index c s = map_option (\<lambda>i. length s - 1 - i) (index_of c (rev s))"

lemma has_prefix_iff: "has_prefix s p \<longleftrightarrow> (\<exists>t. s = p @ t)"
  unfolding has_prefix_def by (metis append_eq_conv_conj append_take_drop_id)

lemma has_prefix_Nil [simp]: "has_prefix s []"
  by (simp add: has_prefix_def)

lemma has_prefix_Cons [simp]: "has_prefix (x # xs) (y # ys) \<longleftrightarrow> x = y \<and> has_prefix xs ys"
  by (auto simp: has_prefix_def)

lemma has_prefix_Nil_Cons [simp]: "\<not> has_prefix [] (y # ys)"
  by (simp add: has_prefix_def)

lemma has_prefix_append [simp]: "has_prefix (p @ t) p"
  by (simp add: has_prefix_def)

lemma has_prefix_refl [simp]: "has_prefix s s"
  by (simp add: has_prefix_def)

lemma has_prefix_trans: "has_prefix a b \<Longrightarrow> has_prefix b c \<Longrightarrow> has_prefix a c"
  by (auto simp: has_prefix_iff)

lemma trim_prefix_append [simp]: "trim_prefix (p @ t) p = t"
  by (simp add: trim_prefix_def)

lemma has_suffix_iff: "has_suffix s p \<longleftrightarrow> (\<exists>t. s = t @ p)"
proof
  assume "has_suffix s p"
  then obtain t where "rev s = rev p @ t"
    by (auto simp: has_suffix_def has_prefix_iff)
  then have "s = rev t @ p"
    by (metis rev_append rev_rev_ident)
  then show "\<exists>t. s = t @ p" ..
qed (auto simp: has_suffix_def)

lemma trim_suffix_append [simp]: "trim_suffix (t @ p) p = t"
  by (simp add: trim_suffix_def has_suffix_def)

lemma trim_suffix_no [simp]: "\<not> has_suffix s p \<Longrightarrow> trim_suffix s p = s"
  by (simp add: trim_suffix_def)

lemma contains_str_iff: "contains_str s p \<longleftrightarrow> (\<exists>a b. s = a @ p @ b)"
proof (induction s)
  case Nil
  then show ?case by simp
next
  case (Cons c s)
  have "(\<exists>a b. c # s = a @ p @ b) \<longleftrightarrow> (\<exists>b. c # s = p @ b) \<or> (\<exists>a b. s = a @ p @ b)"
    by (metis append_Cons append_Nil list.inject neq_Nil_conv)
  then show ?case by (simp add: Cons.IH has_prefix_iff)
qed

lemma split_on_nonempty [simp]: "split_on c s \<noteq> []"
  by (induction s) (auto split: list.splits)

lemma join_split [simp]: "join_with c (split_on c s) = s"
proof (induction s)
  case Nil
  then show ?case by simp
next
  case (Cons x xs)
  obtain y ys where y: "split_on c xs = y # ys"
    by (cases "split_on c xs") auto
  with Cons.IH show ?case by (cases ys) auto
qed

lemma split_on_no_sep: "p \<in> set (split_on c s) \<Longrightarrow> c \<notin> set p"
proof (induction s arbitrary: p)
  case Nil
  then show ?case by simp
next
  case (Cons x xs)
  then show ?case by (auto split: if_splits list.splits)
qed

lemma split_on_id: "c \<notin> set s \<Longrightarrow> split_on c s = [s]"
  by (induction s) auto

lemma split_on_append:
  "c \<notin> set a \<Longrightarrow> split_on c (a @ c # b) = a # split_on c b"
  by (induction a) auto

lemma split_join:
  "ps \<noteq> [] \<Longrightarrow> \<forall>p \<in> set ps. c \<notin> set p \<Longrightarrow> split_on c (join_with c ps) = ps"
  by (induction c ps rule: join_with.induct) (auto simp: split_on_append split_on_id)

lemma index_of_None: "index_of c s = None \<longleftrightarrow> c \<notin> set s"
  by (induction s) auto

lemma index_of_Some:
  "index_of c s = Some i \<longleftrightarrow> i < length s \<and> s ! i = c \<and> c \<notin> set (take i s)"
proof (induction s arbitrary: i)
  case Nil
  then show ?case by simp
next
  case (Cons x xs)
  then show ?case by (cases i) auto
qed

lemma index_of_append: "c \<notin> set a \<Longrightarrow> index_of c (a @ c # b) = Some (length a)"
  by (induction a) auto

lemma last_index_append: "c \<notin> set b \<Longrightarrow> last_index c (a @ c # b) = Some (length a)"
  by (simp add: last_index_def index_of_append)

lemma last_index_None: "last_index c s = None \<longleftrightarrow> c \<notin> set s"
  by (simp add: last_index_def index_of_None)

lemma last_index_Some:
  assumes "last_index c s = Some i"
  shows "\<exists>a b. s = a @ c # b \<and> length a = i \<and> c \<notin> set b"
proof -
  have "c \<in> set s" using assms last_index_None by (metis option.distinct(1))
  then obtain a b where s: "s = a @ c # b" "c \<notin> set b"
    by (metis split_list_last)
  with assms have "length a = i" by (simp add: last_index_append)
  with s show ?thesis by blast
qed

lemma trim_left_none: "(\<And>c. c \<in> set cs \<Longrightarrow> \<not> has_prefix s [c]) \<Longrightarrow> trim_left s cs = s"
  by (cases s) (auto simp: trim_left_def)

lemma trim_set_no_ends:
  assumes "s = [] \<or> (hd s \<notin> set cs \<and> last s \<notin> set cs)"
  shows "trim_set s cs = s"
proof (cases "s = []")
  case True
  then show ?thesis by (simp add: trim_set_def trim_right_def trim_left_def)
next
  case False
  with assms have "trim_left s cs = s"
    by (cases s) (auto simp: trim_left_def)
  moreover from False assms have "trim_left (rev s) cs = rev s"
    by (cases "rev s") (auto simp: trim_left_def last_rev hd_rev)
  ultimately show ?thesis by (simp add: trim_set_def trim_right_def)
qed

subsection \<open>Decimal numerals\<close>

definition digit :: "nat \<Rightarrow> char" where
  "digit n = char_of (48 + n)"

fun show_nat :: "nat \<Rightarrow> string" where
  "show_nat n = (if n < 10 then [digit n] else show_nat (n div 10) @ [digit (n mod 10)])"

declare show_nat.simps [simp del]

definition show_int :: "int \<Rightarrow> string" where
  "show_int i = (if i < 0 then CHR ''-'' # show_nat (nat (- i)) else show_nat (nat i))"

definition digit_val :: "char \<Rightarrow> nat" where
  "digit_val c = of_char c - 48"

definition read_nat :: "string \<Rightarrow> nat" where
  "read_nat s = foldl (\<lambda>n c. 10 * n + digit_val c) 0 s"

lemma digit_val_digit: "n < 10 \<Longrightarrow> digit_val (digit n) = n"
  by (simp add: digit_val_def digit_def)

lemma read_show_nat: "read_nat (show_nat n) = n"
proof (induction n rule: show_nat.induct)
  case (1 n)
  then show ?case
    by (subst show_nat.simps) (auto simp: read_nat_def digit_val_digit)
qed

lemma show_nat_inj: "show_nat m = show_nat n \<longleftrightarrow> m = n"
  by (metis read_show_nat)

subsection \<open>Writing a file by temp file and rename\<close>

text \<open>
  A disk maps a path to the content of the regular file there. The four outcomes after the
  directory exists are the system calls' own: each may fail, and each failure branch of the
  source removes the temp file.
\<close>

type_synonym 'v disk = "string \<rightharpoonup> 'v"

record io =
  mkdir_ok :: bool
  temp_ok :: bool
  write_ok :: bool
  close_ok :: bool
  rename_ok :: bool

definition io_good :: io where
  "io_good = \<lparr>mkdir_ok = True, temp_ok = True, write_ok = True, close_ok = True, rename_ok = True\<rparr>"

text \<open>The states of the disk from the first system call to the return, the last one being the
  state at the return; \<open>j\<close> is what a write that was cut short left in the temp file.\<close>

definition atomic_trace :: "io \<Rightarrow> 'k \<Rightarrow> 'k \<Rightarrow> 'v \<Rightarrow> 'v \<Rightarrow> ('k \<rightharpoonup> 'v) \<Rightarrow> ('k \<rightharpoonup> 'v) list" where
  "atomic_trace w tmp path j v d =
     (if \<not> mkdir_ok w \<or> \<not> temp_ok w then [d]
      else if \<not> write_ok w \<or> \<not> close_ok w \<or> \<not> rename_ok w
        then [d, d(tmp \<mapsto> j), d(tmp := None)]
      else [d, d(tmp \<mapsto> j), d(tmp \<mapsto> v), d(path \<mapsto> v, tmp := None)])"

definition atomic_replace :: "io \<Rightarrow> 'k \<Rightarrow> 'k \<Rightarrow> 'v \<Rightarrow> ('k \<rightharpoonup> 'v) \<Rightarrow> bool \<times> ('k \<rightharpoonup> 'v)" where
  "atomic_replace w tmp path v d =
     (if mkdir_ok w \<and> temp_ok w \<and> write_ok w \<and> close_ok w \<and> rename_ok w
      then (True, d(path \<mapsto> v, tmp := None))
      else (False, if mkdir_ok w \<and> temp_ok w then d(tmp := None) else d))"

lemma atomic_replace_good [simp]:
  "atomic_replace io_good tmp path v d = (True, d(path \<mapsto> v, tmp := None))"
  by (simp add: atomic_replace_def io_good_def)

lemma atomic_trace_last: "last (atomic_trace w tmp path j v d) = snd (atomic_replace w tmp path v d)"
  by (auto simp: atomic_trace_def atomic_replace_def)

text \<open>Whenever the process dies, a reader of \<open>path\<close> sees the old content or the whole new one.\<close>

lemma atomic_trace_old_or_new:
  "tmp \<noteq> path \<Longrightarrow> s \<in> set (atomic_trace w tmp path j v d) \<Longrightarrow> s path = d path \<or> s path = Some v"
  by (auto simp: atomic_trace_def split: if_splits)

lemma atomic_trace_frame:
  "q \<noteq> tmp \<Longrightarrow> q \<noteq> path \<Longrightarrow> s \<in> set (atomic_trace w tmp path j v d) \<Longrightarrow> s q = d q"
  by (auto simp: atomic_trace_def split: if_splits)

lemma atomic_replace_ok:
  "tmp \<noteq> path \<Longrightarrow> atomic_replace w tmp path v d = (True, d') \<Longrightarrow> d' path = Some v"
  by (auto simp: atomic_replace_def split: if_splits)

lemma atomic_replace_fail:
  "d tmp = None \<Longrightarrow> atomic_replace w tmp path v d = (False, d') \<Longrightarrow> d' = d"
  by (auto simp: atomic_replace_def fun_upd_idem split: if_splits)

lemma atomic_replace_other:
  "q \<noteq> tmp \<Longrightarrow> q \<noteq> path \<Longrightarrow> snd (atomic_replace w tmp path v d) q = d q"
  by (simp add: atomic_replace_def)

end
