(* ===== verification/Hive_Path.thy ===== *)
theory Hive_Path
  imports Hive_Prelude
begin

section \<open>Package path/filepath: Clean, Join, Base, Dir\<close>

text \<open>
  The lexical path functions of Go the sources rely on, on slash-separated paths (the daemon
  runs on Linux only). \<open>clean\<close> processes the components left to right with a stack:
  empty components and dots are dropped, a dot-dot pops, at the root of an absolute path it is
  dropped and at the front of a relative path it is kept. The lemmas relate absolute clean
  paths to their lists of components (\<open>abs_path\<close>), which is what the confinement theorems of
  the proxies are stated with; the locale \<open>path_guard\<close> is the contract of every
  function that maps an untrusted name into a directory.
\<close>

definition dot :: string where "dot = ''.''"
definition dotdot :: string where "dotdot = ''..''"

definition push_comp :: "bool \<Rightarrow> string list \<Rightarrow> string \<Rightarrow> string list" where
  "push_comp rooted out c =
     (if c = [] \<or> c = dot then out
      else if c = dotdot then
        (case out of
           [] \<Rightarrow> if rooted then [] else [dotdot]
         | t # ts \<Rightarrow> if t = dotdot then dotdot # out else ts)
      else c # out)"

definition norm_comps :: "bool \<Rightarrow> string list \<Rightarrow> string list" where
  "norm_comps rooted cs = rev (foldl (push_comp rooted) [] cs)"

definition abs_path :: "string list \<Rightarrow> string" where
  "abs_path cs = CHR ''/'' # join_with CHR ''/'' cs"

definition is_abs :: "string \<Rightarrow> bool" where
  "is_abs s = has_prefix s ''/''"

definition clean :: "string \<Rightarrow> string" where
  "clean s =
     (if s = [] then dot
      else if is_abs s then abs_path (norm_comps True (split_on CHR ''/'' s))
      else (let out = norm_comps False (split_on CHR ''/'' s)
            in if out = [] then dot else join_with CHR ''/'' out))"

definition join_path :: "string list \<Rightarrow> string" where
  "join_path es =
     (let ne = filter (\<lambda>e. e \<noteq> []) es
      in if ne = [] then [] else clean (join_with CHR ''/'' ne))"

definition path_base :: "string \<Rightarrow> string" where
  "path_base s =
     (if s = [] then dot
      else (let t = trim_right s ''/''
            in if t = [] then ''/'' else last (split_on CHR ''/'' t)))"

definition path_dir :: "string \<Rightarrow> string" where
  "path_dir s =
     (case last_index CHR ''/'' s of
        None \<Rightarrow> clean []
      | Some i \<Rightarrow> clean (take (Suc i) s))"

text \<open>\<open>under_dir root p\<close>: \<open>p\<close> is \<open>root\<close> itself or lies below it.\<close>

definition under_dir :: "string \<Rightarrow> string \<Rightarrow> bool" where
  "under_dir root p \<longleftrightarrow> p = root \<or> has_prefix p (root @ ''/'')"

definition is_name :: "string \<Rightarrow> bool" where
  "is_name c \<longleftrightarrow> c \<noteq> [] \<and> c \<noteq> dot \<and> c \<noteq> dotdot \<and> CHR ''/'' \<notin> set c"

definition names :: "string list \<Rightarrow> bool" where
  "names cs = list_all is_name cs"

subsection \<open>Components\<close>

lemma names_simps [simp]:
  "names []" "names (c # cs) \<longleftrightarrow> is_name c \<and> names cs"
  "names (as @ bs) \<longleftrightarrow> names as \<and> names bs" "names (rev as) \<longleftrightarrow> names as"
  by (simp_all add: names_def)

lemma split_on_app: "split_on c (a @ c # b) = split_on c a @ split_on c b"
  by (induction a) (auto split: list.splits)

lemma push_comp_name: "is_name c \<Longrightarrow> push_comp r out c = c # out"
  by (simp add: push_comp_def is_name_def)

lemma push_comp_skip [simp]: "push_comp r out [] = out" "push_comp r out dot = out"
  by (simp_all add: push_comp_def)

lemma push_comp_up: "push_comp True out dotdot = (case out of [] \<Rightarrow> [] | t # ts \<Rightarrow> if t = dotdot then dotdot # out else ts)"
  by (simp add: push_comp_def dot_def dotdot_def split: list.splits)

lemma foldl_push_names: "names cs \<Longrightarrow> foldl (push_comp r) out cs = rev cs @ out"
  by (induction cs arbitrary: out) (simp_all add: push_comp_name)

lemma push_comp_names:
  "names out \<Longrightarrow> CHR ''/'' \<notin> set c \<Longrightarrow> names (push_comp True out c)"
  by (auto simp: push_comp_def is_name_def dotdot_def dot_def split: list.splits)

lemma foldl_push_is_names:
  "names out \<Longrightarrow> \<forall>c \<in> set cs. CHR ''/'' \<notin> set c \<Longrightarrow> names (foldl (push_comp True) out cs)"
  by (induction cs arbitrary: out) (simp_all add: push_comp_names)

lemma norm_comps_names: "names cs \<Longrightarrow> norm_comps r cs = cs"
  by (simp add: norm_comps_def foldl_push_names)

lemma names_norm_comps_split: "names (norm_comps True (split_on CHR ''/'' s))"
  unfolding norm_comps_def using foldl_push_is_names [of "[]" "split_on CHR ''/'' s"] split_on_no_sep
  by fastforce

lemma names_no_slash: "names cs \<Longrightarrow> c \<in> set cs \<Longrightarrow> CHR ''/'' \<notin> set c"
  by (auto simp: names_def list_all_iff is_name_def)

lemma split_abs_path: "names cs \<Longrightarrow> split_on CHR ''/'' (abs_path cs) = [] # (if cs = [] then [[]] else cs)"
  using split_join [of cs "CHR ''/''"] names_no_slash by (auto simp: abs_path_def)

lemma is_abs_abs_path [simp]: "is_abs (abs_path cs)"
  by (simp add: is_abs_def abs_path_def)

lemma abs_path_nonempty [simp]: "abs_path cs \<noteq> []"
  by (simp add: abs_path_def)

lemma foldl_push_abs:
  "names cs \<Longrightarrow> foldl (push_comp True) out (split_on CHR ''/'' (abs_path cs)) = rev cs @ out"
  by (simp add: split_abs_path foldl_push_names)

lemma clean_abs_path: "names cs \<Longrightarrow> clean (abs_path cs) = abs_path cs"
  by (simp add: clean_def norm_comps_def foldl_push_abs)

text \<open>A clean absolute path is the path of a list of proper names.\<close>

lemma clean_abs_form:
  assumes "is_abs s"
  obtains cs where "names cs" "clean s = abs_path cs"
proof
  from assms have "s \<noteq> []" by (auto simp: is_abs_def)
  with assms show "clean s = abs_path (norm_comps True (split_on CHR ''/'' s))"
    by (simp add: clean_def)
qed (rule names_norm_comps_split)

lemma clean_idem_abs: "is_abs s \<Longrightarrow> clean (clean s) = clean s"
  by (metis clean_abs_form clean_abs_path)

lemma abs_path_inj: "names as \<Longrightarrow> names bs \<Longrightarrow> abs_path as = abs_path bs \<longleftrightarrow> as = bs"
  by (metis foldl_push_abs append_Nil2 rev_rev_ident)

lemma join_with_app:
  "as \<noteq> [] \<Longrightarrow> bs \<noteq> [] \<Longrightarrow> join_with c (as @ bs) = join_with c as @ c # join_with c bs"
proof (induction c as rule: join_with.induct)
  case (2 c s)
  then show ?case by (cases bs) auto
qed auto

lemma abs_path_app:
  "as \<noteq> [] \<Longrightarrow> bs \<noteq> [] \<Longrightarrow> abs_path (as @ bs) = abs_path as @ abs_path bs"
  by (simp add: abs_path_def join_with_app)

text \<open>Joining anything below a clean absolute directory continues its stack of components.\<close>

lemma join_path_abs:
  assumes "names rs" "x \<noteq> []"
  shows "join_path [abs_path rs, x] = abs_path (rev (foldl (push_comp True) (rev rs) (split_on CHR ''/'' x)))"
proof -
  have "is_abs (abs_path rs @ CHR ''/'' # x)"
    by (simp add: is_abs_def abs_path_def)
  moreover have "split_on CHR ''/'' (abs_path rs @ CHR ''/'' # x)
      = split_on CHR ''/'' (abs_path rs) @ split_on CHR ''/'' x"
    by (rule split_on_app)
  ultimately show ?thesis
    using assms by (simp add: join_path_def clean_def norm_comps_def foldl_push_abs)
qed

lemma join_path_abs_abs:
  assumes "names rs" "names cs"
  shows "join_path [abs_path rs, abs_path cs] = abs_path (rs @ cs)"
  using assms by (simp add: join_path_abs foldl_push_abs)

lemma join_path_abs_Nil: "names rs \<Longrightarrow> join_path [abs_path rs, []] = abs_path rs"
  by (simp add: join_path_def clean_abs_path)

lemma join_path_name:
  assumes "names rs" "is_name c"
  shows "join_path [abs_path rs, c] = abs_path (rs @ [c])"
proof -
  have "split_on CHR ''/'' c = [c]" "c \<noteq> []"
    using assms(2) by (auto simp: is_name_def split_on_id)
  with assms show ?thesis by (simp add: join_path_abs push_comp_name)
qed

subsection \<open>Confinement\<close>

lemma under_dir_refl [simp]: "under_dir r r"
  by (simp add: under_dir_def)

lemma under_dir_app: "rs \<noteq> [] \<Longrightarrow> under_dir (abs_path rs) (abs_path (rs @ cs))"
  by (cases "cs = []") (auto simp: under_dir_def abs_path_app has_prefix_iff, simp add: abs_path_def)

lemma under_dir_abs_iff:
  assumes "names rs" "names ps" "rs \<noteq> []"
  shows "under_dir (abs_path rs) (abs_path ps) \<longleftrightarrow> (\<exists>cs. ps = rs @ cs)"
proof
  assume u: "under_dir (abs_path rs) (abs_path ps)"
  show "\<exists>cs. ps = rs @ cs"
  proof (cases "abs_path ps = abs_path rs")
    case True
    with assms show ?thesis by (simp add: abs_path_inj)
  next
    case False
    with u obtain t where t: "abs_path ps = abs_path rs @ CHR ''/'' # t"
      by (auto simp: under_dir_def has_prefix_iff)
    then have "split_on CHR ''/'' (abs_path ps)
        = split_on CHR ''/'' (abs_path rs) @ split_on CHR ''/'' t"
      by (simp add: split_on_app)
    with assms show ?thesis by (auto simp: split_abs_path Cons_eq_append_conv split: if_splits)
  qed
qed (use assms under_dir_app in auto)

lemma under_dir_trans:
  assumes "under_dir a b" "under_dir b c"
  shows "under_dir a c"
  using assms by (auto simp: under_dir_def has_prefix_iff)

text \<open>Two directories, neither below the other, share no path.\<close>

lemma under_dir_disjoint:
  assumes "under_dir a p" "under_dir b p"
  shows "under_dir a b \<or> under_dir b a"
proof (cases "p = a \<or> p = b")
  case True
  with assms show ?thesis by auto
next
  case False
  from False assms(1) obtain s where s: "p = (a @ ''/'') @ s"
    by (auto simp: under_dir_def has_prefix_iff)
  from False assms(2) obtain t where t: "p = (b @ ''/'') @ t"
    by (auto simp: under_dir_def has_prefix_iff)
  with s have "(a @ ''/'') @ s = (b @ ''/'') @ t" by simp
  then obtain u where "a @ ''/'' = (b @ ''/'') @ u \<or> (a @ ''/'') @ u = b @ ''/''"
    by (metis append_eq_append_conv2)
  then show ?thesis
  proof
    assume "a @ ''/'' = (b @ ''/'') @ u"
    then show ?thesis
      by (cases u rule: rev_cases) (auto simp: under_dir_def has_prefix_iff)
  next
    assume "(a @ ''/'') @ u = b @ ''/''"
    then show ?thesis
      by (cases u rule: rev_cases) (auto simp: under_dir_def has_prefix_iff)
  qed
qed

subsection \<open>The contract of a path guard\<close>

text \<open>
  A guard maps an untrusted name to a host path or rejects it; its promise is that what it
  returns lies in its directory. The clients' lemmas: nothing a guard returns lies in a directory
  disjoint from its own, so guards of disjoint directories never return the same path.
\<close>

locale path_guard =
  fixes valid :: "'r \<Rightarrow> bool"
    and root :: "'r \<Rightarrow> string"
    and guard :: "'r \<Rightarrow> string \<Rightarrow> 'e + string"
  assumes confined: "valid r \<Longrightarrow> guard r p = Inr h \<Longrightarrow> under_dir (root r) h"
begin

lemma outside:
  assumes "valid r" "guard r p = Inr h" "\<not> under_dir (root r) other" "\<not> under_dir other (root r)"
  shows "\<not> under_dir other h"
  using assms confined under_dir_disjoint by blast

lemma never_meets:
  assumes "valid r" "valid r'" "guard r p = Inr h" "guard r' p' = Inr h'"
    and "\<not> under_dir (root r) (root r')" "\<not> under_dir (root r') (root r)"
  shows "h \<noteq> h'"
  using assms outside confined by blast

end

subsection \<open>Clean paths below a mount point\<close>

definition proper_dir :: "string \<Rightarrow> bool" where
  "proper_dir r \<longleftrightarrow> is_abs r \<and> clean r = r \<and> r \<noteq> ''/''"

lemma proper_dir_form:
  assumes "proper_dir r"
  obtains rs where "names rs" "rs \<noteq> []" "r = abs_path rs"
proof -
  from assms obtain rs where rs: "names rs" "r = abs_path rs"
    by (metis proper_dir_def clean_abs_form)
  with assms have "rs \<noteq> []" by (auto simp: proper_dir_def abs_path_def)
  with rs that show thesis by blast
qed

lemma proper_dir_abs_path: "names rs \<Longrightarrow> rs \<noteq> [] \<Longrightarrow> proper_dir (abs_path rs)"
  using abs_path_inj [of rs "[]"] by (auto simp: proper_dir_def clean_abs_path) (simp add: abs_path_def)

lemma foldl_push_skips:
  "foldl (push_comp True) out cs = foldl (push_comp True) out (filter (\<lambda>c. c \<noteq> []) cs)"
  by (induction cs arbitrary: out) auto

lemma join_path_below:
  assumes "names rs" "\<forall>c \<in> set (split_on CHR ''/'' x). c = [] \<or> is_name c"
  obtains us where "names us" "join_path [abs_path rs, x] = abs_path (rs @ us)"
proof (cases "x = []")
  case True
  with assms that [of "[]"] show thesis by (simp add: join_path_abs_Nil)
next
  case False
  let ?us = "filter (\<lambda>c. c \<noteq> []) (split_on CHR ''/'' x)"
  from assms(2) have us: "names ?us" by (auto simp: names_def list_all_iff)
  have "join_path [abs_path rs, x] = abs_path (rs @ ?us)"
    using False assms(1) us
    by (subst join_path_abs) (simp_all add: foldl_push_skips [of _ "split_on _ _"] foldl_push_names)
  with us that show thesis by blast
qed

text \<open>What is left of a clean absolute path after a prefix that ends at a slash is made of
  proper names.\<close>

lemma clean_rest_names:
  assumes "names ns" "abs_path ns = a @ CHR ''/'' # t"
  shows "\<forall>c \<in> set (split_on CHR ''/'' t). c = [] \<or> is_name c"
proof -
  have "split_on CHR ''/'' (abs_path ns) = split_on CHR ''/'' a @ split_on CHR ''/'' t"
    by (simp only: assms(2) split_on_app)
  then have "set (split_on CHR ''/'' t) \<subseteq> set (split_on CHR ''/'' (abs_path ns))" by simp
  also have "\<dots> \<subseteq> insert [] (set ns)" using assms(1) by (auto simp: split_abs_path)
  finally have "set (split_on CHR ''/'' t) \<subseteq> insert [] (set ns)" .
  with assms(1) show ?thesis by (fastforce simp: names_def list_all_iff)
qed

subsection \<open>Dir and Base\<close>

lemma abs_path_snoc: "abs_path (cs @ [c]) = (if cs = [] then [] else abs_path cs) @ CHR ''/'' # c"
  by (cases "cs = []") (simp_all add: abs_path_def join_with_app)

lemma path_dir_abs: "names cs \<Longrightarrow> is_name c \<Longrightarrow> path_dir (abs_path (cs @ [c])) = abs_path cs"
  using last_index_append [of "CHR ''/''" c "[]"]
  by (cases "cs = []")
     (simp_all add: path_dir_def abs_path_snoc last_index_append is_name_def clean_def is_abs_def norm_comps_def split_on_app
       foldl_push_abs, simp_all add: abs_path_def clean_def is_abs_def norm_comps_def)

lemma path_base_abs:
  assumes "names cs" "is_name c"
  shows "path_base (abs_path (cs @ [c])) = c"
proof -
  obtain x xs where x: "rev c = x # xs" "x \<noteq> CHR ''/''"
    using assms(2) by (cases "rev c") (auto simp: is_name_def dest: arg_cong [where f = set])
  have "rev (abs_path (cs @ [c])) = x # (xs @ CHR ''/'' # rev (if cs = [] then [] else abs_path cs))"
    using x by (simp add: abs_path_snoc)
  then have "trim_right (abs_path (cs @ [c])) ''/'' = abs_path (cs @ [c])"
    using x(2) by (simp add: trim_right_def trim_left_def)
  with assms show ?thesis by (simp add: path_base_def split_abs_path)
qed

text \<open>For the evaluation of paths at literals.\<close>

lemmas path_eval = clean_def is_abs_def norm_comps_def push_comp_def abs_path_def join_path_def
  dot_def dotdot_def

end
