(* ===== verification/Images.thy ===== *)
theory Images
  imports Hive_Path
begin

section \<open>Images, the image store, Hivefiles and volumes\<close>

text \<open>
  The manifest of an image and its validation (\<^verbatim>\<open>internal/image/manifest.go\<close>), the store that
  copies an image directory under its name and version (\<^verbatim>\<open>internal/store/store.go\<close>) and the
  named volumes (\<^verbatim>\<open>internal/volume/volume.go\<close>). A disk maps absolute paths to the contents of
  regular files. The YAML parser is third-party code: it is the parameter \<open>yaml\<close>, from the bytes
  of a manifest to its fields, and nothing is assumed of it.
\<close>

record caps =
  cap_requires :: "string list"
  cap_provides :: "string list"

record manifest =
  mf_name :: string
  mf_version :: string
  mf_kind :: string
  mf_entry :: string
  mf_rank :: string
  mf_caps :: caps
  mf_skill :: string
  mf_workflow :: string
  mf_planner :: string
  mf_model :: string
  mf_tools :: "string list"

record image_ref =
  ref_name :: string
  ref_version :: string

record image =
  img_manifest :: manifest
  img_dir :: string

definition ref_string :: "image_ref \<Rightarrow> string" where
  "ref_string r = ref_name r @ '':'' @ ref_version r"

definition parse_image_ref :: "string \<Rightarrow> image_ref res" where
  "parse_image_ref s =
     (case last_index CHR '':'' s of
        None \<Rightarrow> Inl Plain
      | Some i \<Rightarrow>
          if i = 0 \<or> i = length s - 1 then Inl Plain
          else Inr \<lparr>ref_name = take i s, ref_version = drop (Suc i) s\<rparr>)"

definition dotdot_in :: "string \<Rightarrow> bool" where
  "dotdot_in s = contains_str s ''..''"

definition with_rank :: "manifest \<Rightarrow> manifest" where
  "with_rank m = (if mf_rank m = [] then m\<lparr>mf_rank := ''intern''\<rparr> else m)"

definition validate_manifest :: "manifest \<Rightarrow> manifest res" where
  "validate_manifest m =
     (if mf_name m = [] then Inl Plain
      else if mf_version m = [] then Inl Plain
      else let m = (if mf_kind m = [] then m\<lparr>mf_kind := ''binary''\<rparr> else m) in
        if mf_kind m = ''binary'' then
          (if mf_entry m = [] then Inl Plain
           else if dotdot_in (mf_entry m) then Inl Plain
           else Inr (with_rank m))
        else if mf_kind m = ''skill'' then
          (if mf_skill m = [] then Inl Plain
           else if dotdot_in (mf_skill m) then Inl Plain
           else Inr (with_rank m))
        else if mf_kind m = ''workflow'' then
          (let has_workflow = mf_workflow m \<noteq> []; has_planner = mf_planner m \<noteq> [] in
             if \<not> has_workflow \<and> \<not> has_planner then Inl Plain
             else if has_workflow \<and> has_planner then Inl Plain
             else if has_workflow \<and> dotdot_in (mf_workflow m) then Inl Plain
             else if has_planner \<and> dotdot_in (mf_planner m) then Inl Plain
             else Inr (with_rank m))
        else Inl Plain)"

type_synonym yaml = "string \<Rightarrow> manifest option"

definition manifest_filename :: string where "manifest_filename = ''agent.yaml''"

definition load_manifest :: "yaml \<Rightarrow> string \<Rightarrow> string disk \<Rightarrow> manifest res" where
  "load_manifest yaml dir d =
     (case d (join_path [dir, manifest_filename]) of
        None \<Rightarrow> Inl Plain
      | Some bytes \<Rightarrow> (case yaml bytes of None \<Rightarrow> Inl Plain | Some m \<Rightarrow> validate_manifest m))"

definition load_image :: "yaml \<Rightarrow> string \<Rightarrow> string disk \<Rightarrow> image res" where
  "load_image yaml dir d =
     (case load_manifest yaml dir d of
        Inl e \<Rightarrow> Inl e
      | Inr m \<Rightarrow> Inr \<lparr>img_manifest = m, img_dir = dir\<rparr>)"

definition image_ref_of :: "image \<Rightarrow> image_ref" where
  "image_ref_of i = \<lparr>ref_name = mf_name (img_manifest i), ref_version = mf_version (img_manifest i)\<rparr>"

definition entry_path :: "image \<Rightarrow> string" where
  "entry_path i = join_path [img_dir i, mf_entry (img_manifest i)]"

subsection \<open>The store\<close>

definition path_of :: "string \<Rightarrow> image_ref \<Rightarrow> string" where
  "path_of root r = join_path [root, ref_name r, ref_version r]"

definition remove_all :: "string \<Rightarrow> string disk \<Rightarrow> string disk" where
  "remove_all p d = (\<lambda>q. if p = ''/'' \<or> under_dir p q then None else d q)"

text \<open>A copy that fails has copied some of the files: \<open>part\<close> says which.\<close>

definition copy_tree :: "(string \<Rightarrow> bool) \<Rightarrow> string \<Rightarrow> string \<Rightarrow> string disk \<Rightarrow> string disk" where
  "copy_tree part src dst d =
     (\<lambda>q. if has_prefix q (dst @ ''/'') \<and> d (src @ drop (length dst) q) \<noteq> None
            \<and> part (src @ drop (length dst) q)
          then d (src @ drop (length dst) q) else d q)"

record store_io =
  si_remove :: bool
  si_copy :: bool
  si_part :: "string \<Rightarrow> bool"

definition store_put ::
  "yaml \<Rightarrow> store_io \<Rightarrow> string \<Rightarrow> string \<Rightarrow> string disk \<Rightarrow> image res \<times> string disk" where
  "store_put yaml w root src d =
     (case load_manifest yaml src d of
        Inl e \<Rightarrow> (Inl e, d)
      | Inr m \<Rightarrow>
          (let dst = path_of root \<lparr>ref_name = mf_name m, ref_version = mf_version m\<rparr> in
           if \<not> si_remove w then (Inl Plain, d)
           else let d = remove_all dst d in
             if \<not> si_copy w then (Inl Plain, copy_tree (si_part w) src dst d)
             else let d = copy_tree (\<lambda>_. True) src dst d in (load_image yaml dst d, d)))"

definition store_get :: "yaml \<Rightarrow> string \<Rightarrow> image_ref \<Rightarrow> string disk \<Rightarrow> image res" where
  "store_get yaml root r d = load_image yaml (path_of root r) d"

text \<open>The listing of the root: each entry with whether it is a directory, and the entries of it.\<close>

definition store_list :: "(string \<times> bool \<times> (string \<times> bool) list) list \<Rightarrow> image_ref list" where
  "store_list ls =
     concat (map (\<lambda>(nm, isdir, vs). if isdir
        then map (\<lambda>(v, _). \<lparr>ref_name = nm, ref_version = v\<rparr>) (filter snd vs) else []) ls)"

subsection \<open>Volumes\<close>

text \<open>The names of the directories under the volumes' root.\<close>

type_synonym vol_dirs = "string list"

record volume =
  vol_name :: string
  vol_path :: string

definition name_char :: "char \<Rightarrow> bool" where
  "name_char c \<longleftrightarrow> (CHR ''A'' \<le> c \<and> c \<le> CHR ''Z'') \<or> (CHR ''a'' \<le> c \<and> c \<le> CHR ''z'')
     \<or> (CHR ''0'' \<le> c \<and> c \<le> CHR ''9'') \<or> c = CHR ''_'' \<or> c = CHR ''-''"

definition valid_volume_name :: "string \<Rightarrow> bool" where
  "valid_volume_name s \<longleftrightarrow> list_all name_char s \<and> 1 \<le> length s \<and> length s \<le> 64"

definition volume_create :: "bool \<Rightarrow> string \<Rightarrow> string \<Rightarrow> vol_dirs \<Rightarrow> volume res \<times> vol_dirs" where
  "volume_create mk_ok root nm vs =
     (if \<not> valid_volume_name nm then (Inl Plain, vs)
      else if nm \<in> set vs then (Inl Plain, vs)
      else if \<not> mk_ok then (Inl Plain, vs)
      else (Inr \<lparr>vol_name = nm, vol_path = join_path [root, nm]\<rparr>, nm # vs))"

definition volume_get :: "string \<Rightarrow> string \<Rightarrow> vol_dirs \<Rightarrow> volume res" where
  "volume_get root nm vs =
     (if \<not> valid_volume_name nm then Inl Plain
      else if nm \<in> set vs then Inr \<lparr>vol_name = nm, vol_path = join_path [root, nm]\<rparr>
      else Inl Plain)"

definition volume_list :: "string \<Rightarrow> vol_dirs \<Rightarrow> volume list" where
  "volume_list root vs =
     map (\<lambda>nm. \<lparr>vol_name = nm, vol_path = join_path [root, nm]\<rparr>) (sort (filter valid_volume_name vs))"

definition volume_remove :: "bool \<Rightarrow> string \<Rightarrow> vol_dirs \<Rightarrow> unit res \<times> vol_dirs" where
  "volume_remove rm_ok nm vs =
     (if \<not> valid_volume_name nm then (Inl Plain, vs)
      else if \<not> rm_ok then (Inl Plain, vs)
      else (Inr (), filter (\<lambda>x. x \<noteq> nm) vs))"

definition memory_dir :: "volume \<Rightarrow> string" where
  "memory_dir v = join_path [vol_path v, ''memory'']"

lemma valid_volume_is_name: "valid_volume_name s \<Longrightarrow> is_name s"
  by (auto simp: valid_volume_name_def is_name_def dot_def dotdot_def name_char_def list_all_iff)

subsection \<open>Names of images\<close>

lemma parse_image_ref_Some:
  "parse_image_ref s = Inr r \<Longrightarrow> s = ref_string r \<and> ref_name r \<noteq> [] \<and> ref_version r \<noteq> []
     \<and> CHR '':'' \<notin> set (ref_version r)"
  by (auto simp: parse_image_ref_def ref_string_def split: option.splits if_splits dest!: last_index_Some)

lemma parse_image_ref_string:
  "ref_name r \<noteq> [] \<Longrightarrow> ref_version r \<noteq> [] \<Longrightarrow> CHR '':'' \<notin> set (ref_version r) \<Longrightarrow>
     parse_image_ref (ref_string r) = Inr r"
  by (simp add: parse_image_ref_def ref_string_def last_index_append)

text \<open>A string is read as an image reference exactly when it is a name, a colon and a version,
  neither empty and the version without a colon; name and version are then the reference's.\<close>

theorem image_ref_roundtrip:
  "parse_image_ref s = Inr r \<longleftrightarrow>
     s = ref_string r \<and> ref_name r \<noteq> [] \<and> ref_version r \<noteq> [] \<and> CHR '':'' \<notin> set (ref_version r)"
  using parse_image_ref_Some parse_image_ref_string by blast

subsection \<open>What an install keeps and what it replaces\<close>

lemma remove_all_other: "p \<noteq> ''/'' \<Longrightarrow> \<not> under_dir p q \<Longrightarrow> remove_all p d q = d q"
  by (simp add: remove_all_def)

lemma remove_all_under: "under_dir p q \<Longrightarrow> remove_all p d q = None"
  by (simp add: remove_all_def)

lemma copy_tree_at:
  "copy_tree part src dst d (dst @ CHR ''/'' # t) =
     (if d (src @ CHR ''/'' # t) \<noteq> None \<and> part (src @ CHR ''/'' # t) then d (src @ CHR ''/'' # t)
      else d (dst @ CHR ''/'' # t))"
  by (simp add: copy_tree_def has_prefix_iff)

lemma copy_tree_other: "\<not> has_prefix q (dst @ ''/'') \<Longrightarrow> copy_tree part src dst d q = d q"
  by (simp add: copy_tree_def)

lemma proper_not_root: "proper_dir p \<Longrightarrow> p \<noteq> ''/''"
  by (simp add: proper_dir_def)

lemma join_manifest:
  assumes "proper_dir p" shows "join_path [p, manifest_filename] = p @ ''/agent.yaml''"
proof -
  from assms obtain rs where rs: "names rs" "rs \<noteq> []" "p = abs_path rs" by (rule proper_dir_form)
  have "is_name manifest_filename" by (simp add: is_name_def manifest_filename_def dot_def dotdot_def)
  with rs show ?thesis
    by (simp add: join_path_name abs_path_app) (simp add: abs_path_def manifest_filename_def)
qed

lemma path_of_proper:
  assumes "proper_dir root" "is_name (ref_name r)" "is_name (ref_version r)"
  shows "proper_dir (path_of root r)" "under_dir root (path_of root r)"
proof -
  from assms(1) obtain rs where rs: "names rs" "rs \<noteq> []" "root = abs_path rs" by (rule proper_dir_form)
  let ?x = "ref_name r @ CHR ''/'' # ref_version r"
  have ne: "ref_name r \<noteq> []" "ref_version r \<noteq> []" "root \<noteq> []"
    using assms rs by (auto simp: is_name_def)
  then have "path_of root r = join_path [root, ?x]"
    by (simp add: path_of_def join_path_def)
  moreover have "split_on CHR ''/'' ?x = [ref_name r, ref_version r]"
    using assms(2,3) by (simp add: split_on_append split_on_id is_name_def)
  ultimately have p: "path_of root r = abs_path (rs @ [ref_name r, ref_version r])"
    using rs assms(2,3) by (simp add: join_path_abs push_comp_name)
  show "proper_dir (path_of root r)"
    unfolding p using rs assms(2,3) by (intro proper_dir_abs_path) auto
  show "under_dir root (path_of root r)"
    using under_dir_app[OF rs(2)] unfolding p by (simp add: rs(3))
qed

lemma load_manifest_names: "load_manifest yaml dir d = Inr m \<Longrightarrow> mf_name m \<noteq> [] \<and> mf_version m \<noteq> []"
  by (auto simp: load_manifest_def validate_manifest_def with_rank_def Let_def
      split: option.splits if_splits)

text \<open>Installing an image whose name and version are plain names puts under the store's
  directory for them exactly the files of the source, replacing what was there, touches no other
  file, and the image that is then loaded by that reference is the one whose manifest the source
  had. The source lies outside the directory that is replaced.\<close>

theorem store_put_installs:
  assumes "proper_dir root" "proper_dir src" "load_manifest yaml src d = Inr m"
    and "is_name (mf_name m)" "is_name (mf_version m)"
    and "\<not> under_dir src dst" "\<not> under_dir dst src"
    and "dst = path_of root \<lparr>ref_name = mf_name m, ref_version = mf_version m\<rparr>"
    and "si_remove w" "si_copy w" "store_put yaml w root src d = (r, d')"
  shows "r = Inr \<lparr>img_manifest = m, img_dir = dst\<rparr>
       \<and> store_get yaml root \<lparr>ref_name = mf_name m, ref_version = mf_version m\<rparr> d' = r
       \<and> (\<forall>t. d' (dst @ CHR ''/'' # t) = d (src @ CHR ''/'' # t))
       \<and> (\<forall>q. under_dir root q \<or> d' q = d q) \<and> (\<forall>q. under_dir dst q \<or> d' q = d q)"
proof -
  let ?ref = "\<lparr>ref_name = mf_name m, ref_version = mf_version m\<rparr>"
  have dst: "proper_dir dst" "under_dir root dst"
    using path_of_proper[OF assms(1), of ?ref] assms(4,5,8) by simp_all
  let ?d1 = "remove_all dst d"
  have d': "d' = copy_tree (\<lambda>_. True) src dst ?d1" and r: "r = load_image yaml dst d'"
    using assms(3,9-11) by (auto simp: store_put_def assms(8) Let_def)
  have src1: "?d1 (src @ CHR ''/'' # t) = d (src @ CHR ''/'' # t)" for t
  proof (rule remove_all_other[OF proper_not_root[OF dst(1)]])
    have "under_dir src (src @ CHR ''/'' # t)" by (simp add: under_dir_def has_prefix_iff)
    with under_dir_disjoint assms(6,7) show "\<not> under_dir dst (src @ CHR ''/'' # t)" by blast
  qed
  have copied: "d' (dst @ CHR ''/'' # t) = d (src @ CHR ''/'' # t)" for t
  proof -
    have "?d1 (dst @ CHR ''/'' # t) = None"
      by (rule remove_all_under) (simp add: under_dir_def has_prefix_iff)
    then show ?thesis by (simp add: d' copy_tree_at src1)
  qed
  have frame: "d' q = d q" if "\<not> under_dir dst q" for q
    using that by (simp add: d' copy_tree_other under_dir_def remove_all_def proper_not_root[OF dst(1)])
  have "load_manifest yaml dst d' = load_manifest yaml src d"
    using copied[of "''agent.yaml''"] by (simp add: load_manifest_def join_manifest dst(1) assms(2))
  with assms(3) have "r = Inr \<lparr>img_manifest = m, img_dir = dst\<rparr>" by (simp add: r load_image_def)
  moreover have "store_get yaml root ?ref d' = r" by (simp add: r store_get_def assms(8))
  ultimately show ?thesis
    using copied frame under_dir_trans[OF dst(2)] by blast
qed

definition skill_manifest :: "string \<Rightarrow> string \<Rightarrow> string \<Rightarrow> manifest" where
  "skill_manifest nm v sk =
     \<lparr>mf_name = nm, mf_version = v, mf_kind = ''skill'', mf_entry = [], mf_rank = ''staff'',
      mf_caps = \<lparr>cap_requires = [], cap_provides = []\<rparr>, mf_skill = sk, mf_workflow = [],
      mf_planner = [], mf_model = [], mf_tools = []\<rparr>"

definition one_yaml :: "manifest \<Rightarrow> yaml" where
  "one_yaml m = (\<lambda>b. if b = ''y'' then Some m else None)"

definition io_ok :: store_io where
  "io_ok = \<lparr>si_remove = True, si_copy = True, si_part = (\<lambda>_. True)\<rparr>"

definition img_disk :: "string disk" where
  "img_disk = [''/src/agent.yaml'' \<mapsto> ''y'', ''/src/S.md'' \<mapsto> ''hi'', ''/store/a/1/old'' \<mapsto> ''x'']"

lemma load_src:
  assumes "m = skill_manifest nm v ''S.md''" "nm \<noteq> []" "v \<noteq> []"
  shows "load_manifest (one_yaml m) ''/src'' img_disk = Inr m"
proof -
  have "proper_dir ''/src''" by (simp add: proper_dir_def path_eval)
  then have "join_path [''/src'', manifest_filename] = ''/src/agent.yaml''" by (simp add: join_manifest)
  with assms show ?thesis
    by (simp add: load_manifest_def img_disk_def one_yaml_def skill_manifest_def validate_manifest_def
        with_rank_def dotdot_in_def)
qed

lemma store_put_installs_witness:
  "let m = skill_manifest ''a'' ''1'' ''S.md''; d' = snd (store_put (one_yaml m) io_ok ''/store'' ''/src'' img_disk) in
     d' ''/store/a/1/S.md'' = Some ''hi'' \<and> d' ''/store/a/1/old'' = None"
proof -
  let ?m = "skill_manifest ''a'' ''1'' ''S.md''"
  let ?r = "store_put (one_yaml ?m) io_ok ''/store'' ''/src'' img_disk"
  have dst: "''/store/a/1'' = path_of ''/store'' \<lparr>ref_name = mf_name ?m, ref_version = mf_version ?m\<rparr>"
    by (simp add: path_of_def skill_manifest_def path_eval)
  have "proper_dir ''/store''" "proper_dir ''/src''" "\<not> under_dir ''/src'' ''/store/a/1''"
      "\<not> under_dir ''/store/a/1'' ''/src''"
    by (simp_all add: proper_dir_def path_eval under_dir_def)
  moreover have "is_name (mf_name ?m)" "is_name (mf_version ?m)" "si_remove io_ok" "si_copy io_ok"
    by (simp_all add: skill_manifest_def is_name_def path_eval io_ok_def)
  ultimately have "\<forall>t. snd ?r (''/store/a/1'' @ CHR ''/'' # t) = img_disk (''/src'' @ CHR ''/'' # t)"
    using store_put_installs[OF _ _ load_src[OF refl] _ _ _ _ dst _ _ surjective_pairing] by blast
  from spec[OF this, of "''S.md''"] spec[OF this, of "''old''"] show ?thesis
    by (simp add: Let_def img_disk_def)
qed

text \<open>The name and the version of a manifest are not checked before they become a path: an image
  named \<open>..\<close> with version \<open>..\<close> passes validation, and installing it deletes every file under the
  directory two levels above the store's root.\<close>

theorem store_put_deletes_outside:
  assumes "m = skill_manifest ''..'' ''..'' sk" "sk \<noteq> []" "\<not> dotdot_in sk"
    and "yaml bytes = Some m" "d (src @ ''/agent.yaml'') = Some bytes" "proper_dir src"
    and "names up" "is_name a" "is_name b" "up \<noteq> []" "root = abs_path (up @ [a, b])"
    and "under_dir (abs_path up) q" "\<not> has_prefix q (abs_path up @ ''/'')
         \<or> d (src @ drop (length (abs_path up)) q) = None \<or> under_dir (abs_path up) (src @ drop (length (abs_path up)) q)"
    and "si_remove w"
  shows "snd (store_put yaml w root src d) q = None"
proof -
  have m: "load_manifest yaml src d = Inr m"
    using assms(1-6) by (simp add: load_manifest_def join_manifest skill_manifest_def validate_manifest_def with_rank_def)
  have ne: "root \<noteq> []" by (simp add: assms(11))
  have "path_of root \<lparr>ref_name = ''..'', ref_version = ''..''\<rparr> = join_path [root, ''../..'']"
    using ne by (simp add: path_of_def join_path_def)
  also have "\<dots> = abs_path up"
    using assms(7-9) unfolding assms(11) by (simp add: join_path_abs push_comp_def dot_def dotdot_def is_name_def)
  finally have dst: "path_of root \<lparr>ref_name = mf_name m, ref_version = mf_version m\<rparr> = abs_path up"
    by (simp add: assms(1) skill_manifest_def)
  have gone: "remove_all (abs_path up) d q = None" using assms(12) by (rule remove_all_under)
  have "copy_tree part src (abs_path up) (remove_all (abs_path up) d) q = None" for part
    using assms(13) gone by (auto simp: copy_tree_def remove_all_def)
  then show ?thesis
    using m dst gone assms(14) by (simp add: store_put_def Let_def)
qed

lemma store_put_deletes_outside_witness:
  "snd (store_put (one_yaml (skill_manifest ''..'' ''..'' ''S.md'')) io_ok ''/home/u/hive/images'' ''/src''
      (img_disk(''/home/u/thesis.tex'' \<mapsto> ''years of work''))) ''/home/u/thesis.tex'' = None"
proof -
  have "''/home/u/hive/images'' = abs_path ([''home'', ''u''] @ [''hive'', ''images''])"
    by (simp add: abs_path_def)
  moreover have "abs_path [''home'', ''u''] = ''/home/u''" by (simp add: abs_path_def)
  ultimately show ?thesis
    by (intro store_put_deletes_outside[OF refl, where bytes = "''y''" and up = "[''home'', ''u'']" and a = "''hive''" and b = "''images''"])
       (simp_all add: dotdot_in_def one_yaml_def img_disk_def proper_dir_def path_eval is_name_def under_dir_def io_ok_def)
qed

subsection \<open>Volume names as a path guard\<close>

definition volume_dir :: "string \<Rightarrow> string \<Rightarrow> herr + string" where
  "volume_dir root nm = (if valid_volume_name nm then Inr (join_path [root, nm]) else Inl Plain)"

interpretation volume_jail: path_guard proper_dir "\<lambda>r. r" volume_dir
proof
  fix root nm h
  assume "proper_dir root" and g: "volume_dir root nm = Inr h"
  then obtain rs where rs: "names rs" "rs \<noteq> []" "root = abs_path rs" by (metis proper_dir_form)
  from g have "is_name nm" "h = join_path [root, nm]"
    by (auto simp: volume_dir_def valid_volume_is_name split: if_splits)
  with rs show "under_dir root h" by (simp add: join_path_name under_dir_app)
qed

lemma volume_get_dir: "volume_get root nm vs = Inr v \<Longrightarrow> volume_dir root nm = Inr (vol_path v)"
  by (auto simp: volume_get_def volume_dir_def split: if_splits)

lemma volume_create_dir: "volume_create ok root nm vs = (Inr v, vs') \<Longrightarrow> volume_dir root nm = Inr (vol_path v)"
  by (auto simp: volume_create_def volume_dir_def split: if_splits)

lemma volume_created_found:
  "volume_create ok root nm vs = (Inr v, vs') \<Longrightarrow> volume_get root nm vs' = Inr v"
  by (auto simp: volume_create_def volume_get_def split: if_splits)

lemma volume_removed_gone:
  "volume_remove ok nm vs = (Inr (), vs') \<Longrightarrow> \<not> is_ok (volume_get root nm vs')"
  by (auto simp: volume_remove_def volume_get_def split: if_splits)

end
