(* ===== verification/Http_Volumes.thy ===== *)
theory Http_Volumes
  imports Images "HOL-Library.Word"
begin

unbundle bit_operations_syntax

section \<open>Volumes over HTTP (internal/httpapi/handlers_volume.go, handlers_volume_write.go)\<close>

text \<open>
  The browser reads and writes the files of volumes and lets the daemon fetch from the network. The
  guards on paths and addresses are modelled with the handlers around them. An answer is the HTTP
  status of an error or the value; \<open>get\<close> is the volume manager's lookup and a disk maps paths to the
  contents of regular files. An address is the sixteen bytes of Go's \<^verbatim>\<open>net.IP\<close>, IPv4 in its mapped form.
\<close>

type_synonym 'a http = "int + 'a"

subsection \<open>Paths\<close>

definition resolve_volume_path :: "string \<Rightarrow> string \<Rightarrow> string http" where
  "resolve_volume_path vol rel =
     (let c = clean rel in
      if has_prefix c ''..'' \<or> contains_str c ''/..'' then Inl 400
      else (let a = join_path [vol, c] in
            if \<not> has_prefix a (vol @ ''/'') \<and> a \<noteq> vol then Inl 400 else Inr a))"

definition put_volume_path :: "string \<Rightarrow> string \<Rightarrow> string http" where
  "put_volume_path vol rel =
     (let c = clean rel in
      if has_prefix c ''..'' \<or> contains_str c ''/..'' then Inl 400
      else (let a = join_path [vol, c] in
            if \<not> has_prefix a (vol @ ''/'') then Inl 400 else Inr a))"

definition uploads_subdir :: string where "uploads_subdir = ''uploads''"
definition memory_subdir :: string where "memory_subdir = ''memory''"

definition valid_upload_subdir :: "string \<Rightarrow> string option" where
  "valid_upload_subdir q =
     (let t = trim_space q in
      if t = [] \<or> t = ''uploads'' then Some uploads_subdir
      else if t = ''memory'' then Some memory_subdir else None)"

text \<open>\<open>mk\<close> says whether the directory could be made.\<close>

definition safe_upload_path :: "bool \<Rightarrow> string \<Rightarrow> string \<Rightarrow> string \<Rightarrow> string option" where
  "safe_upload_path mk vol subdir raw =
     (let base = path_base (trim_space raw) in
      if base = [] \<or> base = dot \<or> base = dotdot \<or> base = ''/'' then None
      else if has_prefix base ''.'' then None
      else if CHR ''/'' \<in> set base \<or> CHR 0x5C \<in> set base then None
      else if \<not> mk then None
      else (let dir = join_path [vol, subdir]; c = clean (join_path [dir, base]) in
            if has_prefix c (dir @ ''/'') then Some c else None))"

subsection \<open>Sizes\<close>

definition default_upload_cap :: int where "default_upload_cap = 52428800"

definition upload_cap :: "(string \<Rightarrow> int option) \<Rightarrow> string \<Rightarrow> int" where
  "upload_cap parse env =
     (if env \<noteq> [] then
        (case parse env of Some mb \<Rightarrow> if 0 < mb then wrap64 (mb * 1048576) else default_upload_cap | None \<Rightarrow> default_upload_cap)
      else default_upload_cap)"

text \<open>The bytes written, or none; the temp file is removed on every error.\<close>

definition write_with_cap :: "io \<Rightarrow> string \<Rightarrow> string \<Rightarrow> string \<Rightarrow> int \<Rightarrow> string disk \<Rightarrow> int option \<times> string disk" where
  "write_with_cap w tmp dst src cap d =
     (case atomic_replace (w\<lparr>mkdir_ok := True, write_ok := write_ok w \<and> int (length src) \<le> cap\<rparr>) tmp dst src d of
        (True, d) \<Rightarrow> (Some (int (length src)), d)
      | (False, d) \<Rightarrow> (None, d))"

definition volume_file_cap :: nat where "volume_file_cap = 1048576"

definition trunc_note :: string where
  "trunc_note = CHR 0x0A # ''--- [truncated; file is larger than 1MB] ---''"

subsection \<open>Addresses\<close>

type_synonym ip = "8 word list"

definition to4 :: "ip \<Rightarrow> ip option" where
  "to4 a = (if length a = 16 \<and> take 12 a = replicate 10 0 @ [0xFF, 0xFF] then Some (drop 12 a) else None)"

definition is_loopback :: "ip \<Rightarrow> bool" where
  "is_loopback a = (case to4 a of Some b \<Rightarrow> b ! 0 = 127 | None \<Rightarrow> a = replicate 15 0 @ [1])"

definition is_link_local_unicast :: "ip \<Rightarrow> bool" where
  "is_link_local_unicast a =
     (case to4 a of Some b \<Rightarrow> b ! 0 = 169 \<and> b ! 1 = 254 | None \<Rightarrow> length a = 16 \<and> a ! 0 = 0xFE \<and> a ! 1 AND 0xC0 = 0x80)"

definition is_link_local_multicast :: "ip \<Rightarrow> bool" where
  "is_link_local_multicast a =
     (case to4 a of
        Some b \<Rightarrow> b ! 0 = 224 \<and> b ! 1 = 0 \<and> b ! 2 = 0
      | None \<Rightarrow> length a = 16 \<and> a ! 0 = 0xFF \<and> a ! 1 AND 0x0F = 0x02)"

definition is_multicast :: "ip \<Rightarrow> bool" where
  "is_multicast a = (case to4 a of Some b \<Rightarrow> b ! 0 AND 0xF0 = 0xE0 | None \<Rightarrow> length a = 16 \<and> a ! 0 = 0xFF)"

definition is_unspecified :: "ip \<Rightarrow> bool" where
  "is_unspecified a \<longleftrightarrow> to4 a = Some [0, 0, 0, 0] \<or> a = replicate 16 0"

definition is_blocked_ip :: "ip \<Rightarrow> bool" where
  "is_blocked_ip a =
     (if is_loopback a \<or> is_link_local_unicast a \<or> is_link_local_multicast a \<or> is_multicast a \<or> is_unspecified a then True
      else case to4 a of
          Some b \<Rightarrow>
            (if b ! 0 = 10 then True
             else if b ! 0 = 172 \<and> 16 \<le> b ! 1 \<and> b ! 1 \<le> 31 then True
             else if b ! 0 = 192 \<and> b ! 1 = 168 then True
             else b ! 0 = 169 \<and> b ! 1 = 254)
        | None \<Rightarrow> a ! 0 AND 0xFE = 0xFC)"

text \<open>URLs, addresses and names are parsed and resolved by Go's library: scheme, host and path of a URL,
  the address a host spells, the addresses a name has.\<close>

record netlib =
  nl_url :: "string \<Rightarrow> (string \<times> string \<times> string) option"
  nl_ip :: "string \<Rightarrow> ip option"
  nl_lookup :: "string \<Rightarrow> ip list option"

definition validate_fetch_url :: "netlib \<Rightarrow> string \<Rightarrow> bool" where
  "validate_fetch_url nl raw =
     (if raw = [] then False
      else case nl_url nl raw of
          None \<Rightarrow> False
        | Some (scheme, host, p) \<Rightarrow>
            if scheme \<noteq> ''http'' \<and> scheme \<noteq> ''https'' then False
            else if host = [] then False
            else case nl_ip nl host of
                Some a \<Rightarrow> \<not> is_blocked_ip a
              | None \<Rightarrow>
                  (case nl_lookup nl host of None \<Rightarrow> False | Some as \<Rightarrow> list_all (\<lambda>a. \<not> is_blocked_ip a) as))"

definition filename_from_url :: "netlib \<Rightarrow> string \<Rightarrow> string" where
  "filename_from_url nl raw =
     (case nl_url nl raw of
        None \<Rightarrow> ''download''
      | Some (_, _, p) \<Rightarrow> (let base = path_base p in if base \<noteq> [] \<and> base \<noteq> ''/'' \<and> base \<noteq> dot then base else ''download''))"

subsection \<open>Handlers\<close>

definition ascii_lower :: "char \<Rightarrow> char" where
  "ascii_lower c = (if CHR ''A'' \<le> c \<and> c \<le> CHR ''Z'' then char_of (of_char c + 32 :: nat) else c)"

datatype meth = GET | POST | PUT | DELETE | OPTIONS

definition join_rel :: "string \<Rightarrow> string \<Rightarrow> string" where
  "join_rel subdir dst = join_path [subdir, path_base dst]"

text \<open>The multipart form: none when it cannot be parsed or is too large, then the file part.\<close>

definition upload_volume_file ::
  "(string \<Rightarrow> volume res) \<Rightarrow> int \<Rightarrow> bool \<Rightarrow> io \<Rightarrow> string \<Rightarrow> meth \<Rightarrow> string \<Rightarrow> string \<Rightarrow> (string \<times> string) option option
    \<Rightarrow> string disk \<Rightarrow> (string \<times> string \<times> int) http \<times> string disk" where
  "upload_volume_file get cap mk w tmp m nm q form d =
     (if m \<noteq> POST then (Inl 405, d)
      else case get nm of
          Inl _ \<Rightarrow> (Inl 404, d)
        | Inr vol \<Rightarrow>
            (case valid_upload_subdir q of
               None \<Rightarrow> (Inl 400, d)
             | Some subdir \<Rightarrow>
                 (case form of
                    None \<Rightarrow> (Inl 400, d)
                  | Some None \<Rightarrow> (Inl 400, d)
                  | Some (Some (filename, src)) \<Rightarrow>
                      (case safe_upload_path mk (vol_path vol) subdir filename of
                         None \<Rightarrow> (Inl 400, d)
                       | Some dst \<Rightarrow>
                           if d dst \<noteq> None then (Inl 409, d)
                           else (case write_with_cap w (join_path [path_dir dst, tmp]) dst src cap d of
                               (None, d) \<Rightarrow> (Inl 400, d)
                             | (Some n, d) \<Rightarrow> (Inr (vol_name vol, join_rel subdir dst, n), d))))))"

text \<open>The client follows up to nine redirections of the servers, \<open>hops\<close>; the handler also gives the URLs it
  asked. \<open>resp\<close> is the last answer, none when the request failed.\<close>

definition client_urls :: "string \<Rightarrow> string list \<Rightarrow> string list" where
  "client_urls url hops = url # take 9 hops"

definition fetch_volume_file ::
  "(string \<Rightarrow> volume res) \<Rightarrow> netlib \<Rightarrow> int \<Rightarrow> bool \<Rightarrow> io \<Rightarrow> string \<Rightarrow> meth \<Rightarrow> string \<Rightarrow> string \<Rightarrow> (string \<times> string) option
    \<Rightarrow> string list \<Rightarrow> (int \<times> string) option \<Rightarrow> string disk \<Rightarrow> (string \<times> string \<times> int) http \<times> string list \<times> string disk" where
  "fetch_volume_file get nl cap mk w tmp m nm q body hops resp d =
     (if m \<noteq> POST then (Inl 405, [], d)
      else case body of
          None \<Rightarrow> (Inl 400, [], d)
        | Some (url, fname) \<Rightarrow>
            (case get nm of
               Inl _ \<Rightarrow> (Inl 404, [], d)
             | Inr vol \<Rightarrow>
                 (case valid_upload_subdir q of
                    None \<Rightarrow> (Inl 400, [], d)
                  | Some subdir \<Rightarrow>
                      if \<not> validate_fetch_url nl url then (Inl 400, [], d)
                      else (case safe_upload_path mk (vol_path vol) subdir (if fname = [] then filename_from_url nl url else fname) of
                          None \<Rightarrow> (Inl 400, [], d)
                        | Some dst \<Rightarrow>
                            if d dst \<noteq> None then (Inl 409, [], d)
                            else (case resp of
                                None \<Rightarrow> (Inl 502, client_urls url hops, d)
                              | Some (status, src) \<Rightarrow>
                                  if status < 200 \<or> 300 \<le> status then (Inl 502, client_urls url hops, d)
                                  else (case write_with_cap w (join_path [path_dir dst, tmp]) dst src cap d of
                                      (None, d) \<Rightarrow> (Inl 400, client_urls url hops, d)
                                    | (Some n, d) \<Rightarrow> (Inr (vol_name vol, join_rel subdir dst, n), client_urls url hops, d)))))))"

text \<open>A save from the editor: the body is none when it cannot be read or is too large.\<close>

definition serve_volume_file_put ::
  "(string \<Rightarrow> volume res) \<Rightarrow> int \<Rightarrow> bool \<Rightarrow> io \<Rightarrow> string \<Rightarrow> string \<Rightarrow> string \<Rightarrow> string \<Rightarrow> string disk
    \<Rightarrow> (string \<times> string \<times> int) http \<times> string disk" where
  "serve_volume_file_put get cap mk w tmp nm rel src d =
     (if rel = [] then (Inl 400, d)
      else case get nm of
          Inl _ \<Rightarrow> (Inl 404, d)
        | Inr vol \<Rightarrow>
            (case put_volume_path (vol_path vol) rel of
               Inl e \<Rightarrow> (Inl e, d)
             | Inr a \<Rightarrow>
                 if \<not> mk then (Inl 500, d)
                 else (case write_with_cap w (join_path [path_dir a, tmp]) a src cap d of
                     (None, d) \<Rightarrow> (Inl 400, d)
                   | (Some n, d) \<Rightarrow> (Inr (vol_name vol, clean rel, n), d))))"

text \<open>A file is read whole up to the cap, or raw as a download. \<open>is_dir\<close> tells directories.\<close>

definition serve_volume_file ::
  "(string \<Rightarrow> volume res) \<Rightarrow> (string \<Rightarrow> bool) \<Rightarrow> string \<Rightarrow> string \<Rightarrow> bool \<Rightarrow> string disk \<Rightarrow> string http" where
  "serve_volume_file get is_dir nm rel download d =
     (if rel = [] then Inl 400
      else case get nm of
          Inl _ \<Rightarrow> Inl 500
        | Inr vol \<Rightarrow>
            (case resolve_volume_path (vol_path vol) rel of
               Inl e \<Rightarrow> Inl e
             | Inr a \<Rightarrow>
                 if is_dir a then Inl 400
                 else case d a of
                     None \<Rightarrow> Inl 404
                   | Some c \<Rightarrow>
                       if download then Inr c
                       else if volume_file_cap < length c then Inr (take volume_file_cap c @ trunc_note) else Inr c))"

text \<open>A volume's tree: \<open>DDir\<close> carries whether it could be read; a file has its size, none when its
  information could not be read. Entries of a directory have distinct names.\<close>

datatype dnode = DFile "int option" | DDir bool "(string \<times> dnode) list"

datatype file_tree_entry = Entry (fe_name: string) (fe_path: string) (fe_dir: bool) (fe_size: int) (fe_children: "file_tree_entry list")

definition tree_order :: "file_tree_entry list \<Rightarrow> file_tree_entry list" where
  "tree_order xs = sort_key fe_name (filter fe_dir xs) @ sort_key fe_name (filter (\<lambda>x. \<not> fe_dir x) xs)"

fun tree_entry :: "string \<Rightarrow> string \<Rightarrow> dnode \<Rightarrow> file_tree_entry"
  and tree_entries :: "string \<Rightarrow> (string \<times> dnode) list \<Rightarrow> file_tree_entry list" where
  "tree_entry rel nm (DFile sz) = Entry nm (join_path [rel, nm]) False (case sz of Some n \<Rightarrow> n | None \<Rightarrow> 0) []"
| "tree_entry rel nm (DDir readable es) =
     Entry nm (join_path [rel, nm]) True 0 (if readable then tree_order (tree_entries (join_path [rel, nm]) es) else [])"
| "tree_entries rel [] = []"
| "tree_entries rel ((nm, t) # es) =
     (if has_prefix nm ''.'' then tree_entries rel es else tree_entry rel nm t # tree_entries rel es)"

definition build_file_tree :: "string \<Rightarrow> (string \<times> dnode) list \<Rightarrow> file_tree_entry list" where
  "build_file_tree rel es = tree_order (tree_entries rel es)"

definition is_truthy :: "string \<Rightarrow> bool" where
  "is_truthy v = (if v = [] then False else map ascii_lower v \<notin> {''0'', ''false'', ''no''})"

text \<open>The counter of digits left in the array; none is a write before its start.\<close>

fun itoa_loop :: "int \<Rightarrow> nat \<Rightarrow> string \<Rightarrow> (nat \<times> string) option" where
  "itoa_loop n i acc =
     (if n \<le> 0 then Some (i, acc)
      else case i of 0 \<Rightarrow> None | Suc j \<Rightarrow> itoa_loop (n div 10) j (digit (nat (n mod 10)) # acc))"

declare itoa_loop.simps [simp del]

definition itoa :: "int \<Rightarrow> string option" where
  "itoa n =
     (if n = 0 then Some ''0''
      else (case itoa_loop (if n < 0 then wrap64 (- n) else n) 20 [] of
          None \<Rightarrow> None
        | Some (i, s) \<Rightarrow> if n < 0 then (if i = 0 then None else Some (CHR ''-'' # s)) else Some s))"

text \<open>One request under \<^verbatim>\<open>/api/volumes\<close>. What the server gets from its surroundings is the record \<open>henv\<close>.\<close>

record henv =
  he_root :: string
  he_cap :: int
  he_mk :: bool
  he_rm :: bool
  he_part :: "string \<Rightarrow> bool"
  he_io :: io
  he_tmp :: string
  he_net :: netlib
  he_hops :: "string list"
  he_resp :: "(int \<times> string) option"
  he_ls :: "string \<Rightarrow> (string \<times> dnode) list option"
  he_is_dir :: "string \<Rightarrow> bool"

record hreq =
  rq_meth :: meth
  rq_path :: string
  rq_subdir :: string
  rq_p :: string
  rq_download :: string
  rq_form :: "(string \<times> string) option option"
  rq_fetch :: "(string \<times> string) option"
  rq_name :: "string option"
  rq_body :: string

record hstate =
  hs_vols :: vol_dirs
  hs_disk :: "string disk"

datatype hanswer =
    Volumes "volume list"
  | Created volume
  | Deleted string
  | FileTree "file_tree_entry list"
  | FileText string
  | Stored string string int

definition strip_prefix :: "string \<Rightarrow> string \<Rightarrow> string option" where
  "strip_prefix url p = (if has_prefix url p then Some (trim_prefix url p) else None)"

definition handle_volumes :: "henv \<Rightarrow> hreq \<Rightarrow> hstate \<Rightarrow> hanswer http \<times> hstate" where
  "handle_volumes e q s =
     (case rq_meth q of
        GET \<Rightarrow> (Inr (Volumes (volume_list (he_root e) (hs_vols s))), s)
      | POST \<Rightarrow>
          (case rq_name q of
             None \<Rightarrow> (Inl 400, s)
           | Some nm \<Rightarrow>
               (case volume_create (he_mk e) (he_root e) nm (hs_vols s) of
                  (Inl _, vs) \<Rightarrow> (Inl 400, s\<lparr>hs_vols := vs\<rparr>)
                | (Inr v, vs) \<Rightarrow> (Inr (Created v), s\<lparr>hs_vols := vs\<rparr>)))
      | _ \<Rightarrow> (Inl 405, s))"

text \<open>A removal that fails may have removed a part of the files.\<close>

definition remove_volume :: "henv \<Rightarrow> string \<Rightarrow> hstate \<Rightarrow> hanswer http \<times> hstate" where
  "remove_volume e nm s =
     (case volume_remove (he_rm e) nm (hs_vols s) of
        (Inl _, vs) \<Rightarrow>
          (Inl 400, s\<lparr>hs_vols := vs, hs_disk := \<lambda>q. if valid_volume_name nm \<and> he_part e q
                                            then remove_all (join_path [he_root e, nm]) (hs_disk s) q else hs_disk s q\<rparr>)
      | (Inr _, vs) \<Rightarrow>
          (Inr (Deleted nm), s\<lparr>hs_vols := vs, hs_disk := remove_all (join_path [he_root e, nm]) (hs_disk s)\<rparr>))"

definition serve_volume_tree :: "henv \<Rightarrow> meth \<Rightarrow> string \<Rightarrow> hstate \<Rightarrow> hanswer http" where
  "serve_volume_tree e m nm s =
     (if m \<noteq> GET then Inl 405
      else case volume_get (he_root e) nm (hs_vols s) of
          Inl _ \<Rightarrow> Inl 404
        | Inr v \<Rightarrow> (case he_ls e (vol_path v) of None \<Rightarrow> Inl 500 | Some es \<Rightarrow> Inr (FileTree (build_file_tree [] es))))"

definition stored :: "(string \<times> string \<times> int) http \<Rightarrow> hanswer http" where
  "stored r = map_sum id (\<lambda>(v, p, n). Stored v p n) r"

definition cut1 :: "string \<Rightarrow> string \<times> string option" where
  "cut1 s = (case index_of CHR ''/'' s of None \<Rightarrow> (s, None) | Some i \<Rightarrow> (take i s, Some (drop (Suc i) s)))"

definition handle_volume_scoped :: "henv \<Rightarrow> hreq \<Rightarrow> hstate \<Rightarrow> hanswer http \<times> hstate" where
  "handle_volume_scoped e q s =
     (case strip_prefix (rq_path q) ''/api/volumes/'' of
        None \<Rightarrow> (Inl 404, s)
      | Some tail \<Rightarrow>
          (case cut1 tail of
             (nm, sub) \<Rightarrow>
               (if nm = [] then (Inl 404, s)
                else case sub of
                    None \<Rightarrow> if rq_meth q \<noteq> DELETE then (Inl 405, s) else remove_volume e nm s
                  | Some op \<Rightarrow>
                      (let get = (\<lambda>nm. volume_get (he_root e) nm (hs_vols s)) in
                       if op = ''tree'' then (serve_volume_tree e (rq_meth q) nm s, s)
                       else if op = ''file'' then
                         (if rq_meth q = GET
                          then (map_sum id FileText
                                 (serve_volume_file get (he_is_dir e) nm (rq_p q) (is_truthy (rq_download q)) (hs_disk s)), s)
                          else if rq_meth q = PUT
                          then (case serve_volume_file_put get (he_cap e) (he_mk e) (he_io e) (he_tmp e) nm (rq_p q) (rq_body q) (hs_disk s)
                                of (r, d) \<Rightarrow> (stored r, s\<lparr>hs_disk := d\<rparr>))
                          else (Inl 405, s))
                       else if op = ''files'' then
                         (case upload_volume_file get (he_cap e) (he_mk e) (he_io e) (he_tmp e) (rq_meth q) nm (rq_subdir q) (rq_form q)
                             (hs_disk s) of (r, d) \<Rightarrow> (stored r, s\<lparr>hs_disk := d\<rparr>))
                       else if op = ''fetch'' then
                         (case fetch_volume_file get (he_net e) (he_cap e) (he_mk e) (he_io e) (he_tmp e) (rq_meth q) nm (rq_subdir q)
                             (rq_fetch q) (he_hops e) (he_resp e) (hs_disk s) of (r, _, d) \<Rightarrow> (stored r, s\<lparr>hs_disk := d\<rparr>))
                       else (Inl 404, s)))))"

subsection \<open>Paths stay in the volume\<close>

lemma join_abs_form:
  assumes "names rs" "x \<noteq> []"
  obtains ps where "names ps" "join_path [abs_path rs, x] = abs_path ps"
proof
  show "names (rev (foldl (push_comp True) (rev rs) (split_on CHR ''/'' x)))"
    using assms(1) split_on_no_sep foldl_push_is_names [of "rev rs" "split_on CHR ''/'' x"] by fastforce
  show "join_path [abs_path rs, x] = abs_path (rev (foldl (push_comp True) (rev rs) (split_on CHR ''/'' x)))"
    using assms by (rule join_path_abs)
qed

lemma push_comps_nonempty:
  "[] \<notin> set out \<Longrightarrow> [] \<notin> set (foldl (push_comp r) out cs)"
proof (induction cs arbitrary: out)
  case (Cons c cs)
  from Cons.prems have "[] \<notin> set (push_comp r out c)"
    by (auto simp: push_comp_def dotdot_def split: list.splits)
  with Cons.IH show ?case by simp
qed simp

lemma join_with_nonempty: "[] \<notin> set xs \<Longrightarrow> xs \<noteq> [] \<Longrightarrow> join_with c xs \<noteq> []"
  by (cases "(c, xs)" rule: join_with.cases) simp_all

lemma clean_nonempty: "clean s \<noteq> []"
proof -
  have "[] \<notin> set (norm_comps False (split_on CHR ''/'' s))"
    unfolding norm_comps_def using push_comps_nonempty [of "[]"] by simp
  then show ?thesis
    using join_with_nonempty [of "norm_comps False (split_on CHR ''/'' s)"]
    by (simp add: clean_def dot_def Let_def)
qed

lemma put_volume_path_form:
  assumes "put_volume_path (abs_path rs) rel = Inr a" "names rs" "rs \<noteq> []"
  obtains us c where "names us" "is_name c" "a = abs_path (rs @ us @ [c])"
proof -
  from assms(1) have a: "a = join_path [abs_path rs, clean rel]" and pre: "has_prefix a (abs_path rs @ ''/'')"
    by (auto simp: put_volume_path_def Let_def split: if_splits)
  obtain ps where ps: "names ps" "a = abs_path ps"
    using join_abs_form [OF assms(2) clean_nonempty] a by metis
  with pre have "under_dir (abs_path rs) (abs_path ps)" "ps \<noteq> rs"
    by (auto simp: under_dir_def has_prefix_iff)
  with assms(2,3) ps(1) obtain us where us: "ps = rs @ us" "us \<noteq> []"
    by (auto simp: under_dir_abs_iff)
  then have "names (butlast us)" "is_name (last us)" "a = abs_path (rs @ butlast us @ [last us])"
    using ps by (auto simp: names_def list_all_iff dest: in_set_butlastD)
  with that show thesis .
qed

lemma safe_upload_path_form:
  assumes "safe_upload_path mk (abs_path rs) subdir raw = Some a" "names rs" "is_name subdir"
  obtains c where "is_name c" "a = abs_path (rs @ [subdir] @ [c])" "\<not> has_prefix c ''.''"
proof -
  let ?c = "path_base (trim_space raw)"
  from assms(1) have c: "is_name ?c" "\<not> has_prefix ?c ''.''"
    and a: "a = clean (join_path [join_path [abs_path rs, subdir], ?c])"
    by (auto simp: safe_upload_path_def is_name_def Let_def split: if_splits)
  have "join_path [join_path [abs_path rs, subdir], ?c] = abs_path ((rs @ [subdir]) @ [?c])"
    using assms(2,3) c by (subst join_path_name, simp_all add: join_path_name)
  with a c that assms show thesis by (simp add: clean_abs_path)
qed

interpretation volume_reads: path_guard proper_dir "\<lambda>r. r" resolve_volume_path
  by standard (auto simp: resolve_volume_path_def under_dir_def Let_def split: if_splits)

interpretation editor_jail: path_guard proper_dir "\<lambda>r. r" put_volume_path
  by standard (auto simp: put_volume_path_def under_dir_def Let_def split: if_splits)

text \<open>An upload is confined to one of the two directories inside the volume.\<close>

definition upload_guard :: "string \<times> string \<Rightarrow> string \<Rightarrow> string http" where
  "upload_guard r raw = (case safe_upload_path True (fst r) (snd r) raw of None \<Rightarrow> Inl 400 | Some a \<Rightarrow> Inr a)"

interpretation uploads_jail: path_guard "\<lambda>r. proper_dir (fst r) \<and> is_name (snd r)" "\<lambda>r. join_path [fst r, snd r]" upload_guard
proof
  fix r raw h
  assume v: "proper_dir (fst r) \<and> is_name (snd r)" and "upload_guard r raw = Inr h"
  then obtain rs where rs: "names rs" "fst r = abs_path rs" "safe_upload_path True (abs_path rs) (snd r) raw = Some h"
    by (auto simp: upload_guard_def split: option.splits elim!: proper_dir_form)
  with v obtain c where "is_name c" "h = abs_path (rs @ [snd r] @ [c])"
    by (metis safe_upload_path_form)
  with v rs show "under_dir (join_path [fst r, snd r]) h"
    using under_dir_app [of "rs @ [snd r]" "[c]"] by (simp add: join_path_name)
qed

lemma subdir_name: "valid_upload_subdir q = Some s \<Longrightarrow> is_name s \<and> (s = ''uploads'' \<or> s = ''memory'')"
proof -
  have "is_name ''uploads''" "is_name ''memory''" by (simp_all add: is_name_def dot_def dotdot_def)
  then show "valid_upload_subdir q = Some s \<Longrightarrow> is_name s \<and> (s = ''uploads'' \<or> s = ''memory'')"
    by (auto simp: valid_upload_subdir_def uploads_subdir_def memory_subdir_def Let_def split: if_splits)
qed

subsection \<open>What a request changes on disk\<close>

lemma write_with_cap_some:
  "write_with_cap w tmp dst src cap d = (Some n, d') \<Longrightarrow>
     n = int (length src) \<and> n \<le> cap \<and> d' = d(dst \<mapsto> src, tmp := None)"
  by (auto simp: write_with_cap_def atomic_replace_def split: if_splits prod.splits)

lemma write_with_cap_none:
  "write_with_cap w tmp dst src cap d = (None, d') \<Longrightarrow> d' = d \<or> d' = d(tmp := None)"
  by (auto simp: write_with_cap_def atomic_replace_def split: if_splits prod.splits)

lemma write_with_cap_changes:
  "write_with_cap w tmp dst src cap d = (r, d') \<Longrightarrow> d' q \<noteq> d q \<Longrightarrow> q = dst \<or> q = tmp"
  by (cases r) (auto dest!: write_with_cap_some write_with_cap_none split: if_splits)

lemma write_with_cap_keeps:
  assumes "write_with_cap w tmp dst src cap d = (r, d')" "d tmp = None" "d dst = None" "d q \<noteq> None"
  shows "d' q = d q"
  using assms by (cases r) (auto dest!: write_with_cap_some write_with_cap_none)

text \<open>The temp file lies beside its target.\<close>

lemma tmp_beside:
  "names rs \<Longrightarrow> names us \<Longrightarrow> is_name c \<Longrightarrow> is_name t
     \<Longrightarrow> join_path [path_dir (abs_path (rs @ us @ [c])), t] = abs_path (rs @ us @ [t])"
  using path_dir_abs [of "rs @ us" c] by (simp add: join_path_name)

lemma upload_changes:
  assumes "upload_volume_file get cap mk w tmp m nm sd form d = (r, d')" "d' q \<noteq> d q"
  shows "\<exists>vol subdir raw dst. get nm = Inr vol \<and> valid_upload_subdir sd = Some subdir
    \<and> safe_upload_path mk (vol_path vol) subdir raw = Some dst \<and> d dst = None
    \<and> (q = dst \<or> q = join_path [path_dir dst, tmp])"
  using assms by (auto simp: upload_volume_file_def split: if_splits sum.splits option.splits prod.splits
      dest: write_with_cap_changes)

lemma fetch_changes:
  assumes "fetch_volume_file get nl cap mk w tmp m nm sd body hops resp d = (r, us, d')" "d' q \<noteq> d q"
  shows "\<exists>vol subdir raw dst. get nm = Inr vol \<and> valid_upload_subdir sd = Some subdir
    \<and> safe_upload_path mk (vol_path vol) subdir raw = Some dst \<and> d dst = None
    \<and> (q = dst \<or> q = join_path [path_dir dst, tmp])"
  using assms by (auto simp: fetch_volume_file_def split: if_splits sum.splits option.splits prod.splits
      dest: write_with_cap_changes)

lemma put_changes:
  assumes "serve_volume_file_put get cap mk w tmp nm rel src d = (r, d')" "d' q \<noteq> d q"
  shows "\<exists>vol dst. get nm = Inr vol \<and> put_volume_path (vol_path vol) rel = Inr dst
    \<and> (q = dst \<or> q = join_path [path_dir dst, tmp])"
  using assms by (auto simp: serve_volume_file_put_def split: if_splits sum.splits option.splits prod.splits
      dest: write_with_cap_changes)

lemma upload_in_volume:
  assumes "proper_dir root" "is_name tmp" "safe_upload_path mk root subdir raw = Some dst" "is_name subdir"
    and "q = dst \<or> q = join_path [path_dir dst, tmp]"
  shows "under_dir (join_path [root, subdir]) q"
proof -
  from assms(1) obtain rs where rs: "names rs" "root = abs_path rs" by (metis proper_dir_form)
  with assms(3,4) obtain c where "is_name c" "dst = abs_path (rs @ [subdir] @ [c])"
    by (metis safe_upload_path_form)
  with assms(2,4,5) rs obtain u where "q = abs_path (rs @ [subdir] @ [u])"
    using tmp_beside [of rs "[subdir]" c tmp] by auto
  with rs assms(4) under_dir_app [of "rs @ [subdir]" "[u]"] show ?thesis by (simp add: join_path_name)
qed

lemma put_in_volume:
  assumes "proper_dir root" "is_name tmp" "put_volume_path root rel = Inr dst"
    and "q = dst \<or> q = join_path [path_dir dst, tmp]"
  shows "under_dir root q"
proof -
  from assms(1) obtain rs where rs: "names rs" "rs \<noteq> []" "root = abs_path rs" by (metis proper_dir_form)
  with assms(3) obtain us c where "names us" "is_name c" "dst = abs_path (rs @ us @ [c])"
    by (metis put_volume_path_form)
  with assms(2,4) rs obtain u where "q = abs_path (rs @ us @ [u])" by (auto simp: tmp_beside)
  with rs under_dir_app show ?thesis by simp
qed

lemma volume_get_proper:
  "proper_dir root \<Longrightarrow> volume_get root nm vs = Inr v \<Longrightarrow> valid_volume_name nm \<and> vol_path v = join_path [root, nm] \<and> proper_dir (vol_path v)"
  by (auto simp: volume_get_def join_path_name valid_volume_is_name proper_dir_abs_path elim!: proper_dir_form split: if_splits)

lemma remove_changes:
  assumes "proper_dir root" "he_root e = root" "remove_volume e nm s = (r, s')" "hs_disk s' q \<noteq> hs_disk s q"
  shows "valid_volume_name nm \<and> under_dir (join_path [root, nm]) q"
proof -
  have v: "valid_volume_name nm"
    using assms(3,4) by (auto simp: remove_volume_def volume_remove_def split: if_splits)
  with assms(1) have "join_path [root, nm] \<noteq> ''/''"
    by (auto simp: join_path_name valid_volume_is_name proper_dir_abs_path proper_not_root elim!: proper_dir_form)
  with v assms(2-4) show ?thesis
    by (auto simp: remove_volume_def volume_remove_def remove_all_def split: if_splits)
qed

text \<open>The directories of the volume a request may write in: an upload or a fetch in one of its two
  subdirectories, a save or a removal anywhere in it.\<close>

definition write_area :: "string \<Rightarrow> hreq \<Rightarrow> string set" where
  "write_area root q =
     (case strip_prefix (rq_path q) ''/api/volumes/'' of
        None \<Rightarrow> {}
      | Some tail \<Rightarrow>
          (case cut1 tail of
             (nm, sub) \<Rightarrow>
               if \<not> valid_volume_name nm then {}
               else if sub = None \<and> rq_meth q = DELETE \<or> sub = Some ''file'' \<and> rq_meth q = PUT then {join_path [root, nm]}
               else if (sub = Some ''files'' \<or> sub = Some ''fetch'') \<and> rq_meth q = POST
               then {join_path [join_path [root, nm], ''uploads''], join_path [join_path [root, nm], ''memory'']}
               else {}))"

lemma upload_in_area:
  assumes "proper_dir root" "is_name tmp" "volume_get root nm vs = Inr vol" "valid_upload_subdir sd = Some sub"
    and "safe_upload_path mk (vol_path vol) sub raw = Some dst" "p = dst \<or> p = join_path [path_dir dst, tmp]"
  shows "valid_volume_name nm \<and> (under_dir (join_path [join_path [root, nm], ''uploads'']) p
    \<or> under_dir (join_path [join_path [root, nm], ''memory'']) p)"
  using volume_get_proper[OF assms(1,3)] upload_in_volume[OF _ assms(2,5) _ assms(6)] subdir_name[OF assms(4)] by auto

text \<open>C22. A request under /api/volumes/ changes no file outside the directory it is about: an upload or a
  fetch only files in the uploads or the memory directory of the volume named in the path, a save or a
  removal only files of that volume, and every other request none, whatever names and paths it carries.\<close>

theorem http_requests_confined:
  assumes "proper_dir (he_root e)" "is_name (he_tmp e)"
    and "handle_volume_scoped e q s = (r, s')" "hs_disk s' p \<noteq> hs_disk s p"
  shows "\<exists>a \<in> write_area (he_root e) q. under_dir a p"
proof -
  let ?get = "\<lambda>nm. volume_get (he_root e) nm (hs_vols s)"
  obtain tail where tail: "strip_prefix (rq_path q) ''/api/volumes/'' = Some tail"
    using assms(3,4) by (cases "strip_prefix (rq_path q) ''/api/volumes/''") (simp_all add: handle_volume_scoped_def)
  obtain nm sub where cut: "cut1 tail = (nm, sub)" by fastforce
  note h = assms(3)[unfolded handle_volume_scoped_def, simplified tail cut option.case prod.case, simplified Let_def]
  consider (del) "sub = None" "rq_meth q = DELETE" "remove_volume e nm s = (r, s')"
    | (put) d' x where "sub = Some ''file''" "rq_meth q = PUT" "hs_disk s' = d'"
        "serve_volume_file_put ?get (he_cap e) (he_mk e) (he_io e) (he_tmp e) nm (rq_p q) (rq_body q) (hs_disk s) = (x, d')"
    | (up) d' x where "sub = Some ''files''" "hs_disk s' = d'"
        "upload_volume_file ?get (he_cap e) (he_mk e) (he_io e) (he_tmp e) (rq_meth q) nm (rq_subdir q) (rq_form q) (hs_disk s) = (x, d')"
    | (fetch) d' x us where "sub = Some ''fetch''" "hs_disk s' = d'"
        "fetch_volume_file ?get (he_net e) (he_cap e) (he_mk e) (he_io e) (he_tmp e) (rq_meth q) nm (rq_subdir q) (rq_fetch q) (he_hops e) (he_resp e) (hs_disk s) = (x, us, d')"
    using h assms(4) by (auto split: if_splits option.splits prod.splits)
  then show ?thesis
  proof cases
    case del
    from remove_changes[OF assms(1) refl del(3) assms(4)] del(1,2) tail cut show ?thesis by (simp add: write_area_def)
  next
    case put
    with put_changes[OF put(4), of p] assms(4) obtain vol dst where v: "?get nm = Inr vol"
      "put_volume_path (vol_path vol) (rq_p q) = Inr dst" "p = dst \<or> p = join_path [path_dir dst, he_tmp e]" by auto
    with volume_get_proper[OF assms(1) v(1)] put_in_volume[OF _ assms(2) v(2,3)] put(1,2) tail cut show ?thesis
      by (auto simp: write_area_def)
  next
    case up
    with upload_changes[OF up(3), of p] assms(4) upload_in_area[OF assms(1,2)]
    have "valid_volume_name nm \<and> (under_dir (join_path [join_path [he_root e, nm], ''uploads'']) p
      \<or> under_dir (join_path [join_path [he_root e, nm], ''memory'']) p)" by metis
    moreover have "rq_meth q = POST" using up(2,3) assms(4) by (auto simp: upload_volume_file_def split: if_splits)
    ultimately show ?thesis using up(1) tail cut by (auto simp: write_area_def)
  next
    case fetch
    with fetch_changes[OF fetch(3), of p] assms(4) upload_in_area[OF assms(1,2)]
    have "valid_volume_name nm \<and> (under_dir (join_path [join_path [he_root e, nm], ''uploads'']) p
      \<or> under_dir (join_path [join_path [he_root e, nm], ''memory'']) p)" by metis
    moreover have "rq_meth q = POST" using fetch(2,3) assms(4) by (auto simp: fetch_volume_file_def split: if_splits)
    ultimately show ?thesis using fetch(1) tail cut by (auto simp: write_area_def)
  qed
qed

lemma write_outcome:
  assumes "d tmp = None" "write_with_cap w tmp dst src cap d = (r, d')"
  shows "r = None \<and> d' = d \<or> r = Some (int (length src)) \<and> int (length src) \<le> cap \<and> d' = d(dst \<mapsto> src, tmp := None)"
  using assms(2) write_with_cap_some[of w tmp dst src cap d] write_with_cap_none[of w tmp dst src cap d d'] assms(1)
  by (cases r) (auto simp: fun_upd_idem)

lemma upload_outcome:
  assumes fresh: "\<And>dst. d (join_path [path_dir dst, tmp]) = None"
    and "upload_volume_file get cap mk w tmp m nm sd form d = (r, d')"
  shows "d' = d \<and> (\<exists>x. r = Inl x) \<or> (\<exists>v p dst src. r = Inr (v, p, int (length src)) \<and> int (length src) \<le> cap
    \<and> d' = d(dst \<mapsto> src, join_path [path_dir dst, tmp] := None) \<and> d dst = None)"
  using assms(2) write_outcome[where d = d, OF fresh]
  by (fastforce simp: upload_volume_file_def split: if_splits option.splits prod.splits sum.splits)

lemma fetch_outcome:
  assumes fresh: "\<And>dst. d (join_path [path_dir dst, tmp]) = None"
    and "fetch_volume_file get nl cap mk w tmp m nm sd body hops resp d = (r, us, d')"
  shows "d' = d \<and> (\<exists>x. r = Inl x) \<or> (\<exists>v p dst src. r = Inr (v, p, int (length src)) \<and> int (length src) \<le> cap
    \<and> d' = d(dst \<mapsto> src, join_path [path_dir dst, tmp] := None) \<and> d dst = None)"
  using assms(2) write_outcome[where d = d, OF fresh]
  by (fastforce simp: fetch_volume_file_def split: if_splits option.splits prod.splits sum.splits)

lemma put_outcome:
  assumes fresh: "\<And>dst. d (join_path [path_dir dst, tmp]) = None"
    and "serve_volume_file_put get cap mk w tmp nm rel src d = (r, d')"
  shows "d' = d \<and> (\<exists>x. r = Inl x) \<or> (\<exists>v p dst. r = Inr (v, p, int (length src)) \<and> int (length src) \<le> cap
    \<and> d' = d(dst \<mapsto> src, join_path [path_dir dst, tmp] := None))"
  using assms(2) write_outcome[where d = d, OF fresh]
  by (fastforce simp: serve_volume_file_put_def split: if_splits option.splits prod.splits sum.splits)

lemma text_not_stored: "map_sum id FileText r \<noteq> Inr (Stored v p n)" "Inr (Stored v p n) \<noteq> map_sum id FileText r"
  by (cases r; simp)+

lemma stored_cases: "stored (Inl x) = Inl x" "stored (Inr (v, p, n)) = Inr (Stored v p n)"
  by (simp_all add: stored_def)


subsection \<open>Addresses as networks\<close>

text \<open>An address is in a network when it agrees with it on the first bits.\<close>

definition in_net :: "ip \<Rightarrow> nat \<Rightarrow> ip \<Rightarrow> bool" where
  "in_net net n a \<longleftrightarrow> take (n div 8) a = take (n div 8) net
     \<and> (n mod 8 \<noteq> 0 \<longrightarrow> drop_bit (8 - n mod 8) (a ! (n div 8)) = drop_bit (8 - n mod 8) (net ! (n div 8)))"

definition v4net :: "ip \<Rightarrow> ip" where
  "v4net b = replicate 10 0 @ [0xFF, 0xFF] @ b"

definition v6net :: "ip \<Rightarrow> ip" where
  "v6net b = b @ replicate (16 - length b) 0"

definition blocked_nets :: "(ip \<times> nat) list" where
  "blocked_nets =
     [(v4net [127, 0, 0, 0], 104), (v4net [10, 0, 0, 0], 104), (v4net [172, 16, 0, 0], 108), (v4net [192, 168, 0, 0], 112),
      (v4net [169, 254, 0, 0], 112), (v4net [224, 0, 0, 0], 100), (v4net [0, 0, 0, 0], 128),
      (replicate 15 0 @ [1], 128), (replicate 16 0, 128), (v6net [0xFE, 0x80], 10), (v6net [0xFC], 7), (v6net [0xFF], 8)]"

lemma byte_eq_iff: "(a :: 8 word) = b \<longleftrightarrow> (\<forall>n \<in> {0, 1, 2, 3, 4, 5, 6, 7}. bit a n = bit b n)"
proof
  assume r: "\<forall>n \<in> {0, 1, 2, 3, 4, 5, 6, 7}. bit a n = bit b n"
  show "a = b"
  proof (rule bit_word_eqI)
    fix n assume "n < LENGTH(8)"
    then have "n \<in> {0, 1, 2, 3, 4, 5, 6, 7}" by auto
    with r show "bit a n = bit b n" by blast
  qed
qed simp
lemma byte_beyond: "8 \<le> n \<Longrightarrow> \<not> bit (b :: 8 word) n"
  using bit_imp_le_length[of b n] by auto

lemma mask_c0: "(b AND 0xC0 = 0x80) = (drop_bit 6 b = (2 :: 8 word))" 
  by (simp add: byte_eq_iff bit_simps byte_beyond)

lemma mask_f0:  "(b AND 0xF0 = 0xE0) = (drop_bit 4 b = (14 :: 8 word))"
  by (simp add: byte_eq_iff bit_simps byte_beyond)

lemma mask_fe:  "(b AND 0xFE = 0xFC) = (drop_bit 1 b = (126 :: 8 word))"
  by (simp add: byte_eq_iff bit_simps byte_beyond) (simp add: numeral_eq_Suc)

lemma range_16_31: "(16 \<le> b \<and> b \<le> 31) = (drop_bit 4 b = (1 :: 8 word))"
proof -
  have "drop_bit 4 b = (1 :: 8 word) \<longleftrightarrow> unat (drop_bit 4 b) = 1" by (metis unat_1 word_unat_eq_iff)
  also have "\<dots> \<longleftrightarrow> 16 \<le> unat b \<and> unat b \<le> 31" by (auto simp: unat_drop_bit_eq drop_bit_eq_div[where 'a = nat])
  finally show ?thesis by (simp add: word_le_nat_alt)
qed

lemmas byte_tests = mask_c0 mask_f0 mask_fe range_16_31

lemma length_4: "length xs = 4 \<Longrightarrow> \<exists>a b c d. xs = [a, b, c, d]"
  by (auto simp: numeral_eq_Suc length_Suc_conv)

lemma to4_cases:
  assumes "length a = 16"
  obtains (v4) b0 b1 b2 b3 where "a = replicate 10 0 @ [0xFF, 0xFF, b0, b1, b2, b3]" "to4 a = Some [b0, b1, b2, b3]"
    | (v6) "to4 a = None" "take 12 a \<noteq> replicate 10 0 @ [0xFF, 0xFF]"
proof (cases "take 12 a = replicate 10 0 @ [0xFF, 0xFF]")
  case True
  have "length (drop 12 a) = 4" using assms by simp
  then obtain b0 b1 b2 b3 where d: "drop 12 a = [b0, b1, b2, b3]"
    using length_4 by blast
  have "a = (replicate 10 0 @ [0xFF, 0xFF]) @ [b0, b1, b2, b3]"
    using True d append_take_drop_id[of 12 a] by metis
  with True d assms v4 show thesis by (simp add: to4_def)
qed (use assms v6 in \<open>simp add: to4_def\<close>)

lemma replicate_split:
  "replicate 15 (0 :: 8 word) = replicate 10 0 @ [0, 0, 0, 0, 0]"
  "replicate 16 (0 :: 8 word) = replicate 10 0 @ [0, 0, 0, 0, 0, 0]"
  by (simp_all add: numeral_eq_Suc)

lemma blocked_v4:
  assumes "a = replicate 10 0 @ [0xFF, 0xFF, b0, b1, b2, b3]"
  shows "(\<exists>(net, n) \<in> set blocked_nets. in_net net n a) \<longleftrightarrow>
    b0 = 127 \<or> b0 = 10 \<or> b0 = 172 \<and> drop_bit 4 b1 = 1 \<or> b0 = 192 \<and> b1 = 168 \<or> b0 = 169 \<and> b1 = 254
    \<or> drop_bit 4 b0 = 14 \<or> b0 = 0 \<and> b1 = 0 \<and> b2 = 0 \<and> b3 = 0"
  by (simp add: assms blocked_nets_def in_net_def v4net_def v6net_def nth_append replicate_split)

lemma not_v4net:
  assumes "in_net (v4net b) n a" "96 \<le> n" "length b = 4"
  shows "take 12 a = replicate 10 0 @ [0xFF, 0xFF]"
proof -
  from assms(2) have "12 \<le> n div 8" by simp
  then have "take 12 a = take 12 (take (n div 8) a)" by simp
  also have "\<dots> = take 12 (take (n div 8) (v4net b))" using assms(1) by (simp add: in_net_def)
  also have "\<dots> = replicate 10 0 @ [0xFF, 0xFF]" using \<open>12 \<le> n div 8\<close> by (simp add: v4net_def)
  finally show ?thesis .
qed

lemma blocked_v6:
  assumes "take 12 a \<noteq> replicate 10 0 @ [0xFF, 0xFF]" "length a = 16"
  shows "(\<exists>(net, n) \<in> set blocked_nets. in_net net n a) \<longleftrightarrow>
    a = replicate 15 0 @ [1] \<or> a = replicate 16 0 \<or> a ! 0 = 0xFE \<and> drop_bit 6 (a ! 1) = 2 \<or> drop_bit 1 (a ! 0) = 126 \<or> a ! 0 = 0xFF"
proof -
  obtain x y zs where a: "a = x # y # zs" "length zs = 14"
    using assms(2) by (auto simp: numeral_eq_Suc length_Suc_conv)
  have v4: "\<not> in_net (v4net b) n a" if "96 \<le> n" "length b = 4" for b n
    using not_v4net that assms(1) by blast
  have "in_net (replicate 15 0 @ [1]) 128 a \<longleftrightarrow> a = replicate 15 0 @ [1]" "in_net (replicate 16 0) 128 a \<longleftrightarrow> a = replicate 16 0"
    using assms(2) by (simp_all add: in_net_def)
  moreover have "in_net (v6net [0xFE, 0x80]) 10 a \<longleftrightarrow> a ! 0 = 0xFE \<and> drop_bit 6 (a ! 1) = 2"
    "in_net (v6net [0xFC]) 7 a \<longleftrightarrow> drop_bit 1 (a ! 0) = 126" "in_net (v6net [0xFF]) 8 a \<longleftrightarrow> a ! 0 = 0xFF"
    by (simp_all add: in_net_def v6net_def a)
  ultimately show ?thesis by (simp add: blocked_nets_def v4)
qed

text \<open>The fetch guard's address test, written as tests of single bytes, is membership in a list of
  networks: loopback, the private and link-local networks, multicast and the unspecified addresses, each
  in IPv4 (in mapped form) and in IPv6.\<close>

theorem blocked_ip_nets:
  assumes "length a = 16"
  shows "is_blocked_ip a \<longleftrightarrow> (\<exists>(net, n) \<in> set blocked_nets. in_net net n a)"
  using assms
proof (cases a rule: to4_cases)
  case (v4 b0 b1 b2 b3)
  then have "a \<noteq> replicate 16 0" by (simp add: replicate_split)
  then show ?thesis
    unfolding blocked_v4[OF v4(1)]
    by (auto simp: is_blocked_ip_def is_loopback_def is_link_local_unicast_def is_link_local_multicast_def is_multicast_def
        is_unspecified_def v4(2) byte_tests(2) byte_tests(4)[symmetric])
next
  case v6
  have "a ! 0 = 0xFF" if "is_link_local_multicast a" using that v6 by (simp add: is_link_local_multicast_def)
  with v6 show ?thesis
    unfolding blocked_v6[OF v6(2) assms]
    by (auto simp: is_blocked_ip_def is_loopback_def is_link_local_unicast_def is_multicast_def is_unspecified_def byte_tests(1,3) assms)
qed

theorem blocked_ip_nets_witness: "is_blocked_ip (v4net [172, 31, 0, 9]) \<and> \<not> is_blocked_ip (v4net [172, 32, 0, 9])"
proof -
  have "in_net (v4net [172, 16, 0, 0]) 108 (v4net [172, 31, 0, 9])"
    by (simp add: in_net_def v4net_def nth_append)
  then have "\<exists>(net, n) \<in> set blocked_nets. in_net net n (v4net [172, 31, 0, 9])"
    by (simp add: blocked_nets_def)
  then have "is_blocked_ip (v4net [172, 31, 0, 9])"
    by (subst blocked_ip_nets) (simp_all add: v4net_def)
  then show ?thesis by (simp add: is_blocked_ip_def to4_def v4net_def is_loopback_def is_link_local_unicast_def
      is_link_local_multicast_def is_multicast_def is_unspecified_def replicate_split)
qed

text \<open>The limited broadcast address passes.\<close>

lemma broadcast_not_blocked: "\<not> is_blocked_ip (v4net [255, 255, 255, 255])"
  by (simp add: is_blocked_ip_def to4_def v4net_def is_loopback_def is_link_local_unicast_def
      is_link_local_multicast_def is_multicast_def is_unspecified_def replicate_split)

text \<open>Only the first URL is tested: where the server redirects to is asked unseen.\<close>

lemma redirect_not_checked:
  assumes "fetch_volume_file get nl cap mk w tmp POST nm q (Some (url, fname)) hops (Some (200, src)) d = (Inr x, us, d')"
  shows "validate_fetch_url nl url \<and> us = url # take 9 hops"
  using assms by (auto simp: fetch_volume_file_def client_urls_def split: if_splits sum.splits option.splits prod.splits)

text \<open>A cap of eight tebibytes in megabytes and more wraps: with the largest of all, nothing can be stored.\<close>

lemma upload_cap_wraps: "upload_cap (\<lambda>_. Some 8796093022208) ''8796093022208'' = - 9223372036854775808"
  by (simp add: upload_cap_def wrap64_def)

lemma negative_cap_stores_nothing: "cap < 0 \<Longrightarrow> fst (write_with_cap w tmp dst src cap d) = None"
  by (auto simp: write_with_cap_def atomic_replace_def)

subsection \<open>The printed size\<close>

lemma itoa_loop_digits:
  "n < 10 ^ k \<Longrightarrow> \<exists>i \<ge> j. itoa_loop (int n) (j + k) acc = Some (i, (if n = 0 then [] else show_nat n) @ acc)"
proof (induction k arbitrary: n acc)
  case 0
  then show ?case by (auto simp: itoa_loop.simps)
next
  case (Suc k)
  show ?case
  proof (cases "n = 0")
    case True
    then show ?thesis by (auto simp: itoa_loop.simps)
  next
    case False
    have "n div 10 < 10 ^ k" using Suc.prems by (simp add: less_mult_imp_div_less)
    from Suc.IH[OF this, of "digit (n mod 10) # acc"] obtain i where i: "i \<ge> j"
      "itoa_loop (int n div 10) (j + k) (digit (n mod 10) # acc)
         = Some (i, (if n div 10 = 0 then [] else show_nat (n div 10)) @ digit (n mod 10) # acc)"
      by (auto simp: zdiv_int)
    moreover have "nat (int n mod 10) = n mod 10" by (simp add: nat_mod_distrib)
    moreover have "show_nat n = (if n div 10 = 0 then [] else show_nat (n div 10)) @ [digit (n mod 10)]"
      by (subst show_nat.simps) auto
    ultimately show ?thesis
      using False by (subst itoa_loop.simps) (auto simp: add.commute)
  qed
qed

text \<open>The hand-written decimal printer of the file server agrees with the usual notation on every
  64-bit integer but the smallest, and never writes outside its array of twenty bytes.\<close>

theorem itoa_shows:
  assumes "in_int64 n" "n \<noteq> min_int64"
  shows "itoa n = Some (show_int n)"
proof (cases "n = 0")
  case True
  moreover have "show_nat 0 = ''0''" by code_simp
  ultimately show ?thesis by (simp add: itoa_def show_int_def)
next
  case False
  have w: "(if n < 0 then wrap64 (- n) else n) = int (nat \<bar>n\<bar>)" "nat \<bar>n\<bar> < 10 ^ 19"
    using assms by (auto simp: in_int64_def min_int64_def max_int64_def wrap64_id)
  from itoa_loop_digits[OF w(2), of 1 "[]"] obtain i where "1 \<le> i"
    "itoa_loop (int (nat \<bar>n\<bar>)) 20 [] = Some (i, show_nat (nat \<bar>n\<bar>))" using False by auto
  with False w(1) show ?thesis
    by (simp add: itoa_def show_int_def split: if_splits)
qed

theorem itoa_shows_witness: "itoa (- 1024) = Some ''-1024''"
proof -
  have "show_nat 1024 = ''1024''" by code_simp
  then show ?thesis using itoa_shows[of "- 1024"] by (simp add: in_int64_def min_int64_def max_int64_def show_int_def)
qed

lemma itoa_min: "itoa min_int64 = Some ''-''"
  by (simp add: itoa_def min_int64_def wrap64_def itoa_loop.simps)

subsection \<open>A save\<close>

definition demo_env :: henv where
  "demo_env = \<lparr>he_root = ''/x'', he_cap = 10, he_mk = True, he_rm = True, he_part = (\<lambda>_. False), he_io = io_good,
     he_tmp = ''.upload-1'', he_net = \<lparr>nl_url = \<lambda>_. None, nl_ip = \<lambda>_. None, nl_lookup = \<lambda>_. None\<rparr>,
     he_hops = [], he_resp = None, he_ls = (\<lambda>_. None), he_is_dir = (\<lambda>_. False)\<rparr>"

definition demo_req :: "string \<Rightarrow> string \<Rightarrow> hreq" where
  "demo_req p body = \<lparr>rq_meth = PUT, rq_path = ''/api/volumes/v/file'', rq_subdir = [], rq_p = p, rq_download = [], rq_form = None,
     rq_fetch = None, rq_name = None, rq_body = body\<rparr>"

definition demo_state :: hstate where "demo_state = \<lparr>hs_vols = [''v''], hs_disk = Map.empty\<rparr>"

lemma demo_save:
  "handle_volume_scoped demo_env (demo_req ''b/../a'' ''hi'') demo_state
     = (Inr (Stored ''v'' ''a'' 2), demo_state\<lparr>hs_disk := [''/x/v/a'' \<mapsto> ''hi'']\<rparr>)"
proof -
  have path: "strip_prefix ''/api/volumes/v/file'' ''/api/volumes/'' = Some ''v/file''" "cut1 ''v/file'' = (''v'', Some ''file'')"
    by (simp_all add: strip_prefix_def trim_prefix_def cut1_def)
  have vol: "valid_volume_name ''v''" by (simp add: valid_volume_name_def name_char_def)
  have jn: "join_path [''/x'', ''v''] = ''/x/v''" "clean ''b/../a'' = ''a''" "join_path [''/x/v'', ''a''] = ''/x/v/a''"
    by (simp_all add: path_eval)
  have "path_dir ''/x/v/a'' = ''/x/v''" using path_dir_abs [of "[''x'', ''v'']" "''a''"]
    by (simp add: abs_path_def is_name_def dot_def dotdot_def)
  then have tmp: "join_path [path_dir ''/x/v/a'', ''.upload-1''] = ''/x/v/.upload-1''" by (simp add: path_eval)
  have "put_volume_path ''/x/v'' ''b/../a'' = Inr ''/x/v/a''" by (simp add: put_volume_path_def jn)
  then show ?thesis
    by (simp add: handle_volume_scoped_def demo_req_def demo_env_def demo_state_def path serve_volume_file_put_def volume_get_def
        vol jn tmp write_with_cap_def stored_def atomic_replace_def io_good_def)
qed

theorem http_requests_confined_witness:
  "\<exists>a \<in> write_area ''/x'' (demo_req ''b/../a'' ''hi''). under_dir a ''/x/v/a''"
  using http_requests_confined [of demo_env "demo_req ''b/../a'' ''hi''" demo_state _ _ "''/x/v/a''", OF _ _ demo_save]
  by (simp add: demo_env_def demo_state_def proper_dir_def path_eval is_name_def)


end
