(* ===== verification/Quota.thy ===== *)
theory Quota
  imports Hive_Prelude
begin

section \<open>The quota actor (internal/quota/actor.go)\<close>

text \<open>
  One goroutine owns two maps, the limits and the consumed counters, keyed by
  (Room, Agent, resource), and serves requests one at a time. \<open>serve\<close> is the body of its loop,
  one branch for each operation, with Go's 64-bit arithmetic written out; \<open>serve_all\<close> is a run of
  the loop, so a list of requests stands for any interleaving of the concurrent callers. The
  callers' methods add the checks made before a request is sent and the answer of a stopped
  actor. Cancelled contexts are not modelled.
\<close>

record qkey =
  k_room :: string
  k_agent :: string
  k_resource :: string

record qresult =
  r_allowed :: bool
  r_remaining :: int
  r_unlimited :: bool

datatype op_type = OpConsume | OpSetLimit | OpRemaining | OpReset | OpUncharge

record request =
  rq_op :: op_type
  rq_key :: qkey
  rq_amount :: int

record actor =
  limits :: "qkey \<rightharpoonup> int"
  consumed :: "qkey \<rightharpoonup> int"
  stopped :: bool

definition new_actor :: actor where
  "new_actor = \<lparr>limits = Map.empty, consumed = Map.empty, stopped = False\<rparr>"

definition used :: "actor \<Rightarrow> qkey \<Rightarrow> int" where
  "used a k = map_get0 (consumed a) k"

definition set_used :: "actor \<Rightarrow> qkey \<Rightarrow> int \<Rightarrow> actor" where
  "set_used a k n = a\<lparr>consumed := (consumed a)(k \<mapsto> n)\<rparr>"

definition answer :: "bool \<Rightarrow> int \<Rightarrow> bool \<Rightarrow> qresult" where
  "answer ok rem unl = \<lparr>r_allowed = ok, r_remaining = rem, r_unlimited = unl\<rparr>"

definition serve_consume :: "actor \<Rightarrow> qkey \<Rightarrow> int \<Rightarrow> qresult \<times> actor" where
  "serve_consume a k n =
     (case limits a k of
        None \<Rightarrow> (answer True (-1) True, set_used a k (wrap64 (used a k + n)))
      | Some lim \<Rightarrow>
          (if wrap64 (used a k + n) > lim
           then (answer False (wrap64 (lim - used a k)) False, a)
           else (answer True (wrap64 (lim - wrap64 (used a k + n))) False,
                 set_used a k (wrap64 (used a k + n)))))"

definition serve_set_limit :: "actor \<Rightarrow> qkey \<Rightarrow> int \<Rightarrow> qresult \<times> actor" where
  "serve_set_limit a k n =
     (answer True (wrap64 (n - used a k)) False, a\<lparr>limits := (limits a)(k \<mapsto> n)\<rparr>)"

definition serve_remaining :: "actor \<Rightarrow> qkey \<Rightarrow> qresult \<times> actor" where
  "serve_remaining a k =
     (case limits a k of
        Some lim \<Rightarrow> (answer True (wrap64 (lim - used a k)) False, a)
      | None \<Rightarrow> (answer True (-1) True, a))"

definition serve_reset :: "actor \<Rightarrow> qkey \<Rightarrow> qresult \<times> actor" where
  "serve_reset a k = (answer True 0 False, a\<lparr>consumed := (consumed a)(k := None)\<rparr>)"

definition serve_uncharge :: "actor \<Rightarrow> qkey \<Rightarrow> int \<Rightarrow> qresult \<times> actor" where
  "serve_uncharge a k n =
     (let cur = wrap64 (used a k - n);
          cur = (if cur < 0 then 0 else cur);
          a' = set_used a k cur
      in case limits a k of
           Some lim \<Rightarrow> (answer True (wrap64 (lim - cur)) False, a')
         | None \<Rightarrow> (answer True (-1) True, a'))"

definition serve :: "actor \<Rightarrow> request \<Rightarrow> qresult \<times> actor" where
  "serve a r =
     (case rq_op r of
        OpConsume \<Rightarrow> serve_consume a (rq_key r) (rq_amount r)
      | OpSetLimit \<Rightarrow> serve_set_limit a (rq_key r) (rq_amount r)
      | OpRemaining \<Rightarrow> serve_remaining a (rq_key r)
      | OpReset \<Rightarrow> serve_reset a (rq_key r)
      | OpUncharge \<Rightarrow> serve_uncharge a (rq_key r) (rq_amount r))"

fun serve_all :: "actor \<Rightarrow> request list \<Rightarrow> qresult list \<times> actor" where
  "serve_all a [] = ([], a)"
| "serve_all a (r # rs) =
     (let (x, a') = serve a r; (xs, a'') = serve_all a' rs in (x # xs, a''))"

definition call :: "actor \<Rightarrow> request \<Rightarrow> qresult res \<times> actor" where
  "call a r = (if stopped a then (Inl Plain, a) else (let (x, a') = serve a r in (Inr x, a')))"

definition req :: "op_type \<Rightarrow> qkey \<Rightarrow> int \<Rightarrow> request" where
  "req op k n = \<lparr>rq_op = op, rq_key = k, rq_amount = n\<rparr>"

definition consume :: "actor \<Rightarrow> qkey \<Rightarrow> int \<Rightarrow> qresult res \<times> actor" where
  "consume a k n = (if n < 0 then (Inl Plain, a) else call a (req OpConsume k n))"

definition set_limit :: "actor \<Rightarrow> qkey \<Rightarrow> int \<Rightarrow> qresult res \<times> actor" where
  "set_limit a k n = call a (req OpSetLimit k n)"

definition get_remaining :: "actor \<Rightarrow> qkey \<Rightarrow> qresult res \<times> actor" where
  "get_remaining a k = call a (req OpRemaining k 0)"

definition reset_counter :: "actor \<Rightarrow> qkey \<Rightarrow> qresult res \<times> actor" where
  "reset_counter a k = call a (req OpReset k 0)"

definition uncharge :: "actor \<Rightarrow> qkey \<Rightarrow> int \<Rightarrow> qresult res \<times> actor" where
  "uncharge a k n = (if n < 0 then (Inl Plain, a) else call a (req OpUncharge k n))"

definition stop_actor :: "actor \<Rightarrow> actor" where
  "stop_actor a = a\<lparr>stopped := True\<rparr>"

lemmas serve_defs = serve_consume_def serve_set_limit_def serve_remaining_def serve_reset_def
  serve_uncharge_def set_used_def answer_def
lemmas quota_defs = consume_def set_limit_def get_remaining_def reset_counter_def uncharge_def
  call_def req_def serve_def

subsection \<open>Counters and limits\<close>

lemma used_set_used [simp]: "used (set_used a k n) j = (if j = k then n else used a j)"
  by (simp add: used_def set_used_def)

lemma limits_set_used [simp]: "limits (set_used a k n) = limits a"
  by (simp add: set_used_def)

lemma stopped_set_used [simp]: "stopped (set_used a k n) = stopped a"
  by (simp add: set_used_def)

lemma used_limits_upd [simp]: "used (a\<lparr>limits := l\<rparr>) k = used a k"
  by (simp add: used_def)

lemma used_new_actor [simp]: "used new_actor k = 0" "limits new_actor k = None" "\<not> stopped new_actor"
  by (simp_all add: used_def new_actor_def)

lemma answer_simps [simp]:
  "r_allowed (answer b n u) = b" "r_remaining (answer b n u) = n" "r_unlimited (answer b n u) = u"
  by (simp_all add: answer_def)

lemma serve_stopped: "stopped (snd (serve a r)) = stopped a"
  by (auto simp: serve_def serve_defs Let_def split: op_type.splits option.splits)

lemma serve_limits:
  "rq_op r \<noteq> OpSetLimit \<Longrightarrow> limits (snd (serve a r)) = limits a"
  by (auto simp: serve_def serve_defs Let_def split: op_type.splits option.splits)

text \<open>A request leaves every other key alone.\<close>

lemma serve_other:
  assumes "k \<noteq> rq_key r"
  shows "limits (snd (serve a r)) k = limits a k" "used (snd (serve a r)) k = used a k"
  using assms
  by (auto simp: serve_def serve_defs used_def Let_def split: op_type.splits option.splits)

definition agree :: "qkey \<Rightarrow> actor \<Rightarrow> actor \<Rightarrow> bool" where
  "agree k a b \<longleftrightarrow> limits a k = limits b k \<and> used a k = used b k"

lemma serve_agree:
  assumes "agree (rq_key r) a b"
  shows "fst (serve a r) = fst (serve b r)" "agree (rq_key r) (snd (serve a r)) (snd (serve b r))"
  using assms
  by (auto simp: agree_def serve_def serve_defs used_def Let_def split: op_type.splits option.splits)

text \<open>The results that the requests on key \<open>k\<close> got in a run.\<close>

definition results_for :: "qkey \<Rightarrow> request list \<Rightarrow> qresult list \<Rightarrow> qresult list" where
  "results_for k rs xs = map snd (filter (\<lambda>(r, _). rq_key r = k) (zip rs xs))"

lemma serve_all_project:
  assumes "agree k a b"
  shows "results_for k rs (fst (serve_all a rs)) = fst (serve_all b (filter (\<lambda>r. rq_key r = k) rs))
       \<and> agree k (snd (serve_all a rs)) (snd (serve_all b (filter (\<lambda>r. rq_key r = k) rs)))"
  using assms
proof (induction rs arbitrary: a b)
  case Nil
  then show ?case by (simp add: results_for_def)
next
  case (Cons r rs)
  show ?case
  proof (cases "rq_key r = k")
    case True
    with Cons.prems have "fst (serve a r) = fst (serve b r)" "agree k (snd (serve a r)) (snd (serve b r))"
      using serve_agree by auto
    with True Cons.IH [of "snd (serve a r)" "snd (serve b r)"] show ?thesis
      by (auto simp: results_for_def split_def Let_def)
  next
    case False
    then have "agree k (snd (serve a r)) b"
      using Cons.prems serve_other [of k r a] by (simp add: agree_def)
    with False Cons.IH [of "snd (serve a r)" b] show ?thesis
      by (auto simp: results_for_def split_def Let_def)
  qed
qed

subsection \<open>Consume and uncharge\<close>

lemma consume_frame: "j \<noteq> k \<Longrightarrow> used (snd (consume a k n)) j = used a j"
  using serve_other(2) [of j "req OpConsume k n" a]
  by (auto simp: consume_def call_def req_def split: prod.splits)

lemma consume_limits [simp]: "limits (snd (consume a k n)) = limits a"
  by (auto simp: quota_defs serve_defs split: option.splits)

lemma consume_stopped [simp]: "stopped (snd (consume a k n)) = stopped a"
  by (auto simp: quota_defs serve_defs split: option.splits)

lemma uncharge_limits [simp]: "limits (snd (uncharge a k n)) = limits a"
  by (auto simp: quota_defs serve_defs Let_def split: option.splits)

lemma uncharge_stopped [simp]: "stopped (snd (uncharge a k n)) = stopped a"
  by (auto simp: quota_defs serve_defs Let_def split: option.splits)

lemma set_limit_used [simp]: "used (snd (set_limit a k n)) j = used a j"
  by (auto simp: quota_defs serve_defs used_def)

lemma set_limit_limits:
  "limits (snd (set_limit a k n)) = (if stopped a then limits a else (limits a)(k \<mapsto> n))"
  by (auto simp: quota_defs serve_defs)

lemma set_limit_stopped [simp]: "stopped (snd (set_limit a k n)) = stopped a"
  by (auto simp: quota_defs serve_defs)

lemma get_remaining_state [simp]: "snd (get_remaining a k) = a"
  by (auto simp: quota_defs serve_defs split: option.splits)

lemma get_remaining_eq:
  "fst (get_remaining a k) =
     (if stopped a then Inl Plain
      else case limits a k of Some lim \<Rightarrow> Inr (answer True (wrap64 (lim - used a k)) False)
         | None \<Rightarrow> Inr (answer True (-1) True))"
  by (auto simp: quota_defs serve_remaining_def split: option.splits)

lemma uncharge_used:
  "used (snd (uncharge a k n)) j =
     (if n < 0 \<or> stopped a \<or> j \<noteq> k then used a j else max 0 (wrap64 (used a k - n)))"
  by (auto simp: uncharge_def call_def serve_def req_def serve_uncharge_def Let_def split: option.splits)

lemma consume_error: "fst (consume a k n) = Inl e \<Longrightarrow> snd (consume a k n) = a"
  by (auto simp: consume_def call_def Let_def split: if_splits prod.splits)

lemma consume_denied:
  "fst (consume a k n) = Inr r \<Longrightarrow> \<not> r_allowed r \<Longrightarrow> snd (consume a k n) = a"
  by (auto simp: quota_defs serve_consume_def answer_def split: if_splits option.splits)

lemma consume_granted:
  assumes "fst (consume a k n) = Inr r" "r_allowed r"
  shows "0 \<le> n" "used (snd (consume a k n)) k = wrap64 (used a k + n)"
    "limits a k = Some lim \<Longrightarrow> wrap64 (used a k + n) \<le> lim"
  using assms by (auto simp: quota_defs serve_consume_def answer_def split: if_splits option.splits)

lemma consume_unlimited_iff:
  "fst (consume a k n) = Inr r \<Longrightarrow> r_unlimited r \<longleftrightarrow> limits a k = None"
  by (auto simp: quota_defs serve_consume_def answer_def split: if_splits option.splits)

lemma consume_limited:
  assumes "\<not> stopped a" "0 \<le> n" "limits a k = Some lim"
  shows "consume a k n =
     (if wrap64 (used a k + n) > lim
      then (Inr (answer False (wrap64 (lim - used a k)) False), a)
      else (Inr (answer True (wrap64 (lim - wrap64 (used a k + n))) False),
            set_used a k (wrap64 (used a k + n))))"
  using assms by (simp add: quota_defs serve_consume_def)

text \<open>A key within its budget: a limit is set and the counter lies between 0 and the limit.\<close>

definition within :: "actor \<Rightarrow> qkey \<Rightarrow> bool" where
  "within a k \<longleftrightarrow> (case limits a k of None \<Rightarrow> False | Some lim \<Rightarrow> 0 \<le> used a k \<and> used a k \<le> lim)"

definition headroom :: "actor \<Rightarrow> qkey \<Rightarrow> int" where
  "headroom a k = (case limits a k of None \<Rightarrow> 0 | Some lim \<Rightarrow> lim - used a k)"

definition no_overflow :: "actor \<Rightarrow> qkey \<Rightarrow> int \<Rightarrow> bool" where
  "no_overflow a k n \<longleftrightarrow> used a k + n \<le> max_int64"

lemma within_consume:
  assumes "within a k" "no_overflow a k n"
  shows "within (snd (consume a k n)) k"
proof (cases "\<exists>r. fst (consume a k n) = Inr r \<and> r_allowed r")
  case True
  then obtain r where r: "fst (consume a k n) = Inr r" "r_allowed r" by blast
  from assms obtain lim where lim: "limits a k = Some lim" "0 \<le> used a k"
    by (auto simp: within_def split: option.splits)
  from consume_granted [OF r] lim have n: "0 \<le> n" "wrap64 (used a k + n) \<le> lim" by auto
  with lim assms(2) have "wrap64 (used a k + n) = used a k + n"
    by (intro wrap64_id) (simp add: no_overflow_def in_int64_def min_int64_def)
  with n lim consume_granted(2) [OF r] show ?thesis by (simp add: within_def)
next
  case False
  then have "snd (consume a k n) = a"
    using consume_error consume_denied by (metis sum.exhaust)
  with assms show ?thesis by simp
qed

lemma within_uncharge:
  assumes "within a k" "in_int64 (used a k)" "in_int64 n"
  shows "within (snd (uncharge a k n)) k"
proof (cases "n < 0 \<or> stopped a")
  case True
  then have "snd (uncharge a k n) = a" by (auto simp: uncharge_def call_def)
  with assms show ?thesis by simp
next
  case False
  from assms obtain lim where lim: "limits a k = Some lim" "0 \<le> used a k" "used a k \<le> lim"
    by (auto simp: within_def split: option.splits)
  with False assms have "wrap64 (used a k - n) = used a k - n"
    by (intro wrap64_id) (simp add: in_int64_def min_int64_def max_int64_def)
  with False lim show ?thesis by (simp add: within_def uncharge_used)
qed

subsection \<open>What a run grants\<close>

text \<open>The amount that the answered \<open>Consume\<close> requests on \<open>k\<close> were granted.\<close>

fun granted :: "qkey \<Rightarrow> request list \<Rightarrow> qresult list \<Rightarrow> int" where
  "granted k (r # rs) (x # xs) =
     (if rq_op r = OpConsume \<and> rq_key r = k \<and> r_allowed x then rq_amount r else 0)
     + granted k rs xs"
| "granted k _ _ = 0"

definition consume_only :: "actor \<Rightarrow> qkey \<Rightarrow> request \<Rightarrow> bool" where
  "consume_only a k r \<longleftrightarrow>
     (rq_key r = k \<longrightarrow>
        (rq_op r = OpConsume \<or> rq_op r = OpRemaining) \<and> 0 \<le> rq_amount r \<and>
        (case limits a k of None \<Rightarrow> True | Some lim \<Rightarrow> lim + rq_amount r \<le> max_int64))"

lemma serve_consume_within:
  assumes "within a k" "consume_only a k r" "rq_key r = k"
  shows "within (snd (serve a r)) k"
    "used (snd (serve a r)) k = used a k + granted k [r] [fst (serve a r)]"
    "limits (snd (serve a r)) k = limits a k"
proof -
  from assms obtain lim where lim: "limits a k = Some lim" "0 \<le> used a k" "used a k \<le> lim"
    by (auto simp: within_def split: option.splits)
  with assms have "wrap64 (used a k + rq_amount r) = used a k + rq_amount r"
    by (intro wrap64_id) (auto simp: consume_only_def in_int64_def min_int64_def)
  with lim assms show "within (snd (serve a r)) k"
    "used (snd (serve a r)) k = used a k + granted k [r] [fst (serve a r)]"
    "limits (snd (serve a r)) k = limits a k"
    by (auto simp: within_def consume_only_def serve_def serve_consume_def serve_remaining_def)
qed

lemma serve_all_within:
  assumes "within a k" "\<forall>r \<in> set rs. consume_only a k r"
  shows "within (snd (serve_all a rs)) k
    \<and> used (snd (serve_all a rs)) k = used a k + granted k rs (fst (serve_all a rs))
    \<and> limits (snd (serve_all a rs)) k = limits a k"
  using assms
proof (induction rs arbitrary: a)
  case Nil
  then show ?case by simp
next
  case (Cons r rs)
  let ?b = "snd (serve a r)"
  have step: "within ?b k" "used ?b k = used a k + granted k [r] [fst (serve a r)]"
    "limits ?b k = limits a k"
  proof -
    have "within ?b k \<and> used ?b k = used a k + granted k [r] [fst (serve a r)] \<and> limits ?b k = limits a k"
    proof (cases "rq_key r = k")
      case True
      with Cons.prems show ?thesis using serve_consume_within by auto
    next
      case False
      with Cons.prems serve_other [of k r a] show ?thesis by (auto simp: within_def split: option.splits)
    qed
    then show "within ?b k" "used ?b k = used a k + granted k [r] [fst (serve a r)]"
      "limits ?b k = limits a k" by auto
  qed
  have "\<forall>r \<in> set rs. consume_only ?b k r"
    using Cons.prems step(3) by (auto simp: consume_only_def)
  with Cons.IH [OF step(1)] step show ?case by (auto simp: split_def Let_def)
qed

subsection \<open>The contract the proxies and the hiring code rely on\<close>

locale metered =
  fixes charge :: "'s \<Rightarrow> 'k \<Rightarrow> int \<Rightarrow> qresult res \<times> 's"
    and spent :: "'s \<Rightarrow> 'k \<Rightarrow> int"
    and cap :: "'s \<Rightarrow> 'k \<Rightarrow> int option"
  assumes charge_denied: "fst (charge s k n) = Inr r \<Longrightarrow> \<not> r_allowed r \<Longrightarrow> snd (charge s k n) = s"
    and charge_failed: "fst (charge s k n) = Inl e \<Longrightarrow> snd (charge s k n) = s"
    and charge_frame: "j \<noteq> k \<Longrightarrow> spent (snd (charge s k n)) j = spent s j"
    and charge_cap: "cap (snd (charge s k n)) = cap s"
    and charge_granted: "fst (charge s k n) = Inr r \<Longrightarrow> r_allowed r \<Longrightarrow> 0 \<le> spent s k \<Longrightarrow>
      spent s k + n \<le> max_int64 \<Longrightarrow>
      0 \<le> n \<and> spent (snd (charge s k n)) k = spent s k + n \<and>
      (\<forall>lim. cap s k = Some lim \<longrightarrow> spent s k + n \<le> lim)"
begin

text \<open>Whatever the outcome, one charge moves no counter down and none past its cap.\<close>

lemma charge_cases:
  "(\<exists>r. fst (charge s k n) = Inr r \<and> r_allowed r) \<or> snd (charge s k n) = s"
  using charge_denied charge_failed by (metis sum.exhaust)

lemma charge_bounded:
  assumes "0 \<le> spent s k" "spent s k + n \<le> max_int64" "cap s k = Some lim" "spent s k \<le> lim"
  shows "0 \<le> spent (snd (charge s k n)) k \<and> spent (snd (charge s k n)) k \<le> lim"
  using charge_cases [of s k n] charge_granted [of s k n] assms by fastforce

lemma charge_mono:
  assumes "0 \<le> spent s k" "spent s k + n \<le> max_int64"
  shows "spent s j \<le> spent (snd (charge s k n)) j"
proof (cases "j = k")
  case True
  then show ?thesis using charge_cases [of s k n] charge_granted [of s k n] assms by fastforce
next
  case False
  then show ?thesis by (simp add: charge_frame)
qed

end

interpretation qa: metered consume used limits
proof unfold_locales
  fix s k n r
  assume r: "fst (consume s k n) = Inr r" "r_allowed r" and u: "0 \<le> used s k" "used s k + n \<le> max_int64"
  then have "0 \<le> n" using consume_granted by blast
  with u have "wrap64 (used s k + n) = used s k + n"
    by (intro wrap64_id) (simp add: in_int64_def min_int64_def)
  with r \<open>0 \<le> n\<close> consume_granted [OF r]
  show "0 \<le> n \<and> used (snd (consume s k n)) k = used s k + n \<and>
      (\<forall>lim. limits s k = Some lim \<longrightarrow> used s k + n \<le> lim)" by auto
qed (auto intro: consume_denied consume_error consume_frame)

subsection \<open>Properties\<close>

text \<open>Quota isolation. What the actor answers to the requests on one (Room, Agent, resource)
  key, and where it leaves that key, is a function of the key's own limit and counter and of the
  requests on that key alone: it is the same in every interleaving with requests on other keys and
  in every other state of the other keys.\<close>

theorem quota_isolation:
  assumes "agree k a b"
  shows "results_for k rs (fst (serve_all a rs)) = fst (serve_all b (filter (\<lambda>r. rq_key r = k) rs))
       \<and> agree k (snd (serve_all a rs)) (snd (serve_all b (filter (\<lambda>r. rq_key r = k) rs)))"
  using assms by (rule serve_all_project)

definition key_a :: qkey where
  "key_a = \<lparr>k_room = ''r1'', k_agent = ''a'', k_resource = ''http''\<rparr>"
definition key_b :: qkey where
  "key_b = \<lparr>k_room = ''r2'', k_agent = ''a'', k_resource = ''http''\<rparr>"

lemma key_ab [simp]: "key_a \<noteq> key_b" "key_b \<noteq> key_a"
  by (simp_all add: key_a_def key_b_def)

definition actor_a :: "int \<Rightarrow> int \<Rightarrow> actor" where
  "actor_a lim n = \<lparr>limits = [key_a \<mapsto> lim], consumed = [key_a \<mapsto> n], stopped = False\<rparr>"

lemma actor_a_simps [simp]:
  "limits (actor_a l n) key_a = Some l" "used (actor_a l n) key_a = n" "\<not> stopped (actor_a l n)"
  "limits (actor_a l n) key_b = None" "used (actor_a l n) key_b = 0"
  by (simp_all add: actor_a_def used_def map_get0_def)

theorem quota_isolation_witness:
  "agree key_a (actor_a 5 2) (set_used (actor_a 5 2) key_b 77) \<and>
   results_for key_a [req OpConsume key_b 9, req OpConsume key_a 4]
     (fst (serve_all (actor_a 5 2) [req OpConsume key_b 9, req OpConsume key_a 4]))
   = fst (serve_all (set_used (actor_a 5 2) key_b 77) [req OpConsume key_a 4])"
proof -
  have h: "agree key_a (actor_a 5 2) (set_used (actor_a 5 2) key_b 77)"
    by (simp add: agree_def)
  show ?thesis
    using h quota_isolation [OF h, of "[req OpConsume key_b 9, req OpConsume key_a 4]"]
    by (simp add: req_def)
qed



text \<open>\<open>Consume\<close> on a limited key of a running actor: it is granted exactly when counter plus
  amount stays within the limit, a granted charge reports what is left, and a denied one leaves
  the actor as it was and reports what was left.\<close>

theorem consume_decides:
  assumes "\<not> stopped a" "0 \<le> n" "limits a k = Some lim"
    and "0 \<le> used a k" "used a k + n \<le> max_int64" "in_int64 lim" "0 \<le> lim"
  shows "consume a k n =
     (if used a k + n \<le> lim
      then (Inr (answer True (lim - (used a k + n)) False), set_used a k (used a k + n))
      else (Inr (answer False (lim - used a k) False), a))"
proof -
  have "wrap64 (used a k + n) = used a k + n"
    using assms by (intro wrap64_id) (simp add: in_int64_def min_int64_def)
  moreover have "wrap64 (lim - (used a k + n)) = lim - (used a k + n)"
    "wrap64 (lim - used a k) = lim - used a k"
    using assms by (auto intro!: wrap64_id simp: in_int64_def min_int64_def max_int64_def)
  ultimately show ?thesis using assms by (simp add: consume_limited)
qed

theorem consume_decides_witness:
  "consume (actor_a 5 2) key_a 3 = (Inr (answer True 0 False), set_used (actor_a 5 2) key_a 5)"
  using consume_decides [of "actor_a 5 2" 3 key_a 5]
  by (simp add: max_int64_def in_int64_def min_int64_def)

text \<open>The check of \<open>Consume\<close> overflows. With a limit of 100 and 1 already used, a request for
  \<open>2^63-1\<close> units is granted: the sum wraps to the smallest 64-bit integer, which is not above the
  limit, and the counter is left there, so the whole budget and more is free again.\<close>

theorem consume_overflow_granted:
  "consume (actor_a 100 1) key_a max_int64
     = (Inr (answer True (wrap64 (100 - min_int64)) False), set_used (actor_a 100 1) key_a min_int64)"
  by (simp add: consume_limited max_int64_def min_int64_def wrap64_def)

text \<open>\<open>Uncharge\<close> undoes \<open>Consume\<close>: after a granted charge of an amount, giving the same amount
  back restores the counter of the key and every other counter.\<close>

theorem uncharge_inverts_consume:
  assumes "fst (consume a k n) = Inr r" "r_allowed r" "\<not> stopped a"
    and "0 \<le> used a k" "used a k + n \<le> max_int64"
  shows "used (snd (uncharge (snd (consume a k n)) k n)) j = used a j"
proof -
  from assms have n: "0 \<le> n" "used (snd (consume a k n)) k = used a k + n"
    using qa.charge_granted by blast+
  moreover have "wrap64 (used a k) = used a k"
    using assms n by (intro wrap64_id) (simp add: in_int64_def min_int64_def)
  ultimately show ?thesis
    using assms by (simp add: uncharge_used consume_frame)
qed

theorem uncharge_inverts_consume_witness:
  "used (snd (uncharge (snd (consume (actor_a 5 2) key_a 3)) key_a 3)) key_a = 2"
  using uncharge_inverts_consume [of "actor_a 5 2" key_a 3 _ key_a]
  by (simp add: consume_limited wrap64_def max_int64_def)

end
