(* ===== verification/Rank.thy ===== *)
theory Rank
  imports Hive_Path "HOL-Library.AList"
begin

section \<open>Ranks (internal/rank/rank.go) and a member's effective quota (internal/room/room.go)\<close>

text \<open>
  A rank is a tier of permissions with default quotas. A Go map of quotas is an association list
  with distinct keys: its order is the order in which a \<^verbatim>\<open>range\<close> loop visits the entries, which Go
  leaves open, so that a theorem about every list is one about every visiting order. A pointer that
  may be nil is an option.
\<close>

type_synonym bucket_map = "(string \<times> int) list"

record quota =
  q_tokens :: bucket_map
  q_api_calls :: bucket_map

record rank =
  rk_name :: string
  rk_level :: int
  fs_read :: "string list"
  fs_write :: "string list"
  net_allowed :: bool
  llm_allowed :: bool
  memory_allowed :: bool
  ai_tool_allowed :: bool
  hire_allowed :: bool
  rk_quota :: quota

definition no_quota :: quota where
  "no_quota = \<lparr>q_tokens = [], q_api_calls = []\<rparr>"

definition can_hire :: "rank option \<Rightarrow> rank option \<Rightarrow> unit res" where
  "can_hire self child =
     (case (self, child) of
        (Some s, Some c) \<Rightarrow>
          (if \<not> hire_allowed s then Inl Plain
           else if rk_level c \<ge> rk_level s then Inl Plain
           else Inr ())
      | _ \<Rightarrow> Inl Plain)"

fun has_prefix_of :: "string list \<Rightarrow> string \<Rightarrow> bool" where
  "has_prefix_of [] p = False"
| "has_prefix_of (pref # ps) p =
     (pref = ''/'' \<or> p = pref \<or> has_prefix p (trim_suffix pref ''/'' @ ''/'') \<or> has_prefix_of ps p)"

definition allow_read :: "rank \<Rightarrow> string \<Rightarrow> bool" where
  "allow_read r p = has_prefix_of (fs_read r) p"

definition allow_write :: "rank \<Rightarrow> string \<Rightarrow> bool" where
  "allow_write r p = has_prefix_of (fs_write r) p"

definition capabilities :: "rank \<Rightarrow> string list" where
  "capabilities r =
     (if net_allowed r then [''net''] else []) @
     (if llm_allowed r then [''llm''] else []) @
     (if fs_read r \<noteq> [] \<or> fs_write r \<noteq> [] then [''fs''] else []) @
     (if memory_allowed r then [''memory''] else []) @
     (if ai_tool_allowed r then [''ai_tool''] else [])"

definition has_capability :: "rank \<Rightarrow> string \<Rightarrow> bool" where
  "has_capability r c = list_ex (\<lambda>x. x = c) (capabilities r)"

definition intern :: rank where
  "intern = \<lparr>rk_name = ''intern'', rk_level = 0, fs_read = [''/app'', ''/tmp''], fs_write = [''/tmp''],
     net_allowed = True, llm_allowed = False, memory_allowed = False, ai_tool_allowed = False,
     hire_allowed = False, rk_quota = \<lparr>q_tokens = [], q_api_calls = [(''http'', 5)]\<rparr>\<rparr>"

definition staff :: rank where
  "staff = \<lparr>rk_name = ''staff'', rk_level = 1, fs_read = [''/app'', ''/tmp'', ''/data''],
     fs_write = [''/tmp'', ''/data''],
     net_allowed = True, llm_allowed = True, memory_allowed = True, ai_tool_allowed = True,
     hire_allowed = False,
     rk_quota = \<lparr>q_tokens = [(''gpt-4o-mini'', 5000)],
       q_api_calls = [(''http'', 20), (''ai_tool:claude-code'', 10)]\<rparr>\<rparr>"

definition manager :: rank where
  "manager = \<lparr>rk_name = ''manager'', rk_level = 2, fs_read = [''/''], fs_write = [''/tmp'', ''/data''],
     net_allowed = True, llm_allowed = True, memory_allowed = True, ai_tool_allowed = True,
     hire_allowed = True,
     rk_quota = \<lparr>q_tokens = [(''gpt-4o-mini'', 50000)],
       q_api_calls = [(''http'', 200), (''ai_tool:claude-code'', 100)]\<rparr>\<rparr>"

definition director :: rank where
  "director = \<lparr>rk_name = ''director'', rk_level = 3, fs_read = [''/''], fs_write = [''/''],
     net_allowed = True, llm_allowed = True, memory_allowed = True, ai_tool_allowed = True,
     hire_allowed = True, rk_quota = \<lparr>q_tokens = [], q_api_calls = []\<rparr>\<rparr>"

type_synonym registry = "string \<rightharpoonup> rank"

definition default_registry :: registry where
  "default_registry =
     [''intern'' \<mapsto> intern, ''staff'' \<mapsto> staff, ''manager'' \<mapsto> manager, ''director'' \<mapsto> director]"

definition get_rank :: "registry \<Rightarrow> string \<Rightarrow> rank res" where
  "get_rank reg nm = (case reg nm of None \<Rightarrow> Inl Plain | Some r \<Rightarrow> Inr r)"

definition list_ranks :: "registry \<Rightarrow> string list" where
  "list_ranks reg = filter (\<lambda>n. reg n \<noteq> None) [''intern'', ''staff'', ''manager'', ''director'']"

text \<open>\<open>EffectiveQuota\<close>: the rank's default maps, overwritten entry by entry by the override.\<close>

definition overlay :: "bucket_map \<Rightarrow> bucket_map \<Rightarrow> bucket_map" where
  "overlay base over = foldl (\<lambda>m (k, v). AList.update k v m) base over"

definition effective_quota :: "rank \<Rightarrow> quota option \<Rightarrow> quota" where
  "effective_quota r over =
     (case over of
        None \<Rightarrow> rk_quota r
      | Some q \<Rightarrow> \<lparr>q_tokens = overlay (q_tokens (rk_quota r)) (q_tokens q),
                  q_api_calls = overlay (q_api_calls (rk_quota r)) (q_api_calls q)\<rparr>)"

lemmas builtin_defs = intern_def staff_def manager_def director_def

lemma builtin_hire [simp]:
  "\<not> hire_allowed intern" "\<not> hire_allowed staff" "hire_allowed manager" "hire_allowed director"
  "rk_level intern = 0" "rk_level staff = 1" "rk_level manager = 2" "rk_level director = 3"
  "rk_name intern = ''intern''" "rk_name staff = ''staff''" "rk_name manager = ''manager''"
  "rk_name director = ''director''"
  by (simp_all add: builtin_defs)

lemma builtin_neq [simp]:
  "intern \<noteq> staff" "intern \<noteq> manager" "intern \<noteq> director" "staff \<noteq> intern" "staff \<noteq> manager"
  "staff \<noteq> director" "manager \<noteq> intern" "manager \<noteq> staff" "manager \<noteq> director"
  "director \<noteq> intern" "director \<noteq> staff" "director \<noteq> manager"
  by (simp_all add: builtin_defs)

subsection \<open>Hiring\<close>

lemma can_hire_iff:
  "can_hire s c = Inr () \<longleftrightarrow>
     (\<exists>x y. s = Some x \<and> c = Some y \<and> hire_allowed x \<and> rk_level y < rk_level x)"
  by (auto simp: can_hire_def split: option.splits)

lemma can_hire_lower: "can_hire (Some a) (Some b) = Inr () \<Longrightarrow> rk_level b < rk_level a"
  by (simp add: can_hire_iff)

lemma default_registry_get:
  "get_rank default_registry n = Inr r \<Longrightarrow> r \<in> {intern, staff, manager, director} \<and> rk_name r = n"
  by (auto simp: get_rank_def default_registry_def split: option.splits if_splits)

subsection \<open>Path permissions\<close>

lemma has_prefix_of_iff:
  "has_prefix_of ps p \<longleftrightarrow> (\<exists>q \<in> set ps. q = ''/'' \<or> p = q \<or> has_prefix p (trim_suffix q ''/'' @ ''/''))"
  by (induction ps) auto

text \<open>A proper absolute prefix in clean form, which is what the built-in ranks and the mount points
  give, admits exactly the paths under it.\<close>

definition clean_dir :: "string \<Rightarrow> bool" where
  "clean_dir q \<longleftrightarrow> is_abs q \<and> clean q = q"

lemma join_with_slash_end:
  "names cs \<Longrightarrow> cs \<noteq> [] \<Longrightarrow> \<not> has_suffix (join_with CHR ''/'' cs) ''/''"
proof (induction "CHR ''/''" cs rule: join_with.induct)
  case (2 s)
  then show ?case by (auto simp: is_name_def has_suffix_iff)
next
  case (3 s t ts)
  have nz: "join_with CHR ''/'' (t # ts) \<noteq> []"
    using "3.prems" by (cases ts) (auto simp: is_name_def)
  show ?case
  proof
    assume "has_suffix (join_with CHR ''/'' (s # t # ts)) ''/''"
    then obtain u where "s @ CHR ''/'' # join_with CHR ''/'' (t # ts) = u @ ''/''"
      by (auto simp: has_suffix_iff)
    then have "last (join_with CHR ''/'' (t # ts)) = CHR ''/''"
      using nz by (metis last_ConsR last_appendR last_snoc list.distinct(1))
    with nz have "has_suffix (join_with CHR ''/'' (t # ts)) ''/''"
      by (metis append_butlast_last_id has_suffix_iff)
    with 3 show False by simp
  qed
qed simp

lemma abs_path_no_suffix: "names cs \<Longrightarrow> cs \<noteq> [] \<Longrightarrow> \<not> has_suffix (abs_path cs) ''/''"
proof
  assume a: "names cs" "cs \<noteq> []" "has_suffix (abs_path cs) ''/''"
  then obtain u where u: "CHR ''/'' # join_with CHR ''/'' cs = u @ ''/''"
    by (auto simp: has_suffix_iff abs_path_def)
  have nz: "join_with CHR ''/'' cs \<noteq> []"
    using a by (cases cs rule: remdups_adj.cases) (auto simp: is_name_def)
  with u obtain v where "join_with CHR ''/'' cs = v @ ''/''" by (cases u) auto
  then have "has_suffix (join_with CHR ''/'' cs) ''/''" by (auto simp: has_suffix_iff)
  with a join_with_slash_end show False by blast
qed

lemma has_prefix_of_clean:
  assumes "\<forall>q \<in> set ps. clean_dir q" "is_abs p"
  shows "has_prefix_of ps p \<longleftrightarrow> (\<exists>q \<in> set ps. q = ''/'' \<or> under_dir q p)"
proof -
  have "(q = ''/'' \<or> p = q \<or> has_prefix p (trim_suffix q ''/'' @ ''/'')) \<longleftrightarrow> (q = ''/'' \<or> under_dir q p)"
    if "q \<in> set ps" for q
  proof -
    from that assms obtain cs where cs: "names cs" "q = abs_path cs"
      by (metis clean_dir_def clean_abs_form)
    show ?thesis
    proof (cases "cs = []")
      case True
      with cs show ?thesis by (simp add: abs_path_def)
    next
      case False
      with cs abs_path_no_suffix have "trim_suffix q ''/'' = q" by simp
      then show ?thesis unfolding under_dir_def by simp
    qed
  qed
  then show ?thesis unfolding has_prefix_of_iff by blast
qed

subsection \<open>Effective quota\<close>

lemma overlay_map_of: "distinct (map fst over) \<Longrightarrow> map_of (overlay base over) = map_of base ++ map_of over"
proof (induction over arbitrary: base)
  case Nil
  then show ?case by (simp add: overlay_def)
next
  case (Cons x xs)
  then have "map_of (overlay (AList.update (fst x) (snd x) base) xs)
      = map_of (AList.update (fst x) (snd x) base) ++ map_of xs" by simp
  moreover have "map_of xs (fst x) = None"
    using Cons.prems by (simp add: map_of_eq_None_iff)
  ultimately show ?case
    by (auto simp: overlay_def split_def fun_eq_iff update_conv map_add_def split: option.splits)
qed

lemma overlay_distinct: "distinct (map fst base) \<Longrightarrow> distinct (map fst (overlay base over))"
  by (induction over arbitrary: base) (auto simp: overlay_def split_def distinct_update)

lemma overlay_keys: "set (map fst (overlay base over)) = set (map fst base) \<union> set (map fst over)"
proof (induction over arbitrary: base)
  case Nil
  then show ?case by (simp add: overlay_def)
next
  case (Cons x xs)
  have "overlay base (x # xs) = overlay (AList.update (fst x) (snd x) base) xs"
    by (simp add: overlay_def split_def)
  moreover have "set (map fst (AList.update k v ys)) = insert k (set (map fst ys))"
    for k :: string and v :: int and ys
    by (induction ys) auto
  ultimately show ?case using Cons.IH by auto
qed

subsection \<open>Properties\<close>

text \<open>Hiring goes strictly down. A rank may hire another exactly when both are there, the first
  has the permission and the second's level is strictly lower; so along every chain of hires the
  levels strictly decrease and no rank can, through any chain of hires, hire itself back.\<close>

theorem hire_chain_acyclic:
  "(can_hire (Some a) (Some b) = Inr () \<longleftrightarrow> hire_allowed a \<and> rk_level b < rk_level a) \<and>
   \<not> (\<lambda>x y. can_hire (Some x) (Some y) = Inr ())\<^sup>+\<^sup>+ a a"
proof -
  have "rk_level y < rk_level x" if "(\<lambda>x y. can_hire (Some x) (Some y) = Inr ())\<^sup>+\<^sup>+ x y" for x y
    using that by (induction rule: tranclp_induct) (auto dest: can_hire_lower)
  then show ?thesis by (auto simp: can_hire_iff)
qed

text \<open>The built-in hierarchy. Of the four default ranks only manager and director can hire; the
  manager hires intern and staff, the director everything below itself.\<close>

theorem default_hierarchy:
  "(can_hire (Some a) (Some b) = Inr () \<and> a \<in> {intern, staff, manager, director}
     \<and> b \<in> {intern, staff, manager, director})
   \<longleftrightarrow> (a, b) \<in> {(manager, intern), (manager, staff),
                (director, intern), (director, staff), (director, manager)}"
  by (auto simp: can_hire_iff)

text \<open>Path permissions mean containment. For a rank whose read prefixes are clean absolute
  directories, an absolute path is readable exactly when it is one of those directories or lies
  below one, the root directory admitting everything.\<close>

theorem allow_read_containment:
  assumes "\<forall>q \<in> set (fs_read r). clean_dir q" "is_abs p"
  shows "allow_read r p \<longleftrightarrow> (\<exists>q \<in> set (fs_read r). q = ''/'' \<or> under_dir q p)"
  using has_prefix_of_clean [OF assms] by (simp add: allow_read_def)

lemma clean_dir_examples: "clean_dir ''/app''" "clean_dir ''/tmp''"
  by (simp_all add: clean_dir_def clean_def is_abs_def norm_comps_def push_comp_def abs_path_def
      dot_def dotdot_def)

theorem allow_read_containment_witness:
  "allow_read intern ''/tmp/x'' \<and> \<not> allow_read intern ''/tmpx''"
  using allow_read_containment [of intern "''/tmp/x''"] allow_read_containment [of intern "''/tmpx''"]
  by (simp add: intern_def clean_dir_examples is_abs_def under_dir_def)

text \<open>A member's effective quota. Entry by entry, the override's value where the override has
  the key and the rank's default otherwise, for tokens and for API calls independently.\<close>

theorem effective_quota_merge:
  assumes "distinct (map fst (q_tokens q))" "distinct (map fst (q_api_calls q))"
  shows "map_of (q_tokens (effective_quota r (Some q))) = map_of (q_tokens (rk_quota r)) ++ map_of (q_tokens q)
       \<and> map_of (q_api_calls (effective_quota r (Some q)))
           = map_of (q_api_calls (rk_quota r)) ++ map_of (q_api_calls q)
       \<and> effective_quota r None = rk_quota r"
  using assms by (simp add: effective_quota_def overlay_map_of)

theorem effective_quota_merge_witness:
  "map_of (q_api_calls (effective_quota staff (Some \<lparr>q_tokens = [], q_api_calls = [(''http'', 1)]\<rparr>))) ''http''
     = Some 1"
  using effective_quota_merge [of "\<lparr>q_tokens = [], q_api_calls = [(''http'', 1)]\<rparr>" staff] by simp

end
