(* ===== verification/Fs_Proxy.thy ===== *)
theory Fs_Proxy
  imports Rank
begin

section \<open>The file proxy (internal/proxy/fsproxy) and an agent's mounts\<close>

text \<open>
  The daemon serves an agent's fs/read, fs/write and fs/list from the host: \<open>resolve\<close> turns the
  path the agent names into a host path, below the mount that covers it or else below the Room's root
  file system, and the rank decides on the path as the agent wrote it. The set-up part of
  \<^verbatim>\<open>installAgentProxies\<close> that builds the proxy from the member's mounts is here too.
  The host is a map from paths to file contents; directory listings are a function of it given as
  a parameter. Paths are lexical: symbolic links of the host file system are not modelled.
\<close>

record ns_mount =
  mnt_source :: string
  mnt_target :: string
  mnt_read_only :: bool

record mount_redirect =
  agent_path :: string
  host_path :: string

record fs_proxy =
  room_rootfs :: string
  fp_rank :: rank
  fp_mounts :: "mount_redirect list"

record dir_entry =
  de_name :: string
  de_is_dir :: bool
  de_size :: "int option"

record fs_entry =
  fe_name :: string
  fe_is_dir :: bool
  fe_size :: int

subsection \<open>Resolving a path\<close>

definition covers :: "mount_redirect \<Rightarrow> string \<Rightarrow> bool" where
  "covers m cleaned \<longleftrightarrow> cleaned = agent_path m \<or> has_prefix cleaned (agent_path m @ ''/'')"

definition resolve :: "fs_proxy \<Rightarrow> string \<Rightarrow> string res" where
  "resolve p path =
     (if \<not> is_abs path then Inl InvalidParams
      else let cleaned = clean path in
        case find (\<lambda>m. covers m cleaned) (fp_mounts p) of
          Some m \<Rightarrow>
            (let rel = trim_prefix cleaned (agent_path m);
                 host = join_path [host_path m, rel]
             in if \<not> has_prefix host (host_path m) then Inl InvalidParams else Inr host)
        | None \<Rightarrow>
            (let host = join_path [room_rootfs p, cleaned]
             in if \<not> has_prefix host (room_rootfs p @ ''/'') \<and> host \<noteq> room_rootfs p
                then Inl InvalidParams else Inr host))"

subsection \<open>The handlers\<close>

definition fs_read_file :: "fs_proxy \<Rightarrow> string disk \<Rightarrow> string option \<Rightarrow> string res" where
  "fs_read_file p d params =
     (case params of
        None \<Rightarrow> Inl InvalidParams
      | Some path \<Rightarrow>
          (case resolve p path of
             Inl e \<Rightarrow> Inl e
           | Inr host \<Rightarrow>
               (if \<not> allow_read (fp_rank p) path then Inl PermissionDenied
                else case d host of None \<Rightarrow> Inl Plain | Some data \<Rightarrow> Inr data)))"

definition fs_write_file ::
  "fs_proxy \<Rightarrow> io \<Rightarrow> (string \<times> string) option \<Rightarrow> string disk \<Rightarrow> unit res \<times> string disk" where
  "fs_write_file p w params d =
     (case params of
        None \<Rightarrow> (Inl InvalidParams, d)
      | Some (path, data) \<Rightarrow>
          (case resolve p path of
             Inl e \<Rightarrow> (Inl e, d)
           | Inr host \<Rightarrow>
               (if \<not> allow_write (fp_rank p) path then (Inl PermissionDenied, d)
                else if \<not> mkdir_ok w then (Inl Plain, d)
                else if \<not> write_ok w then (Inl Plain, d)
                else (Inr (), d(host \<mapsto> data)))))"

definition fs_list_dir ::
  "fs_proxy \<Rightarrow> (string disk \<Rightarrow> string \<Rightarrow> dir_entry list option) \<Rightarrow> string disk \<Rightarrow> string option
    \<Rightarrow> fs_entry list res" where
  "fs_list_dir p read_dir d params =
     (case params of
        None \<Rightarrow> Inl InvalidParams
      | Some path \<Rightarrow>
          (case resolve p path of
             Inl e \<Rightarrow> Inl e
           | Inr host \<Rightarrow>
               (if \<not> allow_read (fp_rank p) path then Inl PermissionDenied
                else case read_dir d host of
                  None \<Rightarrow> Inl Plain
                | Some es \<Rightarrow>
                    Inr (map (\<lambda>e. \<lparr>fe_name = de_name e, fe_is_dir = de_is_dir e,
                      fe_size = (case de_size e of None \<Rightarrow> 0
                                 | Some n \<Rightarrow> if de_is_dir e then 0 else n)\<rparr>) es))))"

subsection \<open>Building the proxy at hire time\<close>

definition mounted_rank :: "rank \<Rightarrow> ns_mount list \<Rightarrow> rank" where
  "mounted_rank r ms =
     (if ms = [] then r
      else r\<lparr>fs_read := fs_read r @ map mnt_target ms,
             fs_write := fs_write r @ map mnt_target (filter (\<lambda>m. \<not> mnt_read_only m) ms)\<rparr>)"

definition redirects :: "ns_mount list \<Rightarrow> mount_redirect list" where
  "redirects ms =
     sort_key (\<lambda>m. - int (length (agent_path m)))
       (map (\<lambda>m. \<lparr>agent_path = mnt_target m, host_path = mnt_source m\<rparr>) ms)"

definition fs_proxy_of :: "string \<Rightarrow> rank \<Rightarrow> ns_mount list \<Rightarrow> fs_proxy" where
  "fs_proxy_of rootfs r ms =
     \<lparr>room_rootfs = rootfs, fp_rank = mounted_rank r ms, fp_mounts = redirects ms\<rparr>"

subsection \<open>Confinement\<close>

text \<open>A proxy as the daemon builds it: clean absolute host directories, none of them the host root.\<close>

definition wf_proxy :: "fs_proxy \<Rightarrow> bool" where
  "wf_proxy p \<longleftrightarrow> proper_dir (room_rootfs p) \<and> list_all (\<lambda>m. proper_dir (host_path m)) (fp_mounts p)"

definition plain_proxy :: "fs_proxy \<Rightarrow> bool" where
  "plain_proxy p \<longleftrightarrow> wf_proxy p \<and> fp_mounts p = []"

lemma set_redirects: "host_path ` set (redirects ms) = mnt_source ` set ms"
  "agent_path ` set (redirects ms) = mnt_target ` set ms"
  by (auto simp: redirects_def image_iff)

lemma wf_proxy_of:
  "proper_dir rootfs \<Longrightarrow> \<forall>m \<in> set ms. proper_dir (mnt_source m) \<Longrightarrow> wf_proxy (fs_proxy_of rootfs r ms)"
  unfolding wf_proxy_def fs_proxy_of_def list_all_iff
  using set_redirects(1) [of ms] by simp (metis imageE imageI)

lemma covered_host:
  assumes "covers m (abs_path ns)" "names ns" "proper_dir (host_path m)"
  shows "under_dir (host_path m) (join_path [host_path m, trim_prefix (abs_path ns) (agent_path m)])"
proof -
  from assms(3) obtain hs where hs: "names hs" "hs \<noteq> []" "host_path m = abs_path hs"
    by (rule proper_dir_form)
  have "\<forall>c \<in> set (split_on CHR ''/'' (trim_prefix (abs_path ns) (agent_path m))). c = [] \<or> is_name c"
  proof (cases "abs_path ns = agent_path m")
    case True
    then show ?thesis by (simp add: trim_prefix_def)
  next
    case False
    with assms(1) obtain t where t: "abs_path ns = agent_path m @ CHR ''/'' # t"
      by (auto simp: covers_def has_prefix_iff)
    from clean_rest_names [OF assms(2) t] show ?thesis by (simp add: t)
  qed
  with hs(1) obtain us where "names us"
      "join_path [abs_path hs, trim_prefix (abs_path ns) (agent_path m)] = abs_path (hs @ us)"
    by (rule join_path_below)
  with hs show ?thesis by (simp add: under_dir_app)
qed

lemma under_dir_prefix: "under_dir r h \<Longrightarrow> has_prefix h r"
  by (auto simp: under_dir_def has_prefix_iff)

lemma resolve_cases:
  assumes "wf_proxy p" "is_abs path"
  shows "(\<exists>m \<in> set (fp_mounts p). covers m (clean path) \<and>
            resolve p path = Inr (join_path [host_path m, trim_prefix (clean path) (agent_path m)]) \<and>
            under_dir (host_path m) (join_path [host_path m, trim_prefix (clean path) (agent_path m)]))
       \<or> (find (\<lambda>m. covers m (clean path)) (fp_mounts p) = None \<and>
            resolve p path = Inr (join_path [room_rootfs p, clean path]) \<and>
            under_dir (room_rootfs p) (join_path [room_rootfs p, clean path]))"
proof -
  from assms(2) obtain ns where ns: "names ns" "clean path = abs_path ns"
    by (rule clean_abs_form)
  show ?thesis
  proof (cases "find (\<lambda>m. covers m (clean path)) (fp_mounts p)")
    case None
    from assms(1) obtain rs where rs: "names rs" "rs \<noteq> []" "room_rootfs p = abs_path rs"
      by (auto simp: wf_proxy_def elim: proper_dir_form)
    with ns have j: "join_path [room_rootfs p, clean path] = abs_path (rs @ ns)"
      by (simp add: join_path_abs_abs)
    with rs have "under_dir (room_rootfs p) (join_path [room_rootfs p, clean path])"
      by (simp add: under_dir_app)
    with None assms(2) show ?thesis by (auto simp: resolve_def under_dir_def Let_def)
  next
    case (Some m)
    then have m: "m \<in> set (fp_mounts p)" "covers m (clean path)"
      by (auto simp: find_Some_iff)
    with assms(1) have "proper_dir (host_path m)" by (auto simp: wf_proxy_def list_all_iff)
    with m ns have u: "under_dir (host_path m) (join_path [host_path m, trim_prefix (clean path) (agent_path m)])"
      using covered_host by simp
    with m Some assms(2) show ?thesis
      by (auto simp: resolve_def Let_def dest: under_dir_prefix)
  qed
qed

interpretation rootfs_jail: path_guard plain_proxy room_rootfs resolve
proof unfold_locales
  fix r p h
  assume r: "plain_proxy r" "resolve r p = Inr h"
  then have "is_abs p" by (auto simp: resolve_def split: if_splits)
  with r resolve_cases [of r p] show "under_dir (room_rootfs r) h"
    by (auto simp: plain_proxy_def)
qed

subsection \<open>Properties\<close>

text \<open>C9. Path confinement. A path the file proxy accepts resolves below the Room's root file system
  or below the host directory of one of the agent's mounts; every absolute path is accepted, so the
  two escape checks after the join never fire.\<close>

theorem resolve_confined:
  assumes "wf_proxy p"
  shows "(resolve p path = Inr h \<longrightarrow>
            under_dir (room_rootfs p) h \<or> (\<exists>m \<in> set (fp_mounts p). under_dir (host_path m) h))
       \<and> (is_abs path \<longleftrightarrow> is_ok (resolve p path))"
proof (cases "is_abs path")
  case True
  with resolve_cases [OF assms True] show ?thesis by auto
next
  case False
  then show ?thesis by (simp add: resolve_def)
qed

definition kb_mount :: ns_mount where
  "kb_mount = \<lparr>mnt_source = ''/v/kb'', mnt_target = ''/shared/kb'', mnt_read_only = True\<rparr>"

definition demo_proxy :: fs_proxy where
  "demo_proxy = fs_proxy_of ''/rooms/r1/rootfs'' intern [kb_mount]"

lemma demo_proxy_simps:
  "room_rootfs demo_proxy = ''/rooms/r1/rootfs''"
  "fp_mounts demo_proxy = [\<lparr>agent_path = ''/shared/kb'', host_path = ''/v/kb''\<rparr>]"
  "fp_rank demo_proxy = mounted_rank intern [kb_mount]"
  by (simp_all add: demo_proxy_def fs_proxy_of_def redirects_def kb_mount_def)

lemma demo_wf: "wf_proxy demo_proxy"
  by (simp add: wf_proxy_def demo_proxy_simps proper_dir_def path_eval)

theorem resolve_confined_witness:
  "under_dir ''/rooms/r1/rootfs'' ''/rooms/r1/rootfs/etc'' \<and> is_ok (resolve demo_proxy ''/../../etc'')"
  using resolve_confined [OF demo_wf, of "''/../../etc''"] by (simp add: is_abs_def under_dir_def)

text \<open>Cross-Room isolation. Two agents without mounts whose Rooms have disjoint root file systems
  can never make the proxy open the same host path, whatever paths they spell.\<close>

theorem rooms_isolated:
  assumes "plain_proxy p" "plain_proxy q"
    and "\<not> under_dir (room_rootfs p) (room_rootfs q)" "\<not> under_dir (room_rootfs q) (room_rootfs p)"
    and "resolve p x = Inr h" "resolve q y = Inr h'"
  shows "h \<noteq> h'"
  using rootfs_jail.never_meets [OF assms(1,2,5,6,3,4)] .

definition room_proxy :: "string \<Rightarrow> fs_proxy" where
  "room_proxy root = \<lparr>room_rootfs = root, fp_rank = intern, fp_mounts = []\<rparr>"

theorem rooms_isolated_witness:
  "resolve (room_proxy ''/r/a'') ''/../b/x'' = Inr ''/r/a/b/x'' \<and>
   resolve (room_proxy ''/r/b'') ''/x'' = Inr ''/r/b/x'' \<and> ''/r/a/b/x'' \<noteq> ''/r/b/x''"
proof -
  have "plain_proxy (room_proxy ''/r/a'')" "plain_proxy (room_proxy ''/r/b'')"
    by (simp_all add: plain_proxy_def wf_proxy_def room_proxy_def proper_dir_def path_eval)
  moreover have "resolve (room_proxy ''/r/a'') ''/../b/x'' = Inr ''/r/a/b/x''"
    "resolve (room_proxy ''/r/b'') ''/x'' = Inr ''/r/b/x''"
    by (simp_all add: resolve_def room_proxy_def path_eval)
  ultimately show ?thesis
    using rooms_isolated [of "room_proxy ''/r/a''" "room_proxy ''/r/b''" "''/../b/x''" "''/r/a/b/x''"
        "''/x''" "''/r/b/x''"]
    by (simp add: room_proxy_def under_dir_def)
qed


lemma clean_dir_tmp: "clean_dir ''/tmp''"
  by (simp add: clean_dir_def path_eval)


text \<open>The rank check sees the path as the agent wrote it while the proxy opens the cleaned one, so a
  dot-dot bypasses it: an intern may not read \<open>/data\<close> nor write the read-only volume
  mounted at \<open>/shared/kb\<close>, yet both succeed through \<open>/tmp/..\<close>.\<close>

theorem rank_bypass_by_dotdot:
  "\<not> allow_read (fp_rank demo_proxy) ''/data/x'' \<and>
   fs_read_file demo_proxy [''/rooms/r1/rootfs/data/x'' \<mapsto> ''secret''] (Some ''/tmp/../data/x'')
     = Inr ''secret'' \<and>
   \<not> allow_write (fp_rank demo_proxy) ''/shared/kb/x'' \<and>
   fs_write_file demo_proxy io_good (Some (''/tmp/../shared/kb/x'', ''owned'')) Map.empty
     = (Inr (), [''/v/kb/x'' \<mapsto> ''owned''])"
  by (simp add: fs_read_file_def fs_write_file_def resolve_def demo_proxy_simps covers_def path_eval
      allow_read_def allow_write_def mounted_rank_def kb_mount_def intern_def io_good_def
      trim_prefix_def has_suffix_def trim_suffix_def)

end
