(* ===== verification/Hire.thy ===== *)
theory Hire
  imports Quota Fs_Proxy Images
begin

section \<open>Hiring and restarting (daemon.go, hire_junior.go, runners.go, room.go, roomstate.go)\<close>

text \<open>
  A hire looks up the image, its rank and the volumes, prepares the image for its kind, installs
  the member's quota limits and spawns the process; \<^verbatim>\<open>hire/junior\<close> does so for an agent, after
  the rank check and after charging the parent for what the child may use; the exit of a child
  refunds the parent. The members of every Room are written to its state file, from which a
  restart hires them again. The daemon's state is the Rooms with their members (an association
  list, whose order is the order a Go range loop visits them in), the quota actor, the rank
  registry, the lookups in the image store and in the volumes, and the state files. What a spawn
  meets (the runner binary, the sandbox, the process, the clock, the state file's write) is the
  record \<open>spawn\<close>.
\<close>

record volume_ref =
  vr_name :: string
  vr_mode :: string
  vr_mountpoint :: string

record hmember =
  hm_name :: string
  hm_image :: image_ref
  hm_rank :: rank
  hm_model :: string
  hm_quota :: "quota option"
  hm_mounts :: "ns_mount list"
  hm_volumes :: "volume_ref list"
  hm_parent :: string
  hm_hired_at :: int

record binding =
  bd_volume :: string
  bd_subdir :: string

record hroom =
  hr_name :: string
  hr_members :: "(string \<times> hmember) list"
  hr_bindings :: "binding list"

text \<open>The quota override of a request is raw JSON: absent or null, unreadable, or a quota.\<close>

datatype quota_raw = NoQuota | BadQuota | QuotaJson quota

record member_snap =
  ms_image :: image_ref
  ms_rank :: string
  ms_model :: string
  ms_quota :: quota_raw
  ms_volumes :: "volume_ref list"
  ms_hired_at :: int
  ms_parent :: string
  ms_name :: string

record snapshot =
  sn_version :: int
  sn_name :: string
  sn_members :: "member_snap list"
  sn_bindings :: "binding list"

record hdaemon =
  hd_rooms :: "string \<rightharpoonup> hroom"
  hd_quota :: actor
  hd_ranks :: registry
  hd_images :: "image_ref \<Rightarrow> image res"
  hd_volumes :: "string \<Rightarrow> volume res"
  hd_rooms_dir :: string
  hd_state :: "string \<rightharpoonup> snapshot"
  hd_shutting :: bool

record spawn =
  sp_link :: "string \<Rightarrow> bool"
  sp_cmd :: bool
  sp_start :: bool
  sp_init :: bool
  sp_save :: bool
  sp_now :: int

record hire_config =
  hc_image :: image_ref
  hc_rank :: string
  hc_model :: string
  hc_quota :: quota_raw
  hc_volumes :: "volume_ref list"
  hc_parent :: string
  hc_name :: string

subsection \<open>Runners\<close>

definition runner_entry :: string where "runner_entry = ''__hive_runner__''"

definition runner_bins :: "string \<rightharpoonup> string" where
  "runner_bins = [''skill'' \<mapsto> ''hive-skill-runner'', ''workflow'' \<mapsto> ''hive-workflow-runner'']"

definition runner_bin :: "string \<Rightarrow> string \<Rightarrow> string \<Rightarrow> string" where
  "runner_bin runner_dir self nm =
     (if runner_dir \<noteq> [] then join_path [runner_dir, nm] else join_path [path_dir self, nm])"

definition shared_runner_env :: "image \<Rightarrow> string \<Rightarrow> string list" where
  "shared_runner_env img model_override =
     [''HIVE_MODEL='' @ (if model_override \<noteq> [] then model_override else mf_model (img_manifest img)),
      ''HIVE_TOOLS='' @ join_with CHR '','' (mf_tools (img_manifest img))]"

definition link_runner :: "spawn \<Rightarrow> image \<Rightarrow> string \<Rightarrow> image res" where
  "link_runner sp img kind =
     (case runner_bins kind of
        None \<Rightarrow> Inl Plain
      | Some _ \<Rightarrow>
          if sp_link sp kind
          then Inr (img\<lparr>img_manifest := (img_manifest img)\<lparr>mf_entry := runner_entry\<rparr>\<rparr>)
          else Inl Plain)"

definition prepare_image_by_kind :: "spawn \<Rightarrow> image \<Rightarrow> string \<Rightarrow> (image \<times> string list) res" where
  "prepare_image_by_kind sp img model_override =
     (let m = img_manifest img in
      if mf_kind m = ''skill'' then
        (case link_runner sp img ''skill'' of
           Inl e \<Rightarrow> Inl e
         | Inr prepared \<Rightarrow>
             Inr (prepared, (''HIVE_SKILL_PATH=/app/'' @ mf_skill m) # shared_runner_env img model_override))
      else if mf_kind m = ''workflow'' then
        (case link_runner sp img ''workflow'' of
           Inl e \<Rightarrow> Inl e
         | Inr prepared \<Rightarrow>
             if mf_workflow m \<noteq> [] then
               Inr (prepared, (''HIVE_WORKFLOW_PATH=/app/'' @ mf_workflow m) # shared_runner_env img model_override)
             else if mf_planner m \<noteq> [] then
               Inr (prepared, (''HIVE_PLANNER_PATH=/app/'' @ mf_planner m) # shared_runner_env img model_override)
             else Inl Plain)
      else Inr (img, []))"

subsection \<open>The hire\<close>

definition workspace_dir :: "hdaemon \<Rightarrow> string \<Rightarrow> string" where
  "workspace_dir d rid = join_path [hd_rooms_dir d, rid, ''workspace'']"

definition stderr_log :: "hdaemon \<Rightarrow> string \<Rightarrow> string \<Rightarrow> string" where
  "stderr_log d rid nm = join_path [hd_rooms_dir d, rid, ''logs'', nm @ ''.stderr.log'']"

definition mount_of :: "volume_ref \<Rightarrow> volume \<Rightarrow> ns_mount" where
  "mount_of v vol =
     (let mode = (if vr_mode v = [] then ''ro'' else vr_mode v)
      in \<lparr>mnt_source = vol_path vol, mnt_target = vr_mountpoint v, mnt_read_only = (mode = ''ro'')\<rparr>)"

fun resolve_volumes :: "(string \<Rightarrow> volume res) \<Rightarrow> volume_ref list \<Rightarrow> ns_mount list res" where
  "resolve_volumes get [] = Inr []"
| "resolve_volumes get (v # vs) =
     (case get (vr_name v) of
        Inl _ \<Rightarrow> Inl InvalidParams
      | Inr vol \<Rightarrow>
          (case resolve_volumes get vs of Inl e \<Rightarrow> Inl e | Inr ms \<Rightarrow> Inr (mount_of v vol # ms)))"

text \<open>The member a configuration stands for: every check made before the Room is asked to hire.\<close>

definition member_for :: "spawn \<Rightarrow> string \<Rightarrow> hire_config \<Rightarrow> hdaemon \<Rightarrow> hmember res" where
  "member_for sp rid cfg d =
     (case hd_images d (hc_image cfg) of
        Inl _ \<Rightarrow> Inl ImageNotFound
      | Inr img \<Rightarrow>
          (let m = img_manifest img;
               rank_name = (if hc_rank cfg = [] then mf_rank m else hc_rank cfg) in
           case get_rank (hd_ranks d) rank_name of
             Inl _ \<Rightarrow> Inl RankViolation
           | Inr rk \<Rightarrow>
               if \<not> list_all (has_capability rk) (cap_requires (mf_caps m)) then Inl RankViolation
               else case prepare_image_by_kind sp img (hc_model cfg) of
                   Inl _ \<Rightarrow> Inl Internal
                 | Inr (prepared, _) \<Rightarrow>
                     if hc_quota cfg = BadQuota then Inl InvalidParams
                     else case resolve_volumes (hd_volumes d) (hc_volumes cfg) of
                         Inl e \<Rightarrow> Inl e
                       | Inr vols \<Rightarrow>
                           Inr \<lparr>hm_name = (if hc_name cfg = [] then mf_name m else hc_name cfg),
                                hm_image = image_ref_of prepared, hm_rank = rk, hm_model = hc_model cfg,
                                hm_quota = (case hc_quota cfg of QuotaJson q \<Rightarrow> Some q | _ \<Rightarrow> None),
                                hm_mounts = \<lparr>mnt_source = workspace_dir d rid, mnt_target = ''/workspace'',
                                             mnt_read_only = False\<rparr> # vols,
                                hm_volumes = hc_volumes cfg, hm_parent = hc_parent cfg,
                                hm_hired_at = sp_now sp\<rparr>))"

definition bucket_key :: "string \<Rightarrow> string \<Rightarrow> string \<Rightarrow> qkey" where
  "bucket_key rid nm res = \<lparr>k_room = rid, k_agent = nm, k_resource = res\<rparr>"

text \<open>The buckets of a quota by the name the actor knows them by, in the order of the two loops.\<close>

definition quota_buckets :: "quota \<Rightarrow> (string \<times> int) list" where
  "quota_buckets q = map (\<lambda>(k, v). (''tokens:'' @ k, v)) (q_tokens q) @ q_api_calls q"

definition install_quota :: "string \<Rightarrow> hmember \<Rightarrow> actor \<Rightarrow> actor" where
  "install_quota rid m a =
     foldl (\<lambda>a (r, v). snd (set_limit a (bucket_key rid (hm_name m) r) v)) a
       (quota_buckets (effective_quota (hm_rank m) (hm_quota m)))"

definition room_hire :: "spawn \<Rightarrow> string \<Rightarrow> hroom \<Rightarrow> hmember \<Rightarrow> hdaemon \<Rightarrow> hmember res \<times> hdaemon" where
  "room_hire sp rid r m d =
     (if hm_name m \<in> fst ` set (hr_members r) then (Inl Plain, d)
      else if \<not> sp_cmd sp then (Inl Plain, d)
      else let d = d\<lparr>hd_quota := install_quota rid m (hd_quota d)\<rparr> in
        if \<not> sp_start sp then (Inl Plain, d)
        else if \<not> sp_init sp then (Inl Plain, d)
        else (Inr m, d\<lparr>hd_rooms := (hd_rooms d)(rid \<mapsto> r\<lparr>hr_members := hr_members r @ [(hm_name m, m)]\<rparr>)\<rparr>))"

definition hire_from_config :: "spawn \<Rightarrow> string \<Rightarrow> hire_config \<Rightarrow> hdaemon \<Rightarrow> hmember res \<times> hdaemon" where
  "hire_from_config sp rid cfg d =
     (case member_for sp rid cfg d of
        Inl e \<Rightarrow> (Inl e, d)
      | Inr m \<Rightarrow>
          (case hd_rooms d rid of
             None \<Rightarrow> (Inl RoomNotFound, d)
           | Some r \<Rightarrow> room_hire sp rid r m d))"

subsection \<open>State files\<close>

definition alias_or_empty :: "string \<Rightarrow> string \<Rightarrow> string" where
  "alias_or_empty nm image_name = (if nm = image_name then [] else nm)"

definition snap_of :: "hmember \<Rightarrow> member_snap" where
  "snap_of m =
     \<lparr>ms_image = hm_image m, ms_rank = rk_name (hm_rank m), ms_model = hm_model m,
      ms_quota = (case hm_quota m of None \<Rightarrow> NoQuota | Some q \<Rightarrow> QuotaJson q),
      ms_volumes = hm_volumes m, ms_hired_at = hm_hired_at m, ms_parent = hm_parent m,
      ms_name = alias_or_empty (hm_name m) (ref_name (hm_image m))\<rparr>"

definition snap_name :: "member_snap \<Rightarrow> string" where
  "snap_name s = (if ms_name s = [] then ref_name (ms_image s) else ms_name s)"

definition snapshot_for :: "hroom \<Rightarrow> snapshot" where
  "snapshot_for r =
     \<lparr>sn_version = 1, sn_name = hr_name r,
      sn_members = sort_key snap_name (map (snap_of \<circ> snd) (hr_members r)),
      sn_bindings = hr_bindings r\<rparr>"

definition persist_room :: "spawn \<Rightarrow> string \<Rightarrow> hdaemon \<Rightarrow> hdaemon" where
  "persist_room sp rid d =
     (case hd_rooms d rid of
        None \<Rightarrow> d
      | Some r \<Rightarrow> if sp_save sp then d\<lparr>hd_state := (hd_state d)(rid \<mapsto> snapshot_for r)\<rparr> else d)"

definition handle_agent_hire ::
  "spawn \<Rightarrow> (string \<times> hire_config) option \<Rightarrow> hdaemon \<Rightarrow> hmember res \<times> hdaemon" where
  "handle_agent_hire sp params d =
     (case params of
        None \<Rightarrow> (Inl InvalidParams, d)
      | Some (rid, cfg) \<Rightarrow>
          if hd_rooms d rid = None then (Inl RoomNotFound, d)
          else case hire_from_config sp rid (cfg\<lparr>hc_parent := [], hc_name := []\<rparr>) d of
              (Inl e, d) \<Rightarrow> (Inl e, d)
            | (Inr m, d) \<Rightarrow> (Inr m, persist_room sp rid d))"

subsection \<open>Hiring a junior\<close>

record junior_params =
  jp_ref :: string
  jp_rank :: string
  jp_name :: string
  jp_model :: string
  jp_quota :: "quota option"
  jp_volumes :: "volume_ref list"

text \<open>One pass of the two carve loops: each entry is charged to the parent, the first refusal ends it.\<close>

fun carve_buckets :: "string \<Rightarrow> string \<Rightarrow> (string \<times> int) list \<Rightarrow> actor \<Rightarrow> unit res \<times> actor" where
  "carve_buckets rid parent [] a = (Inr (), a)"
| "carve_buckets rid parent ((r, n) # bs) a =
     (if n \<le> 0 then carve_buckets rid parent bs a
      else case consume a (bucket_key rid parent r) n of
          (Inl _, a) \<Rightarrow> (Inl Internal, a)
        | (Inr x, a) \<Rightarrow>
            if r_unlimited x then carve_buckets rid parent bs a
            else if \<not> r_allowed x then (Inl QuotaExceeded, a)
            else carve_buckets rid parent bs a)"

definition carve_quota_from_parent :: "string \<Rightarrow> string \<Rightarrow> quota \<Rightarrow> actor \<Rightarrow> unit res \<times> actor" where
  "carve_quota_from_parent rid parent q a = carve_buckets rid parent (quota_buckets q) a"

definition handle_hire_junior ::
  "spawn \<Rightarrow> string \<Rightarrow> hmember \<Rightarrow> junior_params option \<Rightarrow> hdaemon \<Rightarrow> hmember res \<times> hdaemon" where
  "handle_hire_junior sp rid parent params d =
     (case params of
        None \<Rightarrow> (Inl InvalidParams, d)
      | Some p \<Rightarrow>
          if jp_ref p = [] then (Inl InvalidParams, d)
          else if jp_rank p = [] then (Inl InvalidParams, d)
          else case parse_image_ref (jp_ref p) of
              Inl _ \<Rightarrow> (Inl InvalidParams, d)
            | Inr ref \<Rightarrow>
                (case get_rank (hd_ranks d) (jp_rank p) of
                   Inl _ \<Rightarrow> (Inl RankViolation, d)
                 | Inr child_rank \<Rightarrow>
                     if \<not> is_ok (can_hire (Some (hm_rank parent)) (Some child_rank)) then (Inl PermissionDenied, d)
                     else
                       (case (case jp_quota p of
                                None \<Rightarrow> (Inr (), hd_quota d)
                              | Some q \<Rightarrow> carve_quota_from_parent rid (hm_name parent) q (hd_quota d)) of
                          (Inl e, a) \<Rightarrow> (Inl e, d\<lparr>hd_quota := a\<rparr>)
                        | (Inr _, a) \<Rightarrow>
                            (case hire_from_config sp rid
                                    \<lparr>hc_image = ref, hc_rank = rk_name child_rank, hc_model = jp_model p,
                                     hc_quota = (case jp_quota p of None \<Rightarrow> NoQuota | Some q \<Rightarrow> QuotaJson q),
                                     hc_volumes = jp_volumes p, hc_parent = hm_name parent, hc_name = jp_name p\<rparr>
                                    (d\<lparr>hd_quota := a\<rparr>) of
                               (Inl e, d) \<Rightarrow> (Inl e, d)
                             | (Inr m, d) \<Rightarrow> (Inr m, persist_room sp rid d)))))"

subsection \<open>The exit of an agent\<close>

definition refund_one_bucket :: "qkey \<Rightarrow> qkey \<Rightarrow> actor \<Rightarrow> actor" where
  "refund_one_bucket child parent a =
     (case get_remaining a child of
        (Inl _, a) \<Rightarrow> a
      | (Inr x, a) \<Rightarrow>
          if r_unlimited x \<or> r_remaining x \<le> 0 then a
          else snd (uncharge a parent (r_remaining x)))"

definition refund_carves_to_parent :: "string \<Rightarrow> hmember \<Rightarrow> actor \<Rightarrow> actor" where
  "refund_carves_to_parent rid child a =
     (if hm_parent child = [] then a
      else foldl (\<lambda>a (r, _). refund_one_bucket (bucket_key rid (hm_name child) r)
                               (bucket_key rid (hm_parent child) r) a)
             a (quota_buckets (effective_quota (hm_rank child) (hm_quota child))))"

definition agent_exit :: "spawn \<Rightarrow> string \<Rightarrow> string \<Rightarrow> hdaemon \<Rightarrow> hdaemon" where
  "agent_exit sp rid nm d =
     (case hd_rooms d rid of
        None \<Rightarrow> d
      | Some r \<Rightarrow>
          (case map_of (hr_members r) nm of
             None \<Rightarrow> d
           | Some m \<Rightarrow>
               (let d = d\<lparr>hd_rooms := (hd_rooms d)(rid \<mapsto> r\<lparr>hr_members := filter (\<lambda>x. fst x \<noteq> nm) (hr_members r)\<rparr>)\<rparr>;
                    d = (if hm_parent m \<noteq> [] then d\<lparr>hd_quota := refund_carves_to_parent rid m (hd_quota d)\<rparr> else d)
                in if hd_shutting d then d else persist_room sp rid d)))"

subsection \<open>Recovery\<close>

definition config_of :: "member_snap \<Rightarrow> hire_config" where
  "config_of s =
     \<lparr>hc_image = ms_image s, hc_rank = ms_rank s, hc_model = ms_model s, hc_quota = ms_quota s,
      hc_volumes = ms_volumes s, hc_parent = ms_parent s, hc_name = ms_name s\<rparr>"

fun rehire_all :: "spawn \<Rightarrow> string \<Rightarrow> member_snap list \<Rightarrow> hdaemon \<Rightarrow> hdaemon" where
  "rehire_all sp rid [] d = d"
| "rehire_all sp rid (s # ss) d = rehire_all sp rid ss (snd (hire_from_config sp rid (config_of s) d))"

definition recover_one :: "spawn \<Rightarrow> string \<Rightarrow> snapshot \<Rightarrow> hdaemon \<Rightarrow> hdaemon" where
  "recover_one sp rid sn d =
     (let r = \<lparr>hr_name = sn_name sn, hr_members = [],
               hr_bindings = filter (\<lambda>b. is_ok (hd_volumes d (bd_volume b))) (sn_bindings sn)\<rparr>
      in rehire_all sp rid (sn_members sn) (d\<lparr>hd_rooms := (hd_rooms d)(rid \<mapsto> r)\<rparr>))"

text \<open>The state files of the Room directories a listing gives, those of a newer schema left out.\<close>

definition load_all :: "string list \<Rightarrow> (string \<rightharpoonup> snapshot) \<Rightarrow> (string \<times> snapshot) list" where
  "load_all ls st =
     concat (map (\<lambda>rid. case st rid of None \<Rightarrow> [] | Some sn \<Rightarrow> if sn_version sn > 1 then [] else [(rid, sn)]) ls)"

definition recover_rooms :: "spawn \<Rightarrow> string list \<Rightarrow> hdaemon \<Rightarrow> hdaemon" where
  "recover_rooms sp ls d =
     foldl (\<lambda>d (rid, sn). recover_one sp rid sn d) d (sort_key fst (load_all ls (hd_state d)))"

subsection \<open>What a hire gives\<close>

lemma image_ref_name: "image_ref_of img = r \<Longrightarrow> mf_name (img_manifest img) = ref_name r"
  by (auto simp: image_ref_of_def)

lemma link_runner_ref: "link_runner sp img k = Inr img' \<Longrightarrow> image_ref_of img' = image_ref_of img"
  by (auto simp: link_runner_def image_ref_of_def split: option.splits if_splits)

lemma prepare_ref:
  "prepare_image_by_kind sp img mo = Inr (img', env) \<Longrightarrow> image_ref_of img' = image_ref_of img"
  by (auto simp: prepare_image_by_kind_def Let_def split: if_splits sum.splits dest: link_runner_ref)

text \<open>A member a restart can hire again: its image, rank and volumes are found as they were.\<close>

definition replayable :: "spawn \<Rightarrow> string \<Rightarrow> hdaemon \<Rightarrow> hmember \<Rightarrow> bool" where
  "replayable sp rid d m \<longleftrightarrow>
     (\<exists>img vols. hd_images d (hm_image m) = Inr img \<and> image_ref_of img = hm_image m
        \<and> get_rank (hd_ranks d) (rk_name (hm_rank m)) = Inr (hm_rank m) \<and> rk_name (hm_rank m) \<noteq> []
        \<and> list_all (has_capability (hm_rank m)) (cap_requires (mf_caps (img_manifest img)))
        \<and> is_ok (prepare_image_by_kind sp img (hm_model m))
        \<and> resolve_volumes (hd_volumes d) (hm_volumes m) = Inr vols
        \<and> hm_mounts m = \<lparr>mnt_source = workspace_dir d rid, mnt_target = ''/workspace'',
                          mnt_read_only = False\<rparr> # vols
        \<and> hm_name m \<noteq> [] \<and> ref_name (hm_image m) \<noteq> [])"

lemma replay_member:
  assumes "replayable sp rid d m"
  shows "member_for sp rid (config_of (snap_of m)) d = Inr (m\<lparr>hm_hired_at := sp_now sp\<rparr>)"
proof -
  from assms obtain img vols where
    i: "hd_images d (hm_image m) = Inr img" "image_ref_of img = hm_image m"
    and r: "get_rank (hd_ranks d) (rk_name (hm_rank m)) = Inr (hm_rank m)" "rk_name (hm_rank m) \<noteq> []"
      "list_all (has_capability (hm_rank m)) (cap_requires (mf_caps (img_manifest img)))"
    and k: "is_ok (prepare_image_by_kind sp img (hm_model m))"
    and v: "resolve_volumes (hd_volumes d) (hm_volumes m) = Inr vols"
      "hm_mounts m = \<lparr>mnt_source = workspace_dir d rid, mnt_target = ''/workspace'', mnt_read_only = False\<rparr> # vols"
    and n: "hm_name m \<noteq> []"
    unfolding replayable_def by blast
  from k obtain img' env where p: "prepare_image_by_kind sp img (hm_model m) = Inr (img', env)"
    by (auto simp: is_ok_iff)
  have "mf_name (img_manifest img) = ref_name (hm_image m)" using i(2) by (rule image_ref_name)
  with i r v n p prepare_ref[OF p] show ?thesis
    by (cases m) (auto simp: member_for_def config_of_def snap_of_def alias_or_empty_def split: option.splits)
qed

lemma member_for_replayable:
  assumes "member_for sp rid cfg d = Inr m"
    and "\<And>r img. hd_images d r = Inr img \<Longrightarrow> image_ref_of img = r \<and> ref_name r \<noteq> []"
    and "\<And>n rk. get_rank (hd_ranks d) n = Inr rk \<Longrightarrow> rk_name rk = n \<and> n \<noteq> []"
  shows "replayable sp rid d m"
proof -
  from assms(1) obtain img rk prepared env vols where
    i: "hd_images d (hc_image cfg) = Inr img"
    and r: "get_rank (hd_ranks d) (if hc_rank cfg = [] then mf_rank (img_manifest img) else hc_rank cfg) = Inr rk"
      "list_all (has_capability rk) (cap_requires (mf_caps (img_manifest img)))"
    and p: "prepare_image_by_kind sp img (hc_model cfg) = Inr (prepared, env)"
    and v: "resolve_volumes (hd_volumes d) (hc_volumes cfg) = Inr vols"
    and m: "hm_image m = image_ref_of prepared" "hm_rank m = rk" "hm_model m = hc_model cfg"
      "hm_volumes m = hc_volumes cfg"
      "hm_name m = (if hc_name cfg = [] then mf_name (img_manifest img) else hc_name cfg)"
      "hm_mounts m = \<lparr>mnt_source = workspace_dir d rid, mnt_target = ''/workspace'', mnt_read_only = False\<rparr> # vols"
    unfolding member_for_def by (auto simp: Let_def split: sum.splits if_splits)
  from assms(2)[OF i] have ref: "image_ref_of img = hc_image cfg" "ref_name (hc_image cfg) \<noteq> []" by auto
  with prepare_ref[OF p] m(1) have "hm_image m = hc_image cfg" by simp
  moreover have "hm_name m \<noteq> []" using m(5) ref(2) image_ref_name[OF ref(1)] by auto
  ultimately show ?thesis
    unfolding replayable_def using i r p v m ref assms(3)[OF r(1)]
    by (intro exI[of _ img] exI[of _ vols]) auto
qed

definition spawn_ok :: "spawn \<Rightarrow> bool" where
  "spawn_ok sp \<longleftrightarrow> sp_cmd sp \<and> sp_start sp \<and> sp_init sp"

lemma room_hire_ok:
  "spawn_ok sp \<Longrightarrow> hm_name m \<notin> fst ` set (hr_members r) \<Longrightarrow>
     room_hire sp rid r m d = (Inr m, d\<lparr>hd_quota := install_quota rid m (hd_quota d),
        hd_rooms := (hd_rooms d)(rid \<mapsto> r\<lparr>hr_members := hr_members r @ [(hm_name m, m)]\<rparr>)\<rparr>)"
  by (simp add: room_hire_def spawn_ok_def)

lemma replayable_frame [simp]:
  "replayable sp rid (d\<lparr>hd_quota := a\<rparr>) m = replayable sp rid d m"
  "replayable sp rid (d\<lparr>hd_rooms := rs\<rparr>) m = replayable sp rid d m"
  "replayable sp rid (d\<lparr>hd_quota := a, hd_rooms := rs\<rparr>) m = replayable sp rid d m"
  by (simp_all add: replayable_def workspace_dir_def)

definition rehired :: "spawn \<Rightarrow> hmember \<Rightarrow> string \<times> hmember" where
  "rehired sp m = (hm_name m, m\<lparr>hm_hired_at := sp_now sp\<rparr>)"

lemma rehire_all_members:
  assumes "spawn_ok sp" "\<forall>m \<in> set ms. replayable sp rid d m" "distinct (map hm_name ms)"
    and "hd_rooms d rid = Some r" "fst ` set (hr_members r) \<inter> hm_name ` set ms = {}"
  shows "hd_rooms (rehire_all sp rid (map snap_of ms) d) rid =
           Some (r\<lparr>hr_members := hr_members r @ map (rehired sp) ms\<rparr>)"
  using assms(2-5)
proof (induction ms arbitrary: d r)
  case (Cons m ms)
  let ?m = "m\<lparr>hm_hired_at := sp_now sp\<rparr>"
  let ?r = "r\<lparr>hr_members := hr_members r @ [(hm_name m, ?m)]\<rparr>"
  let ?d = "d\<lparr>hd_quota := install_quota rid ?m (hd_quota d), hd_rooms := (hd_rooms d)(rid \<mapsto> ?r)\<rparr>"
  have "hire_from_config sp rid (config_of (snap_of m)) d = (Inr ?m, ?d)"
    using Cons.prems replay_member[of sp rid d m] room_hire_ok[OF assms(1), of ?m r rid d]
    by (simp add: hire_from_config_def)
  moreover have "hd_rooms (rehire_all sp rid (map snap_of ms) ?d) rid =
      Some (?r\<lparr>hr_members := hr_members ?r @ map (rehired sp) ms\<rparr>)"
    using Cons.prems by (intro Cons.IH) auto
  ultimately show ?case by (simp add: rehired_def)
qed simp

lemma insort_key_map: "insort_key f (g x) (map g xs) = map g (insort_key (f \<circ> g) x xs)"
  by (induction xs) auto

lemma sort_key_map: "sort_key f (map g xs) = map g (sort_key (f \<circ> g) xs)"
  by (induction xs) (simp_all add: insort_key_map comp_def)

lemma sort_key_cong: "(\<And>x. x \<in> set xs \<Longrightarrow> f x = g x) \<Longrightarrow> sort_key f xs = sort_key g xs"
proof (induction xs)
  case (Cons x xs)
  have "insort_key f x ys = insort_key g x ys" if "set ys \<subseteq> set xs" for ys
    using that Cons.prems by (induction ys) auto
  from this[of "sort_key g xs"] Cons show ?case by simp
qed simp

lemma snap_name_of: "replayable sp rid d m \<Longrightarrow> snap_name (snap_of m) = hm_name m"
  by (auto simp: replayable_def snap_name_def snap_of_def alias_or_empty_def)

text \<open>A restart brings a Room back as it was: when the images, ranks and volumes its members were
  hired with can still be found and the spawns succeed, recovering from the state file written
  for the Room gives the same Room name, bindings and members with the same names, images, ranks,
  models, quotas, mounts, volumes and parents, in the order of their names.\<close>

theorem restart_restores_members:
  assumes "spawn_ok sp" "distinct (map fst (hr_members r))"
    and "\<forall>(nm, m) \<in> set (hr_members r). nm = hm_name m \<and> replayable sp rid d m"
    and "\<forall>b \<in> set (hr_bindings r). is_ok (hd_volumes d (bd_volume b))"
  shows "hd_rooms (recover_one sp rid (snapshot_for r) d) rid =
           Some (r\<lparr>hr_members := map (rehired sp) (sort_key hm_name (map snd (hr_members r)))\<rparr>)"
proof -
  let ?ms = "map snd (hr_members r)"
  have rep: "replayable sp rid d m" "m \<in> set ?ms \<Longrightarrow> True" if "m \<in> set ?ms" for m
    using that assms(3) by auto
  have names: "map fst (hr_members r) = map hm_name ?ms" using assms(3) by (auto simp: comp_def)
  have "sn_members (snapshot_for r) = map snap_of (sort_key (snap_name \<circ> snap_of) ?ms)"
    by (simp add: snapshot_for_def sort_key_map flip: map_map)
  also have "sort_key (snap_name \<circ> snap_of) ?ms = sort_key hm_name ?ms"
    by (rule sort_key_cong) (use snap_name_of rep(1) in fastforce)
  finally have ms: "sn_members (snapshot_for r) = map snap_of (sort_key hm_name ?ms)" .
  let ?r0 = "\<lparr>hr_name = hr_name r, hr_members = [], hr_bindings = hr_bindings r\<rparr>"
  have "hd_rooms (rehire_all sp rid (map snap_of (sort_key hm_name ?ms)) (d\<lparr>hd_rooms := (hd_rooms d)(rid \<mapsto> ?r0)\<rparr>)) rid =
      Some (?r0\<lparr>hr_members := hr_members ?r0 @ map (rehired sp) (sort_key hm_name ?ms)\<rparr>)"
  proof (rule rehire_all_members[OF assms(1)])
    show "distinct (map hm_name (sort_key hm_name ?ms))"
      using assms(2) names by (metis distinct_map distinct_sort set_sort)
  qed (use rep(1) in auto)
  moreover have "filter (\<lambda>b. is_ok (hd_volumes d (bd_volume b))) (hr_bindings r) = hr_bindings r"
    using assms(4) by simp
  ultimately show ?thesis by (simp add: recover_one_def ms) (simp add: snapshot_for_def)
qed

subsection \<open>The rules of hiring a junior\<close>

lemma hire_from_config_ok:
  assumes "hire_from_config sp rid cfg d = (Inr m, d')"
  shows "\<exists>r. member_for sp rid cfg d = Inr m \<and> hd_rooms d rid = Some r \<and> hm_name m \<notin> fst ` set (hr_members r)
    \<and> d' = d\<lparr>hd_quota := install_quota rid m (hd_quota d),
             hd_rooms := (hd_rooms d)(rid \<mapsto> r\<lparr>hr_members := hr_members r @ [(hm_name m, m)]\<rparr>)\<rparr>"
  using assms
  by (auto simp: hire_from_config_def room_hire_def Let_def split: sum.splits option.splits if_splits)

lemma persist_frame [simp]:
  "hd_rooms (persist_room sp rid d) = hd_rooms d" "hd_quota (persist_room sp rid d) = hd_quota d"
  by (simp_all add: persist_room_def split: option.splits)

definition junior_config :: "hmember \<Rightarrow> junior_params \<Rightarrow> image_ref \<Rightarrow> rank \<Rightarrow> hire_config" where
  "junior_config parent p ref rk =
     \<lparr>hc_image = ref, hc_rank = rk_name rk, hc_model = jp_model p,
      hc_quota = (case jp_quota p of None \<Rightarrow> NoQuota | Some q \<Rightarrow> QuotaJson q),
      hc_volumes = jp_volumes p, hc_parent = hm_name parent, hc_name = jp_name p\<rparr>"

definition carve_for :: "string \<Rightarrow> hmember \<Rightarrow> junior_params \<Rightarrow> actor \<Rightarrow> unit res \<times> actor" where
  "carve_for rid parent p a =
     (case jp_quota p of None \<Rightarrow> (Inr (), a) | Some q \<Rightarrow> carve_quota_from_parent rid (hm_name parent) q a)"

lemma handle_hire_junior_steps:
  "handle_hire_junior sp rid parent (Some p) d =
     (if jp_ref p = [] \<or> jp_rank p = [] then (Inl InvalidParams, d)
      else case parse_image_ref (jp_ref p) of
          Inl _ \<Rightarrow> (Inl InvalidParams, d)
        | Inr ref \<Rightarrow>
            (case get_rank (hd_ranks d) (jp_rank p) of
               Inl _ \<Rightarrow> (Inl RankViolation, d)
             | Inr rk \<Rightarrow>
                 if \<not> is_ok (can_hire (Some (hm_rank parent)) (Some rk)) then (Inl PermissionDenied, d)
                 else (case carve_for rid parent p (hd_quota d) of
                     (Inl e, a) \<Rightarrow> (Inl e, d\<lparr>hd_quota := a\<rparr>)
                   | (Inr _, a) \<Rightarrow>
                       (case hire_from_config sp rid (junior_config parent p ref rk) (d\<lparr>hd_quota := a\<rparr>) of
                          (Inl e, d) \<Rightarrow> (Inl e, d)
                        | (Inr m, d) \<Rightarrow> (Inr m, persist_room sp rid d)))))"
  unfolding handle_hire_junior_def carve_for_def junior_config_def by simp

lemma hire_junior_ok:
  assumes "handle_hire_junior sp rid parent (Some p) d = (Inr m, d')"
  obtains ref rk a d1 where "parse_image_ref (jp_ref p) = Inr ref" "get_rank (hd_ranks d) (jp_rank p) = Inr rk"
    "can_hire (Some (hm_rank parent)) (Some rk) = Inr ()"
    "carve_for rid parent p (hd_quota d) = (Inr (), a)"
    "hire_from_config sp rid (junior_config parent p ref rk) (d\<lparr>hd_quota := a\<rparr>) = (Inr m, d1)"
    "d' = persist_room sp rid d1"
  using assms
  unfolding handle_hire_junior_steps
  by (auto simp: is_ok_iff split: if_splits sum.splits prod.splits)

lemma member_for_ok:
  assumes "member_for sp rid cfg d = Inr m"
  shows "\<exists>img. hd_images d (hc_image cfg) = Inr img
     \<and> get_rank (hd_ranks d) (if hc_rank cfg = [] then mf_rank (img_manifest img) else hc_rank cfg) = Inr (hm_rank m)
     \<and> list_all (has_capability (hm_rank m)) (cap_requires (mf_caps (img_manifest img)))
     \<and> hm_parent m = hc_parent cfg
     \<and> hm_quota m = (case hc_quota cfg of QuotaJson q \<Rightarrow> Some q | _ \<Rightarrow> None)
     \<and> hm_name m = (if hc_name cfg = [] then mf_name (img_manifest img) else hc_name cfg)"
  using assms by (auto simp: member_for_def Let_def split: sum.splits if_splits)

text \<open>C28. An agent that hires a junior got what the rules allow: the parent's rank may hire, the
  child's rank is the one asked for and strictly below the parent's, it grants every capability the
  image requires, and the child joins the Room under a name that was free, with the parent's name
  and the quota asked for recorded on it.\<close>

theorem hire_junior_rules:
  assumes "hd_ranks d = default_registry"
    and "handle_hire_junior sp rid parent (Some p) d = (Inr m, d')"
  shows "hire_allowed (hm_rank parent) \<and> rk_level (hm_rank m) < rk_level (hm_rank parent)
       \<and> rk_name (hm_rank m) = jp_rank p \<and> hm_parent m = hm_name parent \<and> hm_quota m = jp_quota p
       \<and> (\<exists>ref img r. parse_image_ref (jp_ref p) = Inr ref \<and> hd_images d ref = Inr img
            \<and> list_all (has_capability (hm_rank m)) (cap_requires (mf_caps (img_manifest img)))
            \<and> hd_rooms d rid = Some r \<and> hm_name m \<notin> fst ` set (hr_members r)
            \<and> hd_rooms d' rid = Some (r\<lparr>hr_members := hr_members r @ [(hm_name m, m)]\<rparr>))"
  using assms(2)
proof (rule hire_junior_ok)
  fix ref rk a d1
  assume ref: "parse_image_ref (jp_ref p) = Inr ref" and rk: "get_rank (hd_ranks d) (jp_rank p) = Inr rk"
    and can: "can_hire (Some (hm_rank parent)) (Some rk) = Inr ()"
    and hire: "hire_from_config sp rid (junior_config parent p ref rk) (d\<lparr>hd_quota := a\<rparr>) = (Inr m, d1)"
    and d': "d' = persist_room sp rid d1"
  from rk assms(1) have name: "rk \<in> {intern, staff, manager, director}" "rk_name rk = jp_rank p"
    using default_registry_get by auto
  then have ne: "rk_name rk \<noteq> []" by auto
  from hire_from_config_ok[OF hire] obtain r where
    mf: "member_for sp rid (junior_config parent p ref rk) (d\<lparr>hd_quota := a\<rparr>) = Inr m"
    and r: "hd_rooms d rid = Some r" "hm_name m \<notin> fst ` set (hr_members r)"
      "hd_rooms d1 rid = Some (r\<lparr>hr_members := hr_members r @ [(hm_name m, m)]\<rparr>)"
    by auto
  from member_for_ok[OF mf] ne name rk have m: "hm_rank m = rk" "hm_parent m = hm_name parent"
      "hm_quota m = jp_quota p"
    and img: "\<exists>img. hd_images d ref = Inr img
      \<and> list_all (has_capability rk) (cap_requires (mf_caps (img_manifest img)))"
    by (auto simp: junior_config_def split: option.splits)
  from can show ?thesis using m img r ref d' name by (auto simp: can_hire_iff)
qed

subsection \<open>Carving\<close>

lemma bucket_key_eq [simp]: "bucket_key a b r = bucket_key c d s \<longleftrightarrow> a = c \<and> b = d \<and> r = s"
  by (auto simp: bucket_key_def)

lemma consume_running:
  assumes "\<not> stopped a" "0 < n" "in_int64 (used a k + n)"
  shows "consume a k n = (case limits a k of
      None \<Rightarrow> (Inr (answer True (-1) True), set_used a k (used a k + n))
    | Some lim \<Rightarrow> if used a k + n > lim then (Inr (answer False (wrap64 (lim - used a k)) False), a)
        else (Inr (answer True (wrap64 (lim - (used a k + n))) False), set_used a k (used a k + n)))"
  using assms by (simp add: quota_defs serve_consume_def wrap64_id split: option.splits)

lemma carve_step:
  assumes "\<not> stopped a" "distinct (map fst ((r, n) # bs))"
    and "\<forall>(s, m) \<in> set ((r, n) # bs). in_int64 (used a (bucket_key rid parent s) + max 0 m)"
    and "carve_buckets rid parent ((r, n) # bs) a = (Inr (), a')"
  obtains a1 where "carve_buckets rid parent bs a1 = (Inr (), a')" "\<not> stopped a1" "distinct (map fst bs)"
    "\<forall>(s, m) \<in> set bs. in_int64 (used a1 (bucket_key rid parent s) + max 0 m)"
    "limits a1 = limits a" "\<forall>(s, m) \<in> set bs. s \<noteq> r"
    "\<And>k. used a1 k = used a k + (if k = bucket_key rid parent r then max 0 n else 0)"
    "\<And>l. limits a (bucket_key rid parent r) = Some l \<Longrightarrow> 0 < n \<Longrightarrow> used a (bucket_key rid parent r) + n \<le> l"
proof -
  let ?k = "bucket_key rid parent r"
  let ?a = "if n \<le> 0 then a else set_used a ?k (used a ?k + n)"
  have fresh: "\<forall>(s, m) \<in> set bs. s \<noteq> r" using assms(2) by force
  have "carve_buckets rid parent bs ?a = (Inr (), a')
      \<and> (\<forall>l. limits a ?k = Some l \<longrightarrow> 0 < n \<longrightarrow> used a ?k + n \<le> l)"
  proof (cases "n \<le> 0")
    case False
    with assms(3) have "in_int64 (used a ?k + n)" by (simp add: max_def split: if_splits)
    from consume_running[OF assms(1) _ this] False assms(4) show ?thesis
      by (auto split: option.splits if_splits)
  qed (use assms(4) in simp)
  with assms fresh show ?thesis by (intro that[of ?a]) auto
qed

lemma carve_others:
  assumes "\<not> stopped a" "distinct (map fst bs)"
    and "\<forall>(r, n) \<in> set bs. in_int64 (used a (bucket_key rid parent r) + max 0 n)"
    and "carve_buckets rid parent bs a = (Inr (), a')"
  shows "limits a' = limits a \<and> (\<forall>k. (\<forall>(r, n) \<in> set bs. k \<noteq> bucket_key rid parent r) \<longrightarrow> used a' k = used a k)"
  using assms
proof (induction bs arbitrary: a)
  case (Cons b bs)
  obtain r n where b: "b = (r, n)" by (cases b)
  from Cons.prems[unfolded b] obtain a1 where run: "carve_buckets rid parent bs a1 = (Inr (), a')"
    and a1: "\<not> stopped a1" "distinct (map fst bs)"
      "\<forall>(s, m) \<in> set bs. in_int64 (used a1 (bucket_key rid parent s) + max 0 m)"
    and "limits a1 = limits a" "\<And>k. used a1 k = used a k + (if k = bucket_key rid parent r then max 0 n else 0)"
    by (rule carve_step) blast
  with Cons.IH[OF a1 run] show ?case by (simp add: b)
qed simp

text \<open>A carve that succeeds charges the parent exactly what was asked: on each bucket named, the
  counter grows by the amount (a zero or negative amount is skipped) and stays within the
  parent's limit where there is one; every other counter and all limits stay. Amounts that pass
  the 64-bit range are left out.\<close>

theorem carve_exact:
  assumes "\<not> stopped a" "distinct (map fst bs)"
    and "\<forall>(r, n) \<in> set bs. in_int64 (used a (bucket_key rid parent r) + max 0 n)"
    and "carve_buckets rid parent bs a = (Inr (), a')"
  shows "limits a' = limits a
     \<and> (\<forall>(r, n) \<in> set bs. used a' (bucket_key rid parent r) = used a (bucket_key rid parent r) + max 0 n
          \<and> (\<forall>lim. limits a (bucket_key rid parent r) = Some lim \<longrightarrow> 0 < n \<longrightarrow>
               used a' (bucket_key rid parent r) \<le> lim))
     \<and> (\<forall>k. (\<forall>(r, n) \<in> set bs. k \<noteq> bucket_key rid parent r) \<longrightarrow> used a' k = used a k)"
  using assms
proof (induction bs arbitrary: a)
  case (Cons b bs)
  obtain r n where b: "b = (r, n)" by (cases b)
  let ?k = "bucket_key rid parent r"
  from Cons.prems[unfolded b] obtain a1 where run: "carve_buckets rid parent bs a1 = (Inr (), a')"
    and a1: "\<not> stopped a1" "distinct (map fst bs)"
      "\<forall>(s, m) \<in> set bs. in_int64 (used a1 (bucket_key rid parent s) + max 0 m)"
    and same: "limits a1 = limits a" "\<forall>(s, m) \<in> set bs. s \<noteq> r"
      "\<And>k. used a1 k = used a k + (if k = ?k then max 0 n else 0)"
    and lim: "\<And>l. limits a ?k = Some l \<Longrightarrow> 0 < n \<Longrightarrow> used a ?k + n \<le> l"
    by (rule carve_step) blast
  note IH = Cons.IH[OF a1 run] and rest = carve_others[OF a1 run]
  have "\<forall>(s, m) \<in> set bs. ?k \<noteq> bucket_key rid parent s" using same(2) by auto
  with rest same have "used a' ?k = used a ?k + max 0 n" by simp
  with IH lim same show ?case by (force simp: b)
qed simp

subsection \<open>Refunds\<close>

lemma refund_one:
  assumes "\<not> stopped a" "limits a ck = Some l" "in_int64 (l - used a ck)" "in_int64 (used a pk - (l - used a ck))"
  shows "refund_one_bucket ck pk a =
     (if l - used a ck \<le> 0 then a else set_used a pk (max 0 (used a pk - (l - used a ck))))"
  using assms
  by (auto simp: refund_one_bucket_def quota_defs serve_remaining_def serve_uncharge_def wrap64_id Let_def split: option.splits)

definition critic_image :: image where
  "critic_image = \<lparr>img_manifest = \<lparr>mf_name = ''critic'', mf_version = ''1'', mf_kind = ''binary'',
      mf_entry = ''bin/critic'', mf_rank = ''staff'', mf_caps = \<lparr>cap_requires = [''llm''], cap_provides = []\<rparr>,
      mf_skill = [], mf_workflow = [], mf_planner = [], mf_model = [], mf_tools = []\<rparr>,
    img_dir = ''/images/critic/1''\<rparr>"

definition critic_ref :: image_ref where "critic_ref = \<lparr>ref_name = ''critic'', ref_version = ''1''\<rparr>"

definition boss :: hmember where
  "boss = \<lparr>hm_name = ''boss'', hm_image = \<lparr>ref_name = ''boss'', ref_version = ''1''\<rparr>, hm_rank = manager,
     hm_model = [], hm_quota = None, hm_mounts = [], hm_volumes = [], hm_parent = [], hm_hired_at = 1\<rparr>"

definition gpt_key :: "string \<Rightarrow> qkey" where "gpt_key nm = bucket_key ''r1'' nm ''tokens:gpt-4o-mini''"

text \<open>A Room with a manager that has used \<open>u\<close> of its 50000 tokens.\<close>

definition boss_daemon :: "int \<Rightarrow> hdaemon" where
  "boss_daemon u = \<lparr>hd_rooms = [''r1'' \<mapsto> \<lparr>hr_name = ''demo'', hr_members = [(''boss'', boss)], hr_bindings = []\<rparr>],
     hd_quota = \<lparr>limits = [gpt_key ''boss'' \<mapsto> 50000], consumed = [gpt_key ''boss'' \<mapsto> u], stopped = False\<rparr>,
     hd_ranks = default_registry,
     hd_images = (\<lambda>r. if r = critic_ref then Inr critic_image else Inl Plain),
     hd_volumes = (\<lambda>_. Inl Plain), hd_rooms_dir = ''/rooms'', hd_state = Map.empty, hd_shutting = False\<rparr>"

definition spawn_a :: spawn where
  "spawn_a = \<lparr>sp_link = (\<lambda>_. True), sp_cmd = True, sp_start = True, sp_init = True, sp_save = True, sp_now = 9\<rparr>"

definition ask_critic :: "quota option \<Rightarrow> junior_params" where
  "ask_critic q = \<lparr>jp_ref = ''critic:1'', jp_rank = ''staff'', jp_name = [], jp_model = [], jp_quota = q,
     jp_volumes = []\<rparr>"

definition critic :: "quota option \<Rightarrow> hmember" where
  "critic q = \<lparr>hm_name = ''critic'', hm_image = critic_ref, hm_rank = staff, hm_model = [], hm_quota = q,
     hm_mounts = [\<lparr>mnt_source = ''/rooms/r1/workspace'', mnt_target = ''/workspace'', mnt_read_only = False\<rparr>],
     hm_volumes = [], hm_parent = ''boss'', hm_hired_at = 9\<rparr>"

lemma boss_simps [simp]:
  "hm_name boss = ''boss''" "hm_rank boss = manager" "hm_parent boss = []"
  "hm_name (critic q) = ''critic''" "hm_parent (critic q) = ''boss''" "hm_rank (critic q) = staff"
  "hm_quota (critic q) = q"
  "hd_rooms (boss_daemon u) ''r1'' = Some \<lparr>hr_name = ''demo'', hr_members = [(''boss'', boss)], hr_bindings = []\<rparr>"
  "hd_ranks (boss_daemon u) = default_registry" "hd_shutting (boss_daemon u) = False"
  "hd_rooms_dir (boss_daemon u) = ''/rooms''"
  "hd_images (boss_daemon u) critic_ref = Inr critic_image"
  by (simp_all add: boss_def critic_def boss_daemon_def)

lemma parse_critic: "parse_image_ref ''critic:1'' = Inr critic_ref"
  using parse_image_ref_string[of critic_ref] by (simp add: critic_ref_def ref_string_def)

lemma staff_rank: "get_rank default_registry ''staff'' = Inr staff"
  by (simp add: get_rank_def default_registry_def)

lemma member_critic:
  "member_for spawn_a ''r1'' (junior_config boss (ask_critic q) critic_ref staff) ((boss_daemon u)\<lparr>hd_quota := a\<rparr>)
     = Inr (critic q)"
proof -
  let ?d = "(boss_daemon u)\<lparr>hd_quota := a\<rparr>"
  have img: "hd_images ?d critic_ref = Inr critic_image" by (simp add: boss_daemon_def)
  have cap: "has_capability staff ''llm''" by (simp add: has_capability_def capabilities_def staff_def)
  have prep: "prepare_image_by_kind spawn_a critic_image [] = Inr (critic_image, [])"
    by (simp add: prepare_image_by_kind_def critic_image_def)
  have m: "mf_name (img_manifest critic_image) = ''critic''" "image_ref_of critic_image = critic_ref"
    "cap_requires (mf_caps (img_manifest critic_image)) = [''llm'']"
    by (simp_all add: critic_image_def image_ref_of_def critic_ref_def)
  have ws: "workspace_dir ?d ''r1'' = ''/rooms/r1/workspace''"
    by (simp add: workspace_dir_def boss_daemon_def path_eval)
  have now: "sp_now spawn_a = 9" by (simp add: spawn_a_def)
  have "hc_image (junior_config boss (ask_critic q) critic_ref staff) = critic_ref"
    "hc_rank (junior_config boss (ask_critic q) critic_ref staff) = ''staff''"
    "hc_model (junior_config boss (ask_critic q) critic_ref staff) = []"
    "hc_quota (junior_config boss (ask_critic q) critic_ref staff) = (case q of None \<Rightarrow> NoQuota | Some x \<Rightarrow> QuotaJson x)"
    "hc_volumes (junior_config boss (ask_critic q) critic_ref staff) = []"
    "hc_parent (junior_config boss (ask_critic q) critic_ref staff) = ''boss''"
    "hc_name (junior_config boss (ask_critic q) critic_ref staff) = []"
    by (simp_all add: junior_config_def ask_critic_def)
  then show ?thesis
    by (cases q) (simp_all add: member_for_def img staff_rank cap prep m ws now critic_def)
qed

text \<open>The manager hires a critic: what the daemon answers and the counters after it.\<close>

lemma hire_critic:
  assumes "carve_for ''r1'' boss (ask_critic q) (hd_quota (boss_daemon u)) = (Inr (), a)"
  shows "\<exists>d'. handle_hire_junior spawn_a ''r1'' boss (Some (ask_critic q)) (boss_daemon u) = (Inr (critic q), d')
     \<and> hd_quota d' = install_quota ''r1'' (critic q) a \<and> hd_shutting d' = False
     \<and> hd_rooms d' ''r1'' = Some \<lparr>hr_name = ''demo'', hr_members = [(''boss'', boss), (''critic'', critic q)], hr_bindings = []\<rparr>"
proof -
  have can: "is_ok (can_hire (Some manager) (Some staff))" by (simp add: can_hire_def)
  have "room_hire spawn_a ''r1'' \<lparr>hr_name = ''demo'', hr_members = [(''boss'', boss)], hr_bindings = []\<rparr> (critic q)
      ((boss_daemon u)\<lparr>hd_quota := a\<rparr>) = (Inr (critic q), (boss_daemon u)\<lparr>hd_quota := install_quota ''r1'' (critic q) a,
        hd_rooms := (hd_rooms (boss_daemon u))(''r1'' \<mapsto> \<lparr>hr_name = ''demo'', hr_members = [(''boss'', boss), (''critic'', critic q)], hr_bindings = []\<rparr>)\<rparr>)"
    by (simp add: room_hire_def spawn_a_def)
  then have h: "hire_from_config spawn_a ''r1'' (junior_config boss (ask_critic q) critic_ref staff) ((boss_daemon u)\<lparr>hd_quota := a\<rparr>)
      = (Inr (critic q), (boss_daemon u)\<lparr>hd_quota := install_quota ''r1'' (critic q) a,
        hd_rooms := (hd_rooms (boss_daemon u))(''r1'' \<mapsto> \<lparr>hr_name = ''demo'', hr_members = [(''boss'', boss), (''critic'', critic q)], hr_bindings = []\<rparr>)\<rparr>)"
    using member_critic[where q = q and u = u and a = a] by (simp add: hire_from_config_def)
  have "jp_ref (ask_critic q) = ''critic:1''" "jp_rank (ask_critic q) = ''staff''" by (simp_all add: ask_critic_def)
  with assms h can show ?thesis
    by (simp add: handle_hire_junior_steps parse_critic staff_rank persist_room_def)
qed

lemma exit_refunds:
  assumes "hd_rooms d rid = Some r" "map_of (hr_members r) nm = Some m" "hm_parent m \<noteq> []"
  shows "hd_quota (agent_exit sp rid nm d) = refund_carves_to_parent rid m (hd_quota d)"
  using assms by (simp add: agent_exit_def Let_def)

lemma staff_buckets: "quota_buckets (effective_quota staff None) =
    [(''tokens:gpt-4o-mini'', 5000), (''http'', 20), (''ai_tool:claude-code'', 10)]"
  by (simp add: quota_buckets_def effective_quota_def staff_def)

lemma set_limit_running:
  "\<not> stopped a \<Longrightarrow> snd (set_limit a k n) = a\<lparr>limits := (limits a)(k \<mapsto> n)\<rparr>"
  by (simp add: quota_defs serve_set_limit_def)

text \<open>The refund at a child's exit is computed from the limits the child has, not from what was
  carved for it: a manager that has used u of its tokens hires a junior without giving it any quota,
  and when the junior exits at once, unused, up to 5000 of the manager's used tokens are given back.
  Repeated, this makes the manager's token budget unlimited.\<close>

theorem refund_without_carve:
  assumes "0 \<le> u" "u \<le> 50000"
  shows "\<exists>m d'. handle_hire_junior spawn_a ''r1'' boss (Some (ask_critic None)) (boss_daemon u) = (Inr m, d')
     \<and> used (hd_quota d') (gpt_key ''boss'') = u
     \<and> used (hd_quota (agent_exit spawn_a ''r1'' (hm_name m) d')) (gpt_key ''boss'') = max 0 (u - 5000)"
proof -
  let ?a = "hd_quota (boss_daemon u)"
  have "jp_quota (ask_critic None) = None" by (simp add: ask_critic_def)
  then have "carve_for ''r1'' boss (ask_critic None) ?a = (Inr (), ?a)" by (simp add: carve_for_def)
  from hire_critic[OF this] obtain d' where
    h: "handle_hire_junior spawn_a ''r1'' boss (Some (ask_critic None)) (boss_daemon u) = (Inr (critic None), d')"
    and q: "hd_quota d' = install_quota ''r1'' (critic None) ?a"
    and r: "hd_rooms d' ''r1'' = Some \<lparr>hr_name = ''demo'', hr_members = [(''boss'', boss), (''critic'', critic None)], hr_bindings = []\<rparr>"
    by blast
  have a: "\<not> stopped ?a" "used ?a (gpt_key ''boss'') = u" "\<And>nm r. nm \<noteq> ''boss'' \<Longrightarrow> used ?a (bucket_key ''r1'' nm r) = 0"
    "\<And>nm r. r \<noteq> ''tokens:gpt-4o-mini'' \<Longrightarrow> used ?a (bucket_key ''r1'' nm r) = 0"
    by (simp_all add: boss_daemon_def used_def gpt_key_def)
  define l where "l = (limits ?a)(bucket_key ''r1'' ''critic'' ''tokens:gpt-4o-mini'' \<mapsto> 5000,
    bucket_key ''r1'' ''critic'' ''http'' \<mapsto> 20, bucket_key ''r1'' ''critic'' ''ai_tool:claude-code'' \<mapsto> 10)"
  have inst: "install_quota ''r1'' (critic None) ?a = ?a\<lparr>limits := l\<rparr>"
    using a(1) by (simp add: install_quota_def staff_buckets set_limit_running l_def)
  have int: "in_int64 n" if "-1000000 \<le> n" "n \<le> 1000000" for n
    using that by (simp add: in_int64_def min_int64_def max_int64_def)
  have "used (refund_carves_to_parent ''r1'' (critic None) (?a\<lparr>limits := l\<rparr>)) (gpt_key ''boss'') = max 0 (u - 5000)"
    using a assms int
    by (simp add: refund_carves_to_parent_def staff_buckets refund_one l_def gpt_key_def)
  then have "used (hd_quota (agent_exit spawn_a ''r1'' ''critic'' d')) (gpt_key ''boss'') = max 0 (u - 5000)"
    using exit_refunds[OF r, of "''critic''" "critic None" spawn_a] by (simp add: q inst)
  moreover have "used (hd_quota d') (gpt_key ''boss'') = u" by (simp add: q inst a)
  ultimately show ?thesis using h by auto
qed

lemma refund_without_carve_witness:
  "\<exists>m d'. handle_hire_junior spawn_a ''r1'' boss (Some (ask_critic None)) (boss_daemon 4000) = (Inr m, d')
     \<and> used (hd_quota d') (gpt_key ''boss'') = 4000
     \<and> used (hd_quota (agent_exit spawn_a ''r1'' (hm_name m) d')) (gpt_key ''boss'') = 0"
  using refund_without_carve[of 4000] by simp

lemma hire_junior_rules_witness:
  "\<exists>m d'. handle_hire_junior spawn_a ''r1'' boss (Some (ask_critic None)) (boss_daemon 0) = (Inr m, d')
     \<and> rk_level (hm_rank m) < rk_level (hm_rank boss) \<and> hm_parent m = ''boss''"
proof -
  have "jp_quota (ask_critic None) = None" by (simp add: ask_critic_def)
  then have "carve_for ''r1'' boss (ask_critic None) (hd_quota (boss_daemon 0)) = (Inr (), hd_quota (boss_daemon 0))"
    by (simp add: carve_for_def)
  from hire_critic[OF this] obtain d' where
    "handle_hire_junior spawn_a ''r1'' boss (Some (ask_critic None)) (boss_daemon 0) = (Inr (critic None), d')" by blast
  with hire_junior_rules[OF _ this] show ?thesis by auto
qed

lemma carve_exact_witness:
  "used (snd (carve_buckets ''r1'' ''boss'' [(''tokens:gpt-4o-mini'', 100)] (hd_quota (boss_daemon 7)))) (gpt_key ''boss'') = 107"
proof -
  let ?a = "hd_quota (boss_daemon 7)"
  have u: "used ?a (gpt_key ''boss'') = 7" "\<not> stopped ?a" "limits ?a (gpt_key ''boss'') = Some 50000"
    by (simp_all add: boss_daemon_def used_def)
  have int: "in_int64 (107::int)" by (simp add: in_int64_def min_int64_def max_int64_def)
  have c: "carve_buckets ''r1'' ''boss'' [(''tokens:gpt-4o-mini'', 100)] ?a =
      (Inr (), set_used ?a (gpt_key ''boss'') 107)"
    using consume_running[of ?a 100 "gpt_key ''boss''"] u int by (simp add: gpt_key_def)
  have "\<forall>(r, n) \<in> set [(''tokens:gpt-4o-mini'', 100::int)].
      used (set_used ?a (gpt_key ''boss'') 107) (bucket_key ''r1'' ''boss'' r) = used ?a (bucket_key ''r1'' ''boss'' r) + max 0 n
      \<and> (\<forall>lim. limits ?a (bucket_key ''r1'' ''boss'' r) = Some lim \<longrightarrow> 0 < n \<longrightarrow>
           used (set_used ?a (gpt_key ''boss'') 107) (bucket_key ''r1'' ''boss'' r) \<le> lim)"
    by (rule carve_exact[OF u(2) _ _ c, THEN conjunct2, THEN conjunct1])
       (use u int in \<open>auto simp: gpt_key_def\<close>)
  with u show ?thesis by (simp add: c gpt_key_def del: carve_buckets.simps)
qed

text \<open>A carve that is refused on its second bucket keeps what the first one charged.\<close>

lemma carve_not_rolled_back:
  "carve_buckets ''r1'' ''boss'' [(''tokens:gpt-4o-mini'', 100), (''tokens:gpt-4o-mini'', 60000)] (hd_quota (boss_daemon 0))
     = (Inl QuotaExceeded, set_used (hd_quota (boss_daemon 0)) (gpt_key ''boss'') 100)"
proof -
  let ?a = "hd_quota (boss_daemon 0)"
  have u: "used ?a (gpt_key ''boss'') = 0" "\<not> stopped ?a" "limits ?a (gpt_key ''boss'') = Some 50000"
    by (simp_all add: boss_daemon_def used_def)
  have int: "in_int64 (100::int)" "in_int64 (60100::int)" by (simp_all add: in_int64_def min_int64_def max_int64_def)
  show ?thesis
    using consume_running[of ?a 100 "gpt_key ''boss''"]
      consume_running[of "set_used ?a (gpt_key ''boss'') 100" 60000 "gpt_key ''boss''"] u int
    by (simp add: gpt_key_def)
qed

lemma restart_restores_members_witness:
  "hd_rooms (recover_one spawn_a ''r1'' (snapshot_for \<lparr>hr_name = ''demo'', hr_members = [(''critic'', critic None)], hr_bindings = []\<rparr>)
      (boss_daemon 0)) ''r1'' =
     Some \<lparr>hr_name = ''demo'', hr_members = [(''critic'', critic None)], hr_bindings = []\<rparr>"
proof -
  have "prepare_image_by_kind spawn_a critic_image [] = Inr (critic_image, [])"
    by (simp add: prepare_image_by_kind_def critic_image_def)
  moreover have "has_capability staff ''llm''" by (simp add: has_capability_def capabilities_def staff_def)
  ultimately have rep: "replayable spawn_a ''r1'' (boss_daemon 0) (critic None)"
    unfolding replayable_def
    by (intro exI[of _ critic_image] exI[of _ "[]"])
       (simp add: critic_def staff_rank workspace_dir_def path_eval, simp add: critic_image_def critic_ref_def image_ref_of_def)
  let ?r = "\<lparr>hr_name = ''demo'', hr_members = [(''critic'', critic None)], hr_bindings = []\<rparr>"
  have "spawn_ok spawn_a" by (simp add: spawn_ok_def spawn_a_def)
  from restart_restores_members[OF this, where r = ?r and d = "boss_daemon 0" and rid = "''r1''"] rep
  show ?thesis by (simp add: rehired_def) (simp add: critic_def spawn_a_def)
qed

text \<open>The name a parent gives its junior goes into a path unchecked: the log of the child is then
  opened outside the Room's logs.\<close>

lemma alias_escapes_logs:
  "stderr_log (boss_daemon 0) ''r1'' ''../../r2/logs/victim'' = ''/rooms/r2/logs/victim.stderr.log''"
  by (simp add: stderr_log_def path_eval)

end
