(* ===== verification/Event_Bus.thy ===== *)
theory Event_Bus
  imports Rank Images "HOL-Library.Word"
begin

section \<open>The event buses (internal/eventbus) and the event proxy (internal/proxy/eventproxy)\<close>

text \<open>
  Agents publish and subscribe to events of their own Room or of a volume. The manager maps a scope
  key to a bus; a bus holds its subscriptions and a counter, and one goroutine takes the envelopes
  that publishers queued, one at a time, and notifies every subscriber but the publisher. A bus that
  is removed from the map lives on for whoever still holds it, so buses live in a heap and the
  map holds their addresses. The two maps that the code ranges over are association lists. A
  connection (the Notifier) is its number.
\<close>

record subscriber =
  sb_id :: string
  sb_conn :: nat
  sb_agent :: string
  sb_room :: string

record envelope =
  en_scope :: string
  en_room :: string
  en_agent :: string
  en_payload :: string

record recv_event =
  rv_scope :: string
  rv_sub :: string
  rv_room :: string
  rv_agent :: string
  rv_seq :: "64 word"
  rv_payload :: string

record ebus =
  eb_key :: string
  eb_subs :: "(string \<times> subscriber) list"
  eb_done :: bool
  eb_seq :: "64 word"

definition default_buf_size :: nat where "default_buf_size = 256"

subsection \<open>One bus\<close>

definition new_bus :: "string \<Rightarrow> ebus" where
  "new_bus key = \<lparr>eb_key = key, eb_subs = [], eb_done = False, eb_seq = 0\<rparr>"

definition drop_sub :: "string \<Rightarrow> (string \<times> subscriber) list \<Rightarrow> (string \<times> subscriber) list" where
  "drop_sub i = filter (\<lambda>x. fst x \<noteq> i)"

definition bus_subscribe :: "subscriber \<Rightarrow> ebus \<Rightarrow> ebus" where
  "bus_subscribe s b = b\<lparr>eb_subs := (sb_id s, s) # drop_sub (sb_id s) (eb_subs b)\<rparr>"

definition bus_unsubscribe :: "string \<Rightarrow> ebus \<Rightarrow> bool \<times> ebus" where
  "bus_unsubscribe i b = (map_of (eb_subs b) i \<noteq> None, b\<lparr>eb_subs := drop_sub i (eb_subs b)\<rparr>)"

text \<open>The answer is (found, owned).\<close>

definition bus_unsubscribe_owned :: "string \<Rightarrow> nat \<Rightarrow> ebus \<Rightarrow> (bool \<times> bool) \<times> ebus" where
  "bus_unsubscribe_owned i owner b =
     (case map_of (eb_subs b) i of
        None \<Rightarrow> ((False, False), b)
      | Some s \<Rightarrow>
          if sb_conn s \<noteq> owner then ((True, False), b)
          else ((True, True), b\<lparr>eb_subs := drop_sub i (eb_subs b)\<rparr>))"

definition bus_unsubscribe_notifier :: "nat \<Rightarrow> ebus \<Rightarrow> ebus" where
  "bus_unsubscribe_notifier n b = b\<lparr>eb_subs := filter (\<lambda>x. sb_conn (snd x) \<noteq> n) (eb_subs b)\<rparr>"

definition stop_bus :: "ebus \<Rightarrow> ebus" where
  "stop_bus b = b\<lparr>eb_done := True\<rparr>"

text \<open>What the goroutine does with one envelope: the notifications it sends, in order, the error it
  answers with, and the bus. \<open>nok\<close> says which connections can be written to.\<close>

definition recv_for :: "64 word \<Rightarrow> envelope \<Rightarrow> subscriber \<Rightarrow> nat \<times> recv_event" where
  "recv_for q e s = (sb_conn s, \<lparr>rv_scope = en_scope e, rv_sub = sb_id s, rv_room = en_room e,
     rv_agent = en_agent e, rv_seq = q, rv_payload = en_payload e\<rparr>)"

definition targets :: "envelope \<Rightarrow> ebus \<Rightarrow> subscriber list" where
  "targets e b = filter (\<lambda>s. \<not> (sb_room s = en_room e \<and> sb_agent s = en_agent e)) (map snd (eb_subs b))"

definition deliver :: "(nat \<Rightarrow> bool) \<Rightarrow> envelope \<Rightarrow> ebus \<Rightarrow> unit res \<times> (nat \<times> recv_event) list \<times> ebus" where
  "deliver nok e b =
     (let q = eb_seq b + 1;
          sent = map (recv_for q e) (targets e b)
      in (if list_all (nok \<circ> fst) sent then Inr () else Inl Plain,
          filter (nok \<circ> fst) sent, b\<lparr>eb_seq := q\<rparr>))"

subsection \<open>The manager\<close>

definition room_key :: "string \<Rightarrow> string" where "room_key rid = ''room:'' @ rid"
definition volume_key :: "string \<Rightarrow> string" where "volume_key nm = ''volume:'' @ nm"

record emgr =
  em_heap :: "nat \<Rightarrow> ebus"
  em_buses :: "(string \<times> nat) list"
  em_next :: nat
  em_down :: bool

definition new_manager :: emgr where
  "new_manager = \<lparr>em_heap = (\<lambda>_. new_bus []), em_buses = [], em_next = 0, em_down = False\<rparr>"

definition on_bus :: "nat \<Rightarrow> (ebus \<Rightarrow> ebus) \<Rightarrow> emgr \<Rightarrow> emgr" where
  "on_bus a f m = m\<lparr>em_heap := (em_heap m)(a := f (em_heap m a))\<rparr>"

definition get_bus :: "string \<Rightarrow> emgr \<Rightarrow> nat option" where
  "get_bus key m = map_of (em_buses m) key"

definition get_or_create :: "string \<Rightarrow> emgr \<Rightarrow> nat \<times> emgr" where
  "get_or_create key m =
     (case map_of (em_buses m) key of
        Some a \<Rightarrow> (a, m)
      | None \<Rightarrow>
          (em_next m, m\<lparr>em_heap := (em_heap m)(em_next m := new_bus key),
                        em_buses := (key, em_next m) # em_buses m, em_next := em_next m + 1\<rparr>))"

fun unsub_owned_in :: "nat list \<Rightarrow> string \<Rightarrow> nat \<Rightarrow> emgr \<Rightarrow> (bool \<times> bool) \<times> emgr" where
  "unsub_owned_in [] i owner m = ((False, False), m)"
| "unsub_owned_in (a # bs) i owner m =
     (let ((f, w), b) = bus_unsubscribe_owned i owner (em_heap m a)
      in if f then ((f, w), on_bus a (\<lambda>_. b) m) else unsub_owned_in bs i owner m)"

definition mgr_unsubscribe_owned :: "string \<Rightarrow> nat \<Rightarrow> emgr \<Rightarrow> (bool \<times> bool) \<times> emgr" where
  "mgr_unsubscribe_owned i owner m = unsub_owned_in (map snd (em_buses m)) i owner m"

definition mgr_unsubscribe_notifier :: "nat \<Rightarrow> emgr \<Rightarrow> emgr" where
  "mgr_unsubscribe_notifier n m =
     fold (\<lambda>a. on_bus a (bus_unsubscribe_notifier n)) (map snd (em_buses m)) m"

definition remove_scope :: "string \<Rightarrow> emgr \<Rightarrow> emgr" where
  "remove_scope key m =
     (let m' = m\<lparr>em_buses := filter (\<lambda>x. fst x \<noteq> key) (em_buses m)\<rparr>
      in case map_of (em_buses m) key of None \<Rightarrow> m' | Some a \<Rightarrow> on_bus a stop_bus m')"

definition mgr_shutdown :: "emgr \<Rightarrow> emgr" where
  "mgr_shutdown m =
     fold (\<lambda>a. on_bus a stop_bus) (map snd (em_buses m)) (m\<lparr>em_down := True, em_buses := []\<rparr>)"

subsection \<open>The proxy\<close>

record event_proxy =
  ep_room :: string
  ep_agent :: string
  ep_rank :: rank
  ep_volumes :: "string \<Rightarrow> volume res"
  ep_conn :: nat

definition ep_gate :: "event_proxy \<Rightarrow> unit res" where
  "ep_gate p = (if memory_allowed (ep_rank p) then Inr () else Inl PermissionDenied)"

definition resolve_scope_key :: "event_proxy \<Rightarrow> string \<Rightarrow> string res" where
  "resolve_scope_key p scope =
     (if scope = [] then Inr (room_key (ep_room p))
      else case ep_volumes p scope of Inl _ \<Rightarrow> Inl InvalidParams | Inr _ \<Rightarrow> Inr (volume_key scope))"

text \<open>A subscription gets the random id \<open>i\<close>.\<close>

definition ep_subscribe :: "event_proxy \<Rightarrow> string \<Rightarrow> string option \<Rightarrow> emgr \<Rightarrow> string res \<times> emgr" where
  "ep_subscribe p i params m =
     (case ep_gate p of
        Inl e \<Rightarrow> (Inl e, m)
      | Inr _ \<Rightarrow>
          (case params of
             None \<Rightarrow> (Inl InvalidParams, m)
           | Some scope \<Rightarrow>
               (case resolve_scope_key p scope of
                  Inl e \<Rightarrow> (Inl e, m)
                | Inr key \<Rightarrow>
                    (let (a, m) = get_or_create key m
                     in (Inr i, on_bus a (bus_subscribe \<lparr>sb_id = i, sb_conn = ep_conn p,
                                  sb_agent = ep_agent p, sb_room = ep_room p\<rparr>) m)))))"

definition ep_unsubscribe :: "event_proxy \<Rightarrow> string option \<Rightarrow> emgr \<Rightarrow> unit res \<times> emgr" where
  "ep_unsubscribe p params m =
     (case ep_gate p of
        Inl e \<Rightarrow> (Inl e, m)
      | Inr _ \<Rightarrow>
          (case params of
             None \<Rightarrow> (Inl InvalidParams, m)
           | Some i \<Rightarrow>
               if i = [] then (Inl InvalidParams, m)
               else (let ((found, owned), m) = mgr_unsubscribe_owned i (ep_conn p) m
                     in if \<not> found then (Inr (), m)
                        else if \<not> owned then (Inl PermissionDenied, m)
                        else (Inr (), m))))"

text \<open>A publish up to the point where the envelope is to be queued at the bus it gives.\<close>

definition ep_publish :: "event_proxy \<Rightarrow> (string \<times> string) option \<Rightarrow> emgr \<Rightarrow> (nat \<times> envelope) res \<times> emgr" where
  "ep_publish p params m =
     (case ep_gate p of
        Inl e \<Rightarrow> (Inl e, m)
      | Inr _ \<Rightarrow>
          (case params of
             None \<Rightarrow> (Inl InvalidParams, m)
           | Some (scope, payload) \<Rightarrow>
               (case resolve_scope_key p scope of
                  Inl e \<Rightarrow> (Inl e, m)
                | Inr key \<Rightarrow>
                    (let (a, m) = get_or_create key m
                     in (Inr (a, \<lparr>en_scope = scope, en_room = ep_room p, en_agent = ep_agent p,
                                   en_payload = payload\<rparr>), m)))))"


subsection \<open>Requests, deliveries and exits in any order\<close>

text \<open>
  The system is the manager, the envelopes queued at each bus and not served yet (at most
  \<open>default_buf_size\<close> of them), and everything that was sent. \<open>who\<close> gives the Room and the agent of
  a connection, which a proxy carries too. A bus that was stopped may still serve what is queued:
  its goroutine ends only with the manager.
\<close>

record esys =
  es_mgr :: emgr
  es_queue :: "(nat \<times> envelope) list"
  es_sent :: "(nat \<times> recv_event) list"

definition proxy_of :: "(nat \<Rightarrow> string \<times> string) \<Rightarrow> event_proxy \<Rightarrow> bool" where
  "proxy_of who p \<longleftrightarrow> who (ep_conn p) = (ep_room p, ep_agent p)"

definition fresh_sub :: "string \<Rightarrow> emgr \<Rightarrow> bool" where
  "fresh_sub i m \<longleftrightarrow> (\<forall>a < em_next m. i \<notin> fst ` set (eb_subs (em_heap m a)))"

inductive estep :: "(nat \<Rightarrow> string \<times> string) \<Rightarrow> esys \<Rightarrow> esys \<Rightarrow> bool"
  for who :: "nat \<Rightarrow> string \<times> string" where
  subscribe: "proxy_of who p \<Longrightarrow> fresh_sub i (es_mgr s) \<Longrightarrow> ep_subscribe p i params (es_mgr s) = (r, m) \<Longrightarrow>
    estep who s (s\<lparr>es_mgr := m\<rparr>)"
| unsubscribe: "proxy_of who p \<Longrightarrow> ep_unsubscribe p params (es_mgr s) = (r', m) \<Longrightarrow>
    estep who s (s\<lparr>es_mgr := m\<rparr>)"
| publish: "proxy_of who p \<Longrightarrow> ep_publish p params (es_mgr s) = (Inr (a, e), m) \<Longrightarrow>
    length (filter (\<lambda>x. fst x = a) (es_queue s)) < default_buf_size \<Longrightarrow>
    estep who s (s\<lparr>es_mgr := m, es_queue := es_queue s @ [(a, e)]\<rparr>)"
| refused: "proxy_of who p \<Longrightarrow> ep_publish p params (es_mgr s) = (q, m) \<Longrightarrow> estep who s (s\<lparr>es_mgr := m\<rparr>)"
| serve: "es_queue s = xs @ (a, e) # ys \<Longrightarrow> a \<notin> fst ` set xs \<Longrightarrow> \<not> em_down (es_mgr s) \<Longrightarrow>
    deliver nok e (em_heap (es_mgr s) a) = (r'', out, b) \<Longrightarrow>
    estep who s (s\<lparr>es_mgr := on_bus a (\<lambda>_. b) (es_mgr s), es_queue := xs @ ys, es_sent := es_sent s @ out\<rparr>)"
| agent_exit: "estep who s (s\<lparr>es_mgr := mgr_unsubscribe_notifier n (es_mgr s)\<rparr>)"
| remove: "estep who s (s\<lparr>es_mgr := remove_scope key (es_mgr s)\<rparr>)"
| shutdown: "estep who s (s\<lparr>es_mgr := mgr_shutdown (es_mgr s)\<rparr>)"

inductive estar :: "(nat \<Rightarrow> string \<times> string) \<Rightarrow> esys \<Rightarrow> esys \<Rightarrow> bool"
  for who :: "nat \<Rightarrow> string \<times> string" where
  refl: "estar who s s"
| step: "estar who s t \<Longrightarrow> estep who t u \<Longrightarrow> estar who s u"

definition esys0 :: esys where
  "esys0 = \<lparr>es_mgr = new_manager, es_queue = [], es_sent = []\<rparr>"

subsection \<open>What a bus may hold\<close>

text \<open>A subscription belongs on a bus when it is its connection's own and, on a Room's bus, of that
  Room; an envelope belongs there when its scope leads to that key.\<close>

definition sub_fits :: "(nat \<Rightarrow> string \<times> string) \<Rightarrow> string \<Rightarrow> string \<times> subscriber \<Rightarrow> bool" where
  "sub_fits who key = (\<lambda>(i, s). i = sb_id s \<and> who (sb_conn s) = (sb_room s, sb_agent s)
     \<and> (\<forall>rid. key = room_key rid \<longrightarrow> sb_room s = rid))"

definition env_fits :: "string \<Rightarrow> envelope \<Rightarrow> bool" where
  "env_fits key e \<longleftrightarrow> key = (if en_scope e = [] then room_key (en_room e) else volume_key (en_scope e))"

definition mgr_inv :: "(nat \<Rightarrow> string \<times> string) \<Rightarrow> emgr \<Rightarrow> bool" where
  "mgr_inv who m \<longleftrightarrow>
     (\<forall>a < em_next m. \<forall>x \<in> set (eb_subs (em_heap m a)). sub_fits who (eb_key (em_heap m a)) x)
     \<and> (\<forall>(k, a) \<in> set (em_buses m). a < em_next m \<and> eb_key (em_heap m a) = k)"

definition sent_fits :: "(nat \<Rightarrow> string \<times> string) \<Rightarrow> nat \<times> recv_event \<Rightarrow> bool" where
  "sent_fits who = (\<lambda>(c, v). (rv_scope v = [] \<longrightarrow> fst (who c) = rv_room v) \<and> who c \<noteq> (rv_room v, rv_agent v))"

definition esys_inv :: "(nat \<Rightarrow> string \<times> string) \<Rightarrow> esys \<Rightarrow> bool" where
  "esys_inv who s \<longleftrightarrow> mgr_inv who (es_mgr s)
     \<and> (\<forall>(a, e) \<in> set (es_queue s). a < em_next (es_mgr s) \<and> env_fits (eb_key (em_heap (es_mgr s) a)) e)
     \<and> (\<forall>x \<in> set (es_sent s). sent_fits who x)"

lemma keys_apart [simp]: "room_key r = room_key r' \<longleftrightarrow> r = r'" "room_key r \<noteq> volume_key v" "volume_key v \<noteq> room_key r"
  "volume_key v = volume_key v' \<longleftrightarrow> v = v'"
  by (simp_all add: room_key_def volume_key_def)

text \<open>\<open>grows m m'\<close>: buses keep their keys and none is lost from the heap.\<close>

definition grows :: "emgr \<Rightarrow> emgr \<Rightarrow> bool" where
  "grows m m' \<longleftrightarrow> em_next m \<le> em_next m' \<and> (\<forall>a < em_next m. eb_key (em_heap m' a) = eb_key (em_heap m a))"

lemma on_bus_inv:
  assumes "mgr_inv who m" "\<And>b. eb_key (f b) = eb_key b"
    and "\<And>x. a < em_next m \<Longrightarrow> x \<in> set (eb_subs (f (em_heap m a))) \<Longrightarrow>
           x \<in> set (eb_subs (em_heap m a)) \<or> sub_fits who (eb_key (em_heap m a)) x"
  shows "mgr_inv who (on_bus a f m)" "grows m (on_bus a f m)"
  using assms by (fastforce simp: mgr_inv_def on_bus_def grows_def)+

lemma get_or_create_inv:
  assumes "mgr_inv who m" "get_or_create key m = (a, m')"
  shows "mgr_inv who m'" "grows m m'" "a < em_next m'" "eb_key (em_heap m' a) = key"
  using assms
  by (fastforce simp: mgr_inv_def get_or_create_def grows_def new_bus_def less_Suc_eq split: option.splits if_splits
      dest: map_of_SomeD)+


lemma grows_trans: "grows a b \<Longrightarrow> grows b c \<Longrightarrow> grows a c"
  by (auto simp: grows_def)

lemma grows_refl [simp]: "grows m m"
  by (simp add: grows_def)

lemma fold_on_bus_inv:
  assumes "mgr_inv who m" "\<And>b. eb_key (f b) = eb_key b" "\<And>b. set (eb_subs (f b)) \<subseteq> set (eb_subs b)"
  shows "mgr_inv who (fold (\<lambda>a. on_bus a f) xs m) \<and> grows m (fold (\<lambda>a. on_bus a f) xs m)"
  using assms(1)
proof (induction xs arbitrary: m)
  case (Cons a xs)
  have "mgr_inv who (on_bus a f m)" "grows m (on_bus a f m)"
    using on_bus_inv[OF Cons.prems assms(2), of a] assms(3) by blast+
  with Cons.IH show ?case by (auto intro: grows_trans)
qed simp

lemma resolve_scope_fits:
  "resolve_scope_key p scope = Inr key \<Longrightarrow>
     env_fits key \<lparr>en_scope = scope, en_room = ep_room p, en_agent = ep_agent p, en_payload = x\<rparr>
     \<and> (\<forall>rid. key = room_key rid \<longrightarrow> ep_room p = rid)"
  by (auto simp: resolve_scope_key_def env_fits_def split: if_splits sum.splits)

lemma ep_subscribe_inv:
  assumes "mgr_inv who m" "proxy_of who p" "ep_subscribe p i params m = (r, m')"
  shows "mgr_inv who m' \<and> grows m m'"
proof (cases "m' = m")
  case False
  with assms(3) obtain scope key a mm where k: "resolve_scope_key p scope = Inr key"
    and g: "get_or_create key m = (a, mm)"
    and m': "m' = on_bus a (bus_subscribe \<lparr>sb_id = i, sb_conn = ep_conn p, sb_agent = ep_agent p, sb_room = ep_room p\<rparr>) mm"
    by (auto simp: ep_subscribe_def split: sum.splits option.splits prod.splits)
  note gi = get_or_create_inv[OF assms(1) g]
  have "sub_fits who key (i, \<lparr>sb_id = i, sb_conn = ep_conn p, sb_agent = ep_agent p, sb_room = ep_room p\<rparr>)"
    using resolve_scope_fits[OF k] assms(2) by (auto simp: sub_fits_def proxy_of_def)
  then have "mgr_inv who m'" "grows mm m'"
    unfolding m' using gi by (intro on_bus_inv; auto simp: bus_subscribe_def drop_sub_def)+
  with gi show ?thesis by (auto intro: grows_trans)
qed (use assms in simp)

lemma unsub_owned_in_inv:
  assumes "mgr_inv who m" "unsub_owned_in xs i n m = (r, m')"
  shows "mgr_inv who m' \<and> grows m m'"
  using assms
proof (induction xs arbitrary: m)
  case (Cons a xs)
  obtain f w b where u: "bus_unsubscribe_owned i n (em_heap m a) = ((f, w), b)" by (metis prod.exhaust)
  then have b: "eb_key b = eb_key (em_heap m a)" "set (eb_subs b) \<subseteq> set (eb_subs (em_heap m a))"
    by (auto simp: bus_unsubscribe_owned_def drop_sub_def split: option.splits if_splits)
  show ?case
  proof (cases f)
    case True
    with Cons.prems u have "m' = on_bus a (\<lambda>_. b) m" by simp
    moreover have "mgr_inv who (on_bus a (\<lambda>_. b) m) \<and> grows m (on_bus a (\<lambda>_. b) m)"
      using Cons.prems(1) b by (fastforce simp: mgr_inv_def on_bus_def grows_def)
    ultimately show ?thesis by simp
  next
    case False
    with Cons u show ?thesis by simp
  qed
qed simp

lemma ep_unsubscribe_inv:
  assumes "mgr_inv who m" "ep_unsubscribe p params m = (r, m')"
  shows "mgr_inv who m' \<and> grows m m'"
proof (cases "m' = m")
  case False
  with assms(2) obtain i q where "unsub_owned_in (map snd (em_buses m)) i (ep_conn p) m = (q, m')"
    by (auto simp: ep_unsubscribe_def mgr_unsubscribe_owned_def split: sum.splits option.splits prod.splits if_splits)
  with assms(1) show ?thesis by (rule unsub_owned_in_inv)
qed (use assms in simp)

lemma ep_publish_inv:
  assumes "mgr_inv who m" "ep_publish p params m = (r, m')"
  shows "mgr_inv who m' \<and> grows m m'
    \<and> (\<forall>a e. r = Inr (a, e) \<longrightarrow> a < em_next m' \<and> env_fits (eb_key (em_heap m' a)) e)"
  using assms get_or_create_inv[OF assms(1)] resolve_scope_fits
  by (auto simp: ep_publish_def split: sum.splits option.splits prod.splits)

lemma deliver_fits:
  assumes "\<forall>x \<in> set (eb_subs b). sub_fits who (eb_key b) x" "env_fits (eb_key b) e" "deliver nok e b = (r, out, b')"
  shows "\<forall>x \<in> set out. sent_fits who x"
  using assms
  by (fastforce simp: deliver_def targets_def recv_for_def sent_fits_def sub_fits_def env_fits_def Let_def split: if_splits)

lemma remove_scope_inv: "mgr_inv who m \<Longrightarrow> mgr_inv who (remove_scope key m) \<and> grows m (remove_scope key m)"
  by (fastforce simp: mgr_inv_def remove_scope_def on_bus_def stop_bus_def grows_def Let_def split: option.splits)

lemma mgr_shutdown_inv: "mgr_inv who m \<Longrightarrow> mgr_inv who (mgr_shutdown m) \<and> grows m (mgr_shutdown m)"
proof -
  assume "mgr_inv who m"
  then have "mgr_inv who (m\<lparr>em_down := True, em_buses := []\<rparr>)" "grows m (m\<lparr>em_down := True, em_buses := []\<rparr>)"
    by (auto simp: mgr_inv_def grows_def)
  with fold_on_bus_inv[of who "m\<lparr>em_down := True, em_buses := []\<rparr>" stop_bus "map snd (em_buses m)"]
  show ?thesis by (auto simp: mgr_shutdown_def stop_bus_def intro: grows_trans)
qed

lemma esys_inv_mgr:
  assumes "esys_inv who s" "mgr_inv who m \<and> grows (es_mgr s) m"
  shows "esys_inv who (s\<lparr>es_mgr := m\<rparr>)"
  using assms by (fastforce simp: esys_inv_def grows_def)


lemma estep_inv:
  assumes "estep who s s'" "esys_inv who s"
  shows "esys_inv who s'"
  using assms(1)
proof cases
  case (subscribe p i params r m)
  from assms(2) have "mgr_inv who (es_mgr s)" by (simp add: esys_inv_def)
  from ep_subscribe_inv[OF this subscribe(2,4)] assms(2) show ?thesis by (simp add: subscribe(1) esys_inv_mgr)
next
  case (unsubscribe p params r m)
  from assms(2) have "mgr_inv who (es_mgr s)" by (simp add: esys_inv_def)
  from ep_unsubscribe_inv[OF this unsubscribe(3)] assms(2) show ?thesis by (simp add: unsubscribe(1) esys_inv_mgr)
next
  case (publish p params a e m)
  from assms(2) have "mgr_inv who (es_mgr s)" by (simp add: esys_inv_def)
  from ep_publish_inv[OF this publish(3)] have m: "mgr_inv who m \<and> grows (es_mgr s) m"
    and a: "a < em_next m" "env_fits (eb_key (em_heap m a)) e" by auto
  from esys_inv_mgr[OF assms(2) m] a show ?thesis by (simp add: publish(1) esys_inv_def)
next
  case (refused p params q m)
  from assms(2) have "mgr_inv who (es_mgr s)" by (simp add: esys_inv_def)
  from ep_publish_inv[OF this refused(3)] assms(2) show ?thesis by (simp add: refused(1) esys_inv_mgr)
next
  case (serve xs a e ys nok r out b)
  let ?m = "on_bus a (\<lambda>_. b) (es_mgr s)"
  from assms(2) serve(2) have a: "a < em_next (es_mgr s)" "env_fits (eb_key (em_heap (es_mgr s) a)) e"
    and inv: "mgr_inv who (es_mgr s)" by (auto simp: esys_inv_def)
  from serve(5) have b: "eb_key b = eb_key (em_heap (es_mgr s) a)" "eb_subs b = eb_subs (em_heap (es_mgr s) a)"
    by (auto simp: deliver_def Let_def)
  then have m: "mgr_inv who ?m \<and> grows (es_mgr s) ?m"
    using inv by (fastforce simp: mgr_inv_def on_bus_def grows_def)
  have "\<forall>x \<in> set out. sent_fits who x"
    using deliver_fits[OF _ a(2) serve(5)] inv a(1) by (simp add: mgr_inv_def)
  with esys_inv_mgr[OF assms(2) m] serve(2) show ?thesis by (auto simp: serve(1) esys_inv_def)
next
  case (agent_exit n)
  have "mgr_inv who (mgr_unsubscribe_notifier n (es_mgr s)) \<and> grows (es_mgr s) (mgr_unsubscribe_notifier n (es_mgr s))"
    unfolding mgr_unsubscribe_notifier_def using assms(2)
    by (intro fold_on_bus_inv) (auto simp: esys_inv_def bus_unsubscribe_notifier_def)
  with assms(2) show ?thesis by (simp add: agent_exit esys_inv_mgr)
next
  case (remove key)
  with assms(2) remove_scope_inv[of who "es_mgr s" key] show ?thesis
    by (simp add: esys_inv_mgr esys_inv_def[of who s])
next
  case shutdown
  with assms(2) mgr_shutdown_inv[of who "es_mgr s"] show ?thesis
    by (simp add: esys_inv_mgr esys_inv_def[of who s])
qed

lemma esys0_inv: "esys_inv who esys0"
  by (simp add: esys_inv_def esys0_def mgr_inv_def new_manager_def)

lemma estar_inv: "estar who s t \<Longrightarrow> esys_inv who s \<Longrightarrow> esys_inv who t"
  by (induction rule: estar.induct) (auto intro: estep_inv)

text \<open>C11. Whatever requests, deliveries, exits, removals and shutdowns happen, in any order and on
  buses removed meanwhile too: an event published with the empty scope reaches only agents of the
  publisher's Room, and no event reaches the agent that published it.\<close>

theorem room_events_stay_in_room:
  assumes "estar who esys0 s" "(conn, v) \<in> set (es_sent s)"
  shows "(rv_scope v = [] \<longrightarrow> fst (who conn) = rv_room v) \<and> who conn \<noteq> (rv_room v, rv_agent v)"
  using estar_inv[OF assms(1) esys0_inv] assms(2) by (auto simp: esys_inv_def sent_fits_def)


definition chat_a :: event_proxy where
  "chat_a = \<lparr>ep_room = ''r1'', ep_agent = ''ann'', ep_rank = staff, ep_volumes = (\<lambda>_. Inl Plain), ep_conn = 1\<rparr>"

definition chat_b :: event_proxy where
  "chat_b = \<lparr>ep_room = ''r1'', ep_agent = ''bob'', ep_rank = staff, ep_volumes = (\<lambda>_. Inl Plain), ep_conn = 2\<rparr>"

definition chat_who :: "nat \<Rightarrow> string \<times> string" where
  "chat_who n = (''r1'', if n = 1 then ''ann'' else ''bob'')"

definition chat_event :: recv_event where
  "chat_event = \<lparr>rv_scope = [], rv_sub = ''s1'', rv_room = ''r1'', rv_agent = ''bob'', rv_seq = 1, rv_payload = ''hi''\<rparr>"

lemmas chat_defs = ep_gate_def resolve_scope_key_def get_or_create_def on_bus_def new_manager_def
  bus_subscribe_def drop_sub_def new_bus_def staff_def proxy_of_def chat_who_def

lemma chat_run: "\<exists>s. estar chat_who esys0 s \<and> es_sent s = [(1, chat_event)]"
proof -
  have p: "proxy_of chat_who chat_a" "proxy_of chat_who chat_b"
    by (simp_all add: chat_a_def chat_b_def chat_defs)
  obtain r m where m: "ep_subscribe chat_a ''s1'' (Some []) (es_mgr esys0) = (r, m)" by fastforce
  have s1: "estep chat_who esys0 (esys0\<lparr>es_mgr := m\<rparr>)"
    by (rule estep.subscribe[OF p(1) _ m]) (simp add: fresh_sub_def esys0_def new_manager_def)
  from m have sub: "map_of (em_buses m) (room_key ''r1'') = Some 0" "\<not> em_down m" "eb_seq (em_heap m 0) = 0"
    "eb_subs (em_heap m 0) = [(''s1'', \<lparr>sb_id = ''s1'', sb_conn = 1, sb_agent = ''ann'', sb_room = ''r1''\<rparr>)]"
    by (auto simp: ep_subscribe_def esys0_def chat_a_def chat_defs)
  let ?e = "\<lparr>en_scope = [], en_room = ''r1'', en_agent = ''bob'', en_payload = ''hi''\<rparr>"
  have pub: "ep_publish chat_b (Some ([], ''hi'')) m = (Inr (0, ?e), m)"
    using sub by (simp add: ep_publish_def chat_b_def chat_defs)
  have s2: "estep chat_who (esys0\<lparr>es_mgr := m\<rparr>) (esys0\<lparr>es_mgr := m, es_queue := [(0, ?e)]\<rparr>)"
    using estep.publish[OF p(2), of "Some ([], ''hi'')" "esys0\<lparr>es_mgr := m\<rparr>" 0 ?e m] pub
    by (simp add: esys0_def default_buf_size_def)
  have d: "deliver (\<lambda>_. True) ?e (em_heap m 0) = (Inr (), [(1, chat_event)], (em_heap m 0)\<lparr>eb_seq := 1\<rparr>)"
    using sub by (simp add: deliver_def targets_def recv_for_def chat_event_def)
  obtain t where "estep chat_who (esys0\<lparr>es_mgr := m, es_queue := [(0, ?e)]\<rparr>) t" "es_sent t = [(1, chat_event)]"
    using estep.serve[of "esys0\<lparr>es_mgr := m, es_queue := [(0, ?e)]\<rparr>" "[]" 0 ?e "[]", OF _ _ _ _] sub d
    by (fastforce simp: esys0_def)
  with s1 s2 show ?thesis by (blast intro: estar.intros)
qed

lemma room_events_stay_in_room_witness:
  "fst (chat_who 1) = ''r1'' \<and> chat_who 1 \<noteq> (''r1'', ''bob'')"
proof -
  from chat_run obtain s where "estar chat_who esys0 s" "(1, chat_event) \<in> set (es_sent s)" by fastforce
  from room_events_stay_in_room[OF this] show ?thesis by (simp add: chat_event_def)
qed

subsection \<open>Subscriptions and their owners\<close>

definition holds_sub :: "emgr \<Rightarrow> nat \<Rightarrow> string \<Rightarrow> subscriber \<Rightarrow> bool" where
  "holds_sub m a i s \<longleftrightarrow> a < em_next m \<and> map_of (eb_subs (em_heap m a)) i = Some s"

lemma map_of_filter_keep: "map_of xs i = Some v \<Longrightarrow> P (i, v) \<Longrightarrow> map_of (filter P xs) i = Some v"
  by (induction xs) (auto split: if_splits)

lemma holds_sub_on_bus:
  assumes "holds_sub m a i s" "map_of (eb_subs (f (em_heap m a))) i = Some s"
  shows "holds_sub (on_bus b f m) a i s"
  using assms by (auto simp: holds_sub_def on_bus_def)

lemma holds_sub_get_or_create:
  "holds_sub m a i s \<Longrightarrow> get_or_create key m = (b, m') \<Longrightarrow> holds_sub m' a i s"
  by (auto simp: holds_sub_def get_or_create_def split: option.splits)

lemma holds_sub_unsub_owned:
  assumes "holds_sub m a i s" "sb_conn s \<noteq> n" "unsub_owned_in xs j n m = (r, m')"
  shows "holds_sub m' a i s"
  using assms(1,3)
proof (induction xs arbitrary: m)
  case (Cons b xs)
  obtain f w c where u: "bus_unsubscribe_owned j n (em_heap m b) = ((f, w), c)" by (metis prod.exhaust)
  then have "b = a \<Longrightarrow> map_of (eb_subs c) i = Some s"
    using Cons.prems(1) assms(2)
    by (auto simp: holds_sub_def bus_unsubscribe_owned_def drop_sub_def split: option.splits if_splits
        intro!: map_of_filter_keep)
  then have "holds_sub (on_bus b (\<lambda>_. c) m) a i s"
    using Cons.prems(1) by (simp add: holds_sub_def on_bus_def)
  with Cons u show ?case by (cases f) auto
qed simp

lemma holds_sub_fold:
  assumes "holds_sub m a i s" "\<And>b. map_of (eb_subs b) i = Some s \<Longrightarrow> map_of (eb_subs (f b)) i = Some s"
  shows "holds_sub (fold (\<lambda>b. on_bus b f) xs m) a i s"
  using assms(1)
proof (induction xs arbitrary: m)
  case (Cons b xs)
  have "holds_sub (on_bus b f m) a i s"
    using Cons.prems assms(2) by (intro holds_sub_on_bus) (auto simp: holds_sub_def)
  with Cons.IH show ?case by simp
qed simp

lemma holds_sub_subscribe:
  assumes "holds_sub m a i s" "j \<noteq> i"
  shows "holds_sub (snd (ep_subscribe p j params m)) a i s"
proof (cases "snd (ep_subscribe p j params m) = m")
  case False
  then obtain key b mm where g: "get_or_create key m = (b, mm)" and
    e: "snd (ep_subscribe p j params m) =
      on_bus b (bus_subscribe \<lparr>sb_id = j, sb_conn = ep_conn p, sb_agent = ep_agent p, sb_room = ep_room p\<rparr>) mm"
    by (auto simp: ep_subscribe_def split: sum.splits option.splits prod.splits)
  from g assms(1) have h: "holds_sub mm a i s" by (rule holds_sub_get_or_create[rotated])
  then show ?thesis
    unfolding e using assms(2)
    by (intro holds_sub_on_bus) (auto simp: bus_subscribe_def drop_sub_def holds_sub_def intro!: map_of_filter_keep)
qed (use assms in simp)

text \<open>A subscription stays until its own agent gives it up: no subscribe (under another random
  id), unsubscribe or publish of another connection, and no exit of another, removes or changes it,
  even if the other agent knows its id.\<close>

theorem subscriptions_owned:
  assumes "holds_sub m a i s" "ep_conn p \<noteq> sb_conn s" "j \<noteq> i" "n \<noteq> sb_conn s"
  shows "holds_sub (snd (ep_subscribe p j params m)) a i s
    \<and> holds_sub (snd (ep_unsubscribe p target m)) a i s
    \<and> holds_sub (snd (ep_publish p request m)) a i s
    \<and> holds_sub (mgr_unsubscribe_notifier n m) a i s"
proof (intro conjI)
  show "holds_sub (snd (ep_subscribe p j params m)) a i s"
    using assms(1,3) by (rule holds_sub_subscribe)
  show "holds_sub (snd (ep_unsubscribe p target m)) a i s"
    using assms(1,2) by (auto simp: ep_unsubscribe_def mgr_unsubscribe_owned_def
        split: sum.splits option.splits prod.splits if_splits dest: holds_sub_unsub_owned[OF _ assms(2)[symmetric]])
  show "holds_sub (snd (ep_publish p request m)) a i s"
    using assms(1) by (auto simp: ep_publish_def split: sum.splits option.splits prod.splits
        dest: holds_sub_get_or_create)
  show "holds_sub (mgr_unsubscribe_notifier n m) a i s"
    unfolding mgr_unsubscribe_notifier_def using assms(1,4)
    by (intro holds_sub_fold) (auto simp: bus_unsubscribe_notifier_def intro!: map_of_filter_keep)
qed


lemma subscriptions_owned_witness:
  "holds_sub (snd (ep_unsubscribe chat_b (Some ''s1'') (snd (ep_subscribe chat_a ''s1'' (Some []) new_manager)))) 0 ''s1''
     \<lparr>sb_id = ''s1'', sb_conn = 1, sb_agent = ''ann'', sb_room = ''r1''\<rparr>"
proof -
  let ?m = "snd (ep_subscribe chat_a ''s1'' (Some []) new_manager)"
  let ?s = "\<lparr>sb_id = ''s1'', sb_conn = 1, sb_agent = ''ann'', sb_room = ''r1''\<rparr>"
  have "holds_sub ?m 0 ''s1'' ?s"
    by (simp add: holds_sub_def ep_subscribe_def chat_a_def chat_defs)
  from subscriptions_owned[OF this, of chat_b "''s2''" 2] show ?thesis by (simp add: chat_b_def)
qed

text \<open>The exit of an agent leaves it no subscription on any bus of the map.\<close>

lemma fold_on_bus_subs:
  "eb_subs (em_heap (fold (\<lambda>b. on_bus b (bus_unsubscribe_notifier n)) xs m) a) =
     (if a \<in> set xs then filter (\<lambda>x. sb_conn (snd x) \<noteq> n) (eb_subs (em_heap m a)) else eb_subs (em_heap m a))"
  by (induction xs arbitrary: m) (auto simp: on_bus_def bus_unsubscribe_notifier_def)

lemma exit_drops_subscriptions:
  "map_of (em_buses m) key = Some a \<Longrightarrow>
     \<forall>x \<in> set (eb_subs (em_heap (mgr_unsubscribe_notifier n m) a)). sb_conn (snd x) \<noteq> n"
proof -
  assume "map_of (em_buses m) key = Some a"
  then have "a \<in> set (map snd (em_buses m))" by (force dest: map_of_SomeD)
  then show ?thesis by (simp add: mgr_unsubscribe_notifier_def fold_on_bus_subs)
qed

lemma filter_key: "distinct (map fst xs) \<Longrightarrow> (i, v) \<in> set xs \<Longrightarrow> filter (\<lambda>x. fst x = i) xs = [(i, v)]"
  by (induction xs) (force simp: filter_empty_conv)+

text \<open>When every connection can be written to, a delivery notifies each subscription of another
  agent exactly once, with the bus's next number.\<close>

lemma deliver_each_once:
  assumes "deliver (\<lambda>_. True) e b = (r, out, b')" "distinct (map fst (eb_subs b))"
    "\<forall>x \<in> set (eb_subs b). fst x = sb_id (snd x)" "(i, s) \<in> set (eb_subs b)"
    "(sb_room s, sb_agent s) \<noteq> (en_room e, en_agent e)"
  shows "r = Inr () \<and> eb_seq b' = eb_seq b + 1 \<and> filter (\<lambda>x. rv_sub (snd x) = i) out = [recv_for (eb_seq b + 1) e s]"
proof -
  have out: "out = map (recv_for (eb_seq b + 1) e) (targets e b)" "r = Inr ()" "eb_seq b' = eb_seq b + 1"
    using assms(1) by (auto simp: deliver_def Let_def list_all_iff)
  have "filter (\<lambda>x. fst x = i) (eb_subs b) = [(i, s)]"
    using assms(2,4) by (rule filter_key)
  moreover have "filter (\<lambda>s. sb_id s = i) (map snd (eb_subs b)) = map snd (filter (\<lambda>x. fst x = i) (eb_subs b))"
    using assms(3) by (auto simp: filter_map comp_def intro!: arg_cong[of _ _ "map snd"] filter_cong)
  ultimately have "filter (\<lambda>s. sb_id s = i) (targets e b) = [s]"
    using assms(5) by (simp add: targets_def filter_filter conj_commute) (simp add: filter_filter[symmetric])
  with out show ?thesis by (simp add: filter_map comp_def recv_for_def)
qed

end
