(* ===== verification/Remote.thy ===== *)
theory Remote
  imports Images
begin

section \<open>Remote references and pulls (internal/remote/ref.go, pull.go), Hivefiles (internal/hivefile)\<close>

text \<open>
  A reference names a directory of a GitHub repository at a branch, tag or commit; three forms are
  read and one is printed. A pull fetches the manifest and the one file its kind needs into a
  staging directory and installs that in the store. The network is the parameter \<open>fetch\<close>, from a
  URL to the body of a 200 answer; the YAML parser is the parameter \<open>yaml\<close>. Of \<^verbatim>\<open>url.Parse\<close> the
  model has what a GitHub URL needs: the text between the host and the first \<open>?\<close> or \<open>#\<close>, with
  percent escapes decoded.
\<close>

definition default_ref :: string where "default_ref = ''main''"

record remote_ref =
  rr_host :: string
  rr_owner :: string
  rr_repo :: string
  rr_path :: string
  rr_ref :: string

definition split_ref :: "string \<Rightarrow> string \<times> string" where
  "split_ref s = (case last_index CHR ''@'' s of
      Some at \<Rightarrow> (drop (Suc at) s, take at s)
    | None \<Rightarrow> ([], s))"

definition mk_ref :: "string \<Rightarrow> string \<Rightarrow> string \<Rightarrow> string \<Rightarrow> string \<Rightarrow> remote_ref res" where
  "mk_ref host owner repo subpath ref =
     (if owner = [] \<or> repo = [] then Inl Plain
      else Inr \<lparr>rr_host = host, rr_owner = owner, rr_repo = repo, rr_path = trim_set subpath ''/'',
                rr_ref = (if ref = [] then default_ref else ref)\<rparr>)"

definition parse_github_scheme :: "string \<Rightarrow> remote_ref res" where
  "parse_github_scheme s =
     (let (ref, rest) = split_ref (trim_prefix s ''github://'');
          parts = split_on CHR ''/'' (trim_set rest ''/'')
      in if length parts < 2 then Inl Plain
         else mk_ref ''github.com'' (parts ! 0) (parts ! 1) (join_with CHR ''/'' (drop 2 parts)) ref)"

definition hex_val :: "char \<Rightarrow> nat option" where
  "hex_val c =
     (if CHR ''0'' \<le> c \<and> c \<le> CHR ''9'' then Some (of_char c - 48)
      else if CHR ''a'' \<le> c \<and> c \<le> CHR ''f'' then Some (of_char c - 87)
      else if CHR ''A'' \<le> c \<and> c \<le> CHR ''F'' then Some (of_char c - 55)
      else None)"

fun unescape :: "string \<Rightarrow> string option" where
  "unescape [] = Some []"
| "unescape (c # cs) =
     (if c = CHR ''%'' then
        (case cs of
           a # b # rest \<Rightarrow>
             (case (hex_val a, hex_val b) of
                (Some x, Some y) \<Rightarrow> map_option ((#) (char_of (16 * x + y))) (unescape rest)
              | _ \<Rightarrow> None)
         | _ \<Rightarrow> None)
      else map_option ((#) c) (unescape cs))"

definition url_path :: "string \<Rightarrow> string option" where
  "url_path s =
     (let rest = (if has_prefix s ''https://github.com'' then drop 18 s
                  else if has_prefix s ''http://github.com'' then drop 17 s else s)
      in unescape (takeWhile (\<lambda>c. c \<noteq> CHR ''?'' \<and> c \<noteq> CHR ''#'') rest))"

definition parse_github_https :: "string \<Rightarrow> remote_ref res" where
  "parse_github_https s =
     (case url_path s of
        None \<Rightarrow> Inl Plain
      | Some p \<Rightarrow>
          (let parts = split_on CHR ''/'' (trim_set p ''/'') in
           if length parts < 2 then Inl Plain
           else let at_ref = length parts \<ge> 4 \<and> (parts ! 2 = ''tree'' \<or> parts ! 2 = ''blob'') in
             mk_ref ''github.com'' (parts ! 0) (parts ! 1)
               (if at_ref then join_with CHR ''/'' (drop 4 parts) else [])
               (if at_ref then parts ! 3 else [])))"

definition parse_short_form :: "string \<Rightarrow> remote_ref res" where
  "parse_short_form s =
     (case index_of CHR ''#'' s of
        None \<Rightarrow> Inl Plain
      | Some at \<Rightarrow>
          (let owner_repo = take at s; tail = drop (Suc at) s in
           case index_of CHR ''/'' owner_repo of
             None \<Rightarrow> Inl Plain
           | Some i \<Rightarrow>
               if take i owner_repo = [] \<or> drop (Suc i) owner_repo = [] then Inl Plain
               else let (ref, path) = split_ref tail
                    in mk_ref ''github.com'' (take i owner_repo) (drop (Suc i) owner_repo) path ref))"

definition parse_remote_ref :: "string \<Rightarrow> remote_ref res" where
  "parse_remote_ref s =
     (let s = trim_space s in
      if has_prefix s ''github://'' then parse_github_scheme s
      else if has_prefix s ''https://github.com/'' \<or> has_prefix s ''http://github.com/''
        then parse_github_https s
      else if CHR ''#'' \<in> set s then parse_short_form s
      else Inl Plain)"

definition looks_remote :: "string \<Rightarrow> bool" where
  "looks_remote s =
     (let s = trim_space s in
      has_prefix s ''github://''
    \<or> has_prefix s ''https://github.com/'' \<or> has_prefix s ''http://github.com/''
    \<or> (CHR ''#'' \<in> set s \<and> CHR ''/'' \<in> set s \<and> CHR '':'' \<notin> set s))"

definition raw_url :: "remote_ref \<Rightarrow> string \<Rightarrow> string" where
  "raw_url r file =
     (let file = trim_left file ''/'';
          p = (if rr_path r \<noteq> [] \<and> file \<noteq> [] then rr_path r @ ''/'' else rr_path r)
      in ''https://raw.githubusercontent.com/'' @ rr_owner r @ ''/'' @ rr_repo r @ ''/'' @ rr_ref r
         @ ''/'' @ p @ file)"

definition remote_string :: "remote_ref \<Rightarrow> string" where
  "remote_string r =
     ''github://'' @ rr_owner r @ ''/'' @ rr_repo r
       @ (if rr_path r \<noteq> [] then CHR ''/'' # rr_path r else [])
       @ (if rr_ref r \<noteq> [] \<and> rr_ref r \<noteq> default_ref then CHR ''@'' # rr_ref r else [])"

subsection \<open>Pull\<close>

type_synonym fetcher = "string \<Rightarrow> string option"

text \<open>Fetch one file and write it under the staging directory, by the name the manifest gives;
  \<open>wr\<close> says which paths can be written.\<close>

definition stage_file ::
  "fetcher \<Rightarrow> (string \<Rightarrow> bool) \<Rightarrow> string \<Rightarrow> remote_ref \<Rightarrow> string \<Rightarrow> string disk \<Rightarrow> unit res \<times> string disk" where
  "stage_file fetch wr stage ref file d =
     (case fetch (raw_url ref file) of
        None \<Rightarrow> (Inl Plain, d)
      | Some bytes \<Rightarrow>
          (let dst = join_path [stage, file]
           in if wr dst then (Inr (), d(dst \<mapsto> bytes)) else (Inl Plain, d)))"

definition pull_staged ::
  "yaml \<Rightarrow> fetcher \<Rightarrow> (string \<Rightarrow> bool) \<Rightarrow> store_io \<Rightarrow> string \<Rightarrow> string \<Rightarrow> remote_ref \<Rightarrow> string disk \<Rightarrow> image res \<times> string disk" where
  "pull_staged yaml fetch wr w root stage ref d =
     (case stage_file fetch wr stage ref ''agent.yaml'' d of
        (Inl e, d) \<Rightarrow> (Inl e, d)
      | (Inr _, d) \<Rightarrow>
          (case Option.bind (fetch (raw_url ref ''agent.yaml'')) yaml of
             None \<Rightarrow> (Inl Plain, d)
           | Some m \<Rightarrow>
               if mf_kind m = ''skill'' then
                 (if mf_skill m = [] then (Inl Plain, d)
                  else case stage_file fetch wr stage ref (mf_skill m) d of
                      (Inl e, d) \<Rightarrow> (Inl e, d)
                    | (Inr _, d) \<Rightarrow> store_put yaml w root stage d)
               else if mf_kind m = ''workflow'' then
                 (let file = (if mf_workflow m \<noteq> [] then mf_workflow m else mf_planner m) in
                  if file = [] then (Inl Plain, d)
                  else case stage_file fetch wr stage ref file d of
                      (Inl e, d) \<Rightarrow> (Inl e, d)
                    | (Inr _, d) \<Rightarrow> store_put yaml w root stage d)
               else (Inl Plain, d)))"

text \<open>The staging directory is removed whatever happened.\<close>

definition pull_agent ::
  "yaml \<Rightarrow> fetcher \<Rightarrow> (string \<Rightarrow> bool) \<Rightarrow> store_io \<Rightarrow> string \<Rightarrow> string \<Rightarrow> remote_ref \<Rightarrow> string disk \<Rightarrow> image res \<times> string disk" where
  "pull_agent yaml fetch wr w root stage ref d =
     (let (r, d) = pull_staged yaml fetch wr w root stage ref d in (r, remove_all stage d))"

subsection \<open>Hivefiles\<close>

record volume_mount =
  vm_name :: string
  vm_mode :: string
  vm_mountpoint :: string

text \<open>The quota of an entry is the JSON of its YAML mapping, empty when there is none and nothing when the
  mapping has no JSON.\<close>

record agent_entry =
  ae_image :: string
  ae_rank :: string
  ae_model :: string
  ae_quota :: "string option"
  ae_volumes :: "volume_mount list"

record hivefile =
  hf_room :: string
  hf_agents :: "agent_entry list"
  hf_entry :: string

definition last_segment :: "string \<Rightarrow> string" where
  "last_segment p = (case last_index CHR ''/'' p of None \<Rightarrow> p | Some i \<Rightarrow> drop (Suc i) p)"

definition validate_mount :: "volume_mount \<Rightarrow> volume_mount res" where
  "validate_mount v =
     (if vm_name v = [] then Inl Plain
      else if vm_mountpoint v = [] then Inl Plain
      else if hd (vm_mountpoint v) \<noteq> CHR ''/'' then Inl Plain
      else if dotdot_in (vm_mountpoint v) then Inl Plain
      else if vm_mode v = ''ro'' \<or> vm_mode v = ''rw'' then Inr v
      else if vm_mode v = [] then Inr (v\<lparr>vm_mode := ''ro''\<rparr>)
      else Inl Plain)"

fun seen_names :: "agent_entry list \<Rightarrow> string list \<Rightarrow> string list res" where
  "seen_names [] seen = Inr seen"
| "seen_names (a # as') seen =
     (if ae_image a = [] then Inl Plain
      else case (if looks_remote (ae_image a)
                 then (case parse_remote_ref (ae_image a) of Inl e \<Rightarrow> Inl e | Inr r \<Rightarrow> Inr (last_segment (rr_path r)))
                 else (case parse_image_ref (ae_image a) of Inl e \<Rightarrow> Inl e | Inr r \<Rightarrow> Inr (ref_name r))) of
          Inl e \<Rightarrow> Inl e
        | Inr nm \<Rightarrow> if nm \<in> set seen then Inl Plain else seen_names as' (nm # seen))"

fun validate_all :: "('a \<Rightarrow> 'a res) \<Rightarrow> 'a list \<Rightarrow> 'a list res" where
  "validate_all f [] = Inr []"
| "validate_all f (x # xs) =
     (case f x of
        Inl e \<Rightarrow> Inl e
      | Inr y \<Rightarrow> (case validate_all f xs of Inl e \<Rightarrow> Inl e | Inr ys \<Rightarrow> Inr (y # ys)))"

definition validate_entry :: "agent_entry \<Rightarrow> agent_entry res" where
  "validate_entry a =
     (case validate_all validate_mount (ae_volumes a) of
        Inl e \<Rightarrow> Inl e
      | Inr vs \<Rightarrow> Inr (a\<lparr>ae_volumes := vs\<rparr>))"

definition validate_hivefile :: "hivefile \<Rightarrow> hivefile res" where
  "validate_hivefile f =
     (if hf_room f = [] then Inl Plain
      else if hf_agents f = [] then Inl Plain
      else case seen_names (hf_agents f) [] of
          Inl e \<Rightarrow> Inl e
        | Inr seen \<Rightarrow>
            if hf_entry f \<noteq> [] \<and> hf_entry f \<notin> set seen then Inl Plain
            else case validate_all validate_entry (hf_agents f) of
                Inl e \<Rightarrow> Inl e
              | Inr as' \<Rightarrow> Inr (f\<lparr>hf_agents := as'\<rparr>))"

subsection \<open>Printing and reading a reference\<close>

definition wf_remote :: "remote_ref \<Rightarrow> bool" where
  "wf_remote r \<longleftrightarrow> rr_host r = ''github.com'' \<and> rr_owner r \<noteq> [] \<and> rr_repo r \<noteq> [] \<and> rr_ref r \<noteq> []
     \<and> CHR ''/'' \<notin> set (rr_owner r) \<union> set (rr_repo r)
     \<and> CHR ''@'' \<notin> set (rr_owner r) \<union> set (rr_repo r) \<union> set (rr_path r) \<union> set (rr_ref r)
     \<and> (rr_path r = [] \<or> hd (rr_path r) \<noteq> CHR ''/'' \<and> last (rr_path r) \<noteq> CHR ''/'')
     \<and> last (remote_string r) \<notin> set white"

definition repo_part :: "remote_ref \<Rightarrow> string" where
  "repo_part r = rr_owner r @ CHR ''/'' # rr_repo r @ (if rr_path r \<noteq> [] then CHR ''/'' # rr_path r else [])"

lemma trim_slashes: "s = [] \<or> hd s \<noteq> CHR ''/'' \<and> last s \<noteq> CHR ''/'' \<Longrightarrow> trim_set s ''/'' = s"
  by (rule trim_set_no_ends) auto

lemma last_no_slash: "s \<noteq> [] \<Longrightarrow> c \<notin> set s \<Longrightarrow> last s \<noteq> c"
  using last_in_set by metis

lemma hd_no_slash: "s \<noteq> [] \<Longrightarrow> c \<notin> set s \<Longrightarrow> hd s \<noteq> c"
  using hd_in_set by metis

lemma repo_part_trim: "wf_remote r \<Longrightarrow> trim_set (repo_part r) ''/'' = repo_part r"
  by (rule trim_slashes) (auto simp: repo_part_def wf_remote_def last_no_slash hd_no_slash)

lemma repo_part_split:
  "wf_remote r \<Longrightarrow> split_on CHR ''/'' (repo_part r) =
     rr_owner r # rr_repo r # (if rr_path r = [] then [] else split_on CHR ''/'' (rr_path r))"
  by (simp add: repo_part_def wf_remote_def split_on_append split_on_id)

lemma split_ref_string:
  assumes "wf_remote r"
  shows "split_ref (trim_prefix (remote_string r) ''github://'') =
     (if rr_ref r = default_ref then [] else rr_ref r, repo_part r)"
proof -
  have at: "CHR ''@'' \<notin> set (repo_part r)" "CHR ''@'' \<notin> set (rr_ref r)"
    using assms by (auto simp: wf_remote_def repo_part_def)
  have "remote_string r = ''github://'' @ repo_part r
      @ (if rr_ref r \<noteq> default_ref then CHR ''@'' # rr_ref r else [])"
    using assms by (simp add: remote_string_def repo_part_def wf_remote_def)
  then have "trim_prefix (remote_string r) ''github://'' =
      repo_part r @ (if rr_ref r \<noteq> default_ref then CHR ''@'' # rr_ref r else [])"
    by (simp only: trim_prefix_append)
  with at show ?thesis
    using last_index_append[of "CHR ''@''" "rr_ref r" "repo_part r"]
    by (auto simp: split_ref_def last_index_None[THEN iffD2])
qed

text \<open>Reading what \<open>String\<close> prints gives the reference back, for every reference with a
  one-component owner and repository, no at-sign, a path without slashes at its ends and no white
  space at the end.\<close>

theorem remote_ref_roundtrip:
  assumes "wf_remote r"
  shows "parse_remote_ref (remote_string r) = Inr r"
proof -
  have g: "has_prefix (remote_string r) ''github://''" by (simp add: remote_string_def)
  have "remote_string r \<noteq> []" "hd (remote_string r) = CHR ''g''" by (simp_all add: remote_string_def)
  then have ts: "trim_space (remote_string r) = remote_string r"
    unfolding trim_space_def using assms by (intro trim_set_no_ends) (simp add: wf_remote_def white_def)
  have path: "join_with CHR ''/'' (if rr_path r = [] then [] else split_on CHR ''/'' (rr_path r)) = rr_path r"
    by simp
  have "parse_github_scheme (remote_string r) =
      mk_ref ''github.com'' (rr_owner r) (rr_repo r) (rr_path r) (if rr_ref r = default_ref then [] else rr_ref r)"
    using path by (simp add: parse_github_scheme_def split_ref_string[OF assms] repo_part_trim[OF assms]
      repo_part_split[OF assms])
  also have "\<dots> = Inr r"
    using assms trim_slashes[of "rr_path r"] by (auto simp: mk_ref_def wf_remote_def)
  finally show ?thesis using g ts by (simp add: parse_remote_ref_def)
qed

lemma remote_ref_roundtrip_witness:
  "parse_remote_ref ''github://anne-x/hive/agents/writer@v1.2'' =
     Inr \<lparr>rr_host = ''github.com'', rr_owner = ''anne-x'', rr_repo = ''hive'', rr_path = ''agents/writer'',
          rr_ref = ''v1.2''\<rparr>"
  using remote_ref_roundtrip[of "\<lparr>rr_host = ''github.com'', rr_owner = ''anne-x'', rr_repo = ''hive'',
    rr_path = ''agents/writer'', rr_ref = ''v1.2''\<rparr>"]
  by (simp add: wf_remote_def remote_string_def default_ref_def white_def)

subsection \<open>The staging directory\<close>

text \<open>A pull writes the file the manifest names before anything checks that name: with a name
  that climbs out of the staging directory the fetched bytes stay on the disk where the name
  points, although the pull then fails on the validation.\<close>

theorem pull_writes_outside_stage:
  assumes "fetch (raw_url ref ''agent.yaml'') = Some mb" "yaml mb = Some m"
    and "mf_kind m = ''skill''" "mf_skill m \<noteq> []" "dotdot_in (mf_skill m)"
    and "fetch (raw_url ref (mf_skill m)) = Some payload"
    and "proper_dir stage" "wr (join_path [stage, ''agent.yaml''])" "wr (join_path [stage, mf_skill m])"
    and "\<not> under_dir stage (join_path [stage, mf_skill m])"
  shows "pull_agent yaml fetch wr w root stage ref d =
           (Inl Plain, remove_all stage (d(stage @ ''/agent.yaml'' \<mapsto> mb, join_path [stage, mf_skill m] \<mapsto> payload)))
       \<and> snd (pull_agent yaml fetch wr w root stage ref d) (join_path [stage, mf_skill m]) = Some payload"
proof -
  have am: "join_path [stage, ''agent.yaml''] = stage @ ''/agent.yaml''"
    using join_manifest[OF assms(7)] by (simp add: manifest_filename_def)
  have u: "under_dir stage (stage @ ''/agent.yaml'')" by (simp add: under_dir_def has_prefix_iff)
  let ?d = "d(stage @ ''/agent.yaml'' \<mapsto> mb, join_path [stage, mf_skill m] \<mapsto> payload)"
  have "join_path [stage, mf_skill m] \<noteq> stage @ ''/agent.yaml''" using u assms(10) by metis
  then have "load_manifest yaml stage ?d = validate_manifest m"
    using assms(2) by (simp add: load_manifest_def join_manifest[OF assms(7)])
  also have "\<dots> = Inl Plain"
    using assms(3-5) by (simp add: validate_manifest_def Let_def)
  finally have "pull_staged yaml fetch wr w root stage ref d = (Inl Plain, ?d)"
    using assms(1-9) by (simp add: pull_staged_def stage_file_def am store_put_def)
  moreover have "remove_all stage ?d (join_path [stage, mf_skill m]) = ?d (join_path [stage, mf_skill m])"
    by (rule remove_all_other[OF proper_not_root[OF assms(7)] assms(10)])
  ultimately show ?thesis by (simp add: pull_agent_def)
qed

lemma pull_writes_outside_stage_witness:
  "snd (pull_agent (one_yaml (skill_manifest ''a'' ''1'' ''../../home/u/rc''))
      (\<lambda>u. if has_suffix u ''agent.yaml'' then Some ''y'' else Some ''evil'') (\<lambda>_. True) io_ok ''/store'' ''/tmp/hive-pull-1''
      \<lparr>rr_host = ''github.com'', rr_owner = ''o'', rr_repo = ''r'', rr_path = [], rr_ref = ''main''\<rparr> img_disk)
    ''/home/u/rc'' = Some ''evil''"
proof -
  let ?m = "skill_manifest ''a'' ''1'' ''../../home/u/rc''"
  have j: "join_path [''/tmp/hive-pull-1'', mf_skill ?m] = ''/home/u/rc''"
    by (simp add: skill_manifest_def path_eval)
  let ?f = "\<lambda>u. if has_suffix u ''agent.yaml'' then Some ''y'' else Some ''evil''"
  let ?r = "\<lparr>rr_host = ''github.com'', rr_owner = ''o'', rr_repo = ''r'', rr_path = [], rr_ref = ''main''\<rparr>"
  have "snd (pull_agent (one_yaml ?m) ?f (\<lambda>_. True) io_ok ''/store'' ''/tmp/hive-pull-1'' ?r img_disk)
      (join_path [''/tmp/hive-pull-1'', mf_skill ?m]) = Some ''evil''"
    by (rule pull_writes_outside_stage[where mb = "''y''" and m = ?m, THEN conjunct2])
       (simp_all add: one_yaml_def raw_url_def has_suffix_def has_prefix_def trim_left_def dotdot_in_def
          proper_dir_def under_dir_def skill_manifest_def path_eval)
  then show ?thesis by (simp only: j)
qed

end
