(* ===== verification/Room_Handlers.thy ===== *)
theory Room_Handlers
  imports Hire Event_Bus Remote "HOL-Library.Multiset"
begin

section \<open>The daemon's other requests (daemon.go, internal/room, internal/roomstate)\<close>

text \<open>
  Images, Rooms, volumes, logs and tasks as the command line asks for them, over the state of \<open>Hire\<close>
  joined with the event manager, the volumes' directories, the disk of images and the sinks of
  running tasks. What a request meets outside (the clock, directories it makes, the image store's
  disk, a process's answer) is an argument. \<open>rexec\<close> runs any request on the whole state, so a list
  of requests stands for the daemon's life from one start to the next.
\<close>

record rdaemon =
  rd_core :: hdaemon
  rd_bus :: emgr
  rd_vol_root :: string
  rd_vols :: vol_dirs
  rd_img_root :: string
  rd_disk :: "string disk"
  rd_notify :: "string \<rightharpoonup> nat"

text \<open>The lookups of \<open>Hire\<close> follow the directories and the disk.\<close>

definition sync_lookups :: "yaml \<Rightarrow> rdaemon \<Rightarrow> rdaemon" where
  "sync_lookups yaml s =
     s\<lparr>rd_core := (rd_core s)\<lparr>hd_volumes := (\<lambda>n. volume_get (rd_vol_root s) n (rd_vols s)),
                             hd_images := (\<lambda>r. store_get yaml (rd_img_root s) r (rd_disk s))\<rparr>\<rparr>"

subsection \<open>Images\<close>

definition image_answer :: "image \<Rightarrow> image_ref \<times> string" where
  "image_answer img = (image_ref_of img, img_dir img)"

definition handle_image_build ::
  "yaml \<Rightarrow> store_io \<Rightarrow> string option \<Rightarrow> rdaemon \<Rightarrow> (image_ref \<times> string) res \<times> rdaemon" where
  "handle_image_build yaml w params s =
     (case params of
        None \<Rightarrow> (Inl InvalidParams, s)
      | Some src \<Rightarrow>
          (case store_put yaml w (rd_img_root s) src (rd_disk s) of
             (Inl _, d) \<Rightarrow> (Inl InvalidManifest, sync_lookups yaml (s\<lparr>rd_disk := d\<rparr>))
           | (Inr img, d) \<Rightarrow> (Inr (image_answer img), sync_lookups yaml (s\<lparr>rd_disk := d\<rparr>))))"

definition handle_image_pull ::
  "yaml \<Rightarrow> fetcher \<Rightarrow> (string \<Rightarrow> bool) \<Rightarrow> store_io \<Rightarrow> string \<Rightarrow> string option \<Rightarrow> rdaemon
    \<Rightarrow> (image_ref \<times> string) res \<times> rdaemon" where
  "handle_image_pull yaml fetch wr w stage params s =
     (case params of
        None \<Rightarrow> (Inl InvalidParams, s)
      | Some url \<Rightarrow>
          (case parse_remote_ref url of
             Inl _ \<Rightarrow> (Inl InvalidParams, s)
           | Inr ref \<Rightarrow>
               (case pull_agent yaml fetch wr w (rd_img_root s) stage ref (rd_disk s) of
                  (Inl _, d) \<Rightarrow> (Inl Internal, sync_lookups yaml (s\<lparr>rd_disk := d\<rparr>))
                | (Inr img, d) \<Rightarrow> (Inr (image_answer img), sync_lookups yaml (s\<lparr>rd_disk := d\<rparr>)))))"

definition handle_image_list :: "(string \<times> bool \<times> (string \<times> bool) list) list option \<Rightarrow> image_ref list res" where
  "handle_image_list listing = (case listing of None \<Rightarrow> Inl Plain | Some ls \<Rightarrow> Inr (store_list ls))"

subsection \<open>Rooms\<close>

definition fresh_room :: "string \<Rightarrow> hroom" where
  "fresh_room nm = \<lparr>hr_name = nm, hr_members = [], hr_bindings = []\<rparr>"

text \<open>\<open>mk\<close> says whether the Room's three directories could be made.\<close>

definition create_room :: "bool \<Rightarrow> string \<Rightarrow> string \<Rightarrow> rdaemon \<Rightarrow> string res \<times> rdaemon" where
  "create_room mk rid nm s =
     (if \<not> mk then (Inl Plain, s)
      else (Inr (join_path [hd_rooms_dir (rd_core s), rid, ''rootfs'']),
            s\<lparr>rd_core := (rd_core s)\<lparr>hd_rooms := (hd_rooms (rd_core s))(rid \<mapsto> fresh_room nm)\<rparr>\<rparr>))"

definition room_id :: "string \<Rightarrow> int \<Rightarrow> string" where
  "room_id nm now = nm @ ''-'' @ show_int now"

definition handle_room_init ::
  "spawn \<Rightarrow> bool \<Rightarrow> string option \<Rightarrow> rdaemon \<Rightarrow> (string \<times> string) res \<times> rdaemon" where
  "handle_room_init sp mk params s =
     (case params of
        None \<Rightarrow> (Inl InvalidParams, s)
      | Some nm \<Rightarrow>
          if nm = [] then (Inl InvalidParams, s)
          else (let rid = room_id nm (sp_now sp) in
            case create_room mk rid nm s of
              (Inl e, s) \<Rightarrow> (Inl e, s)
            | (Inr rootfs, s) \<Rightarrow> (Inr (rid, rootfs), s\<lparr>rd_core := persist_room sp rid (rd_core s)\<rparr>)))"

text \<open>The listing is sorted by name, then by id; \<open>ids\<close> is the order Go's range gives the map in.\<close>

datatype room_ref = RoomRef (rr_name: string) (rr_id: string) (rr_state: string)

definition ref_before :: "room_ref \<Rightarrow> room_ref \<Rightarrow> bool" where
  "ref_before a b \<longleftrightarrow> (if rr_name a \<noteq> rr_name b then rr_name a < rr_name b else rr_id a < rr_id b)"

text \<open>Ids are different, so the state never decides.\<close>

instantiation room_ref :: linorder
begin

definition less_eq_room_ref :: "room_ref \<Rightarrow> room_ref \<Rightarrow> bool" where
  "less_eq_room_ref a b \<longleftrightarrow>
     ref_before a b \<or> rr_name a = rr_name b \<and> rr_id a = rr_id b \<and> rr_state a \<le> rr_state b"

definition less_room_ref :: "room_ref \<Rightarrow> room_ref \<Rightarrow> bool" where
  "less_room_ref a b \<longleftrightarrow> a \<le> b \<and> a \<noteq> b"

instance
proof
  fix a b c :: room_ref
  show "a < b \<longleftrightarrow> a \<le> b \<and> \<not> b \<le> a"
    by (cases a; cases b) (auto simp: less_room_ref_def less_eq_room_ref_def ref_before_def split: if_splits)
  show "a \<le> a" by (simp add: less_eq_room_ref_def)
  show "a \<le> b \<Longrightarrow> b \<le> c \<Longrightarrow> a \<le> c" by (auto simp: less_eq_room_ref_def ref_before_def split: if_splits)
  show "a \<le> b \<Longrightarrow> b \<le> a \<Longrightarrow> a = b"
    by (cases a; cases b) (auto simp: less_eq_room_ref_def ref_before_def split: if_splits)
  show "a \<le> b \<or> b \<le> a" by (auto simp: less_eq_room_ref_def ref_before_def split: if_splits)
qed

end

definition room_refs :: "string list \<Rightarrow> (string \<rightharpoonup> hroom) \<Rightarrow> room_ref list" where
  "room_refs ids rooms =
     concat (map (\<lambda>rid. case rooms rid of None \<Rightarrow> [] | Some r \<Rightarrow> [RoomRef (hr_name r) rid ''idle'']) ids)"

definition handle_room_list :: "string list \<Rightarrow> rdaemon \<Rightarrow> room_ref list" where
  "handle_room_list ids s = sort (room_refs ids (hd_rooms (rd_core s)))"

text \<open>Stopping ends every member's process; the exit of each drops its subscriptions and refunds its
  parent, and saves nothing, as the Room is gone from the map by then. \<open>conn\<close> is the connection of a
  member and \<open>del\<close> whether the state file could be removed.\<close>

definition stop_member :: "(string \<Rightarrow> string \<Rightarrow> nat) \<Rightarrow> string \<Rightarrow> string \<times> hmember \<Rightarrow> rdaemon \<Rightarrow> rdaemon" where
  "stop_member conn rid x s =
     s\<lparr>rd_bus := mgr_unsubscribe_notifier (conn rid (fst x)) (rd_bus s),
       rd_core := (rd_core s)\<lparr>hd_quota := refund_carves_to_parent rid (snd x) (hd_quota (rd_core s))\<rparr>\<rparr>"

definition handle_room_stop ::
  "(string \<Rightarrow> string \<Rightarrow> nat) \<Rightarrow> bool \<Rightarrow> string option \<Rightarrow> rdaemon \<Rightarrow> unit res \<times> rdaemon" where
  "handle_room_stop conn del params s =
     (case params of
        None \<Rightarrow> (Inl InvalidParams, s)
      | Some rid \<Rightarrow>
          (case hd_rooms (rd_core s) rid of
             None \<Rightarrow> (Inl RoomNotFound, s)
           | Some r \<Rightarrow>
               (let s = s\<lparr>rd_core := (rd_core s)\<lparr>hd_rooms := (hd_rooms (rd_core s))(rid := None)\<rparr>\<rparr>;
                    s = fold (stop_member conn rid) (hr_members r) s;
                    s = s\<lparr>rd_bus := remove_scope (room_key rid) (rd_bus s)\<rparr>
                in (Inr (), if del then s\<lparr>rd_core := (rd_core s)\<lparr>hd_state := (hd_state (rd_core s))(rid := None)\<rparr>\<rparr> else s))))"

definition put_room :: "spawn \<Rightarrow> string \<Rightarrow> hroom \<Rightarrow> rdaemon \<Rightarrow> rdaemon" where
  "put_room sp rid r s =
     s\<lparr>rd_core := persist_room sp rid ((rd_core s)\<lparr>hd_rooms := (hd_rooms (rd_core s))(rid \<mapsto> r)\<rparr>)\<rparr>"

definition handle_room_rename ::
  "spawn \<Rightarrow> (string \<times> string) option \<Rightarrow> rdaemon \<Rightarrow> (string \<times> string) res \<times> rdaemon" where
  "handle_room_rename sp params s =
     (case params of
        None \<Rightarrow> (Inl InvalidParams, s)
      | Some (rid, raw) \<Rightarrow>
          (let nm = trim_space raw in
           if nm = [] then (Inl InvalidParams, s)
           else if 64 < length nm then (Inl InvalidParams, s)
           else case hd_rooms (rd_core s) rid of
               None \<Rightarrow> (Inl RoomNotFound, s)
             | Some r \<Rightarrow> (Inr (rid, nm), put_room sp rid (r\<lparr>hr_name := nm\<rparr>) s)))"

fun check_bindings :: "(string \<Rightarrow> volume res) \<Rightarrow> binding list \<Rightarrow> binding list res" where
  "check_bindings get [] = Inr []"
| "check_bindings get (b # bs) =
     (let vol = trim_space (bd_volume b) in
      if vol = [] then Inl InvalidParams
      else case get vol of
          Inl _ \<Rightarrow> Inl InvalidParams
        | Inr _ \<Rightarrow>
            (case check_bindings get bs of
               Inl e \<Rightarrow> Inl e
             | Inr out \<Rightarrow> Inr (\<lparr>bd_volume = vol, bd_subdir = trim_set (trim_space (bd_subdir b)) ''/''\<rparr> # out)))"

definition handle_room_set_bindings ::
  "spawn \<Rightarrow> (string \<times> binding list) option \<Rightarrow> rdaemon \<Rightarrow> (string \<times> binding list) res \<times> rdaemon" where
  "handle_room_set_bindings sp params s =
     (case params of
        None \<Rightarrow> (Inl InvalidParams, s)
      | Some (rid, bs) \<Rightarrow>
          (case check_bindings (hd_volumes (rd_core s)) bs of
             Inl e \<Rightarrow> (Inl e, s)
           | Inr out \<Rightarrow>
               (case hd_rooms (rd_core s) rid of
                  None \<Rightarrow> (Inl RoomNotFound, s)
                | Some r \<Rightarrow> (Inr (rid, out), put_room sp rid (r\<lparr>hr_bindings := out\<rparr>) s))))"

text \<open>The team shows each member with what is left of its limited resources.\<close>

record team_member =
  tm_name :: string
  tm_image :: string
  tm_rank :: string
  tm_quota :: "(string \<times> int) list"

definition remaining_quota :: "string \<Rightarrow> hmember \<Rightarrow> actor \<Rightarrow> (string \<times> int) list" where
  "remaining_quota rid m a =
     concat (map (\<lambda>(r, _). case fst (get_remaining a (bucket_key rid (hm_name m) r)) of
         Inl _ \<Rightarrow> []
       | Inr x \<Rightarrow> if r_unlimited x then [] else [(r, r_remaining x)])
       (quota_buckets (effective_quota (hm_rank m) (hm_quota m))))"

definition handle_room_team :: "string option \<Rightarrow> rdaemon \<Rightarrow> team_member list res" where
  "handle_room_team params s =
     (case params of
        None \<Rightarrow> Inl InvalidParams
      | Some rid \<Rightarrow>
          (case hd_rooms (rd_core s) rid of
             None \<Rightarrow> Inl RoomNotFound
           | Some r \<Rightarrow>
               Inr (map (\<lambda>(_, m). \<lparr>tm_name = hm_name m, tm_image = ref_name (hm_image m), tm_rank = rk_name (hm_rank m),
                                  tm_quota = remaining_quota rid m (hd_quota (rd_core s))\<rparr>) (hr_members r))))"

subsection \<open>Volumes\<close>

definition handle_volume_create ::
  "yaml \<Rightarrow> bool \<Rightarrow> string option \<Rightarrow> rdaemon \<Rightarrow> volume res \<times> rdaemon" where
  "handle_volume_create yaml mk params s =
     (case params of
        None \<Rightarrow> (Inl InvalidParams, s)
      | Some nm \<Rightarrow>
          (case volume_create mk (rd_vol_root s) nm (rd_vols s) of
             (Inl _, vs) \<Rightarrow> (Inl InvalidParams, s)
           | (Inr v, vs) \<Rightarrow> (Inr v, sync_lookups yaml (s\<lparr>rd_vols := vs\<rparr>))))"

definition handle_volume_list :: "rdaemon \<Rightarrow> volume list" where
  "handle_volume_list s = volume_list (rd_vol_root s) (rd_vols s)"

definition handle_volume_remove ::
  "yaml \<Rightarrow> bool \<Rightarrow> string option \<Rightarrow> rdaemon \<Rightarrow> unit res \<times> rdaemon" where
  "handle_volume_remove yaml rm params s =
     (case params of
        None \<Rightarrow> (Inl InvalidParams, s)
      | Some nm \<Rightarrow>
          (case volume_remove rm nm (rd_vols s) of
             (Inl _, vs) \<Rightarrow> (Inl InvalidParams, s)
           | (Inr _, vs) \<Rightarrow>
               (Inr (), sync_lookups yaml (s\<lparr>rd_vols := vs, rd_bus := remove_scope (volume_key nm) (rd_bus s)\<rparr>))))"

subsection \<open>Logs\<close>

text \<open>\<open>dir_there\<close> is the check for a stopped Room's directory; the listing of the log directory gives each
  entry's name, whether it is a directory, and its contents if it can be read. It is none when the
  directory does not exist or cannot be read, by \<open>missing\<close>.\<close>

definition log_suffix :: string where "log_suffix = ''.stderr.log''"

definition handle_room_logs ::
  "bool \<Rightarrow> bool \<Rightarrow> (string \<times> bool \<times> string option) list option \<Rightarrow> string \<Rightarrow> (string \<times> string) option \<Rightarrow> rdaemon
    \<Rightarrow> (string \<times> string \<times> string) list res" where
  "handle_room_logs dir_there missing listing read_error params s =
     (case params of
        None \<Rightarrow> Inl InvalidParams
      | Some (rid, agent) \<Rightarrow>
          if hd_rooms (rd_core s) rid = None \<and> \<not> dir_there then Inl RoomNotFound
          else case listing of
              None \<Rightarrow> if missing then Inr [] else Inl Plain
            | Some es \<Rightarrow>
                (let dir = join_path [hd_rooms_dir (rd_core s), rid, ''logs''];
                     out = map (\<lambda>(nm, _, c). (trim_suffix nm log_suffix, join_path [dir, nm],
                                 case c of Some t \<Rightarrow> t | None \<Rightarrow> read_error))
                       (filter (\<lambda>(nm, isdir, _). \<not> isdir \<and> has_suffix nm log_suffix
                          \<and> (agent = [] \<or> trim_suffix nm log_suffix = agent)) es)
                 in if agent \<noteq> [] \<and> out = [] then Inl AgentNotFound else Inr out))"

subsection \<open>Running a task\<close>

text \<open>How a dispatched task ends, and what the caller gets.\<close>

datatype run_end = RunDone string | RunFailed | RunNotSent | RunCancelled | RunExited

definition room_run :: "hroom \<Rightarrow> string \<Rightarrow> run_end \<Rightarrow> string res" where
  "room_run r target e =
     (if map_of (hr_members r) target = None then Inl Plain
      else case e of RunDone out \<Rightarrow> Inr out | _ \<Rightarrow> Inl Plain)"

text \<open>While it runs the caller's sink is the one the Room's log and status lines go to.\<close>

definition handle_room_run ::
  "nat \<Rightarrow> run_end \<Rightarrow> (string \<times> string \<times> string) option \<Rightarrow> rdaemon \<Rightarrow> string res \<times> rdaemon \<times> rdaemon" where
  "handle_room_run sink e params s =
     (case params of
        None \<Rightarrow> (Inl InvalidParams, s, s)
      | Some (rid, target, task) \<Rightarrow>
          (case hd_rooms (rd_core s) rid of
             None \<Rightarrow> (Inl RoomNotFound, s, s)
           | Some r \<Rightarrow>
               if target = [] \<and> hr_members r = [] then (Inl Plain, s, s)
               else (let target = (if target = [] then ref_name (hm_image (snd (hd (hr_members r)))) else target);
                         during = s\<lparr>rd_notify := (rd_notify s)(rid \<mapsto> sink)\<rparr>
                     in (room_run r target e, during, s\<lparr>rd_notify := (rd_notify s)(rid := None)\<rparr>))))"

definition stream_to :: "string \<Rightarrow> rdaemon \<Rightarrow> nat option" where
  "stream_to rid s = rd_notify s rid"

text \<open>The tasks of one agent: each run sets the connection's handler of \<^verbatim>\<open>task/done\<close> to one for its own task
  id, which ignores other ids, and waits for it.\<close>

record task_slots =
  ts_handler :: "string option"
  ts_waiting :: "string set"
  ts_results :: "string \<rightharpoonup> string"

definition task_start :: "string \<Rightarrow> task_slots \<Rightarrow> task_slots" where
  "task_start t s = s\<lparr>ts_handler := Some t, ts_waiting := insert t (ts_waiting s)\<rparr>"

definition task_done :: "string \<Rightarrow> string \<Rightarrow> task_slots \<Rightarrow> task_slots" where
  "task_done t out s =
     (if ts_handler s = Some t
      then s\<lparr>ts_results := (ts_results s)(t \<mapsto> out), ts_waiting := ts_waiting s - {t}\<rparr> else s)"

subsection \<open>The daemon's life\<close>

definition room_exit :: "(string \<Rightarrow> string \<Rightarrow> nat) \<Rightarrow> spawn \<Rightarrow> string \<Rightarrow> string \<Rightarrow> rdaemon \<Rightarrow> rdaemon" where
  "room_exit conn sp rid nm s =
     s\<lparr>rd_bus := mgr_unsubscribe_notifier (conn rid nm) (rd_bus s), rd_core := agent_exit sp rid nm (rd_core s)\<rparr>"

definition room_members :: "string \<Rightarrow> rdaemon \<Rightarrow> (string \<times> hmember) list" where
  "room_members rid s = (case hd_rooms (rd_core s) rid of None \<Rightarrow> [] | Some r \<Rightarrow> hr_members r)"

text \<open>The shutdown flags first, then stops every Room; the Rooms stay in the map.\<close>

definition shutdown :: "(string \<Rightarrow> string \<Rightarrow> nat) \<Rightarrow> spawn \<Rightarrow> string list \<Rightarrow> rdaemon \<Rightarrow> rdaemon" where
  "shutdown conn sp ids s =
     (let s = s\<lparr>rd_core := (rd_core s)\<lparr>hd_shutting := True\<rparr>\<rparr>;
          s = fold (\<lambda>rid s. fold (\<lambda>x. room_exit conn sp rid (fst x)) (room_members rid s) s) ids s
      in s\<lparr>rd_bus := mgr_shutdown (rd_bus s), rd_core := (rd_core s)\<lparr>hd_quota := stop_actor (hd_quota (rd_core s))\<rparr>\<rparr>)"

datatype rop =
    OpBuild store_io "string option"
  | OpPull fetcher "string \<Rightarrow> bool" store_io string "string option"
  | OpInit bool "string option"
  | OpStop bool "string option"
  | OpRename "(string \<times> string) option"
  | OpBindings "(string \<times> binding list) option"
  | OpVolCreate bool "string option"
  | OpVolRemove bool "string option"
  | OpHire "(string \<times> hire_config) option"
  | OpJunior string string "junior_params option"
  | OpExit string string

definition junior_of :: "spawn \<Rightarrow> string \<Rightarrow> string \<Rightarrow> junior_params option \<Rightarrow> hdaemon \<Rightarrow> hdaemon" where
  "junior_of sp rid parent params d =
     (case hd_rooms d rid of
        None \<Rightarrow> d
      | Some r \<Rightarrow>
          (case map_of (hr_members r) parent of
             None \<Rightarrow> d
           | Some m \<Rightarrow> snd (handle_hire_junior sp rid m params d)))"

fun rexec :: "yaml \<Rightarrow> (string \<Rightarrow> string \<Rightarrow> nat) \<Rightarrow> spawn \<times> rop \<Rightarrow> rdaemon \<Rightarrow> rdaemon" where
  "rexec yaml conn (sp, OpBuild w p) s = snd (handle_image_build yaml w p s)"
| "rexec yaml conn (sp, OpPull f wr w stage p) s = snd (handle_image_pull yaml f wr w stage p s)"
| "rexec yaml conn (sp, OpInit mk p) s = snd (handle_room_init sp mk p s)"
| "rexec yaml conn (sp, OpStop del p) s = snd (handle_room_stop conn del p s)"
| "rexec yaml conn (sp, OpRename p) s = snd (handle_room_rename sp p s)"
| "rexec yaml conn (sp, OpBindings p) s = snd (handle_room_set_bindings sp p s)"
| "rexec yaml conn (sp, OpVolCreate mk p) s = snd (handle_volume_create yaml mk p s)"
| "rexec yaml conn (sp, OpVolRemove rm p) s = snd (handle_volume_remove yaml rm p s)"
| "rexec yaml conn (sp, OpHire p) s = s\<lparr>rd_core := snd (handle_agent_hire sp p (rd_core s))\<rparr>"
| "rexec yaml conn (sp, OpJunior rid parent p) s = s\<lparr>rd_core := junior_of sp rid parent p (rd_core s)\<rparr>"
| "rexec yaml conn (sp, OpExit rid nm) s = room_exit conn sp rid nm s"

definition run_ops :: "yaml \<Rightarrow> (string \<Rightarrow> string \<Rightarrow> nat) \<Rightarrow> (spawn \<times> rop) list \<Rightarrow> rdaemon \<Rightarrow> rdaemon" where
  "run_ops yaml conn ops s = fold (rexec yaml conn) ops s"

subsection \<open>The state files follow the Rooms\<close>

definition mirrored :: "hdaemon \<Rightarrow> bool" where
  "mirrored d \<longleftrightarrow> (\<forall>rid. hd_state d rid = map_option snapshot_for (hd_rooms d rid))"

definition mirrored_but :: "string \<Rightarrow> hdaemon \<Rightarrow> bool" where
  "mirrored_but rid d \<longleftrightarrow> (\<forall>q. q \<noteq> rid \<longrightarrow> hd_state d q = map_option snapshot_for (hd_rooms d q))"

lemma mirrored_but: "mirrored d \<Longrightarrow> mirrored_but rid d"
  by (simp add: mirrored_def mirrored_but_def)

lemma persist_mirrors:
  "mirrored_but rid d \<Longrightarrow> hd_rooms d rid \<noteq> None \<Longrightarrow> sp_save sp \<Longrightarrow> mirrored (persist_room sp rid d)"
  by (auto simp: mirrored_def mirrored_but_def persist_room_def)

lemma mirrored_put [simp]:
  "mirrored_but rid (d\<lparr>hd_rooms := (hd_rooms d)(rid := x)\<rparr>) = mirrored_but rid d"
  "mirrored_but rid (d\<lparr>hd_quota := a\<rparr>) = mirrored_but rid d"
  "mirrored (d\<lparr>hd_quota := a\<rparr>) = mirrored d"
  "mirrored (d\<lparr>hd_volumes := f\<rparr>) = mirrored d" "mirrored (d\<lparr>hd_images := g\<rparr>) = mirrored d"
  by (auto simp: mirrored_def mirrored_but_def)

lemma hire_frame:
  "hire_from_config sp rid cfg d = (x, d') \<Longrightarrow>
     hd_state d' = hd_state d \<and> hd_shutting d' = hd_shutting d \<and> (\<forall>q. q \<noteq> rid \<longrightarrow> hd_rooms d' q = hd_rooms d q)
     \<and> (case x of Inl _ \<Rightarrow> hd_rooms d' = hd_rooms d | Inr _ \<Rightarrow> hd_rooms d' rid \<noteq> None)"
  by (auto simp: hire_from_config_def room_hire_def Let_def split: sum.splits option.splits if_splits)

lemma hire_mirrored:
  assumes "hire_from_config sp rid cfg d = (x, d')" "mirrored d"
  shows "case x of Inl _ \<Rightarrow> mirrored d' | Inr _ \<Rightarrow> mirrored_but rid d' \<and> hd_rooms d' rid \<noteq> None"
  using hire_frame[OF assms(1)] assms(2) by (auto simp: mirrored_def mirrored_but_def split: sum.splits)

lemma agent_hire_mirrored:
  assumes "mirrored d" "sp_save sp"
  shows "mirrored (snd (handle_agent_hire sp p d))"
proof (cases p)
  case (Some x)
  obtain rid cfg where x: "x = (rid, cfg)" by fastforce
  obtain r d' where h: "hire_from_config sp rid (cfg\<lparr>hc_parent := [], hc_name := []\<rparr>) d = (r, d')" by fastforce
  from hire_mirrored[OF h assms(1)] h Some x assms show ?thesis
    by (cases r) (auto simp: handle_agent_hire_def intro: persist_mirrors)
qed (simp add: handle_agent_hire_def assms)

text \<open>What a request for a junior does to the daemon: at most a change of counters, or a hire after it,
  saved when it succeeds.\<close>

lemma quota_self: "\<exists>a. d = d\<lparr>hd_quota := a\<rparr>"
  by (rule exI[of _ "hd_quota d"]) simp

lemma junior_cases:
  "handle_hire_junior sp rid parent p d = (r, d') \<Longrightarrow>
     (\<exists>a. d' = d\<lparr>hd_quota := a\<rparr>)
     \<or> (\<exists>a cfg e. hire_from_config sp rid cfg (d\<lparr>hd_quota := a\<rparr>) = (Inl e, d'))
     \<or> (\<exists>a cfg m d1. hire_from_config sp rid cfg (d\<lparr>hd_quota := a\<rparr>) = (Inr m, d1) \<and> d' = persist_room sp rid d1)"
proof (cases p)
  case None
  then show "handle_hire_junior sp rid parent p d = (r, d') \<Longrightarrow> ?thesis"
    using quota_self by (auto simp: handle_hire_junior_def)
next
  case (Some q)
  assume "handle_hire_junior sp rid parent p d = (r, d')"
  then show ?thesis
    unfolding Some handle_hire_junior_steps
    using quota_self[of d] by (auto split: if_splits sum.splits prod.splits) blast+
qed

lemma junior_shape:
  obtains (quota) a where "snd (handle_hire_junior sp rid parent p d) = d\<lparr>hd_quota := a\<rparr>"
  | (failed) a cfg e d1 where "hire_from_config sp rid cfg (d\<lparr>hd_quota := a\<rparr>) = (Inl e, d1)"
      "snd (handle_hire_junior sp rid parent p d) = d1"
  | (hired) a cfg m d1 where "hire_from_config sp rid cfg (d\<lparr>hd_quota := a\<rparr>) = (Inr m, d1)"
      "snd (handle_hire_junior sp rid parent p d) = persist_room sp rid d1"
  using junior_cases[of sp rid parent p d] by (metis prod.collapse)

lemma junior_mirrored:
  assumes "mirrored d" "sp_save sp"
  shows "mirrored (snd (handle_hire_junior sp rid parent p d))"
proof (rule junior_shape[of sp rid parent p d])
  fix a assume "snd (handle_hire_junior sp rid parent p d) = d\<lparr>hd_quota := a\<rparr>"
  with assms show ?thesis by simp
next
  fix a cfg e d1
  assume "hire_from_config sp rid cfg (d\<lparr>hd_quota := a\<rparr>) = (Inl e, d1)" "snd (handle_hire_junior sp rid parent p d) = d1"
  with hire_mirrored[of sp rid cfg "d\<lparr>hd_quota := a\<rparr>"] assms show ?thesis by fastforce
next
  fix a cfg m d1
  assume "hire_from_config sp rid cfg (d\<lparr>hd_quota := a\<rparr>) = (Inr m, d1)"
    "snd (handle_hire_junior sp rid parent p d) = persist_room sp rid d1"
  with hire_mirrored[of sp rid cfg "d\<lparr>hd_quota := a\<rparr>"] assms show ?thesis by (fastforce intro: persist_mirrors)
qed

lemma exit_mirrored:
  "mirrored d \<Longrightarrow> sp_save sp \<Longrightarrow> \<not> hd_shutting d \<Longrightarrow> mirrored (agent_exit sp rid nm d)"
  by (auto simp: agent_exit_def Let_def mirrored_but split: option.split intro!: persist_mirrors)

lemma stop_member_frame [simp]:
  "hd_rooms (rd_core (fold (stop_member conn rid) ms s)) = hd_rooms (rd_core s)"
  "hd_state (rd_core (fold (stop_member conn rid) ms s)) = hd_state (rd_core s)"
  "hd_shutting (rd_core (fold (stop_member conn rid) ms s)) = hd_shutting (rd_core s)"
  "hd_volumes (rd_core (fold (stop_member conn rid) ms s)) = hd_volumes (rd_core s)"
  "hd_images (rd_core (fold (stop_member conn rid) ms s)) = hd_images (rd_core s)"
  by (induction ms arbitrary: s) (simp_all add: stop_member_def)

lemma put_room_mirrored: "mirrored (rd_core s) \<Longrightarrow> sp_save sp \<Longrightarrow> mirrored (rd_core (put_room sp rid r s))"
  by (simp add: put_room_def mirrored_but persist_mirrors)

lemma sync_mirrored [simp]: "mirrored (rd_core (sync_lookups yaml s)) = mirrored (rd_core s)"
  by (simp add: sync_lookups_def mirrored_def)

lemma init_mirrored:
  "mirrored (rd_core s) \<Longrightarrow> sp_save sp \<Longrightarrow> mirrored (rd_core (snd (handle_room_init sp mk p s)))"
  by (auto simp: handle_room_init_def create_room_def Let_def mirrored_but split: option.split intro!: persist_mirrors)

lemma stop_mirrored:
  "mirrored (rd_core s) \<Longrightarrow> mirrored (rd_core (snd (handle_room_stop conn True p s)))"
  by (auto simp: handle_room_stop_def mirrored_def Let_def split: option.split)

text \<open>A request whose writes succeed: the state file is saved, or removed.\<close>

fun saves :: "spawn \<times> rop \<Rightarrow> bool" where
  "saves (sp, OpStop del p) \<longleftrightarrow> del"
| "saves (sp, _) \<longleftrightarrow> sp_save sp"

lemma shutting_frame:
  "hd_shutting (persist_room sp rid d) = hd_shutting d"
  "hd_shutting (snd (handle_agent_hire sp p d)) = hd_shutting d"
  "hd_shutting (agent_exit sp rid nm d) = hd_shutting d"
proof -
  show p: "hd_shutting (persist_room sp rid d) = hd_shutting d" for sp rid d
    by (simp add: persist_room_def split: option.split)
  show "hd_shutting (snd (handle_agent_hire sp p d)) = hd_shutting d"
    using hire_frame by (auto simp: handle_agent_hire_def p split: option.split prod.split sum.split)
  show "hd_shutting (agent_exit sp rid nm d) = hd_shutting d"
    by (simp add: agent_exit_def Let_def p split: option.split)
qed

lemma junior_shutting: "hd_shutting (snd (handle_hire_junior sp rid parent p d)) = hd_shutting d"
proof (rule junior_shape[of sp rid parent p d])
  fix a cfg e d1
  assume "hire_from_config sp rid cfg (d\<lparr>hd_quota := a\<rparr>) = (Inl e, d1)" "snd (handle_hire_junior sp rid parent p d) = d1"
  with hire_frame show ?thesis by fastforce
next
  fix a cfg m d1
  assume "hire_from_config sp rid cfg (d\<lparr>hd_quota := a\<rparr>) = (Inr m, d1)"
    "snd (handle_hire_junior sp rid parent p d) = persist_room sp rid d1"
  with hire_frame show ?thesis by (fastforce simp: shutting_frame(1))
qed simp

lemma put_room_shutting: "hd_shutting (rd_core (put_room sp rid r s)) = hd_shutting (rd_core s)"
  by (simp add: put_room_def shutting_frame)

lemma rexec_mirrored:
  assumes "mirrored (rd_core s)" "\<not> hd_shutting (rd_core s)" "saves (sp, x)"
  shows "mirrored (rd_core (rexec yaml conn (sp, x) s)) \<and> \<not> hd_shutting (rd_core (rexec yaml conn (sp, x) s))"
proof (cases x)
  case (OpBuild w p)
  with assms show ?thesis
    by (auto simp: handle_image_build_def sync_lookups_def split: option.split prod.split sum.split)
next
  case (OpPull f wr w stage p)
  with assms show ?thesis
    by (auto simp: handle_image_pull_def sync_lookups_def split: option.split prod.split sum.split)
next
  case (OpInit mk p)
  with assms init_mirrored show ?thesis
    by (auto simp: handle_room_init_def create_room_def Let_def shutting_frame split: option.split)
next
  case (OpStop del p)
  with assms stop_mirrored[of s conn p] show ?thesis
    by (auto simp: handle_room_stop_def Let_def split: option.split)
next
  case (OpRename p)
  with assms show ?thesis
    by (auto simp: handle_room_rename_def Let_def put_room_mirrored put_room_shutting split: option.split)
next
  case (OpBindings p)
  with assms show ?thesis
    by (auto simp: handle_room_set_bindings_def Let_def put_room_mirrored put_room_shutting split: option.split sum.split)
next
  case (OpVolCreate mk p)
  with assms show ?thesis
    by (auto simp: handle_volume_create_def sync_lookups_def split: option.split prod.split sum.split)
next
  case (OpVolRemove rm p)
  with assms show ?thesis
    by (auto simp: handle_volume_remove_def sync_lookups_def split: option.split prod.split sum.split)
next
  case (OpHire p)
  with assms show ?thesis by (simp add: agent_hire_mirrored shutting_frame)
next
  case (OpJunior rid parent p)
  with assms show ?thesis
    by (auto simp: junior_of_def junior_mirrored junior_shutting split: option.split)
next
  case (OpExit rid nm)
  with assms show ?thesis by (simp add: room_exit_def exit_mirrored shutting_frame)
qed

lemma run_ops_mirrored:
  "mirrored (rd_core s) \<Longrightarrow> \<not> hd_shutting (rd_core s) \<Longrightarrow> list_all saves ops \<Longrightarrow>
     mirrored (rd_core (run_ops yaml conn ops s))"
proof (induction ops arbitrary: s)
  case (Cons x ops)
  obtain sp y where x: "x = (sp, y)" by fastforce
  with Cons.prems have "mirrored (rd_core (rexec yaml conn x s)) \<and> \<not> hd_shutting (rd_core (rexec yaml conn x s))"
    using rexec_mirrored[of s sp y] by simp
  with Cons show ?case by (simp add: run_ops_def)
qed (simp add: run_ops_def)

lemma exits_keep_state:
  "hd_shutting (rd_core s) \<Longrightarrow>
     hd_state (rd_core (fold (\<lambda>x. room_exit conn sp rid (fst x)) ms s)) = hd_state (rd_core s)
     \<and> hd_shutting (rd_core (fold (\<lambda>x. room_exit conn sp rid (fst x)) ms s))"
proof (induction ms arbitrary: s)
  case (Cons m ms)
  have "hd_state (agent_exit sp rid (fst m) (rd_core s)) = hd_state (rd_core s)"
    using Cons.prems by (auto simp: agent_exit_def Let_def split: option.split)
  with Cons show ?case by (simp add: room_exit_def shutting_frame)
qed simp

lemma shutdown_keeps_state: "hd_state (rd_core (shutdown conn sp ids s)) = hd_state (rd_core s)"
proof -
  have "hd_state (rd_core (fold (\<lambda>rid s. fold (\<lambda>x. room_exit conn sp rid (fst x)) (room_members rid s) s) ids s)) = hd_state (rd_core s)"
    if "hd_shutting (rd_core s)" for s
    using that
  proof (induction ids arbitrary: s)
    case (Cons rid ids)
    then show ?case
      using exits_keep_state[of s conn sp rid "room_members rid s"]
        Cons.IH[of "fold (\<lambda>x. room_exit conn sp rid (fst x)) (room_members rid s) s"] by simp
  qed simp
  from this[of "s\<lparr>rd_core := (rd_core s)\<lparr>hd_shutting := True\<rparr>\<rparr>"] show ?thesis by (simp add: shutdown_def Let_def)
qed

text \<open>C10. The state files follow the Rooms: after any requests and exits, as long as the writes
  succeed, there is a state file for exactly the Rooms that exist, with each Room's members, name and
  bindings as they are, so that a stopped Room does not come back; and an orderly shutdown, in which
  all agents exit, leaves the files as they were for the next start.\<close>

theorem state_files_mirror_rooms:
  assumes "mirrored (rd_core s)" "\<not> hd_shutting (rd_core s)" "list_all saves ops" "t = run_ops yaml conn ops s"
  shows "hd_state (rd_core t) = map_option snapshot_for \<circ> hd_rooms (rd_core t)
    \<and> hd_state (rd_core (shutdown conn sp ids t)) = map_option snapshot_for \<circ> hd_rooms (rd_core t)"
  using run_ops_mirrored[OF assms(1-3)] assms(4) by (auto simp: mirrored_def shutdown_keeps_state)

definition boot :: rdaemon where
  "boot = \<lparr>rd_core = (boss_daemon 0)\<lparr>hd_rooms := Map.empty\<rparr>, rd_bus = new_manager, rd_vol_root = ''/vols'', rd_vols = [],
     rd_img_root = ''/images'', rd_disk = Map.empty, rd_notify = Map.empty\<rparr>"

lemma digit_9: "digit 9 = CHR ''9''"
  by code_simp

lemma state_files_mirror_rooms_witness:
  "hd_state (rd_core (shutdown (\<lambda>_ _. 0) spawn_a [''a-9'']
       (run_ops (\<lambda>_. None) (\<lambda>_ _. 0) [(spawn_a, OpInit True (Some ''a'')), (spawn_a, OpRename (Some (''a-9'', '' b '')))] boot)))
     ''a-9'' = Some (snapshot_for (fresh_room ''b''))"
proof -
  let ?ops = "[(spawn_a, OpInit True (Some ''a'')), (spawn_a, OpRename (Some (''a-9'', '' b '')))]"
  have init: "mirrored (rd_core boot)" "\<not> hd_shutting (rd_core boot)" "list_all saves ?ops"
    by (simp_all add: boot_def mirrored_def boss_daemon_def spawn_a_def)
  have "hd_rooms (rd_core (run_ops (\<lambda>_. None) (\<lambda>_ _. 0) ?ops boot)) ''a-9'' = Some (fresh_room ''b'')"
    by (simp add: run_ops_def handle_room_init_def create_room_def room_id_def show_int_def show_nat.simps digit_9 spawn_a_def
        handle_room_rename_def put_room_def persist_room_def boot_def fresh_room_def trim_space_def trim_set_def trim_left_def
        trim_right_def white_def Let_def)
  with state_files_mirror_rooms[OF init HOL.refl, where yaml = "\<lambda>_. None" and conn = "\<lambda>_ _. 0" and sp = spawn_a and ids = "[''a-9'']"] show ?thesis by simp
qed

subsection \<open>The shape of the daemon's state\<close>

text \<open>A Room has a name; its members are keyed by their own names, each once; its bindings name
  volumes as the volume manager accepts them. The lookups are those of the directories and the disk.\<close>

definition room_typed :: "hroom \<Rightarrow> bool" where
  "room_typed r \<longleftrightarrow> hr_name r \<noteq> [] \<and> distinct (map fst (hr_members r))
     \<and> list_all (\<lambda>(n, m). n = hm_name m) (hr_members r)
     \<and> list_all (\<lambda>b. valid_volume_name (bd_volume b)) (hr_bindings r)"

definition rooms_typed :: "hdaemon \<Rightarrow> bool" where
  "rooms_typed d \<longleftrightarrow> (\<forall>rid r. hd_rooms d rid = Some r \<longrightarrow> room_typed r)"

definition daemon_typed :: "rdaemon \<Rightarrow> bool" where
  "daemon_typed s \<longleftrightarrow> rooms_typed (rd_core s)
     \<and> (\<forall>n v. hd_volumes (rd_core s) n = Inr v \<longrightarrow> valid_volume_name n)"

lemma rooms_typed_simps [simp]:
  "rooms_typed (d\<lparr>hd_quota := a\<rparr>) = rooms_typed d" "rooms_typed (d\<lparr>hd_state := st\<rparr>) = rooms_typed d"
  "rooms_typed (d\<lparr>hd_volumes := f\<rparr>) = rooms_typed d" "rooms_typed (d\<lparr>hd_images := g\<rparr>) = rooms_typed d"
  "rooms_typed (persist_room sp rid d) = rooms_typed d"
  by (simp_all add: rooms_typed_def persist_room_def split: option.split)

lemma rooms_typed_put: "rooms_typed d \<Longrightarrow> room_typed r \<Longrightarrow> rooms_typed (d\<lparr>hd_rooms := (hd_rooms d)(rid \<mapsto> r)\<rparr>)"
  by (simp add: rooms_typed_def)

lemma rooms_typed_drop: "rooms_typed d \<Longrightarrow> rooms_typed (d\<lparr>hd_rooms := (hd_rooms d)(rid := None)\<rparr>)"
  by (simp add: rooms_typed_def)

lemma hire_typed: "hire_from_config sp rid cfg d = (x, d') \<Longrightarrow> rooms_typed d \<Longrightarrow> rooms_typed d'"
  by (auto simp: hire_from_config_def room_hire_def Let_def rooms_typed_def room_typed_def split: sum.splits option.splits if_splits)

lemma hire_volumes: "hire_from_config sp rid cfg d = (x, d') \<Longrightarrow> hd_volumes d' = hd_volumes d"
  by (auto simp: hire_from_config_def room_hire_def Let_def split: sum.splits option.splits if_splits)

lemma persist_volumes [simp]: "hd_volumes (persist_room sp rid d) = hd_volumes d"
  by (simp add: persist_room_def split: option.split)

lemma agent_hire_typed:
  "rooms_typed d \<Longrightarrow> rooms_typed (snd (handle_agent_hire sp p d)) \<and> hd_volumes (snd (handle_agent_hire sp p d)) = hd_volumes d"
  using hire_typed hire_volumes by (fastforce simp: handle_agent_hire_def split: option.split prod.split sum.split)

lemma junior_typed:
  "rooms_typed d \<Longrightarrow> rooms_typed (snd (handle_hire_junior sp rid parent p d))
     \<and> hd_volumes (snd (handle_hire_junior sp rid parent p d)) = hd_volumes d"
proof (rule junior_shape[of sp rid parent p d])
  fix a cfg e d1
  assume "rooms_typed d" "hire_from_config sp rid cfg (d\<lparr>hd_quota := a\<rparr>) = (Inl e, d1)"
    "snd (handle_hire_junior sp rid parent p d) = d1"
  with hire_typed hire_volumes show ?thesis by fastforce
next
  fix a cfg m d1
  assume "rooms_typed d" "hire_from_config sp rid cfg (d\<lparr>hd_quota := a\<rparr>) = (Inr m, d1)"
    "snd (handle_hire_junior sp rid parent p d) = persist_room sp rid d1"
  with hire_typed hire_volumes show ?thesis by fastforce
qed simp

lemma room_typed_filter: "room_typed r \<Longrightarrow> room_typed (r\<lparr>hr_members := filter P (hr_members r)\<rparr>)"
  by (auto simp: room_typed_def distinct_map_filter list_all_iff)

lemma exit_typed:
  "rooms_typed d \<Longrightarrow> rooms_typed (agent_exit sp rid nm d) \<and> hd_volumes (agent_exit sp rid nm d) = hd_volumes d"
  by (auto simp: agent_exit_def Let_def rooms_typed_put room_typed_filter split: option.split)
    (auto simp: rooms_typed_def room_typed_filter)

lemma check_bindings_typed:
  "check_bindings get bs = Inr out \<Longrightarrow> (\<And>n v. get n = Inr v \<Longrightarrow> valid_volume_name n) \<Longrightarrow>
     list_all (\<lambda>b. valid_volume_name (bd_volume b)) out"
proof (induction bs arbitrary: out)
  case (Cons b bs)
  then show ?case by (auto simp: Let_def split: if_splits sum.splits)
qed simp

lemma sync_typed:
  "rooms_typed (rd_core s) \<Longrightarrow> daemon_typed (sync_lookups yaml s)"
  by (auto simp: daemon_typed_def sync_lookups_def volume_get_def split: if_splits)

lemma typed_room: "rooms_typed d \<Longrightarrow> hd_rooms d rid = Some r \<Longrightarrow> room_typed r"
  by (simp add: rooms_typed_def)

lemma rexec_typed:
  assumes "daemon_typed s"
  shows "daemon_typed (rexec yaml conn (sp, x) s)"
proof -
  have t: "rooms_typed (rd_core s)" and v: "\<And>n v. hd_volumes (rd_core s) n = Inr v \<Longrightarrow> valid_volume_name n"
    using assms by (auto simp: daemon_typed_def)
  show ?thesis
  proof (cases x)
    case (OpBuild w p)
    with assms t show ?thesis
      by (auto simp: handle_image_build_def intro!: sync_typed split: option.split prod.split sum.split)
  next
    case (OpPull f wr w stage p)
    with assms t show ?thesis
      by (auto simp: handle_image_pull_def intro!: sync_typed split: option.split prod.split sum.split)
  next
    case (OpInit mk p)
    have "room_typed (fresh_room nm)" if "nm \<noteq> []" for nm using that by (simp add: room_typed_def fresh_room_def)
    with OpInit assms t show ?thesis
      by (auto simp: handle_room_init_def create_room_def Let_def daemon_typed_def rooms_typed_put split: option.split)
  next
    case (OpStop del p)
    with assms t rooms_typed_drop show ?thesis
      by (auto simp: handle_room_stop_def Let_def daemon_typed_def rooms_typed_def split: option.split)
  next
    case (OpRename p)
    have "room_typed (r\<lparr>hr_name := nm\<rparr>)" if "room_typed r" "nm \<noteq> []" for r nm using that by (simp add: room_typed_def)
    with OpRename assms t show ?thesis
      by (auto simp: handle_room_rename_def Let_def daemon_typed_def put_room_def intro!: rooms_typed_put dest: typed_room split: option.split)
  next
    case (OpBindings p)
    have "room_typed (r\<lparr>hr_bindings := out\<rparr>)" if "room_typed r" "check_bindings (hd_volumes (rd_core s)) bs = Inr out" for r bs out
      using that check_bindings_typed[OF that(2) v] by (simp add: room_typed_def)
    with OpBindings assms t show ?thesis
      by (auto simp: handle_room_set_bindings_def daemon_typed_def put_room_def intro!: rooms_typed_put dest: typed_room split: option.split sum.split)
  next
    case (OpVolCreate mk p)
    with assms t show ?thesis
      by (auto simp: handle_volume_create_def intro!: sync_typed split: option.split prod.split sum.split)
  next
    case (OpVolRemove rm p)
    with assms t show ?thesis
      by (auto simp: handle_volume_remove_def intro!: sync_typed split: option.split prod.split sum.split)
  next
    case (OpHire p)
    with assms agent_hire_typed[OF t] show ?thesis by (auto simp: daemon_typed_def)
  next
    case (OpJunior rid parent p)
    with assms junior_typed[OF t] show ?thesis by (auto simp: daemon_typed_def junior_of_def split: option.split)
  next
    case (OpExit rid nm)
    with assms exit_typed[OF t] show ?thesis by (auto simp: daemon_typed_def room_exit_def)
  qed
qed

text \<open>C21. Whatever is asked of the daemon, its Rooms keep their shape: a Room always has a name, no two
  members of a Room have one name and each is found under its own, and a binding always names a volume
  whose name is valid and has no way out of the volumes' directory.\<close>

theorem rooms_stay_typed:
  assumes "daemon_typed s"
  shows "daemon_typed (run_ops yaml conn ops s)"
  using assms
proof (induction ops arbitrary: s)
  case (Cons x ops)
  then show ?case using rexec_typed[of s yaml conn "fst x" "snd x"] by (simp add: run_ops_def)
qed (simp add: run_ops_def)

lemma boot_typed: "daemon_typed boot"
  by (simp add: daemon_typed_def boot_def rooms_typed_def boss_daemon_def)

lemma rooms_stay_typed_witness:
  "daemon_typed (run_ops (\<lambda>_. None) (\<lambda>_ _. 0) [(spawn_a, OpInit True (Some ''a'')), (spawn_a, OpExit ''a-9'' ''x'')] boot)"
  by (rule rooms_stay_typed[OF boot_typed])

subsection \<open>The listing of Rooms\<close>

lemma room_refs_set: "set (room_refs ids rooms) = {RoomRef (hr_name r) rid ''idle'' | rid r. rid \<in> set ids \<and> rooms rid = Some r}"
  by (force simp: room_refs_def split: option.splits)

lemma room_refs_ids:
  "distinct ids \<Longrightarrow> set ids \<subseteq> dom rooms \<Longrightarrow> map rr_id (room_refs ids rooms) = ids"
  by (induction ids) (auto simp: room_refs_def split: option.split)

lemma room_refs_perm:
  "distinct ids \<Longrightarrow> distinct ids' \<Longrightarrow> set ids = set ids' \<Longrightarrow> set ids \<subseteq> dom rooms \<Longrightarrow>
     mset (room_refs ids rooms) = mset (room_refs ids' rooms)"
proof (rule set_eq_iff_mset_eq_distinct[THEN iffD1])
  assume d: "distinct ids" "distinct ids'" "set ids = set ids'" "set ids \<subseteq> dom rooms"
  then show "distinct (room_refs ids rooms)" "distinct (room_refs ids' rooms)"
    using room_refs_ids by (metis distinct_map)+
  show "set (room_refs ids rooms) = set (room_refs ids' rooms)" using d(3) by (simp add: room_refs_set)
qed

text \<open>The listing has every Room once, sorted by name and, among Rooms of one name, by id; the order
  in which Go visits the map makes no difference to it.\<close>

theorem room_list_sorted:
  assumes "distinct ids" "set ids = dom (hd_rooms (rd_core s))"
  shows "sorted (handle_room_list ids s)
    \<and> set (handle_room_list ids s) = {RoomRef (hr_name r) rid ''idle'' | rid r. hd_rooms (rd_core s) rid = Some r}
    \<and> distinct (map rr_id (handle_room_list ids s))
    \<and> (\<forall>ids'. distinct ids' \<longrightarrow> set ids' = set ids \<longrightarrow> handle_room_list ids' s = handle_room_list ids s)"
proof (intro conjI allI impI)
  let ?rooms = "hd_rooms (rd_core s)"
  show "sorted (handle_room_list ids s)" by (simp add: handle_room_list_def)
  show "set (handle_room_list ids s) = {RoomRef (hr_name r) rid ''idle'' | rid r. ?rooms rid = Some r}"
    using assms(2) by (auto simp: handle_room_list_def room_refs_set)
  have "mset (map rr_id (handle_room_list ids s)) = mset ids"
  proof -
    have "mset (map rr_id (handle_room_list ids s)) = mset (map rr_id (room_refs ids ?rooms))"
      by (simp add: handle_room_list_def)
    with room_refs_ids[of ids ?rooms] assms show ?thesis by simp
  qed
  then show "distinct (map rr_id (handle_room_list ids s))" using assms(1) by (metis mset_eq_imp_distinct_iff)
  fix ids' assume ids': "distinct ids'" "set ids' = set ids"
  then have "mset (room_refs ids' ?rooms) = mset (room_refs ids ?rooms)"
    using assms by (intro room_refs_perm) auto
  then have "sort (room_refs ids' ?rooms) = sort (room_refs ids ?rooms)"
    by (metis properties_for_sort mset_sort sorted_sort)
  then show "handle_room_list ids' s = handle_room_list ids s" by (simp add: handle_room_list_def)
qed

lemma room_list_sorted_witness:
  "handle_room_list [''b-1'', ''a-2'']
     (boot\<lparr>rd_core := (boss_daemon 0)\<lparr>hd_rooms := [''a-2'' \<mapsto> fresh_room ''a'', ''b-1'' \<mapsto> fresh_room ''b'']\<rparr>\<rparr>)
   = [RoomRef ''a'' ''a-2'' ''idle'', RoomRef ''b'' ''b-1'' ''idle'']
   \<and> handle_room_list [''a-2'', ''b-1'']
     (boot\<lparr>rd_core := (boss_daemon 0)\<lparr>hd_rooms := [''a-2'' \<mapsto> fresh_room ''a'', ''b-1'' \<mapsto> fresh_room ''b'']\<rparr>\<rparr>)
   = [RoomRef ''a'' ''a-2'' ''idle'', RoomRef ''b'' ''b-1'' ''idle'']"
proof -
  let ?s = "boot\<lparr>rd_core := (boss_daemon 0)\<lparr>hd_rooms := [''a-2'' \<mapsto> fresh_room ''a'', ''b-1'' \<mapsto> fresh_room ''b'']\<rparr>\<rparr>"
  have "handle_room_list [''a-2'', ''b-1''] ?s = [RoomRef ''a'' ''a-2'' ''idle'', RoomRef ''b'' ''b-1'' ''idle'']"
    by (simp add: handle_room_list_def room_refs_def fresh_room_def less_eq_room_ref_def ref_before_def)
  moreover have "handle_room_list [''b-1'', ''a-2''] ?s = handle_room_list [''a-2'', ''b-1''] ?s"
  proof -
    have ids: "distinct [''a-2'', ''b-1'']" "set [''a-2'', ''b-1''] = dom (hd_rooms (rd_core ?s))" by auto
    have "distinct [''b-1'', ''a-2'']" "set [''b-1'', ''a-2''] = set [''a-2'', ''b-1'']" by auto
    with room_list_sorted[OF ids] show ?thesis by blast
  qed
  ultimately show ?thesis by simp
qed

subsection \<open>Two Rooms made in one second, two tasks for one agent\<close>

text \<open>The id is the name and the clock in seconds: a second request for the name in the same second
  gets the id of the first, whose Room is replaced by an empty one.\<close>

lemma init_same_second:
  assumes "handle_room_init sp True (Some nm) s = (Inr (rid, rootfs), t)"
  shows "fst (handle_room_init sp True (Some nm) u) = Inr (rid, join_path [hd_rooms_dir (rd_core u), rid, ''rootfs''])
    \<and> hd_rooms (rd_core (snd (handle_room_init sp True (Some nm) u))) rid = Some (fresh_room nm)"
  using assms by (auto simp: handle_room_init_def create_room_def Let_def split: if_splits)

text \<open>Two tasks dispatched to one agent: the handler of the second replaces that of the first, and the
  completion of the first is ignored from then on. Its caller waits until the agent exits.\<close>

lemma second_task_displaces:
  assumes "t \<noteq> u" "t \<in> ts_waiting s" "ts_results s t = None"
  shows "let s' = fold (\<lambda>(k, out). task_done k out) outs (task_start u s) in t \<in> ts_waiting s' \<and> ts_results s' t = None"
proof -
  have "ts_handler (fold (\<lambda>(k, out). task_done k out) outs s) = Some u
      \<and> t \<in> ts_waiting (fold (\<lambda>(k, out). task_done k out) outs s)
      \<and> ts_results (fold (\<lambda>(k, out). task_done k out) outs s) t = None"
    if "ts_handler s = Some u" "t \<in> ts_waiting s" "ts_results s t = None" for s
    using that assms(1)
  proof (induction outs arbitrary: s)
    case (Cons x outs)
    have "ts_handler (task_done (fst x) (snd x) s) = Some u \<and> t \<in> ts_waiting (task_done (fst x) (snd x) s)
        \<and> ts_results (task_done (fst x) (snd x) s) t = None"
      using Cons.prems by (auto simp: task_done_def)
    with Cons.IH Cons.prems(4) show ?case by (simp add: split_def)
  qed simp
  from this[of "task_start u s"] assms show ?thesis by (simp add: task_start_def Let_def)
qed

text \<open>The default target is an image's name, while members are looked up by their own: a run without a
  target on a Room whose first member has an alias finds no agent.\<close>

lemma default_target_alias:
  assumes "hd_rooms (rd_core s) rid = Some r" "hr_members r = [(hm_name m, m)]" "hm_name m \<noteq> ref_name (hm_image m)"
  shows "fst (handle_room_run sink e (Some (rid, [], task)) s) = Inl Plain"
  using assms by (simp add: handle_room_run_def room_run_def Let_def)

subsection \<open>Writing a state file\<close>

definition state_path :: "string \<Rightarrow> string \<Rightarrow> string" where
  "state_path root rid = join_path [root, rid, ''state.json'']"

definition save_state :: "io \<Rightarrow> string \<Rightarrow> string \<Rightarrow> string \<Rightarrow> snapshot \<Rightarrow> snapshot disk \<Rightarrow> bool \<times> snapshot disk" where
  "save_state w root rid tmp sn d =
     atomic_replace w (join_path [root, rid, tmp]) (state_path root rid) (if sn_version sn = 0 then sn\<lparr>sn_version := 1\<rparr> else sn) d"

definition save_state_trace ::
  "io \<Rightarrow> string \<Rightarrow> string \<Rightarrow> string \<Rightarrow> snapshot \<Rightarrow> snapshot \<Rightarrow> snapshot disk \<Rightarrow> snapshot disk list" where
  "save_state_trace w root rid tmp part sn d =
     atomic_trace w (join_path [root, rid, tmp]) (state_path root rid) part (if sn_version sn = 0 then sn\<lparr>sn_version := 1\<rparr> else sn) d"

definition delete_state :: "bool \<Rightarrow> string \<Rightarrow> string \<Rightarrow> snapshot disk \<Rightarrow> bool \<times> snapshot disk" where
  "delete_state rm root rid d =
     (if d (state_path root rid) = None then (True, d)
      else if rm then (True, d(state_path root rid := None)) else (False, d))"

definition state_view :: "string \<Rightarrow> snapshot disk \<Rightarrow> string \<rightharpoonup> snapshot" where
  "state_view root d rid = d (state_path root rid)"

lemma join3_names:
  assumes "names rs" "is_name a" "is_name b"
  shows "join_path [abs_path rs, a, b] = abs_path (rs @ [a, b])"
proof -
  have ne: "a \<noteq> []" "b \<noteq> []" "abs_path rs \<noteq> []" using assms by (auto simp: is_name_def)
  have "join_path [abs_path rs, a, b] = join_path [abs_path rs, a @ ''/'' @ b]"
    using ne by (simp add: join_path_def)
  also have "\<dots> = abs_path (rs @ [a, b])"
    using assms ne join_path_abs[of rs "a @ ''/'' @ b"]
    by (simp add: split_on_append split_on_id is_name_def push_comp_name)
  finally show ?thesis .
qed

text \<open>A crash at any moment of a save leaves each Room's state file as it was or as it is to be, and the
  temp file is no state file of any Room.\<close>

lemma state_write_crash_safe:
  assumes "names rs" "is_name rid" "is_name tmp" "tmp \<noteq> ''state.json''"
    and "t \<in> set (save_state_trace w (abs_path rs) rid tmp part sn d)" "sn_version sn \<noteq> 0"
  shows "is_name q \<Longrightarrow> state_view (abs_path rs) t q = state_view (abs_path rs) d q
    \<or> q = rid \<and> state_view (abs_path rs) t q = Some sn"
proof -
  assume q: "is_name q"
  have s: "is_name ''state.json''" by (simp add: is_name_def dot_def dotdot_def)
  have paths: "join_path [abs_path rs, rid, tmp] = abs_path (rs @ [rid, tmp])"
    "state_path (abs_path rs) p = abs_path (rs @ [p, ''state.json''])" if "is_name p" for p
    using assms(1-3) that s by (simp_all add: state_path_def join3_names)
  have ne: "state_path (abs_path rs) p \<noteq> join_path [abs_path rs, rid, tmp]" if "is_name p" for p
    using paths[OF that] assms(1-4) that s abs_path_inj[of "rs @ [rid, tmp]" "rs @ [p, ''state.json'']"] by auto
  show ?thesis
  proof (cases "q = rid")
    case True
    with atomic_trace_old_or_new[of "join_path [abs_path rs, rid, tmp]" "state_path (abs_path rs) rid" t w part sn d]
      ne[OF q] assms(5,6) show ?thesis by (auto simp: save_state_trace_def state_view_def)
  next
    case False
    then have "state_path (abs_path rs) q \<noteq> state_path (abs_path rs) rid"
      using paths(2)[OF q] paths(2)[OF assms(2)] assms(1,2) q s abs_path_inj[of "rs @ [q, ''state.json'']" "rs @ [rid, ''state.json'']"] by auto
    then have "t (state_path (abs_path rs) q) = d (state_path (abs_path rs) q)"
      using assms(5) ne[OF q] unfolding save_state_trace_def by (rule_tac atomic_trace_frame)
    then show ?thesis by (simp add: state_view_def)
  qed
qed

end
