(* ===== verification/Conversation.thy ===== *)
theory Conversation
  imports Hive_Prelude
begin

section \<open>Conversations: types and store (internal/conversation/types.go, store.go)\<close>

text \<open>
  A conversation is a transcript with a status and a round budget, kept as one JSON file for each
  (Room, conversation id). The store is a map from that pair to the file's content: a decoded
  conversation or a file that does not parse. The per-conversation mutex makes each operation one
  step. An operation takes an environment: the outcome of the system calls of its write and the
  clock. Enumerations take the directory listing (\<^verbatim>\<open>os.ReadDir\<close>) as a list of keys. Times are
  nanoseconds, 0 being Go's zero time; ids are plain file names.
\<close>

definition current_version :: int where "current_version = 1"
definition default_max_rounds :: int where "default_max_rounds = 8"

datatype status =
    StatusPlanned | StatusActive | StatusDone | StatusFailed | StatusCancelled | StatusInterrupted
  | StatusOther string

fun terminal :: "status \<Rightarrow> bool" where
  "terminal StatusDone = True"
| "terminal StatusFailed = True"
| "terminal StatusCancelled = True"
| "terminal StatusInterrupted = True"
| "terminal _ = False"

datatype message_kind =
    KindTaskInput | KindPeer | KindTaskOutput | KindLog | KindError | KindRoundCap

record message =
  msg_id :: string
  msg_conv :: string
  msg_from :: string
  msg_to :: string
  msg_kind :: message_kind
  msg_payload :: string
  msg_ts :: int
  msg_round :: int

record member =
  mb_room :: string
  mb_agent :: string

record output_ref =
  or_volume :: string
  or_path :: string
  or_size :: int
  or_mod_time :: int

record conversation =
  cv_version :: int
  cv_id :: string
  cv_room :: string
  cv_tag :: string
  cv_status :: status
  cv_participants :: "string list"
  cv_members :: "member list"
  cv_initial_target :: string
  cv_initial_input :: string
  cv_max_rounds :: int
  cv_round_count :: int
  cv_messages :: "message list"
  cv_created_at :: int
  cv_started_at :: int
  cv_finished_at :: int
  cv_final_answer :: string
  cv_error :: string
  cv_outputs :: "output_ref list"

record summary =
  sm_id :: string
  sm_room :: string
  sm_tag :: string
  sm_status :: status
  sm_initial_target :: string
  sm_members :: "member list"
  sm_max_rounds :: int
  sm_round_count :: int
  sm_message_count :: int
  sm_created_at :: int
  sm_started_at :: int
  sm_finished_at :: int

definition summarize :: "conversation \<Rightarrow> summary" where
  "summarize c =
     \<lparr>sm_id = cv_id c, sm_room = cv_room c, sm_tag = cv_tag c, sm_status = cv_status c,
      sm_initial_target = cv_initial_target c, sm_members = cv_members c,
      sm_max_rounds = cv_max_rounds c, sm_round_count = cv_round_count c,
      sm_message_count = int (length (cv_messages c)), sm_created_at = cv_created_at c,
      sm_started_at = cv_started_at c, sm_finished_at = cv_finished_at c\<rparr>"

definition add_participant :: "string \<Rightarrow> conversation \<Rightarrow> conversation" where
  "add_participant nm c =
     (if nm = [] then c
      else if list_ex (\<lambda>p. p = nm) (cv_participants c) then c
      else c\<lparr>cv_participants := cv_participants c @ [nm]\<rparr>)"

definition is_cross_room :: "conversation \<Rightarrow> bool" where
  "is_cross_room c =
     (case cv_members c of
        [] \<Rightarrow> False
      | [_] \<Rightarrow> False
      | m # ms \<Rightarrow> list_ex (\<lambda>x. mb_room x \<noteq> mb_room m) ms)"

definition find_member :: "string \<Rightarrow> conversation \<Rightarrow> member option" where
  "find_member nm c = find (\<lambda>m. mb_agent m = nm) (cv_members c)"

subsection \<open>The store\<close>

type_synonym conv_key = "string \<times> string"

datatype conv_file = Parsed conversation | Corrupt

type_synonym conv_store = "conv_key \<rightharpoonup> conv_file"

record env =
  env_io :: io
  env_now :: int

definition write_ok_all :: "io \<Rightarrow> bool" where
  "write_ok_all w \<longleftrightarrow> mkdir_ok w \<and> temp_ok w \<and> write_ok w \<and> close_ok w \<and> rename_ok w"

definition write_conv :: "env \<Rightarrow> conversation \<Rightarrow> conv_store \<Rightarrow> bool \<times> conv_store" where
  "write_conv e c st =
     (if write_ok_all (env_io e) then (True, st((cv_room c, cv_id c) \<mapsto> Parsed c)) else (False, st))"

definition load_conv :: "conv_store \<Rightarrow> conv_key \<Rightarrow> conversation res" where
  "load_conv st k =
     (case st k of
        None \<Rightarrow> Inl Plain
      | Some Corrupt \<Rightarrow> Inl Plain
      | Some (Parsed c) \<Rightarrow> if cv_version c > current_version then Inl Plain else Inr c)"

definition create_defaults :: "int \<Rightarrow> conversation \<Rightarrow> conversation" where
  "create_defaults now c =
     (let c = (if cv_max_rounds c \<le> 0 then c\<lparr>cv_max_rounds := default_max_rounds\<rparr> else c);
          c = (if cv_status c = StatusOther [] then c\<lparr>cv_status := StatusPlanned\<rparr> else c);
          c = (if cv_created_at c = 0 then c\<lparr>cv_created_at := now\<rparr> else c);
          c = (if cv_tag c = []
               then c\<lparr>cv_tag := cv_initial_target c @ ''@'' @ show_int (cv_created_at c div 1000000000)\<rparr>
               else c)
      in c\<lparr>cv_version := current_version\<rparr>)"

definition create_conv :: "env \<Rightarrow> conversation \<Rightarrow> conv_store \<Rightarrow> conversation res \<times> conv_store" where
  "create_conv e c st =
     (if cv_id c = [] \<or> cv_room c = [] then (Inl Plain, st)
      else let c = create_defaults (env_now e) c
           in if st (cv_room c, cv_id c) \<noteq> None then (Inl Plain, st)
              else case write_conv e c st of
                (True, st') \<Rightarrow> (Inr c, st')
              | (False, st') \<Rightarrow> (Inl Plain, st'))"

definition append_msg :: "int \<Rightarrow> string \<Rightarrow> message \<Rightarrow> conversation \<Rightarrow> conversation" where
  "append_msg now conv_id m c =
     (let m = m\<lparr>msg_id := ''m'' @ show_nat (length (cv_messages c) + 1),
                msg_conv := conv_id, msg_ts := now\<rparr>;
          (m, c) = (if msg_kind m = KindPeer
                    then (m\<lparr>msg_round := cv_round_count c + 1\<rparr>,
                          c\<lparr>cv_round_count := cv_round_count c + 1\<rparr>)
                    else (m, c));
          c = c\<lparr>cv_messages := cv_messages c @ [m]\<rparr>;
          c = add_participant (msg_from m) c
      in add_participant (msg_to m) c)"

definition append_conv ::
  "env \<Rightarrow> conv_key \<Rightarrow> message \<Rightarrow> conv_store \<Rightarrow> conversation res \<times> conv_store" where
  "append_conv e k m st =
     (case load_conv st k of
        Inl x \<Rightarrow> (Inl x, st)
      | Inr c \<Rightarrow>
          (let c = append_msg (env_now e) (snd k) m c
           in case write_conv e c st of
                (True, st') \<Rightarrow> (Inr c, st')
              | (False, st') \<Rightarrow> (Inl Plain, st')))"

definition restore_ids :: "conversation \<Rightarrow> conversation \<Rightarrow> conversation" where
  "restore_ids orig c = c\<lparr>cv_id := cv_id orig, cv_room := cv_room orig, cv_version := current_version\<rparr>"

definition update_conv ::
  "env \<Rightarrow> conv_key \<Rightarrow> (conversation \<Rightarrow> conversation) \<Rightarrow> conv_store \<Rightarrow> conversation res \<times> conv_store" where
  "update_conv e k mut st =
     (case load_conv st k of
        Inl x \<Rightarrow> (Inl x, st)
      | Inr c \<Rightarrow>
          (let c = restore_ids c (mut c)
           in case write_conv e c st of
                (True, st') \<Rightarrow> (Inr c, st')
              | (False, st') \<Rightarrow> (Inl Plain, st')))"

definition delete_conv :: "bool \<Rightarrow> conv_key \<Rightarrow> conv_store \<Rightarrow> unit res \<times> conv_store" where
  "delete_conv ok k st = (if st k = None \<or> \<not> ok then (Inl Plain, st) else (Inr (), st(k := None)))"

definition list_by_room :: "conv_key list \<Rightarrow> string \<Rightarrow> conv_store \<Rightarrow> conversation list" where
  "list_by_room ls room st =
     sort_key cv_created_at
       (concat (map (\<lambda>k. if fst k = room then (case load_conv st k of Inl _ \<Rightarrow> [] | Inr c \<Rightarrow> [c]) else [])
         ls))"

fun load_by_id :: "string list \<Rightarrow> string \<Rightarrow> conv_store \<Rightarrow> conversation res" where
  "load_by_id [] cid st = Inl Plain"
| "load_by_id (r # rs) cid st =
     (case load_conv st (r, cid) of Inr c \<Rightarrow> Inr c | Inl _ \<Rightarrow> load_by_id rs cid st)"

definition index_by_id :: "conv_key list \<Rightarrow> string \<rightharpoonup> string" where
  "index_by_id ls = foldl (\<lambda>m k. m(snd k \<mapsto> fst k)) Map.empty ls"

definition interrupt :: "int \<Rightarrow> conversation \<Rightarrow> conversation" where
  "interrupt now c =
     c\<lparr>cv_status := StatusInterrupted, cv_finished_at := now,
       cv_error := ''daemon restarted while conversation was active''\<rparr>"

fun interrupt_all :: "env \<Rightarrow> string \<Rightarrow> conversation list \<Rightarrow> conv_store \<Rightarrow> nat \<times> conv_store" where
  "interrupt_all e room [] st = (0, st)"
| "interrupt_all e room (c # cs) st =
     (if cv_status c \<noteq> StatusActive then interrupt_all e room cs st
      else let (r, st') = update_conv e (room, cv_id c) (interrupt (env_now e)) st;
               (n, st'') = interrupt_all e room cs st'
           in (if is_ok r then Suc n else n, st''))"

fun mark_active_as_interrupted ::
  "env \<Rightarrow> conv_key list \<Rightarrow> string list \<Rightarrow> conv_store \<Rightarrow> nat \<times> conv_store" where
  "mark_active_as_interrupted e ls [] st = (0, st)"
| "mark_active_as_interrupted e ls (r # rs) st =
     (let (n, st') = interrupt_all e r (list_by_room ls r st) st;
          (m, st'') = mark_active_as_interrupted e ls rs st'
      in (n + m, st''))"

subsection \<open>Facts on the operations\<close>

text \<open>A file lies where its own ids say. Every operation keeps this.\<close>

definition placed :: "conv_store \<Rightarrow> bool" where
  "placed st \<longleftrightarrow> (\<forall>k c. st k = Some (Parsed c) \<longrightarrow> k = (cv_room c, cv_id c))"

lemma placed_key: "placed st \<Longrightarrow> load_conv st k = Inr c \<Longrightarrow> (cv_room c, cv_id c) = k"
  by (cases k) (auto simp: load_conv_def placed_def split: option.splits conv_file.splits if_splits)

lemma placed_write: "placed st \<Longrightarrow> placed (snd (write_conv e c st))"
  by (auto simp: write_conv_def placed_def)

lemma write_conv_other: "(cv_room c, cv_id c) \<noteq> k \<Longrightarrow> snd (write_conv e c st) k = st k"
  by (simp add: write_conv_def)

lemma load_write:
  "write_conv e c st = (True, st') \<Longrightarrow> cv_version c \<le> current_version \<Longrightarrow>
   load_conv st' (cv_room c, cv_id c) = Inr c"
  by (auto simp: write_conv_def load_conv_def split: if_splits)

lemma load_conv_version: "load_conv st k = Inr c \<Longrightarrow> cv_version c \<le> current_version"
  by (auto simp: load_conv_def split: option.splits conv_file.splits if_splits)

text \<open>The write is the temp-file-and-rename of the prelude on a temp name nobody uses.\<close>

lemma write_conv_atomic:
  assumes "st tmp = None"
  shows "write_conv e c st = atomic_replace (env_io e) tmp (cv_room c, cv_id c) (Parsed c) st
       \<or> tmp = (cv_room c, cv_id c)"
  using assms by (auto simp: write_conv_def atomic_replace_def write_ok_all_def fun_eq_iff)

lemma add_participant_frame [simp]:
  "cv_messages (add_participant n c) = cv_messages c"
  "cv_round_count (add_participant n c) = cv_round_count c"
  "cv_max_rounds (add_participant n c) = cv_max_rounds c"
  "cv_status (add_participant n c) = cv_status c"
  "cv_id (add_participant n c) = cv_id c" "cv_room (add_participant n c) = cv_room c"
  "cv_version (add_participant n c) = cv_version c"
  "cv_members (add_participant n c) = cv_members c"
  by (simp_all add: add_participant_def)

lemma append_msg_frame [simp]:
  "cv_id (append_msg now i m c) = cv_id c" "cv_room (append_msg now i m c) = cv_room c"
  "cv_version (append_msg now i m c) = cv_version c" "cv_status (append_msg now i m c) = cv_status c"
  "cv_max_rounds (append_msg now i m c) = cv_max_rounds c"
  "cv_members (append_msg now i m c) = cv_members c"
  by (simp_all add: append_msg_def Let_def)

lemma append_msg_round:
  "cv_round_count (append_msg now i m c) =
     (if msg_kind m = KindPeer then cv_round_count c + 1 else cv_round_count c)"
  by (simp add: append_msg_def Let_def)

lemma append_msg_messages:
  "cv_messages (append_msg now i m c) =
     cv_messages c @
       [m\<lparr>msg_id := ''m'' @ show_nat (length (cv_messages c) + 1), msg_conv := i, msg_ts := now,
          msg_round := (if msg_kind m = KindPeer then cv_round_count c + 1 else msg_round m)\<rparr>]"
  by (simp add: append_msg_def Let_def)

lemma restore_ids_frame [simp]:
  "cv_id (restore_ids o' c) = cv_id o'" "cv_room (restore_ids o' c) = cv_room o'"
  "cv_version (restore_ids o' c) = current_version"
  "cv_status (restore_ids o' c) = cv_status c" "cv_messages (restore_ids o' c) = cv_messages c"
  "cv_round_count (restore_ids o' c) = cv_round_count c" "cv_max_rounds (restore_ids o' c) = cv_max_rounds c"
  "cv_members (restore_ids o' c) = cv_members c" "cv_error (restore_ids o' c) = cv_error c"
  "cv_finished_at (restore_ids o' c) = cv_finished_at c"
  by (simp_all add: restore_ids_def)

lemma update_conv_cases:
  assumes "update_conv e k mut st = (r, st')"
  obtains (error) x where "r = Inl x" "st' = st"
  | (ok) c where "load_conv st k = Inr c" "r = Inr (restore_ids c (mut c))"
      "st' = st((cv_room c, cv_id c) \<mapsto> Parsed (restore_ids c (mut c)))"
proof (cases "load_conv st k")
  case (Inl x)
  with assms have "r = Inl x" "st' = st" by (auto simp: update_conv_def)
  then show thesis by (rule error)
next
  case (Inr c)
  with assms error ok show thesis
    by (auto simp: update_conv_def write_conv_def Let_def split: if_splits)
qed

lemma append_conv_cases:
  assumes "append_conv e k m st = (r, st')"
  obtains (error) x where "r = Inl x" "st' = st"
  | (ok) c where "load_conv st k = Inr c" "r = Inr (append_msg (env_now e) (snd k) m c)"
      "st' = st((cv_room c, cv_id c) \<mapsto> Parsed (append_msg (env_now e) (snd k) m c))"
proof (cases "load_conv st k")
  case (Inl x)
  with assms have "r = Inl x" "st' = st" by (auto simp: append_conv_def)
  then show thesis by (rule error)
next
  case (Inr c)
  with assms error ok show thesis
    by (auto simp: append_conv_def write_conv_def Let_def split: if_splits)
qed

lemma placed_update: "placed st \<Longrightarrow> placed (snd (update_conv e k mut st))"
  by (auto simp: update_conv_def Let_def write_conv_def placed_def split: sum.splits)

lemma placed_append: "placed st \<Longrightarrow> placed (snd (append_conv e k m st))"
  by (auto simp: append_conv_def Let_def write_conv_def placed_def split: sum.splits)

lemma create_defaults_ids [simp]:
  "cv_id (create_defaults n c) = cv_id c" "cv_room (create_defaults n c) = cv_room c"
  "cv_version (create_defaults n c) = current_version"
  "cv_messages (create_defaults n c) = cv_messages c"
  "cv_round_count (create_defaults n c) = cv_round_count c"
  "cv_initial_target (create_defaults n c) = cv_initial_target c"
  "cv_members (create_defaults n c) = cv_members c"
  by (simp_all add: create_defaults_def Let_def)

lemma create_defaults_max: "cv_max_rounds (create_defaults n c) > 0"
  by (simp add: create_defaults_def Let_def default_max_rounds_def)

lemma placed_create: "placed st \<Longrightarrow> placed (snd (create_conv e c st))"
  by (auto simp: create_conv_def Let_def write_conv_def placed_def)

lemma placed_delete: "placed st \<Longrightarrow> placed (snd (delete_conv ok k st))"
  by (auto simp: delete_conv_def placed_def)


subsection \<open>The transcript of a conversation\<close>

text \<open>
  What \<open>Append\<close> keeps: message \<open>i\<close> has the id \<open>m(i+1)\<close>, the peer messages carry the rounds
  1, 2, 3, ... in order, the round counter is their number, and no participant is named twice.
\<close>

definition peer_rounds :: "message list \<Rightarrow> int list" where
  "peer_rounds ms = map msg_round (filter (\<lambda>m. msg_kind m = KindPeer) ms)"

definition wf_conv :: "conversation \<Rightarrow> bool" where
  "wf_conv c \<longleftrightarrow>
     map msg_id (cv_messages c) = map (\<lambda>i. ''m'' @ show_nat (Suc i)) [0..<length (cv_messages c)]
   \<and> peer_rounds (cv_messages c) = map (\<lambda>i. int i + 1) [0..<length (peer_rounds (cv_messages c))]
   \<and> cv_round_count c = int (length (peer_rounds (cv_messages c)))
   \<and> distinct (cv_participants c) \<and> [] \<notin> set (cv_participants c)"

lemma peer_rounds_append [simp]: "peer_rounds (xs @ ys) = peer_rounds xs @ peer_rounds ys"
  by (simp add: peer_rounds_def)

lemma peer_rounds_single:
  "peer_rounds [m] = (if msg_kind m = KindPeer then [msg_round m] else [])"
  by (simp add: peer_rounds_def)

lemma add_participant_set:
  "set (cv_participants (add_participant n c)) = set (cv_participants c) \<union> ({n} - {[]})"
  by (auto simp: add_participant_def list_ex_iff)

lemma add_participant_distinct:
  "distinct (cv_participants c) \<Longrightarrow> distinct (cv_participants (add_participant n c))"
  by (auto simp: add_participant_def list_ex_iff)

lemma append_msg_participants:
  "set (cv_participants (append_msg now i m c)) =
     set (cv_participants c) \<union> ({msg_from m, msg_to m} - {[]})"
  by (auto simp: append_msg_def Let_def add_participant_set)

lemma append_msg_distinct:
  "distinct (cv_participants c) \<Longrightarrow> distinct (cv_participants (append_msg now i m c))"
  by (simp add: append_msg_def Let_def add_participant_distinct)

lemma wf_append_msg:
  assumes "wf_conv c" shows "wf_conv (append_msg now i m c)"
proof -
  have ids: "map msg_id (cv_messages (append_msg now i m c)) =
    map (\<lambda>i. ''m'' @ show_nat (Suc i)) [0..<length (cv_messages (append_msg now i m c))]"
    using assms by (simp add: wf_conv_def append_msg_messages)
  have rounds: "peer_rounds (cv_messages (append_msg now i m c)) =
      map (\<lambda>i. int i + 1) [0..<length (peer_rounds (cv_messages (append_msg now i m c)))]"
    and count: "cv_round_count (append_msg now i m c) =
      int (length (peer_rounds (cv_messages (append_msg now i m c))))"
    using assms by (simp_all add: wf_conv_def append_msg_messages append_msg_round peer_rounds_single)
  from assms ids rounds count show ?thesis
    unfolding wf_conv_def[of "append_msg now i m c"]
    by (auto simp: wf_conv_def[of c] append_msg_distinct append_msg_participants)
qed

lemma wf_fresh: "cv_messages c = [] \<Longrightarrow> cv_round_count c = 0 \<Longrightarrow> cv_participants c = [] \<Longrightarrow> wf_conv c"
  by (simp add: wf_conv_def peer_rounds_def)

text \<open>A message list only grows, and what it held stays as it was.\<close>

lemma append_msg_extends: "prefix (cv_messages c) (cv_messages (append_msg now i m c))"
  by (simp add: append_msg_messages)


subsection \<open>The updates the daemon makes\<close>

text \<open>The closures passed to \<^verbatim>\<open>Update\<close>: the start of a conversation, the round cap, a cancel, the
  two ends of a run, the sweep at the daemon's start.\<close>

datatype mutation =
    MStart int
  | MRoundCap int
  | MCancel string int
  | MFail string int "output_ref list"
  | MDone string string string int "output_ref list"
  | MInterrupt int

fun apply_mut :: "mutation \<Rightarrow> conversation \<Rightarrow> conversation" where
  "apply_mut (MStart now) c = c\<lparr>cv_status := StatusActive, cv_started_at := now\<rparr>"
| "apply_mut (MRoundCap now) c =
     c\<lparr>cv_status := StatusCancelled, cv_error := ''round_cap'', cv_finished_at := now\<rparr>"
| "apply_mut (MCancel reason now) c =
     c\<lparr>cv_status := StatusCancelled, cv_error := reason, cv_finished_at := now\<rparr>"
| "apply_mut (MFail err now outs) c =
     c\<lparr>cv_status := StatusFailed, cv_error := err, cv_finished_at := now, cv_outputs := outs\<rparr>"
| "apply_mut (MDone cid target out now outs) c =
     c\<lparr>cv_status := StatusDone, cv_final_answer := out, cv_finished_at := now, cv_outputs := outs,
       cv_messages := cv_messages c @
         [\<lparr>msg_id = ''m'' @ show_nat (length (cv_messages c) + 1), msg_conv = cid, msg_from = target,
           msg_to = [], msg_kind = KindTaskOutput, msg_payload = out, msg_ts = now,
           msg_round = cv_round_count c\<rparr>]\<rparr>"
| "apply_mut (MInterrupt now) c = interrupt now c"

lemma apply_mut_frame [simp]:
  "cv_round_count (apply_mut m c) = cv_round_count c"
  "cv_max_rounds (apply_mut m c) = cv_max_rounds c"
  "cv_participants (apply_mut m c) = cv_participants c"
  "cv_members (apply_mut m c) = cv_members c"
  "cv_id (apply_mut m c) = cv_id c" "cv_room (apply_mut m c) = cv_room c"
  by (cases m; simp add: interrupt_def)+

lemma apply_mut_prefix: "prefix (cv_messages c) (cv_messages (apply_mut m c))"
  by (cases m) (simp_all add: interrupt_def)

lemma wf_apply_mut: "wf_conv c \<Longrightarrow> wf_conv (apply_mut m c)"
  by (cases m) (simp_all add: interrupt_def wf_conv_def peer_rounds_single)

lemma wf_restore_ids: "wf_conv (restore_ids o' c) = wf_conv c"
  by (simp add: wf_conv_def restore_ids_def)

subsection \<open>The store as an interface\<close>

text \<open>
  A record store runs read-modify-write steps on one key: a step that succeeds leaves under its key
  the effect of the operation on what was there, a step that fails leaves the store as it was, and
  no step touches another key.
\<close>

definition run_steps :: "('op \<Rightarrow> 'k \<Rightarrow> 's \<Rightarrow> 'c res \<times> 's) \<Rightarrow> ('op \<times> 'k) list \<Rightarrow> 's \<Rightarrow> 's" where
  "run_steps step ops s = foldl (\<lambda>s (op, k). snd (step op k s)) s ops"

locale record_store =
  fixes step :: "'op \<Rightarrow> 'k \<Rightarrow> 's \<Rightarrow> 'c res \<times> 's"
    and load :: "'s \<Rightarrow> 'k \<Rightarrow> 'c res"
    and eff :: "'op \<Rightarrow> 'k \<Rightarrow> 'c \<Rightarrow> 'c"
    and inv :: "'s \<Rightarrow> bool"
  assumes step_ok: "inv s \<Longrightarrow> step op k s = (Inr c', s') \<Longrightarrow>
      \<exists>c. load s k = Inr c \<and> c' = eff op k c \<and> load s' k = Inr c'"
    and step_err: "step op k s = (Inl e, s') \<Longrightarrow> s' = s"
    and step_other: "inv s \<Longrightarrow> j \<noteq> k \<Longrightarrow> load (snd (step op k s)) j = load s j"
    and step_inv: "inv s \<Longrightarrow> inv (snd (step op k s))"
begin

lemma run_inv: "inv s \<Longrightarrow> inv (run_steps step ops s)"
  by (induction ops arbitrary: s) (auto simp: run_steps_def step_inv)

lemma run_other:
  "inv s \<Longrightarrow> k \<notin> snd ` set ops \<Longrightarrow> load (run_steps step ops s) k = load s k"
proof (induction ops arbitrary: s)
  case (Cons x ops)
  obtain op j where x: "x = (op, j)" by (cases x)
  with Cons have "load (run_steps step ops (snd (step op j s))) k = load (snd (step op j s)) k"
    by (simp add: step_inv)
  also from x Cons.prems have "\<dots> = load s k" by (auto simp: step_other)
  finally show ?case by (simp add: run_steps_def x)
qed (simp add: run_steps_def)

lemma step_stable:
  assumes "inv s" "\<And>c. load s k = Inr c \<Longrightarrow> P c" "j = k \<Longrightarrow> (\<And>c. P c \<Longrightarrow> P (eff op k c))"
    and "load (snd (step op j s)) k = Inr c"
  shows "P c"
proof (cases "j = k")
  case True
  obtain r s' where st: "step op j s = (r, s')" by (cases "step op j s")
  show ?thesis
  proof (cases r)
    case (Inl e)
    with st step_err[of op j s e s'] assms(2,4) show ?thesis by simp
  next
    case (Inr c')
    with st step_ok[OF assms(1), of op j c' s'] assms True show ?thesis by auto
  qed
next
  case False
  with assms(1,2,4) step_other[of s k j op] show ?thesis by simp
qed

lemma step_loads:
  assumes "inv s" "load s k = Inr c" shows "\<exists>c'. load (snd (step op j s)) k = Inr c'"
proof (cases "j = k")
  case True
  obtain r s' where st: "step op j s = (r, s')" by (cases "step op j s")
  with assms True step_err[of op j s _ s'] step_ok[OF assms(1), of op j _ s'] show ?thesis
    by (cases r) auto
qed (use assms step_other[of s k j op] in simp)

lemma run_loads:
  "inv s \<Longrightarrow> load s k = Inr c \<Longrightarrow> \<exists>c'. load (run_steps step ops s) k = Inr c'"
proof (induction ops arbitrary: s c)
  case (Cons x ops)
  obtain op j where x: "x = (op, j)" by (cases x)
  from step_loads[OF Cons.prems, of op j] obtain c' where "load (snd (step op j s)) k = Inr c'" ..
  with Cons.IH[OF step_inv[OF Cons.prems(1)]] show ?case by (simp add: run_steps_def x)
qed (auto simp: run_steps_def)

text \<open>A property of the record at \<open>k\<close> that every operation run on \<open>k\<close> keeps holds after any run.\<close>

lemma run_stable:
  assumes "inv s" "\<And>c. load s k = Inr c \<Longrightarrow> P c"
    and "\<And>op c. (op, k) \<in> set ops \<Longrightarrow> P c \<Longrightarrow> P (eff op k c)"
    and "load (run_steps step ops s) k = Inr c"
  shows "P c"
  using assms
proof (induction ops arbitrary: s)
  case (Cons x ops)
  obtain op j where x: "x = (op, j)" by (cases x)
  let ?s = "snd (step op j s)"
  have 1: "inv ?s" using Cons.prems(1) by (rule step_inv)
  have 2: "P c'" if "load ?s k = Inr c'" for c'
    by (rule step_stable[OF Cons.prems(1), of k P j op c']) (use Cons.prems x that in auto)
  show ?case
    by (rule Cons.IH[OF 1 2]) (use Cons.prems(3,4) x in \<open>auto simp: run_steps_def\<close>)
qed (simp add: run_steps_def)

end

datatype conv_op = OpAppend env message | OpUpdate env mutation

fun conv_step :: "conv_op \<Rightarrow> conv_key \<Rightarrow> conv_store \<Rightarrow> conversation res \<times> conv_store" where
  "conv_step (OpAppend e m) k st = append_conv e k m st"
| "conv_step (OpUpdate e f) k st = update_conv e k (apply_mut f) st"

fun conv_eff :: "conv_op \<Rightarrow> conv_key \<Rightarrow> conversation \<Rightarrow> conversation" where
  "conv_eff (OpAppend e m) k c = append_msg (env_now e) (snd k) m c"
| "conv_eff (OpUpdate e f) k c = restore_ids c (apply_mut f c)"

lemma conv_eff_version:
  "cv_version c \<le> current_version \<Longrightarrow> cv_version (conv_eff op k c) \<le> current_version"
  by (cases op) simp_all

lemma conv_step_cases:
  assumes "placed st" "conv_step op k st = (r, st')"
  obtains (error) x where "r = Inl x" "st' = st"
  | (ok) c where "load_conv st k = Inr c" "r = Inr (conv_eff op k c)"
      "st' = st(k \<mapsto> Parsed (conv_eff op k c))"
proof (cases op)
  case (OpAppend e m)
  with assms(2) have "append_conv e k m st = (r, st')" by simp
  then show thesis
  proof (cases rule: append_conv_cases)
    case (ok c)
    with placed_key[OF assms(1) ok(1)] that(2)[OF ok(1)] show thesis by (simp add: OpAppend)
  qed (rule error)
next
  case (OpUpdate e f)
  with assms(2) have "update_conv e k (apply_mut f) st = (r, st')" by simp
  then show thesis
  proof (cases rule: update_conv_cases)
    case (ok c)
    with placed_key[OF assms(1) ok(1)] that(2)[OF ok(1)] show thesis by (simp add: OpUpdate)
  qed (rule error)
qed

lemma load_conv_upd [simp]:
  "load_conv (st(k \<mapsto> Parsed c)) j =
     (if j = k then (if cv_version c > current_version then Inl Plain else Inr c) else load_conv st j)"
  by (simp add: load_conv_def)

interpretation cs: record_store conv_step load_conv conv_eff placed
proof
  fix st op k c' st'
  assume "placed st" "conv_step op k st = (Inr c', st')"
  then show "\<exists>c. load_conv st k = Inr c \<and> c' = conv_eff op k c \<and> load_conv st' k = Inr c'"
  proof (cases rule: conv_step_cases)
    case (ok c)
    from load_conv_version[OF ok(1)] have "\<not> cv_version (conv_eff op k c) > current_version"
      using conv_eff_version[of c op k] by simp
    with ok show ?thesis by simp
  qed simp
next
  fix st op k x st'
  assume "conv_step op k st = (Inl x, st')"
  then show "st' = st"
    by (cases op) (auto elim: append_conv_cases update_conv_cases)
next
  fix st op and j k :: conv_key
  assume pl: "placed st" and "j \<noteq> k"
  obtain r st' where run: "conv_step op k st = (r, st')" by (cases "conv_step op k st")
  show "load_conv (snd (conv_step op k st)) j = load_conv st j"
    by (rule conv_step_cases[OF pl run]) (use run \<open>j \<noteq> k\<close> in auto)
next
  fix st op k
  assume "placed st"
  then show "placed (snd (conv_step op k st))"
    by (cases op) (simp_all add: placed_append placed_update)
qed


fun op_env :: "conv_op \<Rightarrow> env" where
  "op_env (OpAppend e _) = e"
| "op_env (OpUpdate e _) = e"

text \<open>What one step makes of a conversation: the effect when the step is on it and the write works.\<close>

lemma conv_step_at:
  assumes "placed st" "load_conv st k = Inr c"
  shows "load_conv (snd (conv_step op j st)) k =
           Inr (if j = k \<and> write_ok_all (env_io (op_env op)) then conv_eff op k c else c)"
proof (cases "j = k")
  case False
  with assms cs.step_other[of st k j op] show ?thesis by simp
next
  case True
  have "\<not> cv_version (conv_eff op k c) > current_version"
    using conv_eff_version[OF load_conv_version[OF assms(2)], of op k] by simp
  with placed_key[OF assms] True assms show ?thesis
    by (cases op) (auto simp: append_conv_def update_conv_def write_conv_def Let_def)
qed

subsection \<open>Properties of the store\<close>

text \<open>C27. Over any sequence of appends and of the daemon's updates, by any callers, on any
  conversations, each with any outcome of its system calls, a stored conversation stays readable,
  its transcript only grows, message i has the id m(i+1), the peer messages carry the rounds
  1, 2, 3, ... and the round counter is their number.\<close>

theorem transcript_append_only:
  assumes "placed st" "load_conv st k = Inr c0" "wf_conv c0"
  shows "\<exists>c. load_conv (run_steps conv_step ops st) k = Inr c \<and> wf_conv c
           \<and> prefix (cv_messages c0) (cv_messages c)"
proof -
  let ?P = "\<lambda>c. wf_conv c \<and> prefix (cv_messages c0) (cv_messages c)"
  obtain c where c: "load_conv (run_steps conv_step ops st) k = Inr c"
    using cs.run_loads[OF assms(1,2)] by blast
  have "?P (conv_eff op k c)" if "?P c" for op c
    using that apply_mut_prefix[of c] prefix_order.trans[of "cv_messages c0" "cv_messages c"]
    by (cases op) (simp_all add: wf_append_msg wf_restore_ids wf_apply_mut append_msg_messages)
  with cs.run_stable[OF assms(1), of k ?P ops c] assms c show ?thesis by auto
qed

definition conv_a :: conversation where
  "conv_a = \<lparr>cv_version = 1, cv_id = ''c1'', cv_room = ''r1'', cv_tag = ''t'', cv_status = StatusActive,
     cv_participants = [], cv_members = [], cv_initial_target = ''a'', cv_initial_input = [],
     cv_max_rounds = 2, cv_round_count = 0, cv_messages = [], cv_created_at = 1, cv_started_at = 2,
     cv_finished_at = 0, cv_final_answer = [], cv_error = [], cv_outputs = []\<rparr>"

lemma conv_a_simps [simp]:
  "cv_id conv_a = ''c1''" "cv_room conv_a = ''r1''" "cv_version conv_a = 1"
  "cv_status conv_a = StatusActive" "cv_max_rounds conv_a = 2" "cv_round_count conv_a = 0"
  "cv_messages conv_a = []" "cv_members conv_a = []" "cv_participants conv_a = []"
  "cv_initial_target conv_a = ''a''" "cv_created_at conv_a = 1"
  by (simp_all add: conv_a_def)

definition key_c1 :: conv_key where "key_c1 = (''r1'', ''c1'')"

definition peer_msg :: "string \<Rightarrow> string \<Rightarrow> message" where
  "peer_msg f t = \<lparr>msg_id = [], msg_conv = [], msg_from = f, msg_to = t, msg_kind = KindPeer,
     msg_payload = [], msg_ts = 0, msg_round = 0\<rparr>"

definition env_a :: env where "env_a = \<lparr>env_io = io_good, env_now = 5\<rparr>"

lemma placed_a: "placed [key_c1 \<mapsto> Parsed conv_a]"
  by (simp add: placed_def key_c1_def)

lemma wf_a: "wf_conv conv_a"
  by (rule wf_fresh) simp_all

lemma transcript_append_only_witness:
  "\<exists>c. load_conv (run_steps conv_step [(OpAppend env_a (peer_msg ''a'' ''b''), key_c1)]
        [key_c1 \<mapsto> Parsed conv_a]) key_c1 = Inr c \<and> wf_conv c \<and> prefix (cv_messages conv_a) (cv_messages c)"
  by (rule transcript_append_only[OF placed_a _ wf_a])
     (simp_all add: current_version_def)

text \<open>The states of the store during one write: the temp file is \<open>.id-rnd.json\<close> in the same
  directory, a write cut short leaves a file there that does not parse.\<close>

definition tmp_key :: "conversation \<Rightarrow> string \<Rightarrow> conv_key" where
  "tmp_key c rnd = (cv_room c, ''.'' @ cv_id c @ ''-'' @ rnd)"

definition write_conv_trace :: "env \<Rightarrow> string \<Rightarrow> conversation \<Rightarrow> conv_store \<Rightarrow> conv_store list" where
  "write_conv_trace e rnd c st =
     atomic_trace (env_io e) (tmp_key c rnd) (cv_room c, cv_id c) Corrupt (Parsed c) st"

lemma tmp_key_neq: "tmp_key c rnd \<noteq> (cv_room c, cv_id c)"
proof
  assume "tmp_key c rnd = (cv_room c, cv_id c)"
  then have "length (''.'' @ cv_id c @ ''-'' @ rnd) = length (cv_id c)" by (simp add: tmp_key_def)
  then show False by simp
qed

lemma write_conv_trace_good:
  "write_ok_all (env_io e) \<Longrightarrow> write_conv_trace e rnd c st =
     [st, st(tmp_key c rnd \<mapsto> Corrupt), st(tmp_key c rnd \<mapsto> Parsed c),
      st((cv_room c, cv_id c) \<mapsto> Parsed c, tmp_key c rnd := None)]"
  by (simp add: write_conv_trace_def atomic_trace_def write_ok_all_def)

lemma write_ok_a: "write_ok_all (env_io env_a)"
  by (simp add: env_a_def write_ok_all_def io_good_def)

text \<open>C31. A daemon that dies at any moment of a write leaves the conversation either as it was or
  as the write wanted it, every file other than the temp file untouched; and when it does not die
  the store is what the store operations say.\<close>

theorem write_crash_safe:
  assumes "st (tmp_key c rnd) = None" "cv_version c \<le> current_version"
    and "s \<in> set (write_conv_trace e rnd c st)" "k \<noteq> tmp_key c rnd"
  shows "(s k = st k \<or> k = (cv_room c, cv_id c) \<and> load_conv s k = Inr c)
       \<and> last (write_conv_trace e rnd c st) = snd (write_conv e c st)"
proof -
  have "s k = st k \<or> k = (cv_room c, cv_id c) \<and> s k = Some (Parsed c)"
    using assms(3,4) atomic_trace_old_or_new[OF tmp_key_neq] atomic_trace_frame
    unfolding write_conv_trace_def by metis
  moreover have "snd (atomic_replace (env_io e) (tmp_key c rnd) (cv_room c, cv_id c) (Parsed c) st)
      = snd (write_conv e c st)"
    using assms(1) tmp_key_neq[of c rnd]
    by (auto simp: atomic_replace_def write_conv_def write_ok_all_def fun_eq_iff)
  ultimately show ?thesis
    using assms(2) by (auto simp: write_conv_trace_def atomic_trace_last load_conv_def)
qed

lemma write_crash_safe_witness:
  "let s = [key_c1 \<mapsto> Parsed conv_a, (''r1'', ''.c1-7'') \<mapsto> Corrupt] in
     (s key_c1 = [key_c1 \<mapsto> Parsed conv_a] key_c1
       \<or> key_c1 = (cv_room conv_a, cv_id conv_a) \<and> load_conv s key_c1 = Inr conv_a)
     \<and> last (write_conv_trace env_a ''7'' conv_a [key_c1 \<mapsto> Parsed conv_a])
         = snd (write_conv env_a conv_a [key_c1 \<mapsto> Parsed conv_a])"
  unfolding Let_def
proof (rule write_crash_safe)
  have "tmp_key conv_a ''7'' = (''r1'', ''.c1-7'')" by (simp add: tmp_key_def)
  then show "[key_c1 \<mapsto> Parsed conv_a, (''r1'', ''.c1-7'') \<mapsto> Corrupt]
      \<in> set (write_conv_trace env_a ''7'' conv_a [key_c1 \<mapsto> Parsed conv_a])"
    by (simp only: write_conv_trace_good write_ok_a list.set insert_iff simp_thms)
qed (simp_all add: tmp_key_def key_c1_def current_version_def)

text \<open>A crash between the write of the temp file and the rename leaves a file the enumerations
  take for a conversation: the Room then lists the same conversation id twice, and the index built
  at the next start holds the temp file's name as a conversation id.\<close>

theorem crash_leftover_listed:
  assumes "write_ok_all (env_io e)" "st (cv_room c, cv_id c) = Some (Parsed c0)" "cv_id c0 = cv_id c"
    and "cv_version c \<le> current_version" "cv_version c0 \<le> current_version"
  shows "\<exists>s \<in> set (write_conv_trace e rnd c st).
           map cv_id (list_by_room [tmp_key c rnd, (cv_room c, cv_id c)] (cv_room c) s) = [cv_id c, cv_id c]
         \<and> index_by_id [tmp_key c rnd, (cv_room c, cv_id c)] (''.'' @ cv_id c @ ''-'' @ rnd) = Some (cv_room c)"
proof
  let ?s = "st(tmp_key c rnd \<mapsto> Parsed c)"
  show "?s \<in> set (write_conv_trace e rnd c st)"
    using assms(1) by (simp add: write_conv_trace_good)
  have "load_conv ?s (cv_room c, cv_id c) = Inr c0"
    using assms(2,5) tmp_key_neq[of c rnd] by (simp add: load_conv_def)
  moreover have "load_conv ?s (tmp_key c rnd) = Inr c"
    using assms(4) by simp
  moreover have "fst (tmp_key c rnd) = cv_room c" "snd (tmp_key c rnd) = ''.'' @ cv_id c @ ''-'' @ rnd"
    by (simp_all add: tmp_key_def)
  moreover have "cv_id c \<noteq> ''.'' @ cv_id c @ ''-'' @ rnd"
    using tmp_key_neq[of c rnd] by (simp add: tmp_key_def)
  ultimately show "map cv_id (list_by_room [tmp_key c rnd, (cv_room c, cv_id c)] (cv_room c) ?s) = [cv_id c, cv_id c]
      \<and> index_by_id [tmp_key c rnd, (cv_room c, cv_id c)] (''.'' @ cv_id c @ ''-'' @ rnd) = Some (cv_room c)"
    using assms(3) by (simp add: list_by_room_def index_by_id_def)
qed

lemma crash_leftover_listed_witness:
  "\<exists>s \<in> set (write_conv_trace env_a ''7'' conv_a [key_c1 \<mapsto> Parsed conv_a]).
      map cv_id (list_by_room [tmp_key conv_a ''7'', (cv_room conv_a, cv_id conv_a)] (cv_room conv_a) s)
        = [cv_id conv_a, cv_id conv_a]
    \<and> index_by_id [tmp_key conv_a ''7'', (cv_room conv_a, cv_id conv_a)]
        (''.'' @ cv_id conv_a @ ''-'' @ ''7'') = Some (cv_room conv_a)"
proof (rule crash_leftover_listed[OF write_ok_a])
  show "[key_c1 \<mapsto> Parsed conv_a] (cv_room conv_a, cv_id conv_a) = Some (Parsed conv_a)"
    by (simp add: key_c1_def)
qed (simp_all add: current_version_def)

text \<open>What the sweep at the daemon's start makes of the store, on a set of keys.\<close>

definition interrupted :: "env \<Rightarrow> conversation \<Rightarrow> conversation" where
  "interrupted e c = restore_ids c (interrupt (env_now e) c)"

definition settled :: "env \<Rightarrow> conv_key set \<Rightarrow> conv_store \<Rightarrow> conv_store" where
  "settled e K st = (\<lambda>k. case load_conv st k of
       Inl _ \<Rightarrow> st k
     | Inr c \<Rightarrow> if k \<in> K \<and> cv_status c = StatusActive then Some (Parsed (interrupted e c)) else st k)"

lemma interrupted_frame [simp]:
  "cv_status (interrupted e c) = StatusInterrupted" "cv_version (interrupted e c) = current_version"
  "cv_id (interrupted e c) = cv_id c" "cv_room (interrupted e c) = cv_room c"
  "interrupted e (interrupted e c) = interrupted e c"
  by (simp_all add: interrupted_def interrupt_def restore_ids_def)

lemma load_settled:
  "load_conv (settled e K st) k = (case load_conv st k of
       Inl x \<Rightarrow> Inl x
     | Inr c \<Rightarrow> Inr (if k \<in> K \<and> cv_status c = StatusActive then interrupted e c else c))"
  by (auto simp: settled_def load_conv_def split: option.splits conv_file.splits if_splits)

lemma settled_at:
  "settled e K st k = (case load_conv st k of
       Inl _ \<Rightarrow> st k
     | Inr c \<Rightarrow> if k \<in> K \<and> cv_status c = StatusActive then Some (Parsed (interrupted e c)) else st k)"
  by (simp add: settled_def)

lemma settled_settled: "settled e K (settled e L st) = settled e (K \<union> L) st"
proof
  fix k
  show "settled e K (settled e L st) k = settled e (K \<union> L) st k"
    by (cases "load_conv st k"; cases "k \<in> K"; cases "k \<in> L") (simp_all add: settled_at load_settled)
qed

lemma settled_empty [simp]: "settled e {} st = st"
  by (rule ext) (auto simp: settled_def split: sum.splits)

lemma placed_settled: "placed st \<Longrightarrow> placed (settled e K st)"
  unfolding placed_def
proof (intro allI impI)
  fix k c
  assume pl: "\<forall>k c. st k = Some (Parsed c) \<longrightarrow> k = (cv_room c, cv_id c)"
    and st: "settled e K st k = Some (Parsed c)"
  show "k = (cv_room c, cv_id c)"
  proof (cases "load_conv st k")
    case (Inl x)
    with st pl show ?thesis by (cases k) (simp add: settled_at)
  next
    case (Inr d)
    from pl have "placed st" by (simp add: placed_def)
    from placed_key[OF this Inr] st pl show ?thesis
      by (auto simp: settled_at Inr split: if_splits)
  qed
qed

lemma update_interrupt:
  assumes "placed st" "write_ok_all (env_io e)" "load_conv st k = Inr c" "cv_status c = StatusActive"
  shows "update_conv e k (interrupt (env_now e)) st = (Inr (interrupted e c), settled e {k} st)"
proof -
  have "st(k \<mapsto> Parsed (interrupted e c)) = settled e {k} st"
    by (rule ext) (auto simp: settled_def assms(3,4) split: sum.splits)
  with placed_key[OF assms(1,3)] assms show ?thesis
    by (simp add: update_conv_def write_conv_def flip: interrupted_def)
qed

lemma interrupt_all_settles:
  assumes "placed st" "write_ok_all (env_io e)"
    and "\<forall>c \<in> set cs. load_conv st (room, cv_id c) = Inr c"
  shows "snd (interrupt_all e room cs (settled e K st)) =
           settled e (K \<union> {(room, cv_id c) |c. c \<in> set cs}) st"
  using assms(3)
proof (induction cs arbitrary: K)
  case Nil
  then show ?case by simp
next
  case (Cons c cs)
  let ?k = "(room, cv_id c)" and ?K' = "K \<union> {(room, cv_id c) |c. c \<in> set (cs)}"
  have K: "insert ?k K \<union> {(room, cv_id d) |d. d \<in> set cs} = K \<union> {(room, cv_id d) |d. d \<in> set (c # cs)}"
    by auto
  have c: "load_conv st ?k = Inr c" using Cons.prems by simp
  have IH: "snd (interrupt_all e room cs (settled e L st)) =
      settled e (L \<union> {(room, cv_id d) |d. d \<in> set cs}) st" for L
    using Cons by simp
  show ?case
  proof (cases "cv_status c = StatusActive")
    case False
    then have "settled e (insert ?k K) st = settled e K st"
      using c by (auto simp: fun_eq_iff settled_at split: sum.splits)
    with False IH[of "insert ?k K"] show ?thesis
      by (simp only: K interrupt_all.simps if_True not_False_eq_True)
  next
    case True
    let ?st = "settled e K st"
    have "snd (update_conv e ?k (interrupt (env_now e)) ?st) = settled e (insert ?k K) st"
    proof (cases "?k \<in> K")
      case True
      with c have ld: "load_conv ?st ?k = Inr (interrupted e c)"
        using \<open>cv_status c = StatusActive\<close> by (simp add: load_settled)
      have "restore_ids (interrupted e c) (interrupt (env_now e) (interrupted e c)) = interrupted e c"
        by (simp flip: interrupted_def)
      moreover from ld have "?st (cv_room c, cv_id c) = Some (Parsed (interrupted e c))"
        using placed_key[OF assms(1) c] True c \<open>cv_status c = StatusActive\<close>
        by (simp add: settled_at)
      ultimately show ?thesis
        using ld assms(2) True by (simp add: update_conv_def write_conv_def fun_upd_idem insert_absorb)
    next
      case False
      with c have "load_conv ?st ?k = Inr c" by (simp add: load_settled)
      with update_interrupt[OF placed_settled[OF assms(1), of e K] assms(2), of ?k c] True
      show ?thesis by (simp add: settled_settled)
    qed
    moreover have "snd (interrupt_all e room (c # cs) st') =
        snd (interrupt_all e room cs (snd (update_conv e ?k (interrupt (env_now e)) st')))" for st'
      using True by (simp add: Let_def split: prod.splits)
    ultimately show ?thesis by (simp only: IH K)
  qed
qed

lemma listed_loaded:
  assumes "placed st"
  shows "\<forall>c \<in> set (list_by_room ls r st). load_conv st (r, cv_id c) = Inr c"
proof
  fix c assume "c \<in> set (list_by_room ls r st)"
  then obtain k where k: "fst k = r" "load_conv st k = Inr c"
    by (auto simp: list_by_room_def split: if_splits sum.splits)
  with placed_key[OF assms k(2)] show "load_conv st (r, cv_id c) = Inr c" by auto
qed

lemma list_by_room_keys:
  assumes "placed st"
  shows "{(r, cv_id c) |c. c \<in> set (list_by_room ls r st)} =
           {k \<in> set ls. fst k = r \<and> is_ok (load_conv st k)}" (is "?A = ?B")
proof
  show "?A \<subseteq> ?B"
  proof
    fix k assume "k \<in> ?A"
    then obtain c k' where k: "k = (r, cv_id c)" "k' \<in> set ls" "fst k' = r" "load_conv st k' = Inr c"
      by (auto simp: list_by_room_def split: if_splits sum.splits)
    with placed_key[OF assms k(4)] have "k = k'" by auto
    with k show "k \<in> ?B" by simp
  qed
  show "?B \<subseteq> ?A"
  proof
    fix k assume k: "k \<in> ?B"
    then obtain c where c: "load_conv st k = Inr c" by (auto simp: is_ok_iff)
    with k have "c \<in> set (list_by_room ls r st)"
      by (auto simp: list_by_room_def intro!: bexI[of _ k])
    moreover have "k = (r, cv_id c)" using placed_key[OF assms c] k by auto
    ultimately show "k \<in> ?A" by blast
  qed
qed

lemma settled_ok: "settled e {k \<in> K. is_ok (load_conv st k)} st = settled e K st"
proof
  fix k
  show "settled e {k \<in> K. is_ok (load_conv st k)} st k = settled e K st k"
    by (cases "load_conv st k") (simp_all add: settled_at)
qed

lemma mark_settles:
  assumes "write_ok_all (env_io e)"
  shows "placed st \<Longrightarrow> snd (mark_active_as_interrupted e ls rooms st) =
           settled e {k \<in> set ls. fst k \<in> set rooms} st"
proof (induction rooms arbitrary: st)
  case Nil
  then show ?case by simp
next
  case (Cons r rs)
  let ?K = "{k \<in> set ls. fst k = r}"
  have ok: "{k \<in> set ls. fst k = r \<and> is_ok (load_conv st k)} = {k \<in> ?K. is_ok (load_conv st k)}"
    by auto
  have 1: "snd (interrupt_all e r (list_by_room ls r st) st) = settled e ?K st"
    using interrupt_all_settles[OF Cons.prems assms listed_loaded[OF Cons.prems, of ls r], of "{}"]
    by (simp only: settled_empty Un_empty_left list_by_room_keys[OF Cons.prems] ok settled_ok)
  have K: "{k \<in> set ls. fst k \<in> set rs} \<union> ?K = {k \<in> set ls. fst k \<in> set (r # rs)}" by auto
  have "snd (mark_active_as_interrupted e ls (r # rs) st) =
      snd (mark_active_as_interrupted e ls rs (snd (interrupt_all e r (list_by_room ls r st) st)))"
    by (simp add: Let_def split: prod.splits)
  then show ?case
    by (simp only: 1 Cons.IH[OF placed_settled[OF Cons.prems]] settled_settled K)
qed

text \<open>The sweep at the daemon's start, run over a listing of all rooms and files on a disk that
  can be written, turns each conversation that was active into an interrupted one with its
  transcript and round count as they were, and leaves every other file as it was, the ones it
  cannot read included.\<close>

theorem restart_interrupts_active:
  assumes "placed st" "write_ok_all (env_io e)" "dom st \<subseteq> set ls" "fst ` set ls \<subseteq> set rooms"
  shows "snd (mark_active_as_interrupted e ls rooms st) k = (case load_conv st k of
      Inl _ \<Rightarrow> st k
    | Inr c \<Rightarrow> if cv_status c = StatusActive
        then Some (Parsed (c\<lparr>cv_status := StatusInterrupted, cv_finished_at := env_now e,
               cv_error := ''daemon restarted while conversation was active'',
               cv_version := current_version\<rparr>))
        else st k)"
proof (cases "load_conv st k")
  case (Inl x)
  with assms show ?thesis by (simp add: mark_settles settled_at)
next
  case (Inr c)
  then have "k \<in> dom st" by (auto simp: load_conv_def split: option.splits)
  with assms(3,4) have "k \<in> {k \<in> set ls. fst k \<in> set rooms}" by auto
  with Inr assms(1,2) show ?thesis
    by (simp add: mark_settles settled_at interrupted_def interrupt_def restore_ids_def)
qed

lemma restart_interrupts_active_witness:
  "snd (mark_active_as_interrupted env_a [key_c1] [''r1''] [key_c1 \<mapsto> Parsed conv_a]) key_c1 =
     Some (Parsed (conv_a\<lparr>cv_status := StatusInterrupted, cv_finished_at := 5,
       cv_error := ''daemon restarted while conversation was active'', cv_version := 1\<rparr>))"
  using restart_interrupts_active[OF placed_a write_ok_a, of "[key_c1]" "[''r1'']" key_c1]
  by (simp add: key_c1_def load_conv_def current_version_def env_a_def)

end
