(* ===== verification/Peer.thy ===== *)
theory Peer
  imports Conversation
begin

section \<open>Peer messages (internal/router/router.go, room.go, daemon.go, peer_forward.go, conv_index.go)\<close>

text \<open>
  A \<^verbatim>\<open>peer/send\<close> of an agent goes through four hooks: the round-cap check of its conversation, the
  choice between the sender's router and the one of the target's Room, the router's delivery, and
  the append to the transcript. The hub holds what they share: the conversation store, the index
  from conversation ids to owner Rooms, the routers of the Rooms, the Rooms that are active, the
  notifications written to agents and the events published, both oldest first. Each hook is a
  function of the hub; \<open>handle_peer_send\<close> composes them as the handler does when nobody else
  runs, and \<open>sstep\<close> lets the hooks of several senders interleave.
\<close>

record peer_recv =
  pr_from :: string
  pr_payload :: string
  pr_conv :: string

datatype event_type =
  EventConvCreated | EventConvStarted | EventConvMessage | EventConvStatusUpd | EventConvFinished
| EventConvDeleted

datatype event_payload =
  PlMessage message | PlSummary summary | PlRoundCap int | PlDeleted string string

record conv_event =
  ce_type :: event_type
  ce_room :: string
  ce_conv :: string
  ce_payload :: event_payload

text \<open>A router maps the agents registered with it to their connections.\<close>

type_synonym router = "string \<rightharpoonup> nat"

record hub =
  hb_store :: conv_store
  hb_index :: "string \<rightharpoonup> string"
  hb_routers :: "string \<Rightarrow> router"
  hb_active :: "string list"
  hb_sent :: "(nat \<times> peer_recv) list"
  hb_events :: "conv_event list"

subsection \<open>The index of conversations\<close>

definition index_owner :: "(string \<rightharpoonup> string) \<Rightarrow> string \<Rightarrow> string" where
  "index_owner i cid = (case i cid of None \<Rightarrow> [] | Some r \<Rightarrow> r)"

definition index_set :: "string \<Rightarrow> string \<Rightarrow> (string \<rightharpoonup> string) \<Rightarrow> (string \<rightharpoonup> string)" where
  "index_set cid rid i = i(cid \<mapsto> rid)"

definition index_forget :: "string \<Rightarrow> (string \<rightharpoonup> string) \<Rightarrow> (string \<rightharpoonup> string)" where
  "index_forget cid i = i(cid := None)"

definition owner_of :: "hub \<Rightarrow> string \<Rightarrow> string \<Rightarrow> string" where
  "owner_of h rid cid = (let owner = index_owner (hb_index h) cid in if owner = [] then rid else owner)"

definition publish :: "event_type \<Rightarrow> string \<Rightarrow> string \<Rightarrow> event_payload \<Rightarrow> hub \<Rightarrow> hub" where
  "publish t rid cid p h =
     h\<lparr>hb_events := hb_events h @ [\<lparr>ce_type = t, ce_room = rid, ce_conv = cid, ce_payload = p\<rparr>]\<rparr>"

subsection \<open>The router\<close>

definition router_register :: "string \<Rightarrow> nat \<Rightarrow> router \<Rightarrow> router" where
  "router_register nm c r = r(nm \<mapsto> c)"

definition router_unregister :: "string \<Rightarrow> router \<Rightarrow> router" where
  "router_unregister nm r = r(nm := None)"

text \<open>
  What becomes of one message: the routing goroutine never takes it (the caller's context ends or
  the router stops first), it takes it but the caller has gone when the answer comes, or it takes
  it and the caller gets the answer. \<open>pe_notify\<close> says which connections can be written to.
\<close>

datatype fate = NotTaken | TakenLost | Answered

record peer_env =
  pe_cap :: env
  pe_append :: env
  pe_notify :: "nat \<Rightarrow> bool"
  pe_fate :: fate

record peer_call =
  pc_room :: string
  pc_from :: string
  pc_to :: string
  pc_conv :: string
  pc_payload :: string

definition auth_peer_send :: "string \<Rightarrow> string \<Rightarrow> unit res" where
  "auth_peer_send from target = Inr ()"

definition router_handle ::
  "(nat \<Rightarrow> bool) \<Rightarrow> router \<Rightarrow> string \<Rightarrow> string \<Rightarrow> string \<Rightarrow> string \<Rightarrow> unit res \<times> (nat \<times> peer_recv) list" where
  "router_handle nok r from target cid payload =
     (case auth_peer_send from target of
        Inl e \<Rightarrow> (Inl e, [])
      | Inr _ \<Rightarrow>
          (case r target of
             None \<Rightarrow> (Inl PeerNotFound, [])
           | Some conn \<Rightarrow>
               if nok conn
               then (Inr (), [(conn, \<lparr>pr_from = from, pr_payload = payload, pr_conv = cid\<rparr>)])
               else (Inl Plain, [])))"

definition router_send ::
  "peer_env \<Rightarrow> router \<Rightarrow> string \<Rightarrow> string \<Rightarrow> string \<Rightarrow> string \<Rightarrow> unit res \<times> (nat \<times> peer_recv) list" where
  "router_send e r from target cid payload =
     (case pe_fate e of
        NotTaken \<Rightarrow> (Inl Plain, [])
      | TakenLost \<Rightarrow> (Inl Plain, snd (router_handle (pe_notify e) r from target cid payload))
      | Answered \<Rightarrow> router_handle (pe_notify e) r from target cid payload)"

definition send_via ::
  "peer_env \<Rightarrow> string \<Rightarrow> string \<Rightarrow> string \<Rightarrow> string \<Rightarrow> string \<Rightarrow> hub \<Rightarrow> unit res \<times> hub" where
  "send_via e rid from target cid payload h =
     (let (r, out) = router_send e (hb_routers h rid) from target cid payload
      in (r, h\<lparr>hb_sent := hb_sent h @ out\<rparr>))"

subsection \<open>The hooks\<close>

definition peer_send_intercept :: "peer_env \<Rightarrow> string \<Rightarrow> string \<Rightarrow> hub \<Rightarrow> unit res \<times> hub" where
  "peer_send_intercept e rid cid h =
     (if cid = [] then (Inr (), h)
      else let owner = owner_of h rid cid in
        (case load_conv (hb_store h) (owner, cid) of
           Inl _ \<Rightarrow> (Inl InvalidParams, h)
         | Inr c \<Rightarrow>
             if terminal (cv_status c) then (Inl InvalidParams, h)
             else if cv_round_count c \<ge> cv_max_rounds c then
               (let (_, st) = update_conv (pe_cap e) (owner, cid)
                      (apply_mut (MRoundCap (env_now (pe_cap e)))) (hb_store h)
                in (Inl PermissionDenied,
                    publish EventConvFinished owner cid (PlRoundCap (cv_max_rounds c))
                      (h\<lparr>hb_store := st\<rparr>)))
             else (Inr (), h)))"

definition append_peer :: "peer_env \<Rightarrow> string \<Rightarrow> peer_call \<Rightarrow> hub \<Rightarrow> hub" where
  "append_peer e owner p h =
     (case append_conv (pe_append e) (owner, pc_conv p)
             \<lparr>msg_id = [], msg_conv = [], msg_from = pc_from p, msg_to = pc_to p, msg_kind = KindPeer,
              msg_payload = pc_payload p, msg_ts = 0, msg_round = 0\<rparr> (hb_store h) of
        (Inl _, st) \<Rightarrow> h\<lparr>hb_store := st\<rparr>
      | (Inr c, st) \<Rightarrow>
          publish EventConvMessage owner (pc_conv p) (PlMessage (last (cv_messages c))) (h\<lparr>hb_store := st\<rparr>))"

definition peer_send_delivered :: "peer_env \<Rightarrow> peer_call \<Rightarrow> hub \<Rightarrow> hub" where
  "peer_send_delivered e p h =
     (if pc_conv p = [] then h else append_peer e (owner_of h (pc_room p) (pc_conv p)) p h)"

text \<open>The decision of \<^verbatim>\<open>peerSendForward\<close> up to the dispatch: the local router, an error, or the
  router of the Room of a member.\<close>

datatype fwd = FwdLocal | FwdReject herr | FwdTo string string string

definition forward_decide :: "peer_call \<Rightarrow> hub \<Rightarrow> fwd" where
  "forward_decide p h =
     (if pc_conv p = [] then FwdLocal
      else let owner = index_owner (hb_index h) (pc_conv p) in
        if owner = [] then FwdLocal
        else case load_conv (hb_store h) (owner, pc_conv p) of
            Inl _ \<Rightarrow> FwdReject Internal
          | Inr c \<Rightarrow>
              if \<not> is_cross_room c then FwdLocal
              else case find_member (pc_to p) c of
                  None \<Rightarrow> FwdReject PermissionDenied
                | Some m \<Rightarrow>
                    if mb_room m = pc_room p then FwdLocal
                    else if mb_room m \<notin> set (hb_active h) then FwdReject InvalidParams
                    else FwdTo owner (mb_room m) (mb_agent m))"

definition peer_send_forward :: "peer_env \<Rightarrow> peer_call \<Rightarrow> hub \<Rightarrow> (bool \<times> unit res) \<times> hub" where
  "peer_send_forward e p h =
     (case forward_decide p h of
        FwdLocal \<Rightarrow> ((False, Inr ()), h)
      | FwdReject x \<Rightarrow> ((True, Inl x), h)
      | FwdTo owner rid agent \<Rightarrow>
          (case send_via e rid (pc_from p) agent (pc_conv p) (pc_payload p) h of
             (Inl x, h) \<Rightarrow> ((True, Inl x), h)
           | (Inr _, h) \<Rightarrow> ((True, Inr ()), append_peer e owner p h)))"

definition handle_peer_send :: "peer_env \<Rightarrow> peer_call option \<Rightarrow> hub \<Rightarrow> unit res \<times> hub" where
  "handle_peer_send e params h =
     (case params of
        None \<Rightarrow> (Inl Plain, h)
      | Some p \<Rightarrow>
          (case peer_send_intercept e (pc_room p) (pc_conv p) h of
             (Inl x, h) \<Rightarrow> (Inl x, h)
           | (Inr _, h) \<Rightarrow>
               (case peer_send_forward e p h of
                  ((_, Inl x), h) \<Rightarrow> (Inl x, h)
                | ((True, Inr _), h) \<Rightarrow> (Inr (), h)
                | ((False, Inr _), h) \<Rightarrow>
                    (case send_via e (pc_room p) (pc_from p) (pc_to p) (pc_conv p) (pc_payload p) h of
                       (Inl x, h) \<Rightarrow> (Inl x, h)
                     | (Inr _, h) \<Rightarrow> (Inr (), peer_send_delivered e p h)))))"

subsection \<open>Facts on the hooks\<close>

lemma publish_frame [simp]:
  "hb_store (publish t r c p h) = hb_store h" "hb_index (publish t r c p h) = hb_index h"
  "hb_routers (publish t r c p h) = hb_routers h" "hb_active (publish t r c p h) = hb_active h"
  "hb_sent (publish t r c p h) = hb_sent h"
  by (simp_all add: publish_def)

lemma append_peer_frame [simp]:
  "hb_index (append_peer e o' p h) = hb_index h" "hb_routers (append_peer e o' p h) = hb_routers h"
  "hb_active (append_peer e o' p h) = hb_active h" "hb_sent (append_peer e o' p h) = hb_sent h"
  by (simp_all add: append_peer_def split: prod.splits sum.splits)

lemma delivered_frame [simp]:
  "hb_index (peer_send_delivered e p h) = hb_index h" "hb_sent (peer_send_delivered e p h) = hb_sent h"
  by (simp_all add: peer_send_delivered_def)

lemma intercept_frame:
  "peer_send_intercept e rid cid h = (r, h') \<Longrightarrow>
     hb_index h' = hb_index h \<and> hb_sent h' = hb_sent h \<and> hb_routers h' = hb_routers h
   \<and> hb_active h' = hb_active h"
  by (auto simp: peer_send_intercept_def Let_def split: if_splits sum.splits prod.splits)

lemma intercept_ok: "peer_send_intercept e rid cid h = (Inr u, h') \<Longrightarrow> h' = h"
  by (auto simp: peer_send_intercept_def Let_def split: if_splits sum.splits prod.splits)

lemma intercept_ok_room:
  assumes "peer_send_intercept e rid cid h = (Inr u, h')" "cid \<noteq> []"
    and "load_conv (hb_store h) (owner_of h rid cid, cid) = Inr c"
  shows "cv_round_count c < cv_max_rounds c \<and> \<not> terminal (cv_status c)"
  using assms by (auto simp: peer_send_intercept_def Let_def split: if_splits prod.splits)

lemma send_via_ok:
  assumes "send_via e rid from target cid payload h = (Inr u, h')"
  shows "\<exists>conn. hb_routers h rid target = Some conn \<and>
    h' = h\<lparr>hb_sent := hb_sent h @ [(conn, \<lparr>pr_from = from, pr_payload = payload, pr_conv = cid\<rparr>)]\<rparr>"
  using assms
  by (auto simp: send_via_def router_send_def router_handle_def auth_peer_send_def Let_def
      split: fate.splits option.splits if_splits)

lemma send_via_error:
  assumes "send_via e rid from target cid payload h = (Inl x, h')" "pe_fate e \<noteq> TakenLost"
  shows "h' = h"
  using assms
  by (auto simp: send_via_def router_send_def router_handle_def auth_peer_send_def Let_def
      split: fate.splits option.splits if_splits)

lemma send_via_failed:
  assumes "send_via e rid from target cid payload h = (Inl x, h')"
  shows "\<exists>out. h' = h\<lparr>hb_sent := hb_sent h @ out\<rparr> \<and> (pe_fate e \<noteq> TakenLost \<longrightarrow> out = [])"
proof (cases "pe_fate e = TakenLost")
  case True
  with assms show ?thesis by (auto simp: send_via_def Let_def split: prod.splits)
next
  case False
  with send_via_error[OF assms] show ?thesis by (intro exI[of _ "[]"]) simp
qed

text \<open>The connection a message should reach: the one the target's name has in the Room the
  forward hook chose.\<close>

definition peer_target :: "peer_call \<Rightarrow> hub \<Rightarrow> nat option" where
  "peer_target p h = (case forward_decide p h of
       FwdLocal \<Rightarrow> hb_routers h (pc_room p) (pc_to p)
     | FwdReject _ \<Rightarrow> None
     | FwdTo _ rid agent \<Rightarrow> hb_routers h rid agent)"

definition peer_owner :: "peer_call \<Rightarrow> hub \<Rightarrow> string" where
  "peer_owner p h = owner_of h (pc_room p) (pc_conv p)"

lemma forward_owner: "forward_decide p h = FwdTo own rid a \<Longrightarrow> own = peer_owner p h \<and> pc_conv p \<noteq> []"
  by (auto simp: forward_decide_def peer_owner_def owner_of_def Let_def
      split: if_splits sum.splits option.splits)

text \<open>A send ends in one of four ways.\<close>

lemma handle_peer_send_cases:
  assumes "handle_peer_send e (Some p) h = (r, h')"
  obtains (capped) x where "peer_send_intercept e (pc_room p) (pc_conv p) h = (Inl x, h')" "r = Inl x"
  | (unsent) x where "peer_send_intercept e (pc_room p) (pc_conv p) h = (Inr (), h)"
      "r = Inl x" "\<exists>out. h' = h\<lparr>hb_sent := hb_sent h @ out\<rparr> \<and> (pe_fate e \<noteq> TakenLost \<longrightarrow> out = [])"
  | (sent) conn where "peer_send_intercept e (pc_room p) (pc_conv p) h = (Inr (), h)" "r = Inr ()"
      "peer_target p h = Some conn"
      "h' = (if pc_conv p = [] then id else append_peer e (peer_owner p h) p)
        (h\<lparr>hb_sent := hb_sent h @
           [(conn, \<lparr>pr_from = pc_from p, pr_payload = pc_payload p, pr_conv = pc_conv p\<rparr>)]\<rparr>)"
proof -
  let ?i = "peer_send_intercept e (pc_room p) (pc_conv p) h"
  obtain ri hi where i: "?i = (ri, hi)" by (cases ?i)
  show thesis
  proof (cases ri)
    case (Inl x)
    with assms i show thesis by (auto simp: handle_peer_send_def intro: capped)
  next
    case (Inr u)
    with i intercept_ok[of e "pc_room p" "pc_conv p" h u hi] have hi: "?i = (Inr (), h)" by simp
    have unsent': thesis if "r = Inl x" "send_via e rid f t c y h = (Inl x, h')" for x rid f t c y
      by (rule unsent[OF hi that(1) send_via_failed[OF that(2)]])
    show thesis
    proof (cases "forward_decide p h")
      case FwdLocal
      obtain rs hs where s: "send_via e (pc_room p) (pc_from p) (pc_to p) (pc_conv p) (pc_payload p) h = (rs, hs)"
        by fastforce
      show thesis
      proof (cases rs)
        case (Inl x)
        with assms hi s FwdLocal show thesis
          by (intro unsent') (auto simp: handle_peer_send_def peer_send_forward_def)
      next
        case (Inr v)
        from send_via_ok[OF s[unfolded Inr]] assms hi s FwdLocal Inr show thesis
          by (auto simp: handle_peer_send_def peer_send_forward_def peer_send_delivered_def
              peer_target_def peer_owner_def owner_of_def intro!: sent)
      qed
    next
      case (FwdReject x)
      with assms hi show thesis
        by (intro unsent[of x])
           (auto simp: handle_peer_send_def peer_send_forward_def intro!: exI[of _ "[]"])
    next
      case (FwdTo own rid agent)
      obtain rs hs where s: "send_via e rid (pc_from p) agent (pc_conv p) (pc_payload p) h = (rs, hs)"
        by fastforce
      show thesis
      proof (cases rs)
        case (Inl x)
        with assms hi s FwdTo show thesis
          by (intro unsent') (auto simp: handle_peer_send_def peer_send_forward_def)
      next
        case (Inr v)
        from send_via_ok[OF s[unfolded Inr]] forward_owner[OF FwdTo] assms hi s FwdTo Inr show thesis
          by (auto simp: handle_peer_send_def peer_send_forward_def peer_target_def intro!: sent)
      qed
    qed
  qed
qed

definition peer_message :: "peer_call \<Rightarrow> message" where
  "peer_message p =
     \<lparr>msg_id = [], msg_conv = [], msg_from = pc_from p, msg_to = pc_to p, msg_kind = KindPeer,
      msg_payload = pc_payload p, msg_ts = 0, msg_round = 0\<rparr>"

lemma append_peer_store:
  "hb_store (append_peer e own p h) =
     snd (conv_step (OpAppend (pe_append e) (peer_message p)) (own, pc_conv p) (hb_store h))"
  by (simp add: append_peer_def peer_message_def split: prod.splits sum.splits)

lemma intercept_store:
  "peer_send_intercept e rid cid h = (r, h') \<Longrightarrow>
     hb_store h' = hb_store h
   \<or> hb_store h' = snd (conv_step (OpUpdate (pe_cap e) (MRoundCap (env_now (pe_cap e))))
        (owner_of h rid cid, cid) (hb_store h))"
  by (auto simp: peer_send_intercept_def Let_def split: if_splits sum.splits prod.splits)

definition sent_for :: "string \<Rightarrow> hub \<Rightarrow> int" where
  "sent_for cid h = int (length (filter (\<lambda>x. pr_conv (snd x) = cid) (hb_sent h)))"

definition clean_call :: "peer_env \<Rightarrow> bool" where
  "clean_call e \<longleftrightarrow> pe_fate e \<noteq> TakenLost \<and> write_ok_all (env_io (pe_append e))"

text \<open>The state a conversation of a known owner is in, as the cap proofs need it.\<close>

definition capped_at :: "string \<Rightarrow> string \<Rightarrow> hub \<Rightarrow> conversation \<Rightarrow> bool" where
  "capped_at own cid h c \<longleftrightarrow> placed (hb_store h) \<and> own \<noteq> [] \<and> cid \<noteq> [] \<and> hb_index h cid = Some own
     \<and> load_conv (hb_store h) (own, cid) = Inr c"

lemma capped_owner: "capped_at own cid h c \<Longrightarrow> owner_of h rid cid = own"
  by (simp add: capped_at_def owner_of_def index_owner_def)

lemma capped_step:
  assumes "capped_at own cid h c" "hb_index h' = hb_index h"
    and "hb_store h' = snd (conv_step op j (hb_store h))"
  shows "capped_at own cid h' (if j = (own, cid) \<and> write_ok_all (env_io (op_env op))
            then conv_eff op (own, cid) c else c)"
  using assms conv_step_at[of "hb_store h" "(own, cid)" c op j] cs.step_inv[of "hb_store h" op j]
  by (simp add: capped_at_def)

lemma peer_step:
  assumes "capped_at own cid h c" "cv_round_count c \<le> cv_max_rounds c"
    and "handle_peer_send e prm h = (r, h')"
  shows "\<exists>c'. capped_at own cid h' c' \<and> cv_max_rounds c' = cv_max_rounds c
     \<and> cv_round_count c' \<le> cv_max_rounds c'
     \<and> (clean_call e \<longrightarrow> sent_for cid h' - sent_for cid h \<le> cv_round_count c' - cv_round_count c)"
proof (cases prm)
  case None
  with assms show ?thesis by (auto simp: handle_peer_send_def)
next
  case (Some p)
  from assms(3)[unfolded Some] show ?thesis
  proof (cases rule: handle_peer_send_cases)
    case (capped x)
    from intercept_frame[OF capped(1)] have fr: "hb_index h' = hb_index h" "hb_sent h' = hb_sent h"
      by auto
    from intercept_store[OF capped(1)] show ?thesis
    proof
      assume "hb_store h' = hb_store h"
      with assms(1,2) fr show ?thesis
        by (intro exI[of _ c]) (simp add: capped_at_def sent_for_def)
    next
      assume st: "hb_store h' = snd (conv_step (OpUpdate (pe_cap e) (MRoundCap (env_now (pe_cap e))))
        (owner_of h (pc_room p) (pc_conv p), pc_conv p) (hb_store h))"
      show ?thesis
        by (rule exI, intro conjI, rule capped_step[OF assms(1) fr(1) st])
           (use assms(2) fr(2) in \<open>auto simp: sent_for_def\<close>)
    qed
  next
    case (unsent x)
    then obtain out where out: "h' = h\<lparr>hb_sent := hb_sent h @ out\<rparr>" "pe_fate e \<noteq> TakenLost \<longrightarrow> out = []"
      by blast
    with assms(1,2) show ?thesis
      by (intro exI[of _ c]) (auto simp: capped_at_def sent_for_def clean_call_def)
  next
    case (sent conn)
    let ?h = "h\<lparr>hb_sent := hb_sent h @
           [(conn, \<lparr>pr_from = pc_from p, pr_payload = pc_payload p, pr_conv = pc_conv p\<rparr>)]\<rparr>"
    have h1: "capped_at own cid ?h c" using assms(1) by (simp add: capped_at_def)
    have cidne: "cid \<noteq> []" using assms(1) by (simp add: capped_at_def)
    have sf: "sent_for cid ?h = sent_for cid h + (if pc_conv p = cid then 1 else 0)"
      by (simp add: sent_for_def)
    show ?thesis
    proof (cases "pc_conv p = []")
      case True
      with sent h1 sf cidne assms(2) show ?thesis by (intro exI[of _ c]) simp
    next
      case False
      with sent have h': "h' = append_peer e (peer_owner p h) p ?h" by simp
      have sf': "sent_for cid h' = sent_for cid ?h" by (simp add: h' sent_for_def)
      have st: "hb_index h' = hb_index ?h" "hb_store h' =
          snd (conv_step (OpAppend (pe_append e) (peer_message p)) (peer_owner p h, pc_conv p) (hb_store ?h))"
        by (simp_all add: h' append_peer_store)
      from capped_step[OF h1 st] have c': "capped_at own cid h' (if peer_owner p h = own \<and> pc_conv p = cid
          \<and> write_ok_all (env_io (pe_append e))
          then append_msg (env_now (pe_append e)) cid (peer_message p) c else c)"
        by (simp only: op_env.simps conv_eff.simps prod.inject snd_conv conj_assoc)
      have own: "peer_owner p h = own" if "pc_conv p = cid"
        using capped_owner[OF assms(1)] that by (simp add: peer_owner_def)
      have lt: "cv_round_count c < cv_max_rounds c" if "pc_conv p = cid"
        using intercept_ok_room[OF sent(1) False] own[OF that] assms(1) that
        by (simp add: capped_at_def peer_owner_def)
      show ?thesis
        by (rule exI, intro conjI, rule c')
           (use own lt sf sf' assms(2) in
             \<open>auto simp: append_msg_round peer_message_def clean_call_def split: if_splits\<close>)
    qed
  qed
qed

subsection \<open>Properties of a send\<close>


definition penv_a :: peer_env where
  "penv_a = \<lparr>pe_cap = env_a, pe_append = env_a, pe_notify = (\<lambda>_. True), pe_fate = Answered\<rparr>"

definition hub_a :: hub where
  "hub_a = \<lparr>hb_store = [key_c1 \<mapsto> Parsed conv_a], hb_index = [''c1'' \<mapsto> ''r1''],
     hb_routers = (\<lambda>r. if r = ''r1'' then [''a'' \<mapsto> 1, ''b'' \<mapsto> 2] else [''z'' \<mapsto> 9]),
     hb_active = [''r1'', ''r9''], hb_sent = [], hb_events = []\<rparr>"

lemma hub_a_simps [simp]:
  "hb_store hub_a = [key_c1 \<mapsto> Parsed conv_a]" "hb_index hub_a = [''c1'' \<mapsto> ''r1'']"
  "hb_active hub_a = [''r1'', ''r9'']" "hb_sent hub_a = []" "hb_events hub_a = []"
  "hb_routers hub_a ''r1'' = [''a'' \<mapsto> 1, ''b'' \<mapsto> 2]" "hb_routers hub_a ''r9'' = [''z'' \<mapsto> 9]"
  by (simp_all add: hub_a_def)

definition call_a :: peer_call where
  "call_a = \<lparr>pc_room = ''r1'', pc_from = ''a'', pc_to = ''b'', pc_conv = ''c1'', pc_payload = ''x''\<rparr>"

lemma call_a_simps [simp]:
  "pc_room call_a = ''r1''" "pc_from call_a = ''a''" "pc_to call_a = ''b''" "pc_conv call_a = ''c1''"
  "pc_payload call_a = ''x''"
  by (simp_all add: call_a_def)

lemma penv_a_simps [simp]:
  "pe_cap penv_a = env_a" "pe_append penv_a = env_a" "pe_notify penv_a = (\<lambda>_. True)"
  "pe_fate penv_a = Answered"
  by (simp_all add: penv_a_def)

lemma load_a: "load_conv [key_c1 \<mapsto> Parsed conv_a] (''r1'', ''c1'') = Inr conv_a"
  by (simp add: key_c1_def load_conv_def current_version_def)

lemma intercept_a: "peer_send_intercept penv_a ''r1'' ''c1'' hub_a = (Inr (), hub_a)"
  by (simp add: peer_send_intercept_def owner_of_def index_owner_def key_c1_def current_version_def Let_def)

lemma forward_a: "forward_decide call_a hub_a = FwdLocal"
  by (simp add: forward_decide_def index_owner_def key_c1_def current_version_def Let_def is_cross_room_def key_c1_def current_version_def)


text \<open>A sequence of sends, each run to its end before the next.\<close>

definition peer_run :: "(peer_env \<times> peer_call option) list \<Rightarrow> hub \<Rightarrow> hub" where
  "peer_run calls h = foldl (\<lambda>h (e, p). snd (handle_peer_send e p h)) h calls"

lemma peer_run_inv:
  assumes "capped_at own cid h c" "cv_round_count c \<le> cv_max_rounds c"
  shows "\<exists>c'. capped_at own cid (peer_run calls h) c' \<and> cv_max_rounds c' = cv_max_rounds c
     \<and> cv_round_count c' \<le> cv_max_rounds c'
     \<and> (list_all (clean_call \<circ> fst) calls \<longrightarrow>
          sent_for cid (peer_run calls h) - sent_for cid h \<le> cv_round_count c' - cv_round_count c)"
  using assms
proof (induction calls arbitrary: h c)
  case Nil
  then show ?case by (auto simp: peer_run_def)
next
  case (Cons x calls)
  obtain e p where x: "x = (e, p)" by (cases x)
  let ?h = "snd (handle_peer_send e p h)"
  from peer_step[OF Cons.prems, of e p "fst (handle_peer_send e p h)" ?h]
  obtain c1 where c1: "capped_at own cid ?h c1" "cv_max_rounds c1 = cv_max_rounds c"
    "cv_round_count c1 \<le> cv_max_rounds c1"
    "clean_call e \<longrightarrow> sent_for cid ?h - sent_for cid h \<le> cv_round_count c1 - cv_round_count c"
    by auto
  have "peer_run (x # calls) h = peer_run calls ?h" by (simp add: peer_run_def x)
  with Cons.IH[OF c1(1,3)] c1 show ?case by (auto simp: x)
qed



text \<open>A send on a conversation that is over, or whose rounds are used up, is refused with
  nothing delivered; in the second case the conversation is cancelled with the reason
  \<open>round_cap\<close> (when its file can be written) and the end is published.\<close>

theorem spent_conversation_refuses:
  assumes "placed (hb_store h)" "pc_conv p \<noteq> []"
    and "load_conv (hb_store h) (peer_owner p h, pc_conv p) = Inr c"
    and "terminal (cv_status c) \<or> cv_max_rounds c \<le> cv_round_count c"
    and "handle_peer_send e (Some p) h = (r, h')"
  shows "r = Inl (if terminal (cv_status c) then InvalidParams else PermissionDenied)
       \<and> hb_sent h' = hb_sent h
       \<and> (if terminal (cv_status c) then h' = h
          else last (hb_events h') = \<lparr>ce_type = EventConvFinished, ce_room = peer_owner p h,
                 ce_conv = pc_conv p, ce_payload = PlRoundCap (cv_max_rounds c)\<rparr>
             \<and> (write_ok_all (env_io (pe_cap e)) \<longrightarrow>
                 (\<exists>c'. load_conv (hb_store h') (peer_owner p h, pc_conv p) = Inr c'
                    \<and> cv_status c' = StatusCancelled \<and> cv_error c' = ''round_cap''
                    \<and> cv_messages c' = cv_messages c)))"
proof (cases "terminal (cv_status c)")
  case True
  with assms show ?thesis
    by (auto simp: handle_peer_send_def peer_send_intercept_def peer_owner_def)
next
  case False
  let ?k = "(peer_owner p h, pc_conv p)"
  let ?op = "OpUpdate (pe_cap e) (MRoundCap (env_now (pe_cap e)))"
  have i: "peer_send_intercept e (pc_room p) (pc_conv p) h =
     (Inl PermissionDenied, publish EventConvFinished (peer_owner p h) (pc_conv p)
        (PlRoundCap (cv_max_rounds c)) (h\<lparr>hb_store := snd (conv_step ?op ?k (hb_store h))\<rparr>))"
    using False assms by (simp add: peer_send_intercept_def peer_owner_def Let_def case_prod_beta)
  from conv_step_at[OF assms(1,3), of ?op ?k] i False assms(5) show ?thesis
    by (auto simp: handle_peer_send_def publish_def)
qed

lemma spent_conversation_refuses_witness:
  "hb_sent (snd (handle_peer_send penv_a (Some call_a)
      (hub_a\<lparr>hb_store := [key_c1 \<mapsto> Parsed (conv_a\<lparr>cv_round_count := 2\<rparr>)]\<rparr>))) = []"
proof -
  let ?c = "conv_a\<lparr>cv_round_count := 2\<rparr>" and ?h = "hub_a\<lparr>hb_store := [key_c1 \<mapsto> Parsed (conv_a\<lparr>cv_round_count := 2\<rparr>)]\<rparr>"
  have "peer_owner call_a ?h = ''r1''"
    by (simp add: peer_owner_def owner_of_def index_owner_def)
  then have "hb_sent (snd (handle_peer_send penv_a (Some call_a) ?h)) = hb_sent ?h"
    using spent_conversation_refuses[OF _ _ _ _ surjective_pairing, of ?h call_a ?c penv_a]
    by (simp add: key_c1_def placed_def load_conv_def current_version_def)
  then show ?thesis by simp
qed

subsection \<open>Sends that overlap\<close>

text \<open>
  The daemon runs each request of an agent in a goroutine of its own, and nothing holds the
  conversation between the check and the append. A flight is a send past its check (\<open>Checked\<close>) or
  past its delivery (\<open>Routed\<close>, with the owner Room when the forward hook delivered).
\<close>

datatype flight = Checked peer_env peer_call | Routed peer_env peer_call "string option"

definition route :: "peer_env \<Rightarrow> peer_call \<Rightarrow> hub \<Rightarrow> flight res \<times> hub" where
  "route e p h =
     (case forward_decide p h of
        FwdReject x \<Rightarrow> (Inl x, h)
      | FwdLocal \<Rightarrow>
          (case send_via e (pc_room p) (pc_from p) (pc_to p) (pc_conv p) (pc_payload p) h of
             (Inl x, h) \<Rightarrow> (Inl x, h)
           | (Inr _, h) \<Rightarrow> (Inr (Routed e p None), h))
      | FwdTo own rid agent \<Rightarrow>
          (case send_via e rid (pc_from p) agent (pc_conv p) (pc_payload p) h of
             (Inl x, h) \<Rightarrow> (Inl x, h)
           | (Inr _, h) \<Rightarrow> (Inr (Routed e p (Some own)), h)))"

definition record_sent :: "peer_env \<Rightarrow> peer_call \<Rightarrow> string option \<Rightarrow> hub \<Rightarrow> hub" where
  "record_sent e p own h =
     (case own of None \<Rightarrow> peer_send_delivered e p h | Some o' \<Rightarrow> append_peer e o' p h)"

text \<open>The handler is these steps one after the other.\<close>

lemma handle_is_steps:
  "handle_peer_send e (Some p) h =
     (case peer_send_intercept e (pc_room p) (pc_conv p) h of
        (Inl x, h) \<Rightarrow> (Inl x, h)
      | (Inr _, h) \<Rightarrow>
          (case route e p h of
             (Inr (Routed e p own), h) \<Rightarrow> (Inr (), record_sent e p own h)
           | (Inr (Checked _ _), h) \<Rightarrow> (Inr (), h)
           | (Inl x, h) \<Rightarrow> (Inl x, h)))"
proof (cases "peer_send_intercept e (pc_room p) (pc_conv p) h")
  case (Pair r h1)
  show ?thesis
  proof (cases "r = Inr () \<and> (\<forall>x. forward_decide p h1 \<noteq> FwdReject x)")
    case False
    with Pair show ?thesis
      by (cases r) (auto simp: handle_peer_send_def peer_send_forward_def route_def)
  next
    case True
    show ?thesis
    proof (cases "forward_decide p h1")
      case FwdLocal
      then show ?thesis
        by (cases "send_via e (pc_room p) (pc_from p) (pc_to p) (pc_conv p) (pc_payload p) h1")
           (simp add: Pair True handle_peer_send_def peer_send_forward_def route_def record_sent_def
              split: sum.splits)
    next
      case (FwdTo own rid agent)
      then show ?thesis
        by (cases "send_via e rid (pc_from p) agent (pc_conv p) (pc_payload p) h1")
           (simp add: Pair True handle_peer_send_def peer_send_forward_def route_def record_sent_def
              split: sum.splits)
    qed (use True in blast)
  qed
qed

fun flight_conv :: "flight \<Rightarrow> string" where
  "flight_conv (Checked _ p) = pc_conv p"
| "flight_conv (Routed _ p _) = pc_conv p"

definition in_flight :: "string \<Rightarrow> flight list \<Rightarrow> nat" where
  "in_flight cid fl = length (filter (\<lambda>f. flight_conv f = cid) fl)"

text \<open>One step of a hub with sends in flight; \<open>k\<close> bounds how many a conversation has at a time.\<close>

inductive sstep :: "nat \<Rightarrow> hub \<times> flight list \<Rightarrow> hub \<times> flight list \<Rightarrow> bool" for k :: nat where
  admit: "in_flight (pc_conv p) fl < k \<Longrightarrow>
     peer_send_intercept e (pc_room p) (pc_conv p) h = (Inr (), h') \<Longrightarrow>
     sstep k (h, fl) (h', fl @ [Checked e p])"
| refuse: "peer_send_intercept e (pc_room (p :: peer_call)) (pc_conv p) h = (Inl x, h') \<Longrightarrow> sstep k (h, fl) (h', fl)"
| deliver: "route e p h = (Inr f, h') \<Longrightarrow> sstep k (h, xs @ Checked e p # ys) (h', xs @ f # ys)"
| lose: "route e p h = (Inl x, h') \<Longrightarrow> sstep k (h, xs @ Checked e p # ys) (h', xs @ ys)"
| recorded: "sstep k (h, xs @ Routed e p own # ys) (record_sent e p own h, xs @ ys)"

lemma in_flight_append [simp]: "in_flight cid (xs @ ys) = in_flight cid xs + in_flight cid ys"
  by (simp add: in_flight_def)

lemma in_flight_Cons [simp]:
  "in_flight cid (x # xs) = (if flight_conv x = cid then 1 else 0) + in_flight cid xs"
  by (simp add: in_flight_def)

lemma in_flight_Nil [simp]: "in_flight cid [] = 0"
  by (simp add: in_flight_def)

lemma route_frame:
  "route e p h = (r, h') \<Longrightarrow> hb_store h' = hb_store h \<and> hb_index h' = hb_index h"
  by (auto simp: route_def send_via_def Let_def split: fwd.splits prod.splits sum.splits)

lemma route_flight:
  "route e p h = (Inr f, h') \<Longrightarrow> f = Routed e p None \<or> f = Routed e p (Some (peer_owner p h))"
  by (auto simp: route_def split: fwd.splits prod.splits sum.splits dest!: forward_owner)

lemma record_sent_frame [simp]: "hb_index (record_sent e p own h) = hb_index h"
  by (simp add: record_sent_def split: option.splits)

text \<open>Recording a send adds at most one round, and only to the conversation it names.\<close>

lemma record_capped:
  assumes "capped_at own cid h c"
  shows "\<exists>c'. capped_at own cid (record_sent e p o' h) c' \<and> cv_max_rounds c' = cv_max_rounds c
           \<and> cv_round_count c' \<le> cv_round_count c + (if pc_conv p = cid then 1 else 0)"
proof -
  have *: "\<exists>c'. capped_at own cid (append_peer e o'' p h) c' \<and> cv_max_rounds c' = cv_max_rounds c
           \<and> cv_round_count c' \<le> cv_round_count c + (if pc_conv p = cid then 1 else 0)" for o''
    by (rule exI, intro conjI, rule capped_step[OF assms _ append_peer_store])
       (auto simp: append_msg_round)
  show ?thesis
  proof (cases "o' = None \<and> pc_conv p = []")
    case True
    with assms show ?thesis
      by (intro exI[of _ c]) (simp add: record_sent_def peer_send_delivered_def)
  next
    case False
    with * show ?thesis
      by (cases o') (simp_all add: record_sent_def peer_send_delivered_def)
  qed
qed

definition race_inv :: "nat \<Rightarrow> string \<Rightarrow> string \<Rightarrow> int \<Rightarrow> hub \<times> flight list \<Rightarrow> bool" where
  "race_inv k own cid m cfg \<longleftrightarrow> (\<exists>c. capped_at own cid (fst cfg) c \<and> cv_max_rounds c = m
     \<and> cv_round_count c + int (in_flight cid (snd cfg)) \<le> m + int k - 1)"

lemma race_inv_step:
  assumes "sstep k x y" "race_inv k own cid m x"
  shows "race_inv k own cid m y"
  using assms(1)
proof cases
  case (admit p fl e h h')
  from assms(2) admit obtain c where c: "capped_at own cid h c" "cv_max_rounds c = m"
    "cv_round_count c + int (in_flight cid fl) \<le> m + int k - 1" by (auto simp: race_inv_def)
  from intercept_ok[OF admit(4)] have h': "h' = h" .
  have "cv_round_count c < m" if "pc_conv p = cid"
    using intercept_ok_room[OF admit(4)] capped_owner[OF c(1)] c that by (auto simp: capped_at_def)
  with c admit h' show ?thesis by (auto simp: race_inv_def intro!: exI[of _ c])
next
  case (refuse e p h x h' fl)
  from assms(2) refuse obtain c where c: "capped_at own cid h c" "cv_max_rounds c = m"
    "cv_round_count c + int (in_flight cid fl) \<le> m + int k - 1" by (auto simp: race_inv_def)
  from intercept_frame[OF refuse(3)] have i: "hb_index h' = hb_index h" by simp
  from intercept_store[OF refuse(3)] show ?thesis
  proof
    assume "hb_store h' = hb_store h"
    with c i refuse show ?thesis by (auto simp: race_inv_def capped_at_def)
  next
    assume st: "hb_store h' = snd (conv_step (OpUpdate (pe_cap e) (MRoundCap (env_now (pe_cap e))))
      (owner_of h (pc_room p) (pc_conv p), pc_conv p) (hb_store h))"
    show ?thesis
      unfolding race_inv_def refuse(2) fst_conv snd_conv
      by (rule exI, intro conjI, rule capped_step[OF c(1) i st]) (use c in auto)
  qed
next
  case (deliver e p h f h' xs ys)
  with assms(2) route_frame[OF deliver(3)] route_flight[OF deliver(3)] show ?thesis
    by (auto simp: race_inv_def capped_at_def)
next
  case (lose e p h x h' xs ys)
  with assms(2) route_frame[OF lose(3)] show ?thesis
    by (auto simp: race_inv_def capped_at_def)
next
  case (recorded h xs e p o' ys)
  from assms(2) recorded obtain c where c: "capped_at own cid h c" "cv_max_rounds c = m"
    "cv_round_count c + int (in_flight cid (xs @ Routed e p o' # ys)) \<le> m + int k - 1"
    by (auto simp: race_inv_def)
  from record_capped[OF c(1), of e p o'] c recorded show ?thesis
    by (auto simp: race_inv_def split: if_splits)
qed

definition reaches :: "nat \<Rightarrow> hub \<times> flight list \<Rightarrow> hub \<times> flight list \<Rightarrow> bool" where
  "reaches k = (sstep k)\<^sup>*\<^sup>*"

lemma race_inv_reaches: "reaches k x y \<Longrightarrow> race_inv k own cid m x \<Longrightarrow> race_inv k own cid m y"
  unfolding reaches_def by (induction rule: rtranclp_induct) (auto intro: race_inv_step)

text \<open>When sends overlap, with at most k of one conversation in flight at a time, its round
  count passes its maximum by at most k - 1, whatever the order of their checks, deliveries and
  transcript writes, and whichever of them fail.\<close>

theorem round_cap_concurrent:
  assumes "placed (hb_store h)" "own \<noteq> []" "cid \<noteq> []" "hb_index h cid = Some own"
    and "load_conv (hb_store h) (own, cid) = Inr c" "cv_round_count c \<le> cv_max_rounds c" "1 \<le> k"
    and "reaches k (h, []) (h', fl)"
  shows "\<exists>c'. load_conv (hb_store h') (own, cid) = Inr c' \<and> cv_max_rounds c' = cv_max_rounds c
           \<and> cv_round_count c' + int (in_flight cid fl) \<le> cv_max_rounds c + int k - 1"
proof -
  have "race_inv k own cid (cv_max_rounds c) (h, [])"
    using assms by (auto simp: race_inv_def capped_at_def intro!: exI[of _ c])
  from race_inv_reaches[OF assms(8) this] show ?thesis by (auto simp: race_inv_def capped_at_def)
qed

lemma round_cap_concurrent_witness:
  "\<exists>c'. load_conv (hb_store hub_a) (''r1'', ''c1'') = Inr c' \<and> cv_max_rounds c' = 2
     \<and> cv_round_count c' + int (in_flight ''c1'' [Checked penv_a call_a]) \<le> 2 + 3 - 1"
proof -
  have "reaches 3 (hub_a, []) (hub_a, [] @ [Checked penv_a call_a])"
    unfolding reaches_def using intercept_a by (intro r_into_rtranclp sstep.admit) simp_all
  then show ?thesis
    using round_cap_concurrent[of hub_a "''r1''" "''c1''" conv_a 3 hub_a "[Checked penv_a call_a]"]
    by (simp add: placed_a load_a del: load_conv_upd)
qed

text \<open>The same start with one round left, and two senders that both check before either appends.\<close>

definition conv_one :: conversation where "conv_one = conv_a\<lparr>cv_max_rounds := 1\<rparr>"

definition hub_one :: hub where
  "hub_one = hub_a\<lparr>hb_store := [key_c1 \<mapsto> Parsed conv_one]\<rparr>"

lemma conv_one_simps [simp]:
  "cv_status conv_one = StatusActive" "cv_max_rounds conv_one = 1" "cv_round_count conv_one = 0"
  "cv_members conv_one = []" "cv_id conv_one = ''c1''" "cv_room conv_one = ''r1''"
  "cv_version conv_one = 1"
  by (simp_all add: conv_one_def)

lemma hub_one_simps [simp]:
  "hb_store hub_one = [key_c1 \<mapsto> Parsed conv_one]" "hb_index hub_one = [''c1'' \<mapsto> ''r1'']"
  "hb_active hub_one = [''r1'', ''r9'']" "hb_sent hub_one = []"
  "hb_routers hub_one ''r1'' = [''a'' \<mapsto> 1, ''b'' \<mapsto> 2]"
  by (simp_all add: hub_one_def)

definition note_a :: "nat \<times> peer_recv" where
  "note_a = (2, \<lparr>pr_from = ''a'', pr_payload = ''x'', pr_conv = ''c1''\<rparr>)"

lemma intercept_one: "peer_send_intercept penv_a ''r1'' ''c1'' hub_one = (Inr (), hub_one)"
  by (simp add: peer_send_intercept_def owner_of_def index_owner_def key_c1_def current_version_def Let_def)

lemma route_one:
  assumes "hb_store h = [key_c1 \<mapsto> Parsed conv_one]" "hb_index h = [''c1'' \<mapsto> ''r1'']"
    and "hb_routers h ''r1'' = [''a'' \<mapsto> 1, ''b'' \<mapsto> 2]"
  shows "route penv_a call_a h = (Inr (Routed penv_a call_a None), h\<lparr>hb_sent := hb_sent h @ [note_a]\<rparr>)"
proof -
  have "forward_decide call_a h = FwdLocal"
    using assms
    by (simp add: forward_decide_def index_owner_def key_c1_def current_version_def is_cross_room_def Let_def)
  with assms show ?thesis
    by (simp add: route_def send_via_def router_send_def router_handle_def auth_peer_send_def note_a_def)
qed

text \<open>The cap is not atomic with the append: two agents that send at the same time on a
  conversation with one round left are both let through, and it ends with two rounds of one.\<close>

theorem round_cap_race:
  "\<exists>h. reaches 2 (hub_one, []) (h, []) \<and> sent_for ''c1'' h = 2 \<and>
     (\<exists>c. load_conv (hb_store h) (''r1'', ''c1'') = Inr c \<and> cv_max_rounds c = 1 \<and> cv_round_count c = 2)"
proof -
  let ?C = "Checked penv_a call_a" and ?R = "Routed penv_a call_a None"
  let ?h1 = "hub_one\<lparr>hb_sent := [note_a]\<rparr>" and ?h2 = "hub_one\<lparr>hb_sent := [note_a, note_a]\<rparr>"
  let ?h3 = "record_sent penv_a call_a None ?h2"
  let ?h4 = "record_sent penv_a call_a None ?h3"
  have r1: "route penv_a call_a hub_one = (Inr ?R, ?h1)" by (subst route_one) simp_all
  have r2: "route penv_a call_a ?h1 = (Inr ?R, ?h2)" by (subst route_one) simp_all
  have "sstep 2 (hub_one, []) (hub_one, [] @ [?C])"
    using intercept_one by (intro sstep.admit) simp_all
  moreover have "sstep 2 (hub_one, [?C]) (hub_one, [?C] @ [?C])"
    using intercept_one by (intro sstep.admit) simp_all
  moreover have "sstep 2 (hub_one, [] @ ?C # [?C]) (?h1, [] @ ?R # [?C])"
    by (rule sstep.deliver[OF r1])
  moreover have "sstep 2 (?h1, [?R] @ ?C # []) (?h2, [?R] @ ?R # [])"
    by (rule sstep.deliver[OF r2])
  moreover have "sstep 2 (?h2, [] @ ?R # [?R]) (?h3, [] @ [?R])"
    by (rule sstep.recorded)
  moreover have "sstep 2 (?h3, [] @ ?R # []) (?h4, [] @ [])"
    by (rule sstep.recorded)
  ultimately have "reaches 2 (hub_one, []) (?h4, [])"
    unfolding reaches_def by simp
  moreover have "sent_for ''c1'' ?h4 = 2"
    by (simp add: sent_for_def record_sent_def note_a_def)
  moreover have "\<exists>c. load_conv (hb_store ?h4) (''r1'', ''c1'') = Inr c \<and> cv_max_rounds c = 1 \<and> cv_round_count c = 2"
  proof -
    have c0: "capped_at ''r1'' ''c1'' ?h2 conv_one"
      by (simp add: capped_at_def placed_def key_c1_def current_version_def)
    have step: "capped_at ''r1'' ''c1'' (record_sent penv_a call_a None h)
        (append_msg 5 ''c1'' (peer_message call_a) c)" if "capped_at ''r1'' ''c1'' h c" for h c
      using capped_step[OF that _ append_peer_store, of penv_a "''r1''" call_a] capped_owner[OF that]
      by (simp add: record_sent_def peer_send_delivered_def write_ok_a) (simp add: env_a_def)
    from step[OF step[OF c0]] show ?thesis
      by (auto simp: capped_at_def append_msg_round peer_message_def)
  qed
  ultimately show ?thesis by blast
qed

text \<open>Only the target of a message is looked up in the members of a conversation: an agent of
  any Room that knows the conversation id can write to a member of another Room, uses up one of
  the conversation's rounds and enters its transcript under its own name.\<close>

theorem outsider_admitted:
  assumes "placed (hb_store h)" "own \<noteq> []" "pc_conv p \<noteq> []" "hb_index h (pc_conv p) = Some own"
    and "load_conv (hb_store h) (own, pc_conv p) = Inr c"
    and "\<not> terminal (cv_status c)" "cv_round_count c < cv_max_rounds c" "is_cross_room c"
    and "\<lparr>mb_room = pc_room p, mb_agent = pc_from p\<rparr> \<notin> set (cv_members c)"
    and "find_member (pc_to p) c = Some m" "mb_room m \<noteq> pc_room p" "mb_room m \<in> set (hb_active h)"
    and "hb_routers h (mb_room m) (mb_agent m) = Some conn" "pe_notify e conn"
    and "pe_fate e = Answered" "write_ok_all (env_io (pe_append e))"
    and "handle_peer_send e (Some p) h = (r, h')"
  shows "r = Inr () \<and> (\<exists>c'. load_conv (hb_store h') (own, pc_conv p) = Inr c'
      \<and> cv_round_count c' = cv_round_count c + 1 \<and> msg_from (last (cv_messages c')) = pc_from p)"
proof -
  have cap: "capped_at own (pc_conv p) h c" using assms by (simp add: capped_at_def)
  have i: "peer_send_intercept e (pc_room p) (pc_conv p) h = (Inr (), h)"
    using assms by (simp add: peer_send_intercept_def capped_owner[OF cap])
  have f: "forward_decide p h = FwdTo own (mb_room m) (mb_agent m)"
    using assms by (simp add: forward_decide_def index_owner_def Let_def)
  let ?h = "h\<lparr>hb_sent := hb_sent h @
    [(conn, \<lparr>pr_from = pc_from p, pr_payload = pc_payload p, pr_conv = pc_conv p\<rparr>)]\<rparr>"
  have v: "send_via e (mb_room m) (pc_from p) (mb_agent m) (pc_conv p) (pc_payload p) h = (Inr (), ?h)"
    using assms by (simp add: send_via_def router_send_def router_handle_def auth_peer_send_def)
  have rh: "r = Inr ()" "h' = append_peer e own p ?h"
    using assms(17) by (simp_all add: handle_peer_send_def i peer_send_forward_def f v)
  have "capped_at own (pc_conv p) ?h c" using cap by (simp add: capped_at_def)
  from capped_step[OF this _ append_peer_store, of e own p] assms(16) rh
  have "capped_at own (pc_conv p) h' (append_msg (env_now (pe_append e)) (pc_conv p) (peer_message p) c)"
    by simp
  then show ?thesis
    by (auto simp: rh(1) capped_at_def append_msg_round append_msg_messages peer_message_def)
qed

definition conv_x :: conversation where
  "conv_x = conv_a\<lparr>cv_members := [\<lparr>mb_room = ''r1'', mb_agent = ''a''\<rparr>, \<lparr>mb_room = ''r9'', mb_agent = ''z''\<rparr>]\<rparr>"

lemma outsider_admitted_witness:
  "fst (handle_peer_send penv_a
      (Some \<lparr>pc_room = ''r5'', pc_from = ''eve'', pc_to = ''z'', pc_conv = ''c1'', pc_payload = []\<rparr>)
      (hub_a\<lparr>hb_store := [key_c1 \<mapsto> Parsed conv_x]\<rparr>)) = Inr ()"
proof -
  let ?h = "hub_a\<lparr>hb_store := [key_c1 \<mapsto> Parsed conv_x]\<rparr>"
  let ?p = "\<lparr>pc_room = ''r5'', pc_from = ''eve'', pc_to = ''z'', pc_conv = ''c1'', pc_payload = []\<rparr>"
  have [simp]: "hb_routers ?h ''r9'' = [''z'' \<mapsto> 9]" by simp
  show ?thesis
    using outsider_admitted[of ?h "''r1''" ?p conv_x "\<lparr>mb_room = ''r9'', mb_agent = ''z''\<rparr>" 9 penv_a
        "fst (handle_peer_send penv_a (Some ?p) ?h)" "snd (handle_peer_send penv_a (Some ?p) ?h)"]
    by (simp add: conv_x_def placed_def key_c1_def current_version_def is_cross_room_def find_member_def
        write_ok_a)
qed

end
