(* ===== verification/Conv_Handlers.thy ===== *)
theory Conv_Handlers
  imports Peer
begin

section \<open>Conversation handlers (internal/daemon/conversation.go, conv_outputs.go)\<close>

text \<open>
  The daemon's handlers for a conversation: create, start, the run a start schedules, list, get,
  cancel, delete, and the scan of the volumes for the files a run wrote. The state adds to the hub
  the members of each Room with the volumes they mount, the volumes' trees, the runs that were
  scheduled (Room and the snapshot of the conversation the goroutine gets) and the shutdown flag.
  A handler takes its decoded parameters, \<open>None\<close> when they do not decode, and the environment of
  its writes. A run is given what the agent answered, \<open>Inl\<close> an error text or \<open>Inr\<close> the output.
\<close>

datatype fnode = FFile int int | FDir "(string \<times> fnode) list"

record cdaemon =
  cd_hub :: hub
  cd_members :: "string \<Rightarrow> (string \<times> string list) list"
  cd_volumes :: "string \<rightharpoonup> (string \<times> fnode) list"
  cd_runs :: "(string \<times> conversation) list"
  cd_shutting :: bool

definition set_store :: "conv_store \<Rightarrow> cdaemon \<Rightarrow> cdaemon" where
  "set_store st d = d\<lparr>cd_hub := (cd_hub d)\<lparr>hb_store := st\<rparr>\<rparr>"

definition store_of :: "cdaemon \<Rightarrow> conv_store" where
  "store_of d = hb_store (cd_hub d)"

definition emit :: "event_type \<Rightarrow> string \<Rightarrow> string \<Rightarrow> event_payload \<Rightarrow> cdaemon \<Rightarrow> cdaemon" where
  "emit t rid cid p d = d\<lparr>cd_hub := publish t rid cid p (cd_hub d)\<rparr>"

definition room_active :: "cdaemon \<Rightarrow> string \<Rightarrow> bool" where
  "room_active d rid = (rid \<in> set (hb_active (cd_hub d)))"

definition hired_in :: "cdaemon \<Rightarrow> string \<Rightarrow> string \<Rightarrow> bool" where
  "hired_in d rid nm = (nm \<in> fst ` set (cd_members d rid))"

subsection \<open>Create\<close>

record create_params =
  cp_room :: string
  cp_target :: string
  cp_tag :: string
  cp_input :: string
  cp_max_rounds :: int
  cp_members :: "member list"

fun check_members :: "cdaemon \<Rightarrow> string list \<Rightarrow> member list \<Rightarrow> member list res" where
  "check_members d seen [] = Inr []"
| "check_members d seen (m # ms) =
     (let key = mb_room m @ ''/'' @ mb_agent m in
      if mb_room m = [] \<or> mb_agent m = [] then Inl InvalidParams
      else if key \<in> set seen then Inl InvalidParams
      else if \<not> room_active d (mb_room m) then Inl InvalidParams
      else if \<not> hired_in d (mb_room m) (mb_agent m) then Inl InvalidParams
      else case check_members d (key # seen) ms of Inl e \<Rightarrow> Inl e | Inr rest \<Rightarrow> Inr (m # rest))"

definition conv_members :: "cdaemon \<Rightarrow> create_params \<Rightarrow> member list res" where
  "conv_members d p =
     (if cp_members p = [] then Inr []
      else case check_members d [] (cp_members p) of
          Inl e \<Rightarrow> Inl e
        | Inr ms \<Rightarrow>
            if list_ex (\<lambda>m. mb_room m = cp_room p \<and> mb_agent m = cp_target p) ms then Inr ms
            else Inl InvalidParams)"

definition new_conversation :: "string \<Rightarrow> create_params \<Rightarrow> member list \<Rightarrow> conversation" where
  "new_conversation nid p ms =
     \<lparr>cv_version = 0, cv_id = nid, cv_room = cp_room p, cv_tag = cp_tag p, cv_status = StatusPlanned,
      cv_participants = [], cv_members = ms, cv_initial_target = cp_target p,
      cv_initial_input = cp_input p, cv_max_rounds = cp_max_rounds p, cv_round_count = 0,
      cv_messages = [], cv_created_at = 0, cv_started_at = 0, cv_finished_at = 0,
      cv_final_answer = [], cv_error = [], cv_outputs = []\<rparr>"

definition handle_conversation_create ::
  "env \<Rightarrow> string \<Rightarrow> create_params option \<Rightarrow> cdaemon \<Rightarrow> (string \<times> status) res \<times> cdaemon" where
  "handle_conversation_create e nid params d =
     (case params of
        None \<Rightarrow> (Inl InvalidParams, d)
      | Some p \<Rightarrow>
          if cp_room p = [] \<or> cp_target p = [] then (Inl InvalidParams, d)
          else if \<not> room_active d (cp_room p) then (Inl InvalidParams, d)
          else if \<not> hired_in d (cp_room p) (cp_target p) then (Inl InvalidParams, d)
          else case conv_members d p of
              Inl x \<Rightarrow> (Inl x, d)
            | Inr ms \<Rightarrow>
                (case create_conv e (new_conversation nid p ms) (store_of d) of
                   (Inl _, st) \<Rightarrow> (Inl Internal, set_store st d)
                 | (Inr c, st) \<Rightarrow>
                     (let d = set_store st d;
                          d = d\<lparr>cd_hub := (cd_hub d)\<lparr>hb_index :=
                                index_set (cv_id c) (cv_room c) (hb_index (cd_hub d))\<rparr>\<rparr>
                      in (Inr (cv_id c, cv_status c),
                          emit EventConvCreated (cp_room p) (cv_id c) (PlSummary (summarize c)) d))))"

subsection \<open>Start\<close>

definition task_input :: "conversation \<Rightarrow> message" where
  "task_input c =
     \<lparr>msg_id = [], msg_conv = [], msg_from = [], msg_to = cv_initial_target c, msg_kind = KindTaskInput,
      msg_payload = cv_initial_input c, msg_ts = 0, msg_round = 0\<rparr>"

text \<open>The check of a start, and what it does once the check has passed on the snapshot \<open>c\<close>.\<close>

definition start_check :: "string \<Rightarrow> string \<Rightarrow> cdaemon \<Rightarrow> conversation res" where
  "start_check rid cid d =
     (if \<not> room_active d rid then Inl InvalidParams
      else case load_conv (store_of d) (rid, cid) of
          Inl _ \<Rightarrow> Inl InvalidParams
        | Inr c \<Rightarrow>
            if cv_status c \<noteq> StatusPlanned then Inl InvalidParams
            else if \<not> hired_in d rid (cv_initial_target c) then Inl InvalidParams
            else Inr c)"

definition start_commit ::
  "env \<Rightarrow> env \<Rightarrow> string \<Rightarrow> string \<Rightarrow> conversation \<Rightarrow> cdaemon \<Rightarrow> (string \<times> status) res \<times> cdaemon" where
  "start_commit e e' rid cid c d =
     (case update_conv e (rid, cid) (apply_mut (MStart (env_now e))) (store_of d) of
        (Inl _, st) \<Rightarrow> (Inl Internal, set_store st d)
      | (Inr updated, st) \<Rightarrow>
          (let (_, st) = append_conv e' (rid, cid) (task_input c) st;
               d = emit EventConvStarted rid cid (PlSummary (summarize updated)) (set_store st d)
           in (Inr (cid, StatusActive), d\<lparr>cd_runs := cd_runs d @ [(rid, c)]\<rparr>)))"

definition handle_conversation_start ::
  "env \<Rightarrow> env \<Rightarrow> (string \<times> string) option \<Rightarrow> cdaemon \<Rightarrow> (string \<times> status) res \<times> cdaemon" where
  "handle_conversation_start e e' params d =
     (case params of
        None \<Rightarrow> (Inl InvalidParams, d)
      | Some (rid, cid) \<Rightarrow>
          (case start_check rid cid d of
             Inl x \<Rightarrow> (Inl x, d)
           | Inr c \<Rightarrow> start_commit e e' rid cid c d))"

subsection \<open>The files a run wrote\<close>

definition output_scan_cap :: nat where "output_scan_cap = 200"
definition output_scan_subdirs :: "string list" where "output_scan_subdirs = [''memory'', ''uploads'']"

fun walk_outputs ::
  "string \<Rightarrow> string \<Rightarrow> int \<Rightarrow> int \<Rightarrow> (string \<times> fnode) list \<Rightarrow> output_ref list \<Rightarrow> output_ref list" where
  "walk_outputs vol dir since until [] acc = acc"
| "walk_outputs vol dir since until ((nm, FDir sub) # es) acc =
     (if length acc \<ge> output_scan_cap then acc
      else if has_prefix nm ''.'' then walk_outputs vol dir since until es acc
      else walk_outputs vol dir since until es
             (walk_outputs vol (dir @ ''/'' @ nm) since until sub acc))"
| "walk_outputs vol dir since until ((nm, FFile sz mt) # es) acc =
     (if length acc \<ge> output_scan_cap then acc
      else if has_prefix nm ''.'' then walk_outputs vol dir since until es acc
      else if mt < since \<or> mt > until then walk_outputs vol dir since until es acc
      else walk_outputs vol dir since until es
             (acc @ [\<lparr>or_volume = vol, or_path = dir @ ''/'' @ nm, or_size = sz, or_mod_time = mt\<rparr>]))"

text \<open>The distinct volumes of a Room's members, in the order of the member list.\<close>

definition mounted_volumes :: "(string \<times> string list) list \<Rightarrow> string list" where
  "mounted_volumes ms =
     foldl (\<lambda>acc v. if v \<in> set acc then acc else acc @ [v]) [] (concat (map snd ms))"

definition subdir_of :: "string \<Rightarrow> (string \<times> fnode) list \<Rightarrow> (string \<times> fnode) list option" where
  "subdir_of nm tree =
     (case map_of tree nm of Some (FDir sub) \<Rightarrow> Some sub | Some (FFile _ _) \<Rightarrow> Some [] | None \<Rightarrow> None)"

fun scan_subdirs ::
  "string \<Rightarrow> (string \<times> fnode) list \<Rightarrow> int \<Rightarrow> int \<Rightarrow> string list \<Rightarrow> output_ref list \<Rightarrow> output_ref list" where
  "scan_subdirs vol tree since until [] acc = acc"
| "scan_subdirs vol tree since until (s # ss) acc =
     (case subdir_of s tree of
        None \<Rightarrow> scan_subdirs vol tree since until ss acc
      | Some sub \<Rightarrow>
          if length acc \<ge> output_scan_cap then acc
          else scan_subdirs vol tree since until ss (walk_outputs vol s since until sub acc))"

fun scan_volumes ::
  "(string \<rightharpoonup> (string \<times> fnode) list) \<Rightarrow> int \<Rightarrow> int \<Rightarrow> string list \<Rightarrow> output_ref list \<Rightarrow> output_ref list" where
  "scan_volumes vols since until [] acc = acc"
| "scan_volumes vols since until (v # vs) acc =
     (case vols v of
        None \<Rightarrow> scan_volumes vols since until vs acc
      | Some tree \<Rightarrow>
          (let acc = scan_subdirs v tree since until output_scan_subdirs acc
           in if length acc \<ge> output_scan_cap then acc else scan_volumes vols since until vs acc))"

definition collect_conversation_outputs :: "cdaemon \<Rightarrow> string \<Rightarrow> conversation \<Rightarrow> int \<Rightarrow> output_ref list" where
  "collect_conversation_outputs d rid c until =
     (if cv_started_at c = 0 then []
      else let names = mounted_volumes (cd_members d rid) in
        if names = [] then []
        else take output_scan_cap (sort_key (\<lambda>r. - or_mod_time r)
               (scan_volumes (cd_volumes d) (cv_started_at c - 1000000000) until names [])))"

subsection \<open>The run\<close>

definition run_check :: "string \<Rightarrow> conversation \<Rightarrow> cdaemon \<Rightarrow> bool \<times> cdaemon" where
  "run_check rid c d =
     (if cd_shutting d then (False, d)
      else case load_conv (store_of d) (rid, cv_id c) of
          Inl _ \<Rightarrow> (False, d)
        | Inr cur \<Rightarrow>
            if terminal (cv_status cur)
            then (False, emit EventConvFinished rid (cv_id c) (PlSummary (summarize cur)) d)
            else (True, d))"

definition run_commit :: "env \<Rightarrow> string \<Rightarrow> conversation \<Rightarrow> string + string \<Rightarrow> cdaemon \<Rightarrow> cdaemon" where
  "run_commit e rid c res d =
     (let now = env_now e;
          outputs = collect_conversation_outputs d rid c now;
          mut = (case res of
                   Inl err \<Rightarrow> MFail err now outputs
                 | Inr out \<Rightarrow> MDone (cv_id c) (cv_initial_target c) out now outputs);
          (_, st) = update_conv e (rid, cv_id c) (apply_mut mut) (store_of d);
          d = set_store st d
      in case load_conv st (rid, cv_id c) of
           Inl _ \<Rightarrow> d
         | Inr finished \<Rightarrow> emit EventConvFinished rid (cv_id c) (PlSummary (summarize finished)) d)"

definition run_conversation :: "env \<Rightarrow> string \<Rightarrow> conversation \<Rightarrow> string + string \<Rightarrow> cdaemon \<Rightarrow> cdaemon" where
  "run_conversation e rid c res d =
     (case run_check rid c d of (False, d) \<Rightarrow> d | (True, d) \<Rightarrow> run_commit e rid c res d)"

subsection \<open>List, get, cancel, delete\<close>

definition handle_conversation_list ::
  "conv_key list \<Rightarrow> string option \<Rightarrow> cdaemon \<Rightarrow> summary list res" where
  "handle_conversation_list ls params d =
     (case params of
        None \<Rightarrow> Inl InvalidParams
      | Some rid \<Rightarrow> Inr (map summarize (list_by_room ls rid (store_of d))))"

definition handle_conversation_get :: "(string \<times> string) option \<Rightarrow> cdaemon \<Rightarrow> conversation res" where
  "handle_conversation_get params d =
     (case params of
        None \<Rightarrow> Inl InvalidParams
      | Some k \<Rightarrow> (case load_conv (store_of d) k of Inl _ \<Rightarrow> Inl InvalidParams | Inr c \<Rightarrow> Inr c))"

definition handle_conversation_cancel ::
  "env \<Rightarrow> (string \<times> string \<times> string) option \<Rightarrow> cdaemon \<Rightarrow> (string \<times> status) res \<times> cdaemon" where
  "handle_conversation_cancel e params d =
     (case params of
        None \<Rightarrow> (Inl InvalidParams, d)
      | Some (rid, cid, reason) \<Rightarrow>
          (case load_conv (store_of d) (rid, cid) of
             Inl _ \<Rightarrow> (Inl InvalidParams, d)
           | Inr c \<Rightarrow>
               if terminal (cv_status c) then (Inr (cid, cv_status c), d)
               else (let reason = (if reason = [] then ''user_cancel'' else reason) in
                 case update_conv e (rid, cid) (apply_mut (MCancel reason (env_now e))) (store_of d) of
                   (Inl _, st) \<Rightarrow> (Inl Internal, set_store st d)
                 | (Inr updated, st) \<Rightarrow>
                     (Inr (cid, cv_status updated),
                      emit EventConvFinished rid cid (PlSummary (summarize updated)) (set_store st d)))))"

definition forget_conv :: "string \<Rightarrow> cdaemon \<Rightarrow> cdaemon" where
  "forget_conv cid d = d\<lparr>cd_hub := (cd_hub d)\<lparr>hb_index := index_forget cid (hb_index (cd_hub d))\<rparr>\<rparr>"

definition handle_conversation_delete ::
  "env \<Rightarrow> bool \<Rightarrow> (string \<times> string) option \<Rightarrow> cdaemon \<Rightarrow> (string \<times> bool) res \<times> cdaemon" where
  "handle_conversation_delete e rm_ok params d =
     (case params of
        None \<Rightarrow> (Inl InvalidParams, d)
      | Some (rid, cid) \<Rightarrow>
          if rid = [] \<or> cid = [] then (Inl InvalidParams, d)
          else let owner = index_owner (hb_index (cd_hub d)) cid;
                   rid = (if owner \<noteq> [] \<and> owner \<noteq> rid then owner else rid)
            in case load_conv (store_of d) (rid, cid) of
                 Inl _ \<Rightarrow> (Inr (cid, False), forget_conv cid d)
               | Inr c \<Rightarrow>
                   (let d = (if terminal (cv_status c) then d
                             else snd (handle_conversation_cancel e (Some (rid, cid, ''deleted'')) d))
                    in case delete_conv rm_ok (rid, cid) (store_of d) of
                         (Inl _, st) \<Rightarrow> (Inl Internal, set_store st d)
                       | (Inr _, st) \<Rightarrow>
                           (Inr (cid, True),
                            emit EventConvDeleted rid cid (PlDeleted cid rid) (forget_conv cid (set_store st d)))))"

subsection \<open>Lifecycle\<close>

text \<open>The transitions of the status comment: planned to active, active to the four ends, and
  planned to cancelled, which a cancel or a send at the cap makes before the start. A status the
  code does not know can only end.\<close>

fun may_become :: "status \<Rightarrow> status \<Rightarrow> bool" where
  "may_become StatusPlanned t = (t \<in> {StatusPlanned, StatusActive, StatusCancelled})"
| "may_become StatusActive t = (t \<in> {StatusActive, StatusDone, StatusFailed, StatusCancelled, StatusInterrupted})"
| "may_become (StatusOther x) t = (t = StatusOther x \<or> terminal t)"
| "may_become s t = (t = s)"

lemma may_become_refl [simp]: "may_become s s"
  by (cases s) simp_all

lemma store_simps [simp]:
  "store_of (set_store st d) = st" "store_of (emit t r c p d) = store_of d"
  "store_of (forget_conv cid d) = store_of d"
  by (simp_all add: store_of_def set_store_def emit_def forget_conv_def)

lemma store_frame [simp]:
  "store_of (d\<lparr>cd_runs := rs\<rparr>) = store_of d"
  "store_of (d\<lparr>cd_hub := (cd_hub d)\<lparr>hb_index := i\<rparr>\<rparr>) = store_of d"
  by (simp_all add: store_of_def)

text \<open>What an operation may do to the conversation under one key: leave its file, or move its status
  along the diagram, keeping its id, Room and round budget, and only extending its transcript.\<close>

definition advances :: "conversation \<Rightarrow> conversation \<Rightarrow> bool" where
  "advances c c' \<longleftrightarrow> may_become (cv_status c) (cv_status c') \<and> cv_max_rounds c' = cv_max_rounds c
     \<and> cv_id c' = cv_id c \<and> cv_room c' = cv_room c \<and> prefix (cv_messages c) (cv_messages c')"

lemma advances_refl [simp]: "advances c c"
  by (simp add: advances_def)

lemma advances_append: "advances c d \<Longrightarrow> advances c (append_msg now i m d)"
  by (auto simp: advances_def append_msg_messages)

lemma advances_mut:
  "may_become (cv_status c) (cv_status (apply_mut m c)) \<Longrightarrow> advances c (restore_ids c (apply_mut m c))"
  by (simp add: advances_def apply_mut_prefix)

lemma update_at:
  assumes "placed st" "load_conv st k = Inr c"
  shows "load_conv (snd (update_conv e j (apply_mut m) st)) k =
     Inr (if j = k \<and> write_ok_all (env_io e) then restore_ids c (apply_mut m c) else c)"
  using conv_step_at[OF assms, of "OpUpdate e m" j] by simp

lemma append_at:
  assumes "placed st" "load_conv st k = Inr c"
  shows "load_conv (snd (append_conv e j m st)) k =
     Inr (if j = k \<and> write_ok_all (env_io e) then append_msg (env_now e) (snd k) m c else c)"
  using conv_step_at[OF assms, of "OpAppend e m" j] by simp

lemma cancel_advances:
  assumes "placed (store_of d)" "load_conv (store_of d) k = Inr c"
  shows "\<exists>c'. load_conv (store_of (snd (handle_conversation_cancel e ps d))) k = Inr c' \<and> advances c c'"
proof (cases "\<exists>rid cid reason c0. ps = Some (rid, cid, reason) \<and> load_conv (store_of d) (rid, cid) = Inr c0
    \<and> \<not> terminal (cv_status c0)")
  case False
  then have "snd (handle_conversation_cancel e ps d) = d"
    by (auto simp: handle_conversation_cancel_def split: option.splits sum.splits)
  with assms show ?thesis by simp
next
  case True
  then obtain rid cid reason c0 where p: "ps = Some (rid, cid, reason)"
    "load_conv (store_of d) (rid, cid) = Inr c0" "\<not> terminal (cv_status c0)" by blast
  define m where "m = MCancel (if reason = [] then ''user_cancel'' else reason) (env_now e)"
  have "store_of (snd (handle_conversation_cancel e ps d)) =
      snd (update_conv e (rid, cid) (apply_mut m) (store_of d))"
    using p by (auto simp: handle_conversation_cancel_def m_def Let_def split: prod.splits sum.splits)
  moreover have "advances c (restore_ids c (apply_mut m c))" if "(rid, cid) = k"
    using that p assms(2) by (intro advances_mut; cases "cv_status c") (auto simp: m_def)
  ultimately show ?thesis using update_at[OF assms, of e "(rid, cid)" m] by auto
qed

lemma cancelled_advances:
  "\<not> terminal (cv_status c) \<Longrightarrow> advances c (restore_ids c (apply_mut (MCancel r now) c))"
  "\<not> terminal (cv_status c) \<Longrightarrow> advances c (restore_ids c (apply_mut (MRoundCap now) c))"
  by (rule advances_mut; cases "cv_status c"; simp)+

lemma send_advances:
  assumes "placed (hb_store h)" "load_conv (hb_store h) k = Inr c" "handle_peer_send e ps h = (r, h')"
  shows "placed (hb_store h') \<and> (\<exists>c'. load_conv (hb_store h') k = Inr c' \<and> advances c c')"
proof (cases ps)
  case None
  with assms show ?thesis by (auto simp: handle_peer_send_def)
next
  case (Some p)
  from assms(3)[unfolded Some] show ?thesis
  proof (cases rule: handle_peer_send_cases)
    case (capped x)
    let ?k = "(owner_of h (pc_room p) (pc_conv p), pc_conv p)"
    let ?m = "MRoundCap (env_now (pe_cap e))"
    from capped(1) consider "hb_store h' = hb_store h"
      | c0 where "load_conv (hb_store h) ?k = Inr c0" "\<not> terminal (cv_status c0)"
        "hb_store h' = snd (update_conv (pe_cap e) ?k (apply_mut ?m) (hb_store h))"
      by (auto simp: peer_send_intercept_def Let_def split: if_splits sum.splits prod.splits)
    then show ?thesis
    proof cases
      case 1
      with assms show ?thesis by auto
    next
      case 2
      with assms update_at[OF assms(1,2), of "pe_cap e" ?k ?m] placed_update[OF assms(1)]
      show ?thesis by (auto simp: cancelled_advances simp del: apply_mut.simps)
    qed
  next
    case (unsent x)
    with assms show ?thesis by auto
  next
    case (sent conn)
    show ?thesis
    proof (cases "pc_conv p = []")
      case True
      with sent assms show ?thesis by auto
    next
      case False
      let ?j = "(peer_owner p h, pc_conv p)"
      from False sent have st: "hb_store h' =
          snd (append_conv (pe_append e) ?j (peer_message p) (hb_store h))"
        by (simp add: append_peer_store)
      from append_at[OF assms(1,2), of "pe_append e" ?j "peer_message p"] placed_append[OF assms(1)]
      show ?thesis by (auto simp: st advances_append)
    qed
  qed
qed

datatype command =
    CreateC env string "create_params option"
  | StartC env env "(string \<times> string) option"
  | EndC env nat "string + string"
  | CancelC env "(string \<times> string \<times> string) option"
  | SendC peer_env "peer_call option"

text \<open>One request served, or the end of the \<open>i\<close>-th run that was scheduled.\<close>

fun exec :: "command \<Rightarrow> cdaemon \<Rightarrow> cdaemon" where
  "exec (CreateC e nid ps) d = snd (handle_conversation_create e nid ps d)"
| "exec (StartC e e' ps) d = snd (handle_conversation_start e e' ps d)"
| "exec (EndC e i res) d =
     (if i < length (cd_runs d)
      then let (rid, c) = cd_runs d ! i
           in run_conversation e rid c res (d\<lparr>cd_runs := take i (cd_runs d) @ drop (Suc i) (cd_runs d)\<rparr>)
      else d)"
| "exec (CancelC e ps) d = snd (handle_conversation_cancel e ps d)"
| "exec (SendC e ps) d = d\<lparr>cd_hub := snd (handle_peer_send e ps (cd_hub d))\<rparr>"

text \<open>A scheduled run is one of a conversation that has left the planned state.\<close>

definition begun :: "conv_store \<Rightarrow> string \<times> conversation \<Rightarrow> bool" where
  "begun st r \<longleftrightarrow> (\<exists>c. load_conv st (fst r, cv_id (snd r)) = Inr c \<and> cv_status c \<noteq> StatusPlanned)"

definition life_inv :: "cdaemon \<Rightarrow> bool" where
  "life_inv d \<longleftrightarrow> placed (store_of d) \<and> list_all (begun (store_of d)) (cd_runs d)"

definition moves :: "conv_store \<Rightarrow> conv_store \<Rightarrow> bool" where
  "moves st st' \<longleftrightarrow> (\<forall>k c. load_conv st k = Inr c \<longrightarrow> (\<exists>c'. load_conv st' k = Inr c' \<and> advances c c'))"

lemma moves_refl [simp]: "moves st st"
  by (auto simp: moves_def)

lemma begun_advances:
  assumes "moves st st'" "begun st r"
  shows "begun st' r"
proof -
  from assms(2) obtain c where c: "load_conv st (fst r, cv_id (snd r)) = Inr c" "cv_status c \<noteq> StatusPlanned"
    by (auto simp: begun_def)
  from assms(1) c show ?thesis unfolding moves_def
    by (cases "cv_status c") (fastforce simp: begun_def advances_def)+
qed

lemma moves_update:
  assumes "placed st" "load_conv st k = Inr c0" "advances c0 (restore_ids c0 (apply_mut m c0))"
  shows "moves st (snd (update_conv e k (apply_mut m) st))"
  unfolding moves_def using update_at[OF assms(1), of _ _ e k m] assms(2,3)
  by (auto simp del: apply_mut.simps)

lemma moves_append: "placed st \<Longrightarrow> moves st (snd (append_conv e k m st))"
  unfolding moves_def using append_at[of st _ _ e k m] by (auto simp: advances_append)

lemma moves_append_after:
  assumes "moves st st1" "placed st1"
  shows "moves st (snd (append_conv e k m st1))"
  unfolding moves_def
proof (intro allI impI)
  fix j c assume "load_conv st j = Inr c"
  with assms(1) obtain d where d: "load_conv st1 j = Inr d" "advances c d"
    unfolding moves_def by blast
  from append_at[OF assms(2) d(1), of e k m] d(2)
  show "\<exists>c'. load_conv (snd (append_conv e k m st1)) j = Inr c' \<and> advances c c'"
    by (auto simp: advances_append)
qed

lemma moves_create:
  "moves st (snd (create_conv e c st))"
  by (auto simp: moves_def create_conv_def write_conv_def Let_def load_conv_def split: option.splits if_splits)

lemma create_step:
  assumes "placed (store_of d)" "handle_conversation_create e nid ps d = (r, d')"
  shows "placed (store_of d') \<and> moves (store_of d) (store_of d') \<and> cd_runs d' = cd_runs d"
proof -
  have "store_of d' = store_of d \<or> (\<exists>c r. create_conv e c (store_of d) = (r, store_of d'))"
    and runs: "cd_runs d' = cd_runs d"
    using assms(2)
    by (auto simp: handle_conversation_create_def Let_def set_store_def emit_def store_of_def
        split: option.splits if_splits sum.splits prod.splits)
  then show ?thesis
    using assms(1) placed_create[of "store_of d" e] moves_create[of "store_of d" e]
    by (metis moves_refl snd_conv)
qed

lemma cancel_step:
  assumes "placed (store_of d)" "handle_conversation_cancel e ps d = (r, d')"
  shows "placed (store_of d') \<and> moves (store_of d) (store_of d') \<and> cd_runs d' = cd_runs d"
proof -
  have runs: "cd_runs d' = cd_runs d" and
    "store_of d' = store_of d \<or> (\<exists>k m r. update_conv e k m (store_of d) = (r, store_of d'))"
    using assms(2)
    by (auto simp: handle_conversation_cancel_def Let_def set_store_def emit_def store_of_def
        split: option.splits if_splits sum.splits prod.splits)
  then have "placed (store_of d')"
    using assms(1) placed_update[of "store_of d" e] by (metis snd_conv)
  moreover have "moves (store_of d) (store_of d')"
    unfolding moves_def using cancel_advances[OF assms(1), of _ _ e ps] assms(2) by (metis snd_conv)
  ultimately show ?thesis using runs by blast
qed

lemma send_placed:
  assumes "placed (hb_store h)" "handle_peer_send e ps h = (r, h')"
  shows "placed (hb_store h')"
proof (cases ps)
  case None
  with assms show ?thesis by (auto simp: handle_peer_send_def)
next
  case (Some p)
  from assms(2)[unfolded Some] show ?thesis
  proof (cases rule: handle_peer_send_cases)
    case (capped x)
    from intercept_store[OF capped(1)] assms(1) cs.step_inv[OF assms(1)] show ?thesis by metis
  next
    case (unsent x)
    with assms show ?thesis by auto
  next
    case (sent conn)
    with assms(1) placed_append[OF assms(1)] show ?thesis
      by (simp add: append_peer_store)
  qed
qed

lemma send_step:
  assumes "placed (store_of d)"
  shows "placed (store_of (exec (SendC e ps) d)) \<and> moves (store_of d) (store_of (exec (SendC e ps) d))"
  using send_advances[OF _ _ surjective_pairing, of "cd_hub d" _ _ e ps]
    send_placed[OF _ surjective_pairing, of "cd_hub d" e ps] assms
  by (auto simp: moves_def store_of_def)

text \<open>A start moves the conversation to active before it schedules the run.\<close>

lemma start_step:
  assumes "placed (store_of d)" "handle_conversation_start e e' ps d = (r, d')"
  shows "placed (store_of d') \<and> moves (store_of d) (store_of d')
       \<and> (cd_runs d' = cd_runs d \<or> (\<exists>x. cd_runs d' = cd_runs d @ [x] \<and> begun (store_of d') x))"
proof (cases "\<exists>rid cid c. ps = Some (rid, cid) \<and> start_check rid cid d = Inr c")
  case False
  then have "d' = d"
    using assms(2) by (auto simp: handle_conversation_start_def split: option.splits sum.splits)
  with assms show ?thesis by simp
next
  case True
  then obtain rid cid c where p: "ps = Some (rid, cid)" "start_check rid cid d = Inr c" by blast
  let ?k = "(rid, cid)" and ?m = "MStart (env_now e)" and ?st = "store_of d"
  from p(2) have c: "load_conv ?st ?k = Inr c" "cv_status c = StatusPlanned"
    by (auto simp: start_check_def split: if_splits sum.splits)
  from placed_key[OF assms(1) c(1)] have cid: "cv_id c = cid" by simp
  let ?st1 = "snd (update_conv e ?k (apply_mut ?m) ?st)"
  have pl1: "placed ?st1" using assms(1) by (rule placed_update)
  have mv1: "moves ?st ?st1"
    by (rule moves_update[OF assms(1) c(1)], rule advances_mut) (simp add: c(2))
  from assms(2) p have d': "(r, d') = start_commit e e' rid cid c d"
    by (simp add: handle_conversation_start_def)
  show ?thesis
  proof (cases "fst (update_conv e ?k (apply_mut ?m) ?st)")
    case (Inl x)
    with d' have "d' = set_store ?st1 d"
      by (auto simp: start_commit_def split: prod.splits)
    with pl1 mv1 show ?thesis by (simp add: set_store_def store_of_def)
  next
    case (Inr u)
    let ?st2 = "snd (append_conv e' ?k (task_input c) ?st1)"
    from Inr d' have d2: "store_of d' = ?st2" "cd_runs d' = cd_runs d @ [(rid, c)]"
      by (auto simp: start_commit_def set_store_def emit_def store_of_def split: prod.splits)
    have "write_ok_all (env_io e)"
      using Inr c(1) by (auto simp: update_conv_def write_conv_def Let_def split: if_splits)
    with update_at[OF assms(1) c(1), of e ?k ?m]
    have "load_conv ?st1 ?k = Inr (restore_ids c (apply_mut ?m c))" by simp
    from append_at[OF pl1 this, of e' ?k "task_input c"] have "begun ?st2 (rid, c)"
      by (auto simp: begun_def cid)
    moreover have "moves ?st ?st2" by (rule moves_append_after[OF mv1 pl1])
    ultimately show ?thesis using pl1 d2 placed_append[OF pl1] by simp
  qed
qed

text \<open>The end of a run that has begun moves the conversation to one of its two ends.\<close>

lemma run_step:
  assumes "placed (store_of d)" "begun (store_of d) (rid, c)"
  shows "placed (store_of (run_conversation e rid c res d))
       \<and> moves (store_of d) (store_of (run_conversation e rid c res d))
       \<and> cd_runs (run_conversation e rid c res d) = cd_runs d"
proof (cases "run_check rid c d")
  case (Pair ok d1)
  have d1: "store_of d1 = store_of d" "cd_runs d1 = cd_runs d"
    using Pair by (auto simp: run_check_def emit_def split: if_splits sum.splits)
      (simp_all add: store_of_def)
  show ?thesis
  proof (cases ok)
    case False
    with Pair d1 assms show ?thesis by (simp add: run_conversation_def)
  next
    case True
    then have d1d: "d1 = d" using Pair by (auto simp: run_check_def split: if_splits sum.splits)
    let ?k = "(rid, cv_id c)"
    from assms(2) obtain c0 where c0: "load_conv (store_of d) ?k = Inr c0" "cv_status c0 \<noteq> StatusPlanned"
      by (auto simp: begun_def)
    have nt: "\<not> terminal (cv_status c0)"
      using Pair True c0 by (auto simp: run_check_def split: if_splits sum.splits)
    define m where "m = (case res of
        Inl err \<Rightarrow> MFail err (env_now e) (collect_conversation_outputs d rid c (env_now e))
      | Inr out \<Rightarrow> MDone (cv_id c) (cv_initial_target c) out (env_now e)
          (collect_conversation_outputs d rid c (env_now e)))"
    have st: "store_of (run_commit e rid c res d) = snd (update_conv e ?k (apply_mut m) (store_of d))"
      "cd_runs (run_commit e rid c res d) = cd_runs d"
      by (auto simp: run_commit_def m_def Let_def emit_def set_store_def split: prod.splits sum.splits)
        (simp_all add: store_of_def)
    have "advances c0 (restore_ids c0 (apply_mut m c0))"
      using nt c0(2) by (intro advances_mut; cases "cv_status c0"; cases res) (auto simp: m_def)
    from moves_update[OF assms(1) c0(1) this] placed_update[OF assms(1)] st Pair True d1d show ?thesis
      by (simp add: run_conversation_def)
  qed
qed

lemma exec_step:
  assumes "life_inv d"
  shows "life_inv (exec cmd d) \<and> moves (store_of d) (store_of (exec cmd d))"
proof -
  have pl: "placed (store_of d)" and runs: "list_all (begun (store_of d)) (cd_runs d)"
    using assms by (simp_all add: life_inv_def)
  have keep: "list_all (begun st') rs" if "moves (store_of d) st'" "set rs \<subseteq> set (cd_runs d)" for st' rs
    using that runs begun_advances by (auto simp: list_all_iff)
  show ?thesis
  proof (cases cmd)
    case (CreateC e nid ps)
    with create_step[OF pl surjective_pairing, of e nid ps] keep show ?thesis by (simp add: life_inv_def)
  next
    case (StartC e e' ps)
    with start_step[OF pl surjective_pairing, of e e' ps] keep show ?thesis
      by (auto simp: life_inv_def)
  next
    case (EndC e i res)
    show ?thesis
    proof (cases "i < length (cd_runs d)")
      case False
      with EndC assms show ?thesis by simp
    next
      case True
      let ?rs = "take i (cd_runs d) @ drop (Suc i) (cd_runs d)"
      obtain rid c where r: "cd_runs d ! i = (rid, c)" by fastforce
      with True runs have b: "begun (store_of d) (rid, c)" by (metis list_all_length)
      have sub: "set ?rs \<subseteq> set (cd_runs d)" by (auto dest: in_set_takeD in_set_dropD)
      from run_step[of "d\<lparr>cd_runs := ?rs\<rparr>" rid c e res] pl b keep[OF _ sub] EndC True r show ?thesis
        by (simp add: life_inv_def)
    qed
  next
    case (CancelC e ps)
    with cancel_step[OF pl surjective_pairing, of e ps] keep show ?thesis by (simp add: life_inv_def)
  next
    case (SendC e ps)
    with send_step[OF pl, of e ps] keep show ?thesis by (simp add: life_inv_def)
  qed
qed


definition conv_p :: conversation where
  "conv_p = conv_a\<lparr>cv_status := StatusPlanned, cv_started_at := 0\<rparr>"

lemma conv_p_simps [simp]:
  "cv_status conv_p = StatusPlanned" "cv_started_at conv_p = 0" "cv_id conv_p = ''c1''"
  "cv_room conv_p = ''r1''" "cv_version conv_p = 1" "cv_initial_target conv_p = ''a''"
  by (simp_all add: conv_p_def)

definition cdaemon_p :: cdaemon where
  "cdaemon_p = \<lparr>cd_hub = hub_a\<lparr>hb_store := [key_c1 \<mapsto> Parsed conv_p]\<rparr>,
     cd_members = (\<lambda>r. if r = ''r1'' then [(''a'', [''vol'']), (''b'', [])] else []),
     cd_volumes = [''vol'' \<mapsto> [(''memory'', FDir [(''answer.md'', FFile 10 7)])]],
     cd_runs = [], cd_shutting = False\<rparr>"

lemma store_p [simp]: "store_of cdaemon_p = [key_c1 \<mapsto> Parsed conv_p]"
  by (simp add: store_of_def cdaemon_p_def)

lemma cdaemon_p_simps [simp]:
  "cd_runs cdaemon_p = []" "cd_shutting cdaemon_p = False" "hb_active (cd_hub cdaemon_p) = [''r1'', ''r9'']"
  "cd_members cdaemon_p ''r1'' = [(''a'', [''vol'']), (''b'', [])]"
  by (simp_all add: cdaemon_p_def)

lemma placed_p: "placed [key_c1 \<mapsto> Parsed conv_p]"
  by (simp add: placed_def key_c1_def)

lemma load_p: "load_conv [key_c1 \<mapsto> Parsed conv_p] (''r1'', ''c1'') = Inr conv_p"
  by (simp add: key_c1_def current_version_def)


text \<open>A run never records the files its agents wrote: the goroutine of a start works on the
  snapshot taken before the start time was written, and the scan returns nothing for a conversation
  with no start time. So whatever the volumes hold, the outputs stored at the end are empty.\<close>

theorem run_records_no_outputs:
  assumes "placed (store_of d)" "load_conv (store_of d) (rid, cid) = Inr c" "cv_started_at c = 0"
    and "handle_conversation_start e e' (Some (rid, cid)) d = (Inr ok, d')"
    and "load_conv (store_of d1) (rid, cid) = Inr cur" "placed (store_of d1)"
    and "\<not> cd_shutting d1" "\<not> terminal (cv_status cur)" "write_ok_all (env_io e2)"
  shows "\<exists>snap. last (cd_runs d') = (rid, snap) \<and>
    (\<exists>c2. load_conv (store_of (run_conversation e2 rid snap res d1)) (rid, cid) = Inr c2
       \<and> terminal (cv_status c2) \<and> cv_outputs c2 = [])"
proof -
  from assms(2,4) have "last (cd_runs d') = (rid, c)"
    by (auto simp: handle_conversation_start_def start_check_def start_commit_def Let_def
        split: if_splits sum.splits prod.splits)
  moreover have cid: "cv_id c = cid" using placed_key[OF assms(1,2)] by simp
  define m where "m = (case res of Inl err \<Rightarrow> MFail err (env_now e2) []
      | Inr out \<Rightarrow> MDone cid (cv_initial_target c) out (env_now e2) [])"
  have "run_check rid c d1 = (True, d1)"
    using assms(5,7,8) by (simp add: run_check_def cid)
  moreover have "collect_conversation_outputs d1 rid c now = []" for now
    using assms(3) by (simp add: collect_conversation_outputs_def)
  ultimately have "store_of (run_conversation e2 rid c res d1) =
      snd (update_conv e2 (rid, cid) (apply_mut m) (store_of d1))"
    by (auto simp: run_conversation_def run_commit_def m_def cid Let_def split: prod.splits sum.splits)
  moreover have "load_conv (snd (update_conv e2 (rid, cid) (apply_mut m) (store_of d1))) (rid, cid) =
      Inr (restore_ids cur (apply_mut m cur))"
    using update_at[OF assms(6,5), of e2 "(rid, cid)" m] assms(9) by simp
  moreover have "terminal (cv_status (restore_ids cur (apply_mut m cur)))"
    "cv_outputs (restore_ids cur (apply_mut m cur)) = []"
    by (cases res; simp add: m_def restore_ids_def)+
  ultimately show ?thesis using \<open>last (cd_runs d') = (rid, c)\<close> by auto
qed

text \<open>The start of the planned conversation, and its run ended after the cancel of another request.\<close>

definition started_p :: cdaemon where
  "started_p = snd (handle_conversation_start env_a env_a (Some (''r1'', ''c1'')) cdaemon_p)"

definition conv_s :: conversation where
  "conv_s = append_msg 5 ''c1'' (task_input conv_p) (restore_ids conv_p (apply_mut (MStart 5) conv_p))"

lemma conv_s_simps [simp]:
  "cv_status conv_s = StatusActive" "cv_id conv_s = ''c1''" "cv_room conv_s = ''r1''" "cv_version conv_s = 1"
  by (simp_all add: conv_s_def current_version_def)

lemma start_p:
  "handle_conversation_start env_a env_a (Some (''r1'', ''c1'')) cdaemon_p = (Inr (''c1'', StatusActive), started_p)"
  "store_of started_p = [key_c1 \<mapsto> Parsed conv_s]" "cd_runs started_p = [(''r1'', conv_p)]"
  "cd_shutting started_p = False"
proof -
  let ?c1 = "restore_ids conv_p (apply_mut (MStart 5) conv_p)"
  have chk: "start_check ''r1'' ''c1'' cdaemon_p = Inr conv_p"
    by (simp add: start_check_def load_p room_active_def hired_in_def del: load_conv_upd)
  have now: "env_now env_a = 5" by (simp add: env_a_def)
  have k: "(''r1'', ''c1'') = key_c1" by (simp add: key_c1_def)
  have u: "update_conv env_a key_c1 (apply_mut (MStart 5)) [key_c1 \<mapsto> Parsed conv_p] =
      (Inr ?c1, [key_c1 \<mapsto> Parsed ?c1])"
    by (simp add: update_conv_def write_conv_def write_ok_a current_version_def k Let_def)
  have a: "append_conv env_a key_c1 (task_input conv_p) [key_c1 \<mapsto> Parsed ?c1] =
      (Inr conv_s, [key_c1 \<mapsto> Parsed conv_s])"
    by (simp add: append_conv_def write_conv_def write_ok_a current_version_def k now conv_s_def Let_def)
       (simp add: key_c1_def)
  have "handle_conversation_start env_a env_a (Some (''r1'', ''c1'')) cdaemon_p =
      start_commit env_a env_a ''r1'' ''c1'' conv_p cdaemon_p"
    by (simp add: handle_conversation_start_def chk)
  then have *: "handle_conversation_start env_a env_a (Some (''r1'', ''c1'')) cdaemon_p =
      (Inr (''c1'', StatusActive), (emit EventConvStarted ''r1'' ''c1'' (PlSummary (summarize ?c1))
         (set_store [key_c1 \<mapsto> Parsed conv_s] cdaemon_p))\<lparr>cd_runs := [(''r1'', conv_p)]\<rparr>)"
    by (simp only: start_commit_def now k store_p u a prod.case sum.case Let_def)
       (simp add: emit_def set_store_def)
  show "handle_conversation_start env_a env_a (Some (''r1'', ''c1'')) cdaemon_p = (Inr (''c1'', StatusActive), started_p)"
    by (simp add: started_p_def *)
  show "store_of started_p = [key_c1 \<mapsto> Parsed conv_s]" "cd_runs started_p = [(''r1'', conv_p)]"
    "cd_shutting started_p = False"
    by (simp_all add: started_p_def *) (simp_all add: emit_def set_store_def)
qed

lemma load_s: "load_conv [key_c1 \<mapsto> Parsed conv_s] (''r1'', ''c1'') = Inr conv_s"
  by (simp add: key_c1_def current_version_def)

lemma placed_s: "placed [key_c1 \<mapsto> Parsed conv_s]"
  by (simp add: placed_def key_c1_def)

lemma run_records_no_outputs_witness:
  "\<exists>snap. last (cd_runs started_p) = (''r1'', snap) \<and>
    (\<exists>c2. load_conv (store_of (run_conversation env_a ''r1'' snap (Inr ''ok'') started_p)) (''r1'', ''c1'') = Inr c2
       \<and> terminal (cv_status c2) \<and> cv_outputs c2 = [])"
  by (rule run_records_no_outputs[OF _ _ _ start_p(1), where c = conv_p and cur = conv_s])
     (simp_all add: start_p placed_p load_p placed_s load_s write_ok_a del: load_conv_upd)

text \<open>The scan itself is not at fault: with the start time it finds the file.\<close>

lemma scan_finds_output:
  "collect_conversation_outputs cdaemon_p ''r1'' (conv_p\<lparr>cv_started_at := 5\<rparr>) 9 =
     [\<lparr>or_volume = ''vol'', or_path = ''memory/answer.md'', or_size = 10, or_mod_time = 7\<rparr>]"
  by (simp add: collect_conversation_outputs_def mounted_volumes_def cdaemon_p_def output_scan_cap_def
      output_scan_subdirs_def subdir_of_def)

text \<open>A cancel that lands between the check at the end of a run and its status write is lost: the
  conversation was reported cancelled to the caller and then becomes done.\<close>

theorem cancel_overwritten:
  assumes "placed (store_of d)" "load_conv (store_of d) (rid, cid) = Inr c"
    and "run_check rid snap d = (True, d)" "cv_id snap = cid"
    and "handle_conversation_cancel e (Some (rid, cid, reason)) d = (Inr (cid, st), d1)"
    and "write_ok_all (env_io e2)"
  shows "st = StatusCancelled \<and>
     (\<exists>c2. load_conv (store_of (run_commit e2 rid snap (Inr out) d1)) (rid, cid) = Inr c2
        \<and> cv_status c2 = StatusDone)"
proof -
  have nt: "\<not> terminal (cv_status c)"
    using assms(2-4) by (auto simp: run_check_def split: if_splits)
  define m where "m = MCancel (if reason = [] then ''user_cancel'' else reason) (env_now e)"
  from assms(2,5) nt have st: "st = StatusCancelled"
    and upd: "store_of d1 = snd (update_conv e (rid, cid) (apply_mut m) (store_of d))"
    by (auto simp: handle_conversation_cancel_def m_def Let_def update_conv_def write_conv_def
        split: prod.splits sum.splits if_splits)
  from update_at[OF assms(1,2), of e "(rid, cid)" m] obtain c1 where
    c1: "load_conv (store_of d1) (rid, cid) = Inr c1" by (simp add: upd)
  have "placed (store_of d1)" unfolding upd by (rule placed_update[OF assms(1)])
  from update_at[OF this c1, of e2 "(rid, cid)" "MDone cid (cv_initial_target snap) out (env_now e2)
      (collect_conversation_outputs d1 rid snap (env_now e2))"] assms(4,6)
  show ?thesis
    by (auto simp: st run_commit_def Let_def split: prod.splits sum.splits)
qed

lemma cancel_overwritten_witness:
  "\<exists>c2. load_conv (store_of (run_commit env_a ''r1'' conv_p (Inr ''ok'')
       (snd (handle_conversation_cancel env_a (Some (''r1'', ''c1'', [])) started_p)))) (''r1'', ''c1'') = Inr c2
     \<and> cv_status c2 = StatusDone"
proof -
  let ?h = "handle_conversation_cancel env_a (Some (''r1'', ''c1'', [])) started_p"
  have "run_check ''r1'' conv_p started_p = (True, started_p)"
    by (simp add: run_check_def start_p load_s del: load_conv_upd)
  moreover have "fst ?h = Inr (''c1'', StatusCancelled)"
    by (simp add: handle_conversation_cancel_def start_p update_conv_def write_conv_def write_ok_a load_s Let_def
        del: load_conv_upd)
  ultimately show ?thesis
    using cancel_overwritten[of started_p "''r1''" "''c1''" conv_s conv_p env_a "[]" StatusCancelled "snd ?h" env_a "''ok''"]
    by (simp add: start_p placed_s load_s write_ok_a prod_eq_iff del: load_conv_upd)
qed

end
