(* ===== verification/Http_Routes.thy ===== *)
theory Http_Routes
  imports Http_Volumes Room_Handlers Conv_Handlers "HOL-Library.AList"
begin

section \<open>Rooms and conversations over HTTP (internal/httpapi, internal/daemon/httpbackend.go)\<close>

text \<open>
  The browser's requests under \<^verbatim>\<open>/api/rooms\<close>: \<open>route_room\<close> is the dispatch on path and method,
  \<open>serve_room\<close> the handlers with the daemon's hooks, which re-enter the handlers of the IPC
  requests. The state joins the Rooms' daemon and the conversations' daemon. What remains of the
  listing order of maps and directories, ids and clocks is in the record \<open>renv\<close>.
\<close>

subsection \<open>The listener\<close>

text \<open>The two variables of the environment; an unset one reads as empty.\<close>

definition listen_addr :: "string \<Rightarrow> string \<Rightarrow> string" where
  "listen_addr addr disabled = (if addr = [] \<and> disabled = [] then ''127.0.0.1:8910'' else addr)"

definition listens :: "string \<Rightarrow> bool" where
  "listens addr = (addr \<noteq> [])"

text \<open>The answer to a preflight, or the request is passed on; \<open>allowed_methods\<close> is what each answer carries.\<close>

definition allowed_methods :: "meth set" where
  "allowed_methods = {GET, POST, OPTIONS}"

definition with_cors :: "meth \<Rightarrow> 'a http \<Rightarrow> 'a option http" where
  "with_cors m r = (if m = OPTIONS then Inr None else map_sum id Some r)"

definition no_cache :: "string \<Rightarrow> string \<Rightarrow> string \<Rightarrow> string option" where
  "no_cache version if_none_match page =
     (if if_none_match = CHR 0x22 # ''hive-'' @ version @ [CHR 0x22] then None else Some page)"

subsection \<open>Dispatch\<close>

text \<open>Go's \<^verbatim>\<open>strings.SplitN\<close> at a slash.\<close>

fun split_n :: "nat \<Rightarrow> string \<Rightarrow> string list" where
  "split_n 0 s = []"
| "split_n (Suc 0) s = [s]"
| "split_n (Suc n) s = (case cut1 s of (a, None) \<Rightarrow> [a] | (a, Some b) \<Rightarrow> a # split_n n b)"

datatype room_route =
    ListRooms
  | RoomGet string
  | RoomDelete string
  | RoomRename string
  | RoomBindings string
  | ConvList string
  | ConvCreate string
  | ConvGet string string
  | ConvDelete string string
  | ConvStart string string
  | ConvCancel string string
  | RoomEvents string

definition route_room_conversations :: "meth \<Rightarrow> string \<Rightarrow> string list \<Rightarrow> room_route http" where
  "route_room_conversations m rid tail =
     (case tail of
        [] \<Rightarrow> (case m of GET \<Rightarrow> Inr (ConvList rid) | POST \<Rightarrow> Inr (ConvCreate rid) | _ \<Rightarrow> Inl 405)
      | [cid] \<Rightarrow> (case m of GET \<Rightarrow> Inr (ConvGet rid cid) | DELETE \<Rightarrow> Inr (ConvDelete rid cid) | _ \<Rightarrow> Inl 405)
      | [cid, op] \<Rightarrow>
          (if op = ''start'' then (if m \<noteq> POST then Inl 405 else Inr (ConvStart rid cid))
           else if op = ''cancel'' then (if m \<noteq> POST then Inl 405 else Inr (ConvCancel rid cid))
           else Inl 404)
      | _ \<Rightarrow> Inl 404)"

definition handle_room_scoped :: "meth \<Rightarrow> string \<Rightarrow> room_route http" where
  "handle_room_scoped m url =
     (case strip_prefix url ''/api/rooms/'' of
        None \<Rightarrow> Inl 404
      | Some tail \<Rightarrow>
          if tail = [] then Inl 404
          else case split_n 4 tail of
              [] \<Rightarrow> Inl 404
            | rid # parts \<Rightarrow>
                if rid = [] then Inl 404
                else case parts of
                    [] \<Rightarrow> (case m of GET \<Rightarrow> Inr (RoomGet rid) | DELETE \<Rightarrow> Inr (RoomDelete rid) | _ \<Rightarrow> Inl 405)
                  | op # tail \<Rightarrow>
                      if tail = [] \<and> op = ''rename'' then (if m \<noteq> POST then Inl 405 else Inr (RoomRename rid))
                      else if tail = [] \<and> op = ''bindings'' then (if m \<noteq> PUT then Inl 405 else Inr (RoomBindings rid))
                      else if op = ''conversations'' then route_room_conversations m rid tail
                      else if tail = [] \<and> op = ''events'' then (if m \<noteq> GET then Inl 405 else Inr (RoomEvents rid))
                      else Inl 404)"

definition route_room :: "meth \<Rightarrow> string \<Rightarrow> room_route http" where
  "route_room m url =
     (if url = ''/api/rooms'' then (if m \<noteq> GET then Inl 405 else Inr ListRooms)
      else if has_prefix url ''/api/rooms/'' then handle_room_scoped m url
      else Inl 404)"

text \<open>The request the page sends for a route.\<close>

definition under_room :: "string \<Rightarrow> string list \<Rightarrow> string" where
  "under_room rid ps = ''/api/rooms/'' @ join_with CHR ''/'' (rid # ps)"

fun request_of :: "room_route \<Rightarrow> meth \<times> string" where
  "request_of ListRooms = (GET, ''/api/rooms'')"
| "request_of (RoomGet rid) = (GET, under_room rid [])"
| "request_of (RoomDelete rid) = (DELETE, under_room rid [])"
| "request_of (RoomRename rid) = (POST, under_room rid [''rename''])"
| "request_of (RoomBindings rid) = (PUT, under_room rid [''bindings''])"
| "request_of (ConvList rid) = (GET, under_room rid [''conversations''])"
| "request_of (ConvCreate rid) = (POST, under_room rid [''conversations''])"
| "request_of (ConvGet rid cid) = (GET, under_room rid [''conversations'', cid])"
| "request_of (ConvDelete rid cid) = (DELETE, under_room rid [''conversations'', cid])"
| "request_of (ConvStart rid cid) = (POST, under_room rid [''conversations'', cid, ''start''])"
| "request_of (ConvCancel rid cid) = (POST, under_room rid [''conversations'', cid, ''cancel''])"
| "request_of (RoomEvents rid) = (GET, under_room rid [''events''])"

fun ids_of :: "room_route \<Rightarrow> string list" where
  "ids_of ListRooms = []"
| "ids_of (ConvGet rid cid) = [rid, cid]"
| "ids_of (ConvDelete rid cid) = [rid, cid]"
| "ids_of (ConvStart rid cid) = [rid, cid]"
| "ids_of (ConvCancel rid cid) = [rid, cid]"
| "ids_of (RoomGet rid) = [rid]"
| "ids_of (RoomDelete rid) = [rid]"
| "ids_of (RoomRename rid) = [rid]"
| "ids_of (RoomBindings rid) = [rid]"
| "ids_of (ConvList rid) = [rid]"
| "ids_of (ConvCreate rid) = [rid]"
| "ids_of (RoomEvents rid) = [rid]"

subsection \<open>Handlers and hooks\<close>

record hserver =
  hv_rooms :: rdaemon
  hv_convs :: cdaemon

record renv =
  re_ids :: "string list"
  re_convs :: "conv_key list"
  re_conn :: "string \<Rightarrow> string \<Rightarrow> nat"
  re_del :: bool
  re_rm :: bool
  re_spawn :: spawn
  re_env :: env
  re_env2 :: env
  re_new_id :: string

text \<open>The decoded bodies, none when they do not decode. A reason is optional: what does not decode is empty.\<close>

record rbody =
  rb_name :: "string option"
  rb_bindings :: "binding list option"
  rb_create :: "create_params option"
  rb_reason :: string

record member_view =
  mv_name :: string
  mv_image :: string
  mv_rank :: string
  mv_model :: string
  mv_parent :: string
  mv_volumes :: "volume_ref list"
  mv_quota :: "(string \<times> int) list"

record room_view =
  rv_id :: string
  rv_name :: string
  rv_members :: "member_view list"
  rv_volumes :: "string list"
  rv_bindings :: "binding list"

definition list_room_refs :: "renv \<Rightarrow> rdaemon \<Rightarrow> room_ref list" where
  "list_room_refs e s = sort (room_refs (re_ids e) (hd_rooms (rd_core s)))"

definition seen_volumes :: "hmember list \<Rightarrow> string list" where
  "seen_volumes ms = foldl (\<lambda>acc v. if v \<in> set acc then acc else acc @ [v]) [] (concat (map (map vr_name \<circ> hm_volumes) ms))"

definition room_detail :: "string \<Rightarrow> rdaemon \<Rightarrow> room_view option" where
  "room_detail rid s =
     (case hd_rooms (rd_core s) rid of
        None \<Rightarrow> None
      | Some r \<Rightarrow>
          (let ms = map snd (hr_members r) in
           Some \<lparr>rv_id = rid, rv_name = hr_name r,
                 rv_members = map (\<lambda>m. \<lparr>mv_name = hm_name m, mv_image = ref_name (hm_image m), mv_rank = rk_name (hm_rank m),
                   mv_model = hm_model m, mv_parent = hm_parent m, mv_volumes = hm_volumes m,
                   mv_quota = remaining_quota rid m (hd_quota (rd_core s))\<rparr>) ms,
                 rv_volumes = seen_volumes ms, rv_bindings = hr_bindings r\<rparr>))"

datatype ranswer =
    RoomList "(room_ref \<times> (status \<times> nat) list) list"
  | RoomShown room_view
  | RoomGone string
  | RoomNamed string string
  | RoomBound string "binding list"
  | Summaries "summary list"
  | ConvMade string
  | ConvShown conversation
  | ConvGone string
  | ConvStarted string
  | ConvCancelled string
  | Stream string

text \<open>How many conversations have each status.\<close>

definition count_status :: "conversation list \<Rightarrow> (status \<times> nat) list" where
  "count_status cs =
     foldl (\<lambda>acc c. AList.update (cv_status c) (case map_of acc (cv_status c) of None \<Rightarrow> 1 | Some n \<Rightarrow> n + 1) acc) [] cs"

definition handle_rooms :: "renv \<Rightarrow> hserver \<Rightarrow> ranswer" where
  "handle_rooms e s =
     RoomList (map (\<lambda>r. (r, count_status (list_by_room (re_convs e) (rr_id r) (store_of (hv_convs s))))) (list_room_refs e (hv_rooms s)))"

text \<open>A hook's error is a bad request whatever its code was.\<close>

definition answer_400 :: "('a \<Rightarrow> ranswer) \<Rightarrow> 'a res \<Rightarrow> ranswer http" where
  "answer_400 f r = (case r of Inl _ \<Rightarrow> Inl 400 | Inr x \<Rightarrow> Inr (f x))"

text \<open>The daemon's side of the hooks: each re-enters the command line's handler.\<close>

definition on_rooms :: "('a \<Rightarrow> 'b) \<Rightarrow> 'a res \<times> rdaemon \<Rightarrow> hserver \<Rightarrow> 'b res \<times> hserver" where
  "on_rooms f x s = (map_sum id f (fst x), s\<lparr>hv_rooms := snd x\<rparr>)"

definition on_convs :: "('a \<Rightarrow> 'b) \<Rightarrow> 'a res \<times> cdaemon \<Rightarrow> hserver \<Rightarrow> 'b res \<times> hserver" where
  "on_convs f x s = (map_sum id f (fst x), s\<lparr>hv_convs := snd x\<rparr>)"

definition http_create :: "renv \<Rightarrow> string \<Rightarrow> create_params \<Rightarrow> hserver \<Rightarrow> string res \<times> hserver" where
  "http_create e rid p s =
     on_convs fst (handle_conversation_create (re_env e) (re_new_id e) (Some (p\<lparr>cp_room := rid\<rparr>)) (hv_convs s)) s"

definition http_start :: "renv \<Rightarrow> string \<Rightarrow> string \<Rightarrow> hserver \<Rightarrow> unit res \<times> hserver" where
  "http_start e rid cid s = on_convs (\<lambda>_. ()) (handle_conversation_start (re_env e) (re_env2 e) (Some (rid, cid)) (hv_convs s)) s"

definition http_cancel :: "renv \<Rightarrow> string \<Rightarrow> string \<Rightarrow> string \<Rightarrow> hserver \<Rightarrow> unit res \<times> hserver" where
  "http_cancel e rid cid why s =
     on_convs (\<lambda>_. ()) (handle_conversation_cancel (re_env e) (Some (rid, cid, why)) (hv_convs s)) s"

definition http_rename :: "renv \<Rightarrow> string \<Rightarrow> string \<Rightarrow> hserver \<Rightarrow> unit res \<times> hserver" where
  "http_rename e rid nm s = on_rooms (\<lambda>_. ()) (handle_room_rename (re_spawn e) (Some (rid, nm)) (hv_rooms s)) s"

definition http_stop :: "renv \<Rightarrow> string \<Rightarrow> hserver \<Rightarrow> unit res \<times> hserver" where
  "http_stop e rid s = on_rooms (\<lambda>_. ()) (handle_room_stop (re_conn e) (re_del e) (Some rid) (hv_rooms s)) s"

definition http_delete :: "renv \<Rightarrow> string \<Rightarrow> string \<Rightarrow> hserver \<Rightarrow> unit res \<times> hserver" where
  "http_delete e rid cid s =
     on_convs (\<lambda>_. ()) (handle_conversation_delete (re_env e) (re_rm e) (Some (rid, cid)) (hv_convs s)) s"

definition http_bindings :: "renv \<Rightarrow> string \<Rightarrow> binding list \<Rightarrow> hserver \<Rightarrow> binding list res \<times> hserver" where
  "http_bindings e rid bs s = on_rooms snd (handle_room_set_bindings (re_spawn e) (Some (rid, bs)) (hv_rooms s)) s"

text \<open>The page's side.\<close>

definition list_conversations :: "renv \<Rightarrow> string \<Rightarrow> hserver \<Rightarrow> ranswer http" where
  "list_conversations e rid s = Inr (Summaries (map summarize (list_by_room (re_convs e) rid (store_of (hv_convs s)))))"

definition create_conversation :: "renv \<Rightarrow> create_params option \<Rightarrow> string \<Rightarrow> hserver \<Rightarrow> ranswer http \<times> hserver" where
  "create_conversation e body rid s =
     (case body of
        None \<Rightarrow> (Inl 400, s)
      | Some p \<Rightarrow> if cp_target p = [] then (Inl 400, s) else apfst (answer_400 ConvMade) (http_create e rid p s))"

definition get_conversation :: "string \<Rightarrow> string \<Rightarrow> hserver \<Rightarrow> ranswer http" where
  "get_conversation rid cid s =
     (case load_conv (store_of (hv_convs s)) (rid, cid) of Inl _ \<Rightarrow> Inl 404 | Inr c \<Rightarrow> Inr (ConvShown c))"

definition start_conversation :: "renv \<Rightarrow> string \<Rightarrow> string \<Rightarrow> hserver \<Rightarrow> ranswer http \<times> hserver" where
  "start_conversation e rid cid s = apfst (answer_400 (\<lambda>_. ConvStarted cid)) (http_start e rid cid s)"

definition delete_conversation :: "renv \<Rightarrow> string \<Rightarrow> string \<Rightarrow> hserver \<Rightarrow> ranswer http \<times> hserver" where
  "delete_conversation e rid cid s = apfst (answer_400 (\<lambda>_. ConvGone cid)) (http_delete e rid cid s)"

definition cancel_conversation :: "renv \<Rightarrow> string \<Rightarrow> string \<Rightarrow> string \<Rightarrow> hserver \<Rightarrow> ranswer http \<times> hserver" where
  "cancel_conversation e why rid cid s = apfst (answer_400 (\<lambda>_. ConvCancelled cid)) (http_cancel e rid cid why s)"

definition rename_room :: "renv \<Rightarrow> string option \<Rightarrow> string \<Rightarrow> hserver \<Rightarrow> ranswer http \<times> hserver" where
  "rename_room e body rid s =
     (case body of
        None \<Rightarrow> (Inl 400, s)
      | Some nm \<Rightarrow> apfst (answer_400 (\<lambda>_. RoomNamed rid (trim_space nm))) (http_rename e rid nm s))"

definition serve_room_detail :: "string \<Rightarrow> hserver \<Rightarrow> ranswer http" where
  "serve_room_detail rid s = (case room_detail rid (hv_rooms s) of None \<Rightarrow> Inl 404 | Some v \<Rightarrow> Inr (RoomShown v))"

definition bind_room :: "renv \<Rightarrow> binding list option \<Rightarrow> string \<Rightarrow> hserver \<Rightarrow> ranswer http \<times> hserver" where
  "bind_room e body rid s =
     (case body of None \<Rightarrow> (Inl 400, s) | Some bs \<Rightarrow> apfst (answer_400 (RoomBound rid)) (http_bindings e rid bs s))"

definition delete_room :: "renv \<Rightarrow> string \<Rightarrow> hserver \<Rightarrow> ranswer http \<times> hserver" where
  "delete_room e rid s = apfst (answer_400 (\<lambda>_. RoomGone rid)) (http_stop e rid s)"

lemmas serve_room_defs = on_rooms_def on_convs_def http_create_def http_start_def http_cancel_def http_rename_def http_stop_def
  http_delete_def http_bindings_def list_conversations_def create_conversation_def get_conversation_def start_conversation_def
  delete_conversation_def cancel_conversation_def rename_room_def serve_room_detail_def bind_room_def delete_room_def

fun serve_room :: "renv \<Rightarrow> rbody \<Rightarrow> room_route \<Rightarrow> hserver \<Rightarrow> ranswer http \<times> hserver" where
  "serve_room e b ListRooms s = (Inr (handle_rooms e s), s)"
| "serve_room e b (RoomGet rid) s = (serve_room_detail rid s, s)"
| "serve_room e b (RoomDelete rid) s = delete_room e rid s"
| "serve_room e b (RoomRename rid) s = rename_room e (rb_name b) rid s"
| "serve_room e b (RoomBindings rid) s = bind_room e (rb_bindings b) rid s"
| "serve_room e b (ConvList rid) s = (list_conversations e rid s, s)"
| "serve_room e b (ConvCreate rid) s = create_conversation e (rb_create b) rid s"
| "serve_room e b (ConvGet rid cid) s = (get_conversation rid cid s, s)"
| "serve_room e b (ConvDelete rid cid) s = delete_conversation e rid cid s"
| "serve_room e b (ConvStart rid cid) s = start_conversation e rid cid s"
| "serve_room e b (ConvCancel rid cid) s = cancel_conversation e (rb_reason b) rid cid s"
| "serve_room e b (RoomEvents rid) s = (Inr (Stream rid), s)"

definition serve :: "renv \<Rightarrow> meth \<Rightarrow> string \<Rightarrow> rbody \<Rightarrow> hserver \<Rightarrow> ranswer http \<times> hserver" where
  "serve e m url b s = (case route_room m url of Inl st \<Rightarrow> (Inl st, s) | Inr r \<Rightarrow> serve_room e b r s)"

text \<open>The event stream: what the loop meets, an event of the subscription with its JSON if it could be made,
  a tick of the heartbeat, the end of the subscription or of the client, and the frames it writes. The
  Room and the time of the first frame are given as they are quoted.\<close>

datatype sse_in = SseEvent string "string option" | SseTick | SseClosed | SseGone

definition sse_hello :: "string \<Rightarrow> string \<Rightarrow> string" where
  "sse_hello rid ts =
     ''event: hello'' @ [CHR 0x0A] @ ''data: {'' @ [CHR 0x22] @ ''room_id'' @ [CHR 0x22] @ '':'' @ rid @ '','' @ [CHR 0x22] @ ''ts''
       @ [CHR 0x22] @ '':'' @ ts @ ''}'' @ [CHR 0x0A, CHR 0x0A]"

definition sse_frame :: "string \<Rightarrow> string \<Rightarrow> string" where
  "sse_frame ty data = ''event: '' @ ty @ [CHR 0x0A] @ ''data: '' @ data @ [CHR 0x0A, CHR 0x0A]"

fun sse_loop :: "sse_in list \<Rightarrow> string list" where
  "sse_loop [] = []"
| "sse_loop (SseEvent ty None # xs) = sse_loop xs"
| "sse_loop (SseEvent ty (Some data) # xs) = sse_frame ty data # sse_loop xs"
| "sse_loop (SseTick # xs) = ('': ping'' @ [CHR 0x0A, CHR 0x0A]) # sse_loop xs"
| "sse_loop (SseClosed # xs) = []"
| "sse_loop (SseGone # xs) = []"

subsection \<open>The dispatch is the page's table of requests\<close>

definition no_slash :: "string \<Rightarrow> bool" where
  "no_slash s \<longleftrightarrow> CHR ''/'' \<notin> set s"

lemma cut1_no_slash: "no_slash a \<Longrightarrow> cut1 a = (a, None)"
  by (simp add: cut1_def no_slash_def index_of_None [THEN iffD2])

lemma cut1_app: "no_slash a \<Longrightarrow> cut1 (a @ CHR ''/'' # b) = (a, Some b)"
  by (simp add: cut1_def no_slash_def index_of_append)

lemma cut1_None: "cut1 s = (a, None) \<Longrightarrow> s = a \<and> no_slash a"
  by (auto simp: cut1_def no_slash_def index_of_None split: option.splits)

lemma cut1_Some: "cut1 s = (a, Some b) \<Longrightarrow> s = a @ CHR ''/'' # b \<and> no_slash a"
  using id_take_nth_drop by (fastforce simp: cut1_def no_slash_def index_of_Some split: option.splits)

lemma split_n_join:
  "ps \<noteq> [] \<Longrightarrow> length ps \<le> n \<Longrightarrow> \<forall>p \<in> set (butlast ps). no_slash p \<Longrightarrow> (length ps < n \<longrightarrow> no_slash (last ps))
     \<Longrightarrow> split_n n (join_with CHR ''/'' ps) = ps"
proof (induction n arbitrary: ps)
  case (Suc n)
  obtain p qs where ps: "ps = p # qs" using Suc.prems(1) by (cases ps) auto
  show ?case
  proof (cases qs)
    case Nil
    with Suc.prems ps show ?thesis by (cases n) (auto simp: cut1_no_slash)
  next
    case (Cons q rs)
    with Suc.prems ps obtain k where n: "n = Suc k" by (cases n) auto
    from Suc.prems ps Cons have "no_slash p" by simp
    moreover have "split_n n (join_with CHR ''/'' qs) = qs"
      using Suc.prems ps Cons by (intro Suc.IH) auto
    ultimately show ?thesis using ps Cons n by (simp add: cut1_app)
  qed
qed simp

lemma split_n_parts:
  assumes "split_n n s = ps" "0 < n"
  shows "join_with CHR ''/'' ps = s \<and> ps \<noteq> [] \<and> length ps \<le> n \<and> (\<forall>p \<in> set (butlast ps). no_slash p)
    \<and> (length ps < n \<longrightarrow> no_slash (last ps))"
  using assms
proof (induction n s arbitrary: ps rule: split_n.induct)
  case (3 n s)
  obtain a c where a: "cut1 s = (a, c)" by fastforce
  show ?case
  proof (cases c)
    case None
    with 3 a cut1_None[of s a] show ?thesis by auto
  next
    case (Some b)
    with 3(1)[OF a[symmetric] Some, of "split_n (Suc n) b"] 3(2) a cut1_Some[of s a b]
    show ?thesis by (cases "split_n (Suc n) b") auto
  qed
qed auto

definition ids_ok :: "room_route \<Rightarrow> bool" where
  "ids_ok r \<longleftrightarrow> list_all no_slash (ids_of r) \<and> (r \<noteq> ListRooms \<longrightarrow> hd (ids_of r) \<noteq> [])"

lemma words_no_slash [simp]:
  "no_slash ''rename''" "no_slash ''bindings''" "no_slash ''conversations''" "no_slash ''events''" "no_slash ''start''" "no_slash ''cancel''"
  by (simp_all add: no_slash_def)

lemma strip_prefix_app: "strip_prefix (p @ t) p = Some t"
  by (simp add: strip_prefix_def)

lemma strip_prefix_Some: "strip_prefix url p = Some t \<Longrightarrow> url = p @ t"
  by (auto simp: strip_prefix_def has_prefix_iff split: if_splits)

lemma strip_under_room: "strip_prefix (under_room rid ps) ''/api/rooms/'' = Some (join_with CHR ''/'' (rid # ps))"
  unfolding under_room_def by (rule strip_prefix_app)

lemma join_with_ne: "rid \<noteq> [] \<Longrightarrow> join_with c (rid # ps) \<noteq> []"
  by (cases ps) simp_all

lemma route_under_room:
  assumes "rid \<noteq> []" "no_slash rid" "\<forall>p \<in> set (butlast ps). no_slash p" "length ps \<le> 3" "length ps < 3 \<longrightarrow> ps = [] \<or> no_slash (last ps)"
  shows "handle_room_scoped m (under_room rid ps) =
    (case ps of
       [] \<Rightarrow> (case m of GET \<Rightarrow> Inr (RoomGet rid) | DELETE \<Rightarrow> Inr (RoomDelete rid) | _ \<Rightarrow> Inl 405)
     | op # tail \<Rightarrow>
         if tail = [] \<and> op = ''rename'' then (if m \<noteq> POST then Inl 405 else Inr (RoomRename rid))
         else if tail = [] \<and> op = ''bindings'' then (if m \<noteq> PUT then Inl 405 else Inr (RoomBindings rid))
         else if op = ''conversations'' then route_room_conversations m rid tail
         else if tail = [] \<and> op = ''events'' then (if m \<noteq> GET then Inl 405 else Inr (RoomEvents rid))
         else Inl 404)"
proof -
  have "split_n 4 (join_with CHR ''/'' (rid # ps)) = rid # ps"
    using assms by (intro split_n_join) auto
  then show ?thesis
    using assms(1) by (simp add: handle_room_scoped_def strip_under_room join_with_ne)
qed

lemma route_room_under [simp]: "route_room m (under_room rid ps) = handle_room_scoped m (under_room rid ps)"
  by (simp add: route_room_def under_room_def has_prefix_def)

lemma route_of_request:
  assumes "ids_ok r"
  shows "route_room (fst (request_of r)) (snd (request_of r)) = Inr r"
  using assms
  by (cases r) (simp_all add: ids_ok_def route_under_room route_room_conversations_def, simp add: route_room_def)

lemma conversations_request:
  assumes "route_room_conversations m rid tail = Inr r"
  shows "(m, under_room rid (''conversations'' # tail)) = request_of r \<and> ids_of r = rid # (if tail = [] then [] else [hd tail])
    \<and> r \<noteq> ListRooms"
  using assms by (auto simp: route_room_conversations_def split: list.splits meth.splits if_splits)

lemma request_of_route:
  assumes "route_room m url = Inr r"
  shows "(m, url) = request_of r \<and> ids_ok r"
proof (cases "url = ''/api/rooms''")
  case True
  with assms show ?thesis by (auto simp: route_room_def ids_ok_def split: if_splits)
next
  case False
  with assms have h: "handle_room_scoped m url = Inr r" by (simp add: route_room_def split: if_splits)
  then obtain tail where tail: "strip_prefix url ''/api/rooms/'' = Some tail" "tail \<noteq> []"
    by (auto simp: handle_room_scoped_def split: option.splits if_splits)
  note url = strip_prefix_Some[OF tail(1)]
  obtain rid ps where sp: "split_n 4 tail = rid # ps" and "rid \<noteq> []"
    using h tail by (auto simp: handle_room_scoped_def split: list.splits if_splits)
  from split_n_parts[OF sp] have j: "url = under_room rid ps"
    and ns: "\<forall>p \<in> set (butlast (rid # ps)). no_slash p" "length ps < 3 \<longrightarrow> no_slash (last (rid # ps))"
    unfolding url under_room_def by simp_all
  have "no_slash rid" using ns by (cases ps) auto
  show ?thesis
  proof (cases ps)
    case Nil
    with h tail sp \<open>rid \<noteq> []\<close> \<open>no_slash rid\<close> j show ?thesis
      by (auto simp: handle_room_scoped_def ids_ok_def split: meth.splits)
  next
    case (Cons op more)
    consider "op = ''conversations''" "route_room_conversations m rid more = Inr r" | "more = []" "r = RoomRename rid" "op = ''rename''" "m = POST"
      | "more = []" "r = RoomBindings rid" "op = ''bindings''" "m = PUT" | "more = []" "r = RoomEvents rid" "op = ''events''" "m = GET"
      using h tail sp \<open>rid \<noteq> []\<close> Cons by (auto simp: handle_room_scoped_def split: if_splits)
    then show ?thesis
    proof cases
      case 1
      have "no_slash (hd more)" if "more \<noteq> []" using ns that Cons by (cases more; cases "tl more") auto
      with 1 conversations_request[OF 1(2)] j Cons \<open>rid \<noteq> []\<close> \<open>no_slash rid\<close> show ?thesis
        by (auto simp: ids_ok_def)
    qed (use j Cons \<open>rid \<noteq> []\<close> \<open>no_slash rid\<close> in \<open>simp_all add: ids_ok_def\<close>)
  qed
qed

text \<open>The dispatch on path and method accepts exactly the requests of the page's table, each for the
  route and the ids it was made for: a Room's id is not empty and no id has a slash, and no other path or
  method reaches a handler.\<close>

theorem route_room_iff: "route_room m url = Inr r \<longleftrightarrow> (m, url) = request_of r \<and> ids_ok r"
  using request_of_route route_of_request by (metis fst_conv snd_conv)

subsection \<open>A browser's request is one of the command line's\<close>

text \<open>The request of the command line that a route stands for, on the Rooms and on the conversations.\<close>

fun room_op :: "renv \<Rightarrow> rbody \<Rightarrow> room_route \<Rightarrow> rop option" where
  "room_op e b (RoomDelete rid) = Some (OpStop (re_del e) (Some rid))"
| "room_op e b (RoomRename rid) = map_option (\<lambda>nm. OpRename (Some (rid, nm))) (rb_name b)"
| "room_op e b (RoomBindings rid) = map_option (\<lambda>bs. OpBindings (Some (rid, bs))) (rb_bindings b)"
| "room_op e b _ = None"

fun conv_op :: "renv \<Rightarrow> rbody \<Rightarrow> room_route \<Rightarrow> command option" where
  "conv_op e b (ConvCreate rid) =
     (case rb_create b of
        None \<Rightarrow> None
      | Some p \<Rightarrow> if cp_target p = [] then None else Some (CreateC (re_env e) (re_new_id e) (Some (p\<lparr>cp_room := rid\<rparr>))))"
| "conv_op e b (ConvStart rid cid) = Some (StartC (re_env e) (re_env2 e) (Some (rid, cid)))"
| "conv_op e b (ConvCancel rid cid) = Some (CancelC (re_env e) (Some (rid, cid, rb_reason b)))"
| "conv_op e b _ = None"

fun deletes_conv :: "room_route \<Rightarrow> bool" where
  "deletes_conv (ConvDelete rid cid) = True"
| "deletes_conv _ = False"

lemma serve_room_rooms:
  "hv_rooms (snd (serve_room e b r s)) =
     (case room_op e b r of None \<Rightarrow> hv_rooms s | Some x \<Rightarrow> rexec yaml (re_conn e) (re_spawn e, x) (hv_rooms s))"
  by (cases r) (simp_all add: serve_room_defs split: option.splits prod.splits sum.splits)

lemma serve_room_convs:
  "\<not> deletes_conv r \<Longrightarrow> hv_convs (snd (serve_room e b r s)) =
     (case conv_op e b r of None \<Rightarrow> hv_convs s | Some c \<Rightarrow> exec c (hv_convs s))"
  by (cases r) (simp_all add: serve_room_defs split: option.splits prod.splits sum.splits)

lemma room_op_saves: "room_op e b r = Some x \<Longrightarrow> re_del e \<Longrightarrow> sp_save (re_spawn e) \<Longrightarrow> saves (re_spawn e, x)"
  by (cases r) auto

text \<open>Whatever a browser asks, a path that leads nowhere, a wrong method, a body that does not decode
  or any route, the Rooms stay well formed and the state files stay the Rooms' snapshots when the files
  can be written; and unless it deletes a conversation, every conversation stays readable under its key
  and its status moves only along the diagram.\<close>

theorem http_keeps_invariants:
  assumes "daemon_typed (hv_rooms s)" "mirrored (rd_core (hv_rooms s))" "\<not> hd_shutting (rd_core (hv_rooms s))"
    and "re_del e" "sp_save (re_spawn e)" "life_inv (hv_convs s)" "serve e m url b s = (a, s')"
  shows "daemon_typed (hv_rooms s') \<and> mirrored (rd_core (hv_rooms s')) \<and>
    ((\<forall>rid cid. route_room m url \<noteq> Inr (ConvDelete rid cid)) \<longrightarrow>
      life_inv (hv_convs s') \<and> moves (store_of (hv_convs s)) (store_of (hv_convs s')))"
proof (cases "route_room m url")
  case (Inl st)
  with assms show ?thesis by (simp add: serve_def)
next
  case (Inr r)
  with assms(7) have s': "s' = snd (serve_room e b r s)" by (simp add: serve_def)
  have "daemon_typed (hv_rooms s') \<and> mirrored (rd_core (hv_rooms s'))"
    unfolding s' serve_room_rooms[where yaml = "\<lambda>_. None"]
    using assms(1-5) rexec_typed rexec_mirrored room_op_saves by (auto split: option.split)
  moreover have "life_inv (hv_convs s') \<and> moves (store_of (hv_convs s)) (store_of (hv_convs s'))" if "\<not> deletes_conv r"
    unfolding s' serve_room_convs[OF that] using assms(6) exec_step by (auto split: option.split)
  moreover have "deletes_conv r \<Longrightarrow> \<exists>rid cid. r = ConvDelete rid cid" by (cases r) simp_all
  ultimately show ?thesis using Inr by auto
qed

definition renv_a :: renv where
  "renv_a = \<lparr>re_ids = [], re_convs = [], re_conn = (\<lambda>_ _. 0), re_del = True, re_rm = True, re_spawn = spawn_a, re_env = env_a,
     re_env2 = env_a, re_new_id = ''c9''\<rparr>"

definition no_body :: rbody where
  "no_body = \<lparr>rb_name = None, rb_bindings = None, rb_create = None, rb_reason = []\<rparr>"

theorem http_keeps_invariants_witness:
  "let (m, url) = request_of (ConvCancel ''r1'' ''c1'');
       s' = snd (serve renv_a m url no_body \<lparr>hv_rooms = boot, hv_convs = cdaemon_p\<rparr>)
   in life_inv (hv_convs s') \<and> (\<exists>c'. load_conv (store_of (hv_convs s')) (''r1'', ''c1'') = Inr c' \<and> advances conv_p c')"
proof -
  let ?s = "\<lparr>hv_rooms = boot, hv_convs = cdaemon_p\<rparr>" and ?r = "ConvCancel ''r1'' ''c1''"
  obtain m url where mu: "request_of ?r = (m, url)" by fastforce
  have "ids_ok ?r" by (simp add: ids_ok_def no_slash_def)
  with mu have route: "route_room m url = Inr ?r" using route_of_request[of ?r] by simp
  have "mirrored (rd_core boot)" "\<not> hd_shutting (rd_core boot)" "re_del renv_a" "sp_save (re_spawn renv_a)"
    by (simp_all add: boot_def mirrored_def boss_daemon_def renv_a_def spawn_a_def)
  moreover note boot_typed
  moreover have "life_inv cdaemon_p" by (simp add: life_inv_def placed_p)
  ultimately have "life_inv (hv_convs (snd (serve renv_a m url no_body ?s)))
      \<and> moves (store_of cdaemon_p) (store_of (hv_convs (snd (serve renv_a m url no_body ?s))))"
    using http_keeps_invariants[of ?s renv_a m url no_body, OF _ _ _ _ _ _ surjective_pairing] route by simp
  then show ?thesis using load_p mu by (auto simp: moves_def Let_def)
qed

text \<open>Removing a volume on the command line also removes its event bus. The browser's removal changes only
  the directories and the files, so the bus lives on, and a volume made again under that name gets it.\<close>

lemma remove_volume_drops_bus:
  assumes "valid_volume_name nm"
  shows "map_of (em_buses (rd_bus (snd (handle_volume_remove yaml True (Some nm) s)))) (volume_key nm) = None"
proof -
  have "map_of (em_buses (remove_scope (volume_key nm) m)) (volume_key nm) = None" for m
    by (auto simp: remove_scope_def on_bus_def Let_def map_of_eq_None_iff split: option.split)
  with assms show ?thesis by (simp add: handle_volume_remove_def volume_remove_def sync_lookups_def)
qed

lemma empty_addr_listens: "listens (listen_addr [] [])"
  by (simp add: listens_def listen_addr_def)

end
