(* ===== verification/Protocol.thy ===== *)
theory Protocol
  imports Hive_Prelude
begin

section \<open>Messages and framing (internal/protocol/message.go, codec.go)\<close>

text \<open>
  The envelope of JSON-RPC and the line framing both ends of a connection use. The id, the
  parameters and the result are raw JSON, absent when empty. JSON itself is the library's: encoding
  and decoding of a message are arguments \<open>enc\<close> and \<open>dec\<close>, where the decoder gets the line with
  its end. \<open>conn_read_all\<close> is what the daemon's read loop gets from a stream, which ends
  at the first line it cannot decode, \<open>sdk_read_all\<close> what an agent's gets, which skips such a line.
\<close>

record wire_error =
  we_code :: int
  we_message :: string

record rpc_message =
  rm_id :: string
  rm_method :: string
  rm_params :: string
  rm_result :: string
  rm_error :: "wire_error option"

definition is_request :: "rpc_message \<Rightarrow> bool" where
  "is_request m \<longleftrightarrow> rm_method m \<noteq> [] \<and> 0 < length (rm_id m)"

definition is_notification :: "rpc_message \<Rightarrow> bool" where
  "is_notification m \<longleftrightarrow> rm_method m \<noteq> [] \<and> length (rm_id m) = 0"

definition is_response :: "rpc_message \<Rightarrow> bool" where
  "is_response m \<longleftrightarrow> rm_method m = [] \<and> 0 < length (rm_id m)"

text \<open>An argument that is marshalled is none when it has no JSON; the value nil is the empty string.\<close>

definition new_request :: "string option \<Rightarrow> string \<Rightarrow> string option \<Rightarrow> rpc_message res" where
  "new_request i meth params =
     (case i of
        None \<Rightarrow> Inl Plain
      | Some i \<Rightarrow>
          (case params of
             None \<Rightarrow> Inl Plain
           | Some p \<Rightarrow> Inr \<lparr>rm_id = i, rm_method = meth, rm_params = p, rm_result = [], rm_error = None\<rparr>))"

definition new_notification :: "string \<Rightarrow> string option \<Rightarrow> rpc_message res" where
  "new_notification meth params =
     (case params of
        None \<Rightarrow> Inl Plain
      | Some p \<Rightarrow> Inr \<lparr>rm_id = [], rm_method = meth, rm_params = p, rm_result = [], rm_error = None\<rparr>)"

definition new_response :: "string \<Rightarrow> string option \<Rightarrow> rpc_message res" where
  "new_response i result =
     (case result of
        None \<Rightarrow> Inl Plain
      | Some r \<Rightarrow> Inr \<lparr>rm_id = i, rm_method = [], rm_params = [], rm_result = r, rm_error = None\<rparr>)"

definition new_error_response :: "string \<Rightarrow> wire_error \<Rightarrow> rpc_message" where
  "new_error_response i e = \<lparr>rm_id = i, rm_method = [], rm_params = [], rm_result = [], rm_error = Some e\<rparr>"

text \<open>A message is at most one of the three, and one that is none has neither a method nor an id.\<close>

lemma message_kinds:
  "\<not> (is_request m \<and> is_notification m)" "\<not> (is_request m \<and> is_response m)" "\<not> (is_notification m \<and> is_response m)"
  "\<not> is_request m \<Longrightarrow> \<not> is_notification m \<Longrightarrow> \<not> is_response m \<Longrightarrow> rm_method m = [] \<and> rm_id m = []"
  by (auto simp: is_request_def is_notification_def is_response_def)

lemma new_kinds:
  "new_request (Some i) meth p = Inr m \<Longrightarrow> i \<noteq> [] \<Longrightarrow> meth \<noteq> [] \<Longrightarrow> is_request m"
  "new_notification meth p = Inr m \<Longrightarrow> meth \<noteq> [] \<Longrightarrow> is_notification m"
  "new_response i r = Inr m \<Longrightarrow> i \<noteq> [] \<Longrightarrow> is_response m"
  "i \<noteq> [] \<Longrightarrow> is_response (new_error_response i e)"
  by (auto simp: new_request_def new_notification_def new_response_def new_error_response_def is_request_def
      is_notification_def is_response_def split: option.splits)

subsection \<open>Lines\<close>

definition newline :: char where "newline = CHR 0x0A"

definition frame :: "string \<Rightarrow> string" where
  "frame b = b @ [newline]"

text \<open>\<^verbatim>\<open>ReadBytes\<close>: the bytes up to the delimiter and it, or at the end of the stream what is left. The
  stream is the bytes that will arrive until it ends.\<close>

definition read_bytes :: "string \<Rightarrow> string \<times> string" where
  "read_bytes s = (case index_of newline s of None \<Rightarrow> (s, []) | Some i \<Rightarrow> (take (Suc i) s, drop (Suc i) s))"

datatype 'm read_result = ReadClosed | ReadBad string | ReadMsg 'm string

definition read_message :: "(string \<Rightarrow> 'm option) \<Rightarrow> string \<Rightarrow> 'm read_result" where
  "read_message dec s =
     (case read_bytes s of
        (line, rest) \<Rightarrow>
          if line = [] then ReadClosed
          else case dec line of None \<Rightarrow> ReadBad rest | Some m \<Rightarrow> ReadMsg m rest)"

definition write_message :: "('m \<Rightarrow> string option) \<Rightarrow> 'm \<Rightarrow> string \<Rightarrow> unit res \<times> string" where
  "write_message enc m out = (case enc m of None \<Rightarrow> (Inl Plain, out) | Some b \<Rightarrow> (Inr (), out @ frame b))"

lemma read_bytes_shorter: "read_bytes s = (line, rest) \<Longrightarrow> line \<noteq> [] \<Longrightarrow> length rest < length s"
  by (cases s) (auto simp: read_bytes_def split: option.splits)

lemma read_message_shorter:
  "read_message dec s = ReadMsg m rest \<Longrightarrow> length rest < length s"
  "read_message dec s = ReadBad rest \<Longrightarrow> length rest < length s"
  by (auto simp: read_message_def read_bytes_shorter split: prod.splits option.splits if_splits)

function conn_read_all :: "(string \<Rightarrow> 'm option) \<Rightarrow> string \<Rightarrow> 'm list" where
  "conn_read_all dec s =
     (case read_message dec s of ReadMsg m rest \<Rightarrow> m # conn_read_all dec rest | _ \<Rightarrow> [])"
  by pat_completeness auto
termination
  by (relation "measure (length \<circ> snd)") (auto simp: read_message_shorter)

function sdk_read_all :: "(string \<Rightarrow> 'm option) \<Rightarrow> string \<Rightarrow> 'm list" where
  "sdk_read_all dec s =
     (case read_message dec s of
        ReadMsg m rest \<Rightarrow> m # sdk_read_all dec rest
      | ReadBad rest \<Rightarrow> sdk_read_all dec rest
      | ReadClosed \<Rightarrow> [])"
  by pat_completeness auto
termination
  by (relation "measure (length \<circ> snd)") (auto simp: read_message_shorter)

declare conn_read_all.simps [simp del] sdk_read_all.simps [simp del]

lemma read_frame:
  assumes "newline \<notin> set b"
  shows "read_message dec (frame b @ s) = (case dec (frame b) of None \<Rightarrow> ReadBad s | Some m \<Rightarrow> ReadMsg m s)"
proof -
  have "index_of newline (b @ newline # s) = Some (length b)" using assms by (rule index_of_append)
  then show ?thesis by (simp add: read_message_def read_bytes_def frame_def split: option.split)
qed

lemma read_nothing [simp]: "read_message dec [] = ReadClosed"
  by (simp add: read_message_def read_bytes_def)

lemma conn_read_frame:
  "newline \<notin> set b \<Longrightarrow> dec (frame b) = Some m \<Longrightarrow> conn_read_all dec (frame b @ s) = m # conn_read_all dec s"
  "conn_read_all dec [] = []"
  by (simp_all add: conn_read_all.simps[of dec "frame b @ s"] conn_read_all.simps[of dec "[]"] read_frame)

text \<open>Writers take turns under the lock, so what is on the stream is whole messages in some order.\<close>

definition stream_of :: "('m \<Rightarrow> string option) \<Rightarrow> 'm list \<Rightarrow> string" where
  "stream_of enc ms = fold (\<lambda>m out. snd (write_message enc m out)) ms []"

lemma fold_write:
  "\<forall>m \<in> set ms. enc m = Some (f m) \<Longrightarrow> fold (\<lambda>m out. snd (write_message enc m out)) ms out = out @ concat (map (frame \<circ> f) ms)"
  by (induction ms arbitrary: out) (simp_all add: write_message_def)

text \<open>C33. What one end writes the other end reads: the messages written on a stream, in the order of the
  lock, are exactly those both read loops get from it, if JSON has no line end inside and decodes what it
  encodes.\<close>

theorem framing_roundtrip:
  assumes "\<And>m. m \<in> set ms \<Longrightarrow> \<exists>b. enc m = Some b \<and> newline \<notin> set b \<and> dec (frame b) = Some m"
  shows "conn_read_all dec (stream_of enc ms) = ms \<and> sdk_read_all dec (stream_of enc ms) = ms"
proof -
  define f where "f = (\<lambda>m. the (enc m))"
  have f: "\<forall>m \<in> set ms. enc m = Some (f m) \<and> newline \<notin> set (f m) \<and> dec (frame (f m)) = Some m"
    using assms by (fastforce simp: f_def)
  have "stream_of enc ms = concat (map (frame \<circ> f) ms)"
    using f fold_write[of ms enc f "[]"] by (simp add: stream_of_def)
  moreover have "conn_read_all dec (concat (map (frame \<circ> f) ms)) = ms \<and> sdk_read_all dec (concat (map (frame \<circ> f) ms)) = ms"
    using f
  proof (induction ms)
    case (Cons m ms)
    then show ?case
      by (subst conn_read_all.simps, subst sdk_read_all.simps) (simp add: read_frame comp_def)
  qed (simp_all add: conn_read_all.simps sdk_read_all.simps)
  ultimately show ?thesis by simp
qed

definition num_dec :: "string \<Rightarrow> nat option" where
  "num_dec s = Some (read_nat (butlast s))"

lemma show_nat_no_newline: "newline \<notin> set (show_nat n)"
proof (induction n rule: show_nat.induct)
  case (1 n)
  have d: "newline \<noteq> digit k" if "k < 10" for k
  proof
    assume "newline = digit k"
    then have "of_char newline = (of_char (digit k) :: nat)" by simp
    with that show False by (simp add: digit_def newline_def)
  qed
  show ?case
    using d[of "n mod 10"] d[of n] 1 by (subst show_nat.simps) auto
qed

theorem framing_roundtrip_witness:
  "conn_read_all num_dec (stream_of (Some \<circ> show_nat) [7, 1024]) = [7, 1024]"
  using framing_roundtrip[of "[7, 1024]" "Some \<circ> show_nat" num_dec]
  by (simp add: show_nat_no_newline num_dec_def frame_def read_show_nat)

text \<open>One line that does not decode ends the daemon's reading for good; an agent's goes on.\<close>

lemma bad_line_ends_reading:
  assumes "newline \<notin> set b" "dec (frame b) = None"
  shows "conn_read_all dec (frame b @ s) = []" "sdk_read_all dec (frame b @ s) = sdk_read_all dec s"
  using assms by (simp_all add: conn_read_all.simps[of dec "frame b @ s"] sdk_read_all.simps[of dec "frame b @ s"] read_frame)

text \<open>The last line needs no end: a message cut off by the end of the stream is decoded as it is.\<close>

lemma last_line_unterminated: "newline \<notin> set b \<Longrightarrow> b \<noteq> [] \<Longrightarrow> dec b = Some m \<Longrightarrow> conn_read_all dec b = [m]"
  by (simp add: conn_read_all.simps read_message_def read_bytes_def index_of_None[THEN iffD2])

end
