(* ===== verification/Conn.thy ===== *)
theory Conn
  imports Protocol
begin

section \<open>The daemon's end of a connection (internal/agent/conn.go)\<close>

text \<open>
  A call to an agent registers a channel of one place under a new id, writes its request and waits
  for the channel, its context or the end of the process; the read loop looks the id of a response up
  under the lock and sends outside it; when the process has ended, the wait loop closes all channels
  and drops the table. These are steps of goroutines that interleave: \<open>conn_step\<close> is one of them, none
  when it cannot be taken now. A channel is named by the id it was made for. Sending to a
  closed channel, a nil response and an assignment to the nil table are panics of the Go runtime,
  which nothing recovers. \<open>parse\<close> reads the id of a message as a 64-bit integer.

  The locale \<open>call_table\<close> is the contract of such a table of pending calls, for the daemon's end
  here and for the agents' in \<open>Sdk\<close>.
\<close>

fun run_steps :: "('a \<Rightarrow> 's \<Rightarrow> 's option) \<Rightarrow> 'a list \<Rightarrow> 's \<Rightarrow> 's option" where
  "run_steps step [] s = Some s"
| "run_steps step (a # as) s = (case step a s of None \<Rightarrow> None | Some s \<Rightarrow> run_steps step as s)"

subsection \<open>The contract of a table of pending calls\<close>

locale call_table =
  fixes step :: "'a \<Rightarrow> 's \<Rightarrow> 's option"
    and inv :: "'s \<Rightarrow> bool"
    and answer :: "'s \<Rightarrow> int \<Rightarrow> rpc_message option"
    and received :: "'s \<Rightarrow> rpc_message list"
    and parse :: "string \<Rightarrow> int option"
  assumes inv_step: "inv s \<Longrightarrow> step a s = Some s' \<Longrightarrow> inv s'"
    and received_step: "step a s = Some s' \<Longrightarrow> set (received s) \<subseteq> set (received s')"
    and inv_answer: "inv s \<Longrightarrow> answer s i = Some m \<Longrightarrow> parse (rm_id m) = Some i \<and> m \<in> set (received s)"
begin

lemma run_inv: "inv s \<Longrightarrow> run_steps step as s = Some s' \<Longrightarrow> inv s'"
  by (induction as arbitrary: s) (auto split: option.splits dest: inv_step)

lemma run_received: "run_steps step as s = Some s' \<Longrightarrow> set (received s) \<subseteq> set (received s')"
proof (induction as arbitrary: s)
  case (Cons a as)
  then obtain t where t: "step a s = Some t" "run_steps step as t = Some s'" by (auto split: option.splits)
  from received_step[OF t(1)] Cons.IH[OF t(2)] show ?case by blast
qed simp

lemma own_answer:
  "inv s \<Longrightarrow> run_steps step as s = Some s' \<Longrightarrow> answer s' i = Some m \<Longrightarrow> parse (rm_id m) = Some i \<and> m \<in> set (received s')"
  using run_inv inv_answer by blast

text \<open>Answers with different ids go to different calls.\<close>

lemma no_mixup:
  "inv s \<Longrightarrow> run_steps step as s = Some s' \<Longrightarrow> answer s' i = Some m \<Longrightarrow> answer s' j = Some m \<Longrightarrow> i = j"
  using own_answer[of s as s' i m] own_answer[of s as s' j m] by simp

end

subsection \<open>Calls\<close>

datatype call_phase = Registered | Waiting | Answered rpc_message | CallFailed

record conn =
  cn_next :: int
  cn_pending :: "int set option"
  cn_buf :: "int \<Rightarrow> rpc_message list"
  cn_shut :: "int \<Rightarrow> bool"
  cn_phase :: "int \<rightharpoonup> call_phase"
  cn_held :: "(int \<times> rpc_message) option"
  cn_received :: "rpc_message list"
  cn_done :: bool
  cn_panicked :: bool

definition new_conn :: conn where
  "new_conn = \<lparr>cn_next = 0, cn_pending = Some {}, cn_buf = (\<lambda>_. []), cn_shut = (\<lambda>_. False), cn_phase = Map.empty,
     cn_held = None, cn_received = [], cn_done = False, cn_panicked = False\<rparr>"

definition panic :: "conn \<Rightarrow> conn" where
  "panic c = c\<lparr>cn_panicked := True\<rparr>"

text \<open>The deferred removal runs however a call ends; removing from the nil table does nothing.\<close>

definition call_end :: "int \<Rightarrow> call_phase \<Rightarrow> conn \<Rightarrow> conn" where
  "call_end i p c = c\<lparr>cn_phase := (cn_phase c)(i \<mapsto> p), cn_pending := map_option (\<lambda>t. t - {i}) (cn_pending c)\<rparr>"

definition call_register :: "conn \<Rightarrow> conn" where
  "call_register c =
     (let i = wrap64 (cn_next c + 1); c = c\<lparr>cn_next := i\<rparr> in
      case cn_pending c of
        None \<Rightarrow> panic c
      | Some t \<Rightarrow> c\<lparr>cn_pending := Some (insert i t), cn_buf := (cn_buf c)(i := []), cn_shut := (cn_shut c)(i := False),
                     cn_phase := (cn_phase c)(i \<mapsto> Registered)\<rparr>)"

definition call_written :: "int \<Rightarrow> bool \<Rightarrow> conn \<Rightarrow> conn option" where
  "call_written i ok c =
     (if cn_phase c i \<noteq> Some Registered then None
      else if ok then Some (c\<lparr>cn_phase := (cn_phase c)(i \<mapsto> Waiting)\<rparr>)
      else Some (call_end i CallFailed c))"

text \<open>A receive from a closed and empty channel gives nil, and the next line reads a field of it.\<close>

definition call_receive :: "int \<Rightarrow> conn \<Rightarrow> conn option" where
  "call_receive i c =
     (if cn_phase c i \<noteq> Some Waiting then None
      else case cn_buf c i of
          m # ms \<Rightarrow> Some (call_end i (Answered m) (c\<lparr>cn_buf := (cn_buf c)(i := ms)\<rparr>))
        | [] \<Rightarrow> if cn_shut c i then Some (panic c) else None)"

definition call_give_up :: "int \<Rightarrow> conn \<Rightarrow> conn option" where
  "call_give_up i c = (if cn_phase c i = Some Waiting then Some (call_end i CallFailed c) else None)"

definition call_see_done :: "int \<Rightarrow> conn \<Rightarrow> conn option" where
  "call_see_done i c = (if cn_done c then call_give_up i c else None)"

text \<open>What an answered call returns.\<close>

definition call_answer :: "rpc_message \<Rightarrow> wire_error + string" where
  "call_answer m = (case rm_error m of Some e \<Rightarrow> Inl e | None \<Rightarrow> Inr (rm_result m))"

subsection \<open>The read loop and the wait loop\<close>

definition read_response :: "(string \<Rightarrow> int option) \<Rightarrow> rpc_message \<Rightarrow> conn \<Rightarrow> conn option" where
  "read_response parse m c =
     (if cn_held c \<noteq> None \<or> \<not> is_response m then None
      else (let c = c\<lparr>cn_received := cn_received c @ [m]\<rparr> in
        case parse (rm_id m) of
          None \<Rightarrow> Some c
        | Some i \<Rightarrow> Some (if (case cn_pending c of None \<Rightarrow> False | Some t \<Rightarrow> i \<in> t) then c\<lparr>cn_held := Some (i, m)\<rparr> else c)))"

definition send_held :: "conn \<Rightarrow> conn option" where
  "send_held c =
     (case cn_held c of
        None \<Rightarrow> None
      | Some (i, m) \<Rightarrow>
          if cn_shut c i then Some (panic c)
          else if cn_buf c i = [] then Some (c\<lparr>cn_buf := (cn_buf c)(i := [m]), cn_held := None\<rparr>)
          else None)"

definition wait_done :: "conn \<Rightarrow> conn option" where
  "wait_done c = (if cn_done c then None else Some (c\<lparr>cn_done := True\<rparr>))"

definition wait_close :: "conn \<Rightarrow> conn option" where
  "wait_close c =
     (if \<not> cn_done c then None
      else case cn_pending c of
          None \<Rightarrow> None
        | Some t \<Rightarrow> Some (c\<lparr>cn_shut := (\<lambda>i. i \<in> t \<or> cn_shut c i), cn_pending := None\<rparr>))"

datatype conn_act =
    Call | Wrote int bool | Receive int | GiveUp int | SeeDone int
  | ReadResp rpc_message | SendHeld | WaitDone | WaitClose

fun conn_do :: "(string \<Rightarrow> int option) \<Rightarrow> conn_act \<Rightarrow> conn \<Rightarrow> conn option" where
  "conn_do parse Call c = Some (call_register c)"
| "conn_do parse (Wrote i ok) c = call_written i ok c"
| "conn_do parse (Receive i) c = call_receive i c"
| "conn_do parse (GiveUp i) c = call_give_up i c"
| "conn_do parse (SeeDone i) c = call_see_done i c"
| "conn_do parse (ReadResp m) c = read_response parse m c"
| "conn_do parse SendHeld c = send_held c"
| "conn_do parse WaitDone c = wait_done c"
| "conn_do parse WaitClose c = wait_close c"

definition conn_step :: "(string \<Rightarrow> int option) \<Rightarrow> conn_act \<Rightarrow> conn \<Rightarrow> conn option" where
  "conn_step parse a c = (if cn_panicked c then None else conn_do parse a c)"

definition conn_answer :: "conn \<Rightarrow> int \<Rightarrow> rpc_message option" where
  "conn_answer c i = (case cn_phase c i of Some (Answered m) \<Rightarrow> Some m | _ \<Rightarrow> None)"

subsection \<open>Every answer goes to its call\<close>

definition for_call :: "(string \<Rightarrow> int option) \<Rightarrow> conn \<Rightarrow> int \<Rightarrow> rpc_message \<Rightarrow> bool" where
  "for_call parse c i m \<longleftrightarrow> parse (rm_id m) = Some i \<and> m \<in> set (cn_received c)"

definition conn_inv :: "(string \<Rightarrow> int option) \<Rightarrow> conn \<Rightarrow> bool" where
  "conn_inv parse c \<longleftrightarrow>
     (\<forall>i m. m \<in> set (cn_buf c i) \<longrightarrow> for_call parse c i m)
     \<and> (\<forall>i m. cn_phase c i = Some (Answered m) \<longrightarrow> for_call parse c i m)
     \<and> (\<forall>i m. cn_held c = Some (i, m) \<longrightarrow> for_call parse c i m)
     \<and> (\<forall>i. length (cn_buf c i) \<le> 1)
     \<and> (cn_pending c \<noteq> None \<longrightarrow> \<not> cn_panicked c \<and> (\<forall>i. \<not> cn_shut c i))
     \<and> (cn_pending c = None \<longrightarrow> cn_done c)"

lemma new_conn_inv: "conn_inv parse new_conn"
  by (simp add: conn_inv_def new_conn_def)

lemma panic_inv: "conn_inv parse c \<Longrightarrow> cn_pending c = None \<Longrightarrow> conn_inv parse (panic c)"
  by (simp add: conn_inv_def for_call_def panic_def)

lemma shut_pending: "conn_inv parse c \<Longrightarrow> cn_shut c i \<Longrightarrow> cn_pending c = None"
  by (auto simp: conn_inv_def)

lemma call_end_inv: "conn_inv parse c \<Longrightarrow> (\<And>m. p = Answered m \<Longrightarrow> for_call parse c i m) \<Longrightarrow> conn_inv parse (call_end i p c)"
  by (auto simp: conn_inv_def for_call_def call_end_def)

lemma waiting_inv: "conn_inv parse c \<Longrightarrow> conn_inv parse (c\<lparr>cn_phase := (cn_phase c)(i \<mapsto> Waiting)\<rparr>)"
  by (simp add: conn_inv_def for_call_def)

lemma set_buf_inv:
  "conn_inv parse c \<Longrightarrow> length ms \<le> 1 \<Longrightarrow> (\<And>m. m \<in> set ms \<Longrightarrow> for_call parse c i m) \<Longrightarrow> conn_inv parse (c\<lparr>cn_buf := (cn_buf c)(i := ms)\<rparr>)"
  unfolding conn_inv_def for_call_def by simp

lemma call_receive_inv:
  assumes "conn_inv parse c" "call_receive i c = Some c'"
  shows "conn_inv parse c'"
proof (cases "cn_buf c i")
  case Nil
  with assms(2) have "cn_shut c i" "c' = panic c" by (auto simp: call_receive_def split: if_splits)
  with assms(1) shut_pending panic_inv show ?thesis by blast
next
  case (Cons m ms)
  from assms(1) have "length (cn_buf c i) \<le> 1" "\<And>m. m \<in> set (cn_buf c i) \<Longrightarrow> for_call parse c i m"
    by (simp_all add: conn_inv_def)
  with Cons have m: "ms = []" "for_call parse c i m" by simp_all
  then have "conn_inv parse (c\<lparr>cn_buf := (cn_buf c)(i := ms)\<rparr>)" using assms(1) by (intro set_buf_inv) simp_all
  with m have "conn_inv parse (call_end i (Answered m) (c\<lparr>cn_buf := (cn_buf c)(i := ms)\<rparr>))"
    by (intro call_end_inv) (simp_all add: for_call_def)
  with assms(2) Cons show ?thesis by (simp add: call_receive_def split: if_splits)
qed

lemma call_register_inv: "conn_inv parse c \<Longrightarrow> conn_inv parse (call_register c)"
  by (cases "cn_pending c") (simp_all add: call_register_def panic_def conn_inv_def for_call_def Let_def)

lemma read_response_inv:
  assumes "conn_inv parse c" "read_response parse m c = Some c'"
  shows "conn_inv parse c'"
proof -
  let ?c = "c\<lparr>cn_received := cn_received c @ [m]\<rparr>"
  have inv: "conn_inv parse ?c" using assms(1) unfolding conn_inv_def for_call_def by simp
  from assms(2) have "c' = ?c \<or> (\<exists>i. parse (rm_id m) = Some i \<and> c' = ?c\<lparr>cn_held := Some (i, m)\<rparr>)"
    by (auto simp: read_response_def Let_def split: if_splits option.splits)
  with inv show ?thesis unfolding conn_inv_def for_call_def by auto
qed

lemma send_held_inv:
  assumes "conn_inv parse c" "send_held c = Some c'"
  shows "conn_inv parse c'"
proof -
  from assms(2) obtain i m where h: "cn_held c = Some (i, m)" by (auto simp: send_held_def split: option.splits)
  with assms(1) have f: "for_call parse c i m" by (simp add: conn_inv_def)
  show ?thesis
  proof (cases "cn_shut c i")
    case True
    with h assms(2) have "c' = panic c" by (simp add: send_held_def)
    with True assms(1) shut_pending panic_inv show ?thesis by blast
  next
    case False
    from assms(1) f have "conn_inv parse (c\<lparr>cn_buf := (cn_buf c)(i := [m])\<rparr>)" by (intro set_buf_inv) simp_all
    then have "conn_inv parse (c\<lparr>cn_buf := (cn_buf c)(i := [m]), cn_held := None\<rparr>)"
      by (simp add: conn_inv_def for_call_def)
    moreover from h False assms(2) have "c' = c\<lparr>cn_buf := (cn_buf c)(i := [m]), cn_held := None\<rparr>"
      by (simp add: send_held_def split: if_splits)
    ultimately show ?thesis by simp
  qed
qed

lemma conn_step_inv:
  assumes "conn_inv parse c" "conn_step parse a c = Some c'"
  shows "conn_inv parse c'"
proof -
  from assms(2) have "conn_do parse a c = Some c'" by (simp add: conn_step_def split: if_splits)
  then show ?thesis
  proof (cases a)
    case (Wrote i ok)
    with \<open>conn_do parse a c = Some c'\<close>
    have "c' = c\<lparr>cn_phase := (cn_phase c)(i \<mapsto> Waiting)\<rparr> \<or> c' = call_end i CallFailed c"
      by (auto simp: call_written_def split: if_splits)
    with assms(1) call_end_inv[of parse c CallFailed i] waiting_inv show ?thesis by auto
  next
    case WaitDone
    with \<open>conn_do parse a c = Some c'\<close> have "c' = c\<lparr>cn_done := True\<rparr>" by (simp add: wait_done_def split: if_splits)
    with assms(1) show ?thesis by (simp add: conn_inv_def for_call_def)
  next
    case WaitClose
    with \<open>conn_do parse a c = Some c'\<close> obtain t where "cn_done c"
      "c' = c\<lparr>cn_shut := (\<lambda>i. i \<in> t \<or> cn_shut c i), cn_pending := None\<rparr>"
      by (auto simp: wait_close_def split: if_splits option.splits)
    with assms(1) show ?thesis by (simp add: conn_inv_def for_call_def)
  next
    case (Receive i)
    with \<open>conn_do parse a c = Some c'\<close> assms(1) show ?thesis by (simp add: call_receive_inv)
  next
    case (ReadResp m)
    with \<open>conn_do parse a c = Some c'\<close> assms(1) show ?thesis by (simp add: read_response_inv)
  next
    case SendHeld
    with \<open>conn_do parse a c = Some c'\<close> assms(1) show ?thesis by (simp add: send_held_inv)
  next
    case Call
    with \<open>conn_do parse a c = Some c'\<close> assms(1) show ?thesis by (auto simp: call_register_inv)
  qed (use \<open>conn_do parse a c = Some c'\<close> call_end_inv[OF assms(1), of CallFailed] in
      \<open>auto simp: call_see_done_def call_give_up_def split: if_splits\<close>)
qed

lemma received_mono: "conn_step parse a c = Some c' \<Longrightarrow> set (cn_received c) \<subseteq> set (cn_received c')"
  by (cases a) (auto simp: conn_step_def call_register_def call_written_def call_receive_def call_give_up_def call_see_done_def
      read_response_def send_held_def wait_done_def wait_close_def panic_def call_end_def Let_def split: if_splits option.splits list.splits)

interpretation conn_calls: call_table "conn_step parse" "conn_inv parse" conn_answer cn_received parse for parse
proof
  show "conn_inv parse c \<Longrightarrow> conn_answer c i = Some m \<Longrightarrow> parse (rm_id m) = Some i \<and> m \<in> set (cn_received c)" for c i m
    unfolding conn_inv_def for_call_def by (auto simp: conn_answer_def split: option.splits call_phase.splits)
qed (fact conn_step_inv received_mono)+

text \<open>C23. However calls, the read loop and the wait loop interleave, a call that is answered is answered by a
  message the agent sent with the id of that call, and no step of the connection panics before the wait
  loop has dropped the table of an agent that ended.\<close>

theorem calls_get_their_answers:
  assumes "run_steps (conn_step parse) acts new_conn = Some c"
  shows "(\<forall>i m. cn_phase c i = Some (Answered m) \<longrightarrow> parse (rm_id m) = Some i \<and> m \<in> set (cn_received c))
    \<and> (cn_panicked c \<longrightarrow> cn_pending c = None \<and> cn_done c)"
proof -
  have "conn_inv parse c" using conn_calls.run_inv[OF new_conn_inv assms] .
  moreover have "parse (rm_id m) = Some i \<and> m \<in> set (cn_received c)" if "cn_phase c i = Some (Answered m)" for i m
    using conn_calls.own_answer[OF new_conn_inv assms, of i m] that by (simp add: conn_answer_def)
  ultimately show ?thesis by (auto simp: conn_inv_def)
qed

definition reply :: "string \<Rightarrow> string \<Rightarrow> rpc_message" where
  "reply i r = \<lparr>rm_id = i, rm_method = [], rm_params = [], rm_result = r, rm_error = None\<rparr>"

definition parse_12 :: "string \<Rightarrow> int option" where
  "parse_12 s = (if s = ''1'' then Some 1 else if s = ''2'' then Some 2 else None)"

lemmas conn_eval = conn_step_def call_register_def call_written_def call_receive_def call_give_up_def call_see_done_def
  read_response_def send_held_def wait_done_def wait_close_def panic_def call_end_def Let_def new_conn_def wrap64_def

text \<open>Two calls are answered in the other order.\<close>

definition two_calls :: "conn_act list" where
  "two_calls = [Call, Wrote 1 True, Call, Wrote 2 True, ReadResp (reply ''2'' ''b''), SendHeld, ReadResp (reply ''1'' ''a''), SendHeld,
     Receive 1, Receive 2]"

lemma two_calls_run:
  "\<exists>c. run_steps (conn_step parse_12) two_calls new_conn = Some c \<and> cn_phase c 1 = Some (Answered (reply ''1'' ''a''))
     \<and> cn_phase c 2 = Some (Answered (reply ''2'' ''b''))"
  by (simp add: two_calls_def conn_eval parse_12_def reply_def is_response_def)

theorem calls_get_their_answers_witness:
  "\<exists>c. run_steps (conn_step parse_12) two_calls new_conn = Some c
     \<and> parse_12 (rm_id (reply ''1'' ''a'')) = Some 1 \<and> reply ''1'' ''a'' \<in> set (cn_received c)"
proof -
  obtain c where c: "run_steps (conn_step parse_12) two_calls new_conn = Some c" "cn_phase c 1 = Some (Answered (reply ''1'' ''a''))"
    using two_calls_run by blast
  with calls_get_their_answers[OF c(1)] show ?thesis by blast
qed

text \<open>When an agent ends, the daemon can panic in three ways: a call that begins after the table was
  dropped writes to the nil table; a call that comes to wait when its channel is closed takes the nil
  response as one; and the read loop, holding a response it looked up before, sends it on a closed
  channel.\<close>

theorem agent_exit_panics:
  "\<exists>c. run_steps (conn_step parse_12) [WaitDone, WaitClose, Call] new_conn = Some c \<and> cn_panicked c"
  "\<exists>c. run_steps (conn_step parse_12) [Call, WaitDone, WaitClose, Wrote 1 True, Receive 1] new_conn = Some c \<and> cn_panicked c"
  "\<exists>c. run_steps (conn_step parse_12) [Call, Wrote 1 True, ReadResp (reply ''1'' ''a''), WaitDone, WaitClose, SendHeld] new_conn = Some c
     \<and> cn_panicked c"
  by (simp_all add: conn_eval parse_12_def reply_def is_response_def)

text \<open>Two responses with one id: the second waits for a place in the channel of a call that has given up, and
  no step frees it, so nothing more of that agent is read.\<close>

lemma second_response_blocks:
  "\<exists>c. run_steps (conn_step parse_12) [Call, Wrote 1 True, ReadResp (reply ''1'' ''a''), SendHeld, ReadResp (reply ''1'' ''b''), GiveUp 1] new_conn
       = Some c \<and> cn_held c \<noteq> None \<and> conn_step parse_12 SendHeld c = None \<and> (\<forall>m. conn_step parse_12 (ReadResp m) c = None)
     \<and> conn_step parse_12 (Receive 1) c = None"
  by (simp add: conn_eval parse_12_def reply_def is_response_def)

subsection \<open>Requests of the agent\<close>

text \<open>A handler's outcome: an error or the JSON of its result, none when it has none. A request is answered
  exactly once, a notification never. An error keeps its code; the text of its message is not modelled.\<close>

definition err_of :: "herr \<Rightarrow> wire_error" where
  "err_of e = \<lparr>we_code = err_code (as_protocol_error e), we_message = []\<rparr>"

definition dispatch_msg :: "(string \<rightharpoonup> (string \<Rightarrow> string option res)) \<Rightarrow> rpc_message \<Rightarrow> rpc_message list" where
  "dispatch_msg handlers m =
     (case handlers (rm_method m) of
        None \<Rightarrow> if is_request m then [new_error_response (rm_id m) (err_of MethodNotFound)] else []
      | Some h \<Rightarrow>
          if is_notification m then []
          else (case h (rm_params m) of
              Inl e \<Rightarrow> [new_error_response (rm_id m) (err_of e)]
            | Inr v \<Rightarrow>
                (case new_response (rm_id m) v of
                   Inl _ \<Rightarrow> [new_error_response (rm_id m) (err_of Internal)]
                 | Inr resp \<Rightarrow> [resp])))"

lemma dispatch_request:
  assumes "is_request m"
  shows "\<exists>r. dispatch_msg handlers m = [r] \<and> rm_id r = rm_id m \<and> is_response r"
proof -
  have i: "\<not> is_notification m" "rm_id m \<noteq> []"
    using assms message_kinds(1) by (auto simp: is_request_def)
  have e: "rm_id (new_error_response (rm_id m) x) = rm_id m \<and> is_response (new_error_response (rm_id m) x)" for x
    using i(2) by (simp add: new_error_response_def is_response_def)
  have r: "new_response (rm_id m) v = Inr x \<Longrightarrow> rm_id x = rm_id m \<and> is_response x" for v x
    using i(2) by (auto simp: new_response_def is_response_def split: option.splits)
  show ?thesis
  proof (cases "handlers (rm_method m)")
    case None
    with assms e show ?thesis by (simp add: dispatch_msg_def)
  next
    case (Some h)
    with i(1) e r show ?thesis
      by (cases "h (rm_params m)") (auto simp: dispatch_msg_def split: sum.split)
  qed
qed

lemma dispatch_notification: "is_notification m \<Longrightarrow> dispatch_msg handlers m = []"
  using message_kinds by (auto simp: dispatch_msg_def split: option.splits)

text \<open>What the read loop does with each message in turn: hand a response to the table, dispatch the rest.\<close>

datatype read_act = ToCall rpc_message | Dispatch rpc_message | Drop

definition read_loop_act :: "rpc_message \<Rightarrow> read_act" where
  "read_loop_act m =
     (if is_response m then ToCall m else if is_request m then Dispatch m else if is_notification m then Dispatch m else Drop)"

definition answers :: "(string \<rightharpoonup> (string \<Rightarrow> string option res)) \<Rightarrow> rpc_message list \<Rightarrow> rpc_message list" where
  "answers handlers ms = concat (map (\<lambda>m. case read_loop_act m of Dispatch m \<Rightarrow> dispatch_msg handlers m | _ \<Rightarrow> []) ms)"

text \<open>The daemon answers every request an agent sends, once, with a response that carries the request's
  id, whether the method is known or not and whatever its handler returns, and nothing else.\<close>

theorem requests_answered_once:
  "map rm_id (answers handlers ms) = map rm_id (filter is_request ms) \<and> list_all is_response (answers handlers ms)"
proof (induction ms)
  case (Cons m ms)
  show ?case
  proof (cases "is_request m")
    case True
    from dispatch_request[OF this] obtain r where "dispatch_msg handlers m = [r]" "rm_id r = rm_id m" "is_response r" by blast
    with Cons True show ?thesis
      using message_kinds(2)[of m] by (simp add: answers_def read_loop_act_def)
  next
    case False
    then have "(case read_loop_act m of Dispatch m \<Rightarrow> dispatch_msg handlers m | _ \<Rightarrow> []) = []"
      by (simp add: read_loop_act_def dispatch_notification)
    with Cons False show ?thesis by (simp add: answers_def)
  qed
qed (simp add: answers_def)

subsection \<open>The sandbox helper's report\<close>

definition init_err_cap :: nat where "init_err_cap = 4096"

definition wait_init :: "string \<Rightarrow> string option" where
  "wait_init written = (let data = take init_err_cap written in if data = [] then None else Some (trim_space data))"

definition exit_err :: "string option \<Rightarrow> string \<Rightarrow> string option" where
  "exit_err err written =
     (let data = take init_err_cap written in
      case err of None \<Rightarrow> None | Some e \<Rightarrow> Some (if data = [] then e else e @ '': '' @ trim_space data))"

lemma wait_init_ok: "wait_init w = None \<longleftrightarrow> w = []"
  by (simp add: wait_init_def init_err_cap_def Let_def)

end
