(* ===== verification/Tools.thy ===== *)
theory Tools
  imports Complex_Main Hive_Path
begin

section \<open>The runners' tools (internal/runners/tools.go) and the SDK calls they make (sdk/go/agent.go)\<close>

text \<open>
  A tool gets the arguments a language model or a workflow file gave it, makes at most one request
  to the daemon through the SDK and turns the answer into a value. Values are what Go's JSON decoder
  gives (\<open>WNull\<close> to \<open>WObj\<close>, numbers being rationals) and what tools return besides: Go integers,
  slices of strings, raw messages, and \<open>WGo\<close> for a slice of structs, with the value its JSON has. Objects are association lists.

  The connection to the daemon is an argument of type \<open>'w agent\<close>, a function on a state of any type.
  What it answers is the JSON object of the daemon's result: a field that is absent has Go's zero
  value, as in \<open>no_reply\<close>.
\<close>

datatype wval =
    WNull | WBool bool | WNum rat | WStr string | WArr "wval list" | WObj "(string \<times> wval) list"
  | WInt int | WStrs "string list" | WRaw string | WGo wval

record llm_msg =
  mg_role :: string
  mg_content :: string

record junior_opts =
  jo_tag :: string
  jo_name :: string
  jo_model :: string
  jo_quota :: "((string \<times> int) list \<times> (string \<times> int) list) option"
  jo_volumes :: "(string \<times> string \<times> string) list"

datatype agent_call =
    NetFetch string string "(string \<times> string) list" string
  | FsRead string | FsWrite string string | FsList string
  | PeerSend string wval string
  | MemoryPut string string string | MemoryGet string string | MemoryList string string | MemoryDelete string string
  | AiInvoke string string
  | HireJunior string string junior_opts
  | LlmComplete string string "llm_msg list" int

text \<open>The wire name of each call.\<close>

fun call_method :: "agent_call \<Rightarrow> string" where
  "call_method (NetFetch _ _ _ _) = ''net/fetch''"
| "call_method (FsRead _) = ''fs/read''"
| "call_method (FsWrite _ _) = ''fs/write''"
| "call_method (FsList _) = ''fs/list''"
| "call_method (PeerSend _ _ _) = ''peer/send''"
| "call_method (MemoryPut _ _ _) = ''memory/put''"
| "call_method (MemoryGet _ _) = ''memory/get''"
| "call_method (MemoryList _ _) = ''memory/list''"
| "call_method (MemoryDelete _ _) = ''memory/delete''"
| "call_method (AiInvoke _ _) = ''ai_tool/invoke''"
| "call_method (HireJunior _ _ _) = ''hire/junior''"
| "call_method (LlmComplete _ _ _ _) = ''llm/complete''"

record agent_reply =
  rp_status :: int
  rp_body :: string
  rp_data :: string
  rp_entries :: "(string \<times> bool \<times> int) list"
  rp_text :: string
  rp_prompt_tokens :: int
  rp_completion_tokens :: int
  rp_total_tokens :: int
  rp_value :: string
  rp_exists :: bool
  rp_keys :: "string list"
  rp_output :: string
  rp_name :: string

definition no_reply :: agent_reply where
  "no_reply = \<lparr>rp_status = 0, rp_body = [], rp_data = [], rp_entries = [], rp_text = [], rp_prompt_tokens = 0,
     rp_completion_tokens = 0, rp_total_tokens = 0, rp_value = [], rp_exists = False, rp_keys = [], rp_output = [],
     rp_name = []\<rparr>"

type_synonym 'w agent = "agent_call \<Rightarrow> 'w \<Rightarrow> agent_reply res \<times> 'w"
type_synonym fields = "(string \<times> wval) list"

subsection \<open>Reading arguments\<close>

definition get_string :: "fields \<Rightarrow> string \<Rightarrow> string" where
  "get_string m k = (case map_of m k of Some (WStr s) \<Rightarrow> s | _ \<Rightarrow> [])"

definition get_any :: "fields \<Rightarrow> string \<Rightarrow> wval" where
  "get_any m k = (case map_of m k of Some v \<Rightarrow> v | None \<Rightarrow> WNull)"

definition str_fields :: "fields \<Rightarrow> (string \<times> string) list" where
  "str_fields kvs = concat (map (\<lambda>(k, v). case v of WStr s \<Rightarrow> [(k, s)] | _ \<Rightarrow> []) kvs)"

definition get_string_map :: "fields \<Rightarrow> string \<Rightarrow> (string \<times> string) list" where
  "get_string_map m k = (case map_of m k of Some (WObj kvs) \<Rightarrow> str_fields kvs | _ \<Rightarrow> [])"

text \<open>Go's conversion of a float to an integer drops the fraction. (Out of the range of 64 bits the
  result depends on the machine; here it is the integer.)\<close>

definition go_int :: "rat \<Rightarrow> int" where
  "go_int q = (if 0 \<le> q then \<lfloor>q\<rfloor> else \<lceil>q\<rceil>)"

definition int_map :: "wval \<Rightarrow> (string \<times> int) list" where
  "int_map v =
     (case v of
        WObj kvs \<Rightarrow> concat (map (\<lambda>(k, v). case v of WNum q \<Rightarrow> [(k, go_int q)] | WInt n \<Rightarrow> [(k, n)] | _ \<Rightarrow> []) kvs)
      | _ \<Rightarrow> [])"

definition get_int :: "fields \<Rightarrow> string \<Rightarrow> int" where
  "get_int m k = (case map_of m k of Some (WInt n) \<Rightarrow> n | Some (WNum q) \<Rightarrow> go_int q | _ \<Rightarrow> 0)"

definition messages_from_args :: "fields \<Rightarrow> llm_msg list" where
  "messages_from_args m =
     (case map_of m ''messages'' of
        Some (WArr items) \<Rightarrow>
          concat (map (\<lambda>v. case v of
              WObj kvs \<Rightarrow> [\<lparr>mg_role = get_string kvs ''role'', mg_content = get_string kvs ''content''\<rparr>]
            | _ \<Rightarrow> []) items)
      | _ \<Rightarrow> [])"

definition volume_args :: "fields \<Rightarrow> (string \<times> string \<times> string) list" where
  "volume_args m =
     (case map_of m ''volumes'' of
        Some (WArr items) \<Rightarrow>
          concat (map (\<lambda>v. case v of
              WObj kvs \<Rightarrow> [(get_string kvs ''name'', get_string kvs ''mode'', get_string kvs ''mountpoint'')]
            | _ \<Rightarrow> []) items)
      | _ \<Rightarrow> [])"

definition quota_arg :: "fields \<Rightarrow> ((string \<times> int) list \<times> (string \<times> int) list) option" where
  "quota_arg m =
     (case map_of m ''quota'' of
        Some (WObj q) \<Rightarrow> Some (int_map (get_any q ''tokens''), int_map (get_any q ''api_calls''))
      | _ \<Rightarrow> None)"

subsection \<open>Tool groups\<close>

definition tool_group :: "string \<Rightarrow> string" where
  "tool_group tool =
     (if tool = ''net_fetch'' then ''net''
      else if has_prefix tool ''fs_'' then ''fs''
      else if tool = ''peer_send'' \<or> tool = ''peer_call'' \<or> tool = ''peer_call_many'' then ''peer''
      else if tool = ''llm_complete'' then ''llm''
      else if has_prefix tool ''memory_'' then ''memory''
      else if tool = ''ai_tool_invoke'' then ''ai_tool''
      else if tool = ''hire_junior'' then ''hire''
      else [])"

definition tool_allowed :: "string \<Rightarrow> string list \<Rightarrow> bool" where
  "tool_allowed tool allowed \<longleftrightarrow> (let g = tool_group tool in g \<noteq> [] \<and> g \<in> set allowed)"

definition parse_csv :: "string \<Rightarrow> string list" where
  "parse_csv s = filter (\<lambda>t. t \<noteq> []) (map trim_space (split_on CHR '','' s))"

subsection \<open>The request of a tool, and its result\<close>

definition need :: "string \<Rightarrow> 'a \<Rightarrow> 'a res" where
  "need s x = (if s = [] then Inl Plain else Inr x)"

definition or_else :: "string \<Rightarrow> string \<Rightarrow> string" where
  "or_else s d = (if s = [] then d else s)"

definition junior_args :: "fields \<Rightarrow> junior_opts" where
  "junior_args m = \<lparr>jo_tag = get_string m ''tag'', jo_name = get_string m ''name'', jo_model = get_string m ''model'',
     jo_quota = quota_arg m, jo_volumes = volume_args m\<rparr>"

definition tool_call :: "string \<Rightarrow> fields \<Rightarrow> agent_call res" where
  "tool_call name m =
     (let str = get_string m in
      if name = ''net_fetch'' then
        need (str ''url'') (NetFetch (or_else (str ''method'') ''GET'') (str ''url'') (get_string_map m ''headers'') (str ''body''))
      else if name = ''fs_read'' then need (str ''path'') (FsRead (str ''path''))
      else if name = ''fs_write'' then need (str ''path'') (FsWrite (str ''path'') (str ''content''))
      else if name = ''fs_list'' then need (str ''path'') (FsList (str ''path''))
      else if name = ''peer_send'' then need (str ''to'') (PeerSend (str ''to'') (get_any m ''payload'') (str ''conv_id''))
      else if name = ''memory_put'' then Inr (MemoryPut (str ''scope'') (str ''key'') (str ''value''))
      else if name = ''memory_get'' then Inr (MemoryGet (str ''scope'') (str ''key''))
      else if name = ''memory_list'' then Inr (MemoryList (str ''scope'') (str ''prefix''))
      else if name = ''memory_delete'' then Inr (MemoryDelete (str ''scope'') (str ''key''))
      else if name = ''ai_tool_invoke'' then need (str ''prompt'') (AiInvoke (or_else (str ''tool'') ''claude-code'') (str ''prompt''))
      else if name = ''hire_junior'' then
        (if str ''ref'' = [] \<or> str ''rank'' = [] then Inl Plain else Inr (HireJunior (str ''ref'') (str ''rank'') (junior_args m)))
      else if name = ''llm_complete'' then
        Inr (LlmComplete [] (or_else (str ''model'') ''gpt-4o-mini'') (messages_from_args m) (get_int m ''max_tokens''))
      else Inl Plain)"

fun tool_result :: "agent_call \<Rightarrow> agent_reply \<Rightarrow> wval" where
  "tool_result (NetFetch _ _ _ _) r = WObj [(''status'', WInt (rp_status r)), (''body'', WStr (rp_body r))]"
| "tool_result (FsRead _) r = WStr (rp_data r)"
| "tool_result (FsWrite _ _) r = WStr ''ok''"
| "tool_result (FsList _) r =
     WArr (map (\<lambda>(n, d, z). WObj [(''name'', WStr n), (''is_dir'', WBool d), (''size'', WInt z)]) (rp_entries r))"
| "tool_result (PeerSend _ _ _) r = WStr ''sent''"
| "tool_result (MemoryPut _ _ _) r = WStr ''ok''"
| "tool_result (MemoryGet _ _) r = WObj [(''exists'', WBool (rp_exists r)), (''value'', WStr (rp_value r))]"
| "tool_result (MemoryList _ _) r = WObj [(''keys'', WStrs (rp_keys r))]"
| "tool_result (MemoryDelete _ _) r = WStr ''ok''"
| "tool_result (AiInvoke _ _) r = WObj [(''output'', WStr (rp_output r))]"
| "tool_result (HireJunior _ rk _) r = WObj [(''name'', WStr (rp_name r)), (''image'', WStr (rp_name r)), (''rank'', WStr rk)]"
| "tool_result (LlmComplete _ _ _ _) r =
     WObj [(''text'', WStr (rp_text r)),
           (''usage'', WObj [(''prompt_tokens'', WInt (rp_prompt_tokens r)),
              (''completion_tokens'', WInt (rp_completion_tokens r)), (''total_tokens'', WInt (rp_total_tokens r))])]"

definition dispatch_tool :: "'w agent \<Rightarrow> string \<Rightarrow> fields \<Rightarrow> 'w \<Rightarrow> wval res \<times> 'w" where
  "dispatch_tool a name m w =
     (case tool_call name m of
        Inl e \<Rightarrow> (Inl e, w)
      | Inr c \<Rightarrow> (case a c w of (Inl e, w) \<Rightarrow> (Inl e, w) | (Inr r, w) \<Rightarrow> (Inr (tool_result c r), w)))"

text \<open>The text of a result for a language model: its JSON, cut after \<open>max\<close> bytes, or Go's own print
  when it has no JSON. The ellipsis is three bytes.\<close>

definition dots3 :: string where "dots3 = [CHR 0xE2, CHR 0x80, CHR 0xA6]"

definition cut_text :: "nat \<Rightarrow> string \<Rightarrow> string" where
  "cut_text n s = (if length s \<le> n then s else take n s @ dots3)"

definition result_text :: "(wval \<Rightarrow> string option) \<Rightarrow> (wval \<Rightarrow> string) \<Rightarrow> wval \<Rightarrow> nat \<Rightarrow> string" where
  "result_text marshal sprint v n =
     (case marshal v of None \<Rightarrow> sprint v | Some s \<Rightarrow> if 0 < n then cut_text n s else s)"

subsection \<open>A tool stays in its group\<close>

text \<open>The group that allows a request.\<close>

fun call_group :: "agent_call \<Rightarrow> string" where
  "call_group (NetFetch _ _ _ _) = ''net''"
| "call_group (FsRead _) = ''fs''"
| "call_group (FsWrite _ _) = ''fs''"
| "call_group (FsList _) = ''fs''"
| "call_group (PeerSend _ _ _) = ''peer''"
| "call_group (MemoryPut _ _ _) = ''memory''"
| "call_group (MemoryGet _ _) = ''memory''"
| "call_group (MemoryList _ _) = ''memory''"
| "call_group (MemoryDelete _ _) = ''memory''"
| "call_group (AiInvoke _ _) = ''ai_tool''"
| "call_group (HireJunior _ _ _) = ''hire''"
| "call_group (LlmComplete _ _ _ _) = ''llm''"

lemma need_Inr [simp]: "need s x = Inr y \<longleftrightarrow> s \<noteq> [] \<and> x = y"
  by (simp add: need_def)

lemma tool_call_group: "tool_call name m = Inr c \<Longrightarrow> call_group c = tool_group name"
  by (auto simp: tool_call_def tool_group_def Let_def split: if_splits)

text \<open>The state of a connection that also keeps the requests made so far.\<close>

definition logged :: "'w agent \<Rightarrow> (agent_call list \<times> 'w) agent" where
  "logged a c lw = (let (r, w) = a c (snd lw) in (r, (fst lw @ [c], w)))"

lemma logged_simp [simp]: "logged a c (l, w) = (fst (a c w), (l @ [c], snd (a c w)))"
  by (simp add: logged_def Let_def split_def)

lemma dispatch_tool_log:
  assumes "dispatch_tool (logged a) name m (l, w) = (r, (l', w'))"
  shows "\<exists>cs. l' = l @ cs \<and> length cs \<le> 1 \<and> (\<forall>c \<in> set cs. call_group c = tool_group name)"
  using assms by (auto simp: dispatch_tool_def tool_call_group split: sum.splits prod.splits)

lemma result_text_bound:
  "marshal v = Some s \<Longrightarrow> 0 < n \<Longrightarrow> length (result_text marshal sprint v n) \<le> n + 3"
  by (simp add: result_text_def cut_text_def dots3_def)

end
