(* ===== verification/Sdk.thy ===== *)
theory Sdk
  imports Conn Tools
begin

section \<open>The agents' end of a connection (sdk/go/agent.go, internal/rpc/params.go)\<close>

text \<open>
  What an agent written with the Go SDK sends and how it takes what arrives. \<open>call_params\<close> are the
  parameters the SDK's methods put on the wire for each request, \<open>decode_call\<close> what the daemon's
  parameter records read from them; the bytes of a file travel as text, by the two arguments
  \<open>b64\<close> and \<open>unb64\<close> of the JSON library. The table of pending calls, the read loop and the subscriptions
  are steps that interleave, as in \<open>Conn\<close>.
\<close>

subsection \<open>Parameters on the wire\<close>

definition json_strs :: "(string \<times> string) list \<Rightarrow> wval" where
  "json_strs kvs = WObj (map (\<lambda>(k, v). (k, WStr v)) kvs)"

definition json_ints :: "(string \<times> int) list \<Rightarrow> wval" where
  "json_ints kvs = WObj (map (\<lambda>(k, v). (k, WInt v)) kvs)"

definition some_str :: "string \<Rightarrow> string \<Rightarrow> (string \<times> wval) list" where
  "some_str k s = (if s \<noteq> [] then [(k, WStr s)] else [])"

definition junior_fields :: "string \<Rightarrow> string \<Rightarrow> junior_opts \<Rightarrow> (string \<times> wval) list" where
  "junior_fields ref rk jo =
     [(''ref'', WStr ref), (''rank'', WStr rk)] @ some_str ''tag'' (jo_tag jo) @ some_str ''name'' (jo_name jo)
       @ some_str ''model'' (jo_model jo)
       @ (case jo_quota jo of None \<Rightarrow> []
          | Some (ts, cs) \<Rightarrow> [(''quota'', WObj [(''tokens'', json_ints ts), (''api_calls'', json_ints cs)])])
       @ (if jo_volumes jo = [] then []
          else [(''volumes'', WArr (map (\<lambda>(n, m, p). json_strs [(''name'', n), (''mode'', m), (''mountpoint'', p)]) (jo_volumes jo)))])"

fun call_params :: "(string \<Rightarrow> string) \<Rightarrow> agent_call \<Rightarrow> (string \<times> wval) list" where
  "call_params b64 (NetFetch m url hs body) =
     [(''method'', WStr m), (''url'', WStr url), (''headers'', json_strs hs), (''body'', WStr (b64 body))]"
| "call_params b64 (FsRead p) = [(''path'', WStr p)]"
| "call_params b64 (FsWrite p d) = [(''path'', WStr p), (''data'', WStr (b64 d))]"
| "call_params b64 (FsList p) = [(''path'', WStr p)]"
| "call_params b64 (PeerSend to payload conv) = [(''to'', WStr to), (''payload'', payload)] @ some_str ''conv_id'' conv"
| "call_params b64 (MemoryPut s k v) = [(''scope'', WStr s), (''key'', WStr k), (''value'', WStr (b64 v))]"
| "call_params b64 (MemoryGet s k) = [(''scope'', WStr s), (''key'', WStr k)]"
| "call_params b64 (MemoryList s p) = [(''scope'', WStr s), (''prefix'', WStr p)]"
| "call_params b64 (MemoryDelete s k) = [(''scope'', WStr s), (''key'', WStr k)]"
| "call_params b64 (AiInvoke t p) = [(''tool'', WStr t), (''prompt'', WStr p)]"
| "call_params b64 (HireJunior ref rk jo) = junior_fields ref rk jo"
| "call_params b64 (LlmComplete p m ms n) =
     [(''provider'', WStr p), (''model'', WStr m),
      (''messages'', WArr (map (\<lambda>x. json_strs [(''role'', mg_role x), (''content'', mg_content x)]) ms)), (''max_tokens'', WInt n)]"

subsection \<open>What the daemon's records read\<close>

text \<open>Each field by its JSON name; an absent one has its zero value, one of another type is an error.\<close>

definition fld_str :: "(string \<times> wval) list \<Rightarrow> string \<Rightarrow> string option" where
  "fld_str m k = (case map_of m k of None \<Rightarrow> Some [] | Some WNull \<Rightarrow> Some [] | Some (WStr s) \<Rightarrow> Some s | _ \<Rightarrow> None)"

definition fld_int :: "(string \<times> wval) list \<Rightarrow> string \<Rightarrow> int option" where
  "fld_int m k = (case map_of m k of None \<Rightarrow> Some 0 | Some WNull \<Rightarrow> Some 0 | Some (WInt n) \<Rightarrow> Some n | _ \<Rightarrow> None)"

definition fld_bytes :: "(string \<Rightarrow> string option) \<Rightarrow> (string \<times> wval) list \<Rightarrow> string \<Rightarrow> string option" where
  "fld_bytes unb64 m k =
     (case map_of m k of None \<Rightarrow> Some [] | Some WNull \<Rightarrow> Some [] | Some (WStr s) \<Rightarrow> unb64 s | _ \<Rightarrow> None)"

fun all_some :: "'a option list \<Rightarrow> 'a list option" where
  "all_some [] = Some []"
| "all_some (x # xs) = (case x of None \<Rightarrow> None | Some y \<Rightarrow> map_option (Cons y) (all_some xs))"

definition fld_objs :: "((string \<times> wval) list \<Rightarrow> 'a option) \<Rightarrow> (string \<times> wval) list \<Rightarrow> string \<Rightarrow> 'a list option" where
  "fld_objs f m k =
     (case map_of m k of
        None \<Rightarrow> Some []
      | Some WNull \<Rightarrow> Some []
      | Some (WArr vs) \<Rightarrow> all_some (map (\<lambda>v. case v of WObj kvs \<Rightarrow> f kvs | _ \<Rightarrow> None) vs)
      | _ \<Rightarrow> None)"

definition fld_map :: "(wval \<Rightarrow> 'a option) \<Rightarrow> (string \<times> wval) list \<Rightarrow> string \<Rightarrow> (string \<times> 'a) list option" where
  "fld_map f m k =
     (case map_of m k of
        None \<Rightarrow> Some []
      | Some WNull \<Rightarrow> Some []
      | Some (WObj kvs) \<Rightarrow> all_some (map (\<lambda>(k, v). map_option (Pair k) (f v)) kvs)
      | _ \<Rightarrow> None)"

definition as_str :: "wval \<Rightarrow> string option" where
  "as_str v = (case v of WStr s \<Rightarrow> Some s | _ \<Rightarrow> None)"

definition as_int :: "wval \<Rightarrow> int option" where
  "as_int v = (case v of WInt n \<Rightarrow> Some n | _ \<Rightarrow> None)"

definition bind2 :: "'a option \<Rightarrow> 'b option \<Rightarrow> ('a \<Rightarrow> 'b \<Rightarrow> 'c) \<Rightarrow> 'c option" where
  "bind2 x y f = (case x of None \<Rightarrow> None | Some a \<Rightarrow> map_option (f a) y)"

definition decode_quota :: "(string \<times> wval) list \<Rightarrow> ((string \<times> int) list \<times> (string \<times> int) list) option option" where
  "decode_quota m =
     (case map_of m ''quota'' of
        None \<Rightarrow> Some None
      | Some WNull \<Rightarrow> Some None
      | Some (WObj q) \<Rightarrow> map_option Some (bind2 (fld_map as_int q ''tokens'') (fld_map as_int q ''api_calls'') Pair)
      | _ \<Rightarrow> None)"

definition decode_volume :: "(string \<times> wval) list \<Rightarrow> (string \<times> string \<times> string) option" where
  "decode_volume m = bind2 (fld_str m ''name'') (bind2 (fld_str m ''mode'') (fld_str m ''mountpoint'') Pair) Pair"

definition decode_junior :: "(string \<times> wval) list \<Rightarrow> agent_call option" where
  "decode_junior m =
     (case (fld_str m ''ref'', fld_str m ''rank'', fld_str m ''tag'', fld_str m ''name'', fld_str m ''model'',
            decode_quota m, fld_objs decode_volume m ''volumes'') of
        (Some ref, Some rk, Some tag, Some nm, Some model, Some q, Some vs) \<Rightarrow>
          Some (HireJunior ref rk \<lparr>jo_tag = tag, jo_name = nm, jo_model = model, jo_quota = q, jo_volumes = vs\<rparr>)
      | _ \<Rightarrow> None)"

definition decode_msg :: "(string \<times> wval) list \<Rightarrow> llm_msg option" where
  "decode_msg m = bind2 (fld_str m ''role'') (fld_str m ''content'') (\<lambda>r c. \<lparr>mg_role = r, mg_content = c\<rparr>)"

definition decode_call :: "(string \<Rightarrow> string option) \<Rightarrow> string \<Rightarrow> (string \<times> wval) list \<Rightarrow> agent_call option" where
  "decode_call unb64 meth m =
     (if meth = ''fs/read'' then map_option FsRead (fld_str m ''path'')
      else if meth = ''fs/write'' then bind2 (fld_str m ''path'') (fld_bytes unb64 m ''data'') FsWrite
      else if meth = ''fs/list'' then map_option FsList (fld_str m ''path'')
      else if meth = ''net/fetch'' then
        bind2 (bind2 (fld_str m ''method'') (fld_str m ''url'') NetFetch)
          (bind2 (fld_map as_str m ''headers'') (fld_bytes unb64 m ''body'') Pair) (\<lambda>f (h, b). f h b)
      else if meth = ''llm/complete'' then
        bind2 (bind2 (fld_str m ''provider'') (fld_str m ''model'') LlmComplete)
          (bind2 (fld_objs decode_msg m ''messages'') (fld_int m ''max_tokens'') Pair) (\<lambda>f (ms, n). f ms n)
      else if meth = ''memory/put'' then
        bind2 (bind2 (fld_str m ''scope'') (fld_str m ''key'') MemoryPut) (fld_bytes unb64 m ''value'') (\<lambda>f v. f v)
      else if meth = ''memory/get'' then bind2 (fld_str m ''scope'') (fld_str m ''key'') MemoryGet
      else if meth = ''memory/list'' then bind2 (fld_str m ''scope'') (fld_str m ''prefix'') MemoryList
      else if meth = ''memory/delete'' then bind2 (fld_str m ''scope'') (fld_str m ''key'') MemoryDelete
      else if meth = ''ai_tool/invoke'' then bind2 (fld_str m ''tool'') (fld_str m ''prompt'') AiInvoke
      else if meth = ''peer/send'' then
        bind2 (fld_str m ''to'') (fld_str m ''conv_id'') (\<lambda>to conv. PeerSend to (get_any m ''payload'') conv)
      else if meth = ''hire/junior'' then decode_junior m
      else None)"

subsection \<open>The daemon reads what the SDK sent\<close>

lemma fld_strs:
  "fld_str ((k, WStr s) # m) k = Some s" "j \<noteq> k \<Longrightarrow> fld_str ((j, v) # m) k = fld_str m k" "fld_str [] k = Some []"
  by (simp_all add: fld_str_def)

lemma all_some_map: "(\<And>x. x \<in> set xs \<Longrightarrow> f x = Some (g x)) \<Longrightarrow> all_some (map f xs) = Some (map g xs)"
  by (induction xs) auto

lemma map_fields:
  "fld_map as_str ((k, json_strs hs) # m) k = Some hs" "fld_map as_int ((k, json_ints ns) # m) k = Some ns"
  by (simp_all add: fld_map_def json_strs_def json_ints_def comp_def split_def as_str_def as_int_def all_some_map[where g = "\<lambda>x. x"])

lemma msg_objs:
  "fld_objs decode_msg ((k, WArr (map (\<lambda>x. json_strs [(''role'', mg_role x), (''content'', mg_content x)]) ms)) # m) k = Some ms"
  by (simp add: fld_objs_def comp_def json_strs_def decode_msg_def fld_strs bind2_def all_some_map[where g = "\<lambda>x. x"])

lemma volume_objs:
  "fld_objs decode_volume [(k, WArr (map (\<lambda>(n, m, p). json_strs [(''name'', n), (''mode'', m), (''mountpoint'', p)]) vs))] k = Some vs"
  by (simp add: fld_objs_def comp_def split_def json_strs_def decode_volume_def fld_strs bind2_def all_some_map[where g = "\<lambda>x. x"])

lemma map_of_some_str: "map_of (some_str j s @ m) k = (if j = k \<and> s \<noteq> [] then Some (WStr s) else map_of m k)"
  by (simp add: some_str_def del: map_of_append)

lemma decode_junior_fields: "decode_junior (junior_fields ref rk jo) = Some (HireJunior ref rk jo)"
proof -
  let ?m = "junior_fields ref rk jo"
  have "fld_str ?m ''ref'' = Some ref" "fld_str ?m ''rank'' = Some rk"
    by (simp_all add: junior_fields_def fld_str_def)
  moreover have "fld_str ?m ''tag'' = Some (jo_tag jo)" "fld_str ?m ''name'' = Some (jo_name jo)" "fld_str ?m ''model'' = Some (jo_model jo)"
    by (simp_all add: junior_fields_def fld_str_def map_of_some_str del: map_of_append split: option.split)
  moreover have "decode_quota ?m = Some (jo_quota jo)"
    by (cases "jo_quota jo")
       (auto simp: junior_fields_def decode_quota_def map_of_some_str bind2_def map_fields fld_map_def json_ints_def comp_def
         split_def as_int_def all_some_map[where g = "\<lambda>x. x"] simp del: map_of_append)
  moreover have "fld_objs decode_volume ?m ''volumes'' = Some (jo_volumes jo)"
  proof (cases "jo_volumes jo = []")
    case True
    then show ?thesis by (simp add: junior_fields_def fld_objs_def map_of_some_str del: map_of_append split: option.split)
  next
    case False
    have "map_of ?m ''volumes'' = map_of [(''volumes'', WArr (map (\<lambda>(n, m, p). json_strs [(''name'', n), (''mode'', m), (''mountpoint'', p)]) (jo_volumes jo)))] ''volumes''"
      using False by (simp add: junior_fields_def map_of_some_str del: map_of_append split: option.split)
    with volume_objs[of "''volumes''" "jo_volumes jo"] show ?thesis unfolding fld_objs_def by simp
  qed
  ultimately show ?thesis by (simp add: decode_junior_def)
qed

lemma decode_params:
  assumes "\<And>x. unb64 (b64 x) = Some x"
  shows "decode_call unb64 (call_method c) (call_params b64 c) = Some c"
proof (cases c)
  case (HireJunior ref rk jo)
  then show ?thesis by (simp add: decode_call_def decode_junior_fields)
next
  case (PeerSend to payload conv)
  then show ?thesis by (auto simp: decode_call_def bind2_def fld_str_def get_any_def some_str_def)
qed (simp_all add: decode_call_def bind2_def fld_strs fld_bytes_def fld_int_def assms map_fields msg_objs fld_map_def json_strs_def
    comp_def split_def as_str_def all_some_map[where g = "\<lambda>x. x"] fld_objs_def decode_msg_def)

subsection \<open>What the daemon answers and the SDK reads of it\<close>

text \<open>The daemon's results, and the JSON of each: \<open>omitempty\<close> leaves a zero value out. \<open>Done\<close> is the empty
  object of a request without a result.\<close>

datatype call_value =
    Fetched int "(string \<times> string) list" string
  | FsData string | FsEntries "(string \<times> bool \<times> int) list"
  | Completed string int int int
  | MemFound string bool | MemKeys "string list"
  | AiDone string string int
  | Hired string string string string
  | Done

definition entry_obj :: "string \<times> bool \<times> int \<Rightarrow> wval" where
  "entry_obj e = (case e of (n, d, z) \<Rightarrow> WObj [(''name'', WStr n), (''is_dir'', WBool d), (''size'', WInt z)])"

fun result_fields :: "(string \<Rightarrow> string) \<Rightarrow> call_value \<Rightarrow> (string \<times> wval) list" where
  "result_fields b64 (Fetched st hs body) =
     [(''status'', WInt st)] @ (if hs = [] then [] else [(''headers'', json_strs hs)])
       @ (if body = [] then [] else [(''body'', WStr (b64 body))])"
| "result_fields b64 (FsData d) = [(''data'', WStr (b64 d))]"
| "result_fields b64 (FsEntries es) = [(''entries'', WArr (map entry_obj es))]"
| "result_fields b64 (Completed t p c n) =
     [(''text'', WStr t),
      (''usage'', WObj [(''prompt_tokens'', WInt p), (''completion_tokens'', WInt c), (''total_tokens'', WInt n)])]"
| "result_fields b64 (MemFound v ex) = (if v = [] then [] else [(''value'', WStr (b64 v))]) @ [(''exists'', WBool ex)]"
| "result_fields b64 (MemKeys ks) = [(''keys'', WArr (map WStr ks))]"
| "result_fields b64 (AiDone out err n) =
     [(''output'', WStr out)] @ some_str ''stderr'' err @ [(''exit_code'', WInt n)]"
| "result_fields b64 (Hired nm im rk parent) =
     [(''name'', WStr nm), (''image_name'', WStr im), (''rank'', WStr rk), (''parent'', WStr parent)]"
| "result_fields b64 Done = []"

definition fld_bool :: "(string \<times> wval) list \<Rightarrow> string \<Rightarrow> bool option" where
  "fld_bool m k = (case map_of m k of None \<Rightarrow> Some False | Some WNull \<Rightarrow> Some False | Some (WBool b) \<Rightarrow> Some b | _ \<Rightarrow> None)"

definition fld_strings :: "(string \<times> wval) list \<Rightarrow> string \<Rightarrow> string list option" where
  "fld_strings m k =
     (case map_of m k of None \<Rightarrow> Some [] | Some WNull \<Rightarrow> Some [] | Some (WArr vs) \<Rightarrow> all_some (map as_str vs) | _ \<Rightarrow> None)"

definition decode_entry :: "(string \<times> wval) list \<Rightarrow> (string \<times> bool \<times> int) option" where
  "decode_entry m = bind2 (fld_str m ''name'') (bind2 (fld_bool m ''is_dir'') (fld_int m ''size'') Pair) Pair"

definition decode_usage :: "(string \<times> wval) list \<Rightarrow> (int \<times> int \<times> int) option" where
  "decode_usage m =
     (case map_of m ''usage'' of
        None \<Rightarrow> Some (0, 0, 0)
      | Some WNull \<Rightarrow> Some (0, 0, 0)
      | Some (WObj u) \<Rightarrow> bind2 (fld_int u ''prompt_tokens'') (bind2 (fld_int u ''completion_tokens'') (fld_int u ''total_tokens'') Pair) Pair
      | _ \<Rightarrow> None)"

text \<open>What each SDK function gives its caller of the result; a result that does not decode is an error.
  Writing, sending and deleting ignore it.\<close>

fun sdk_reply :: "(string \<Rightarrow> string option) \<Rightarrow> agent_call \<Rightarrow> (string \<times> wval) list \<Rightarrow> agent_reply option" where
  "sdk_reply unb64 (NetFetch _ _ _ _) m =
     bind2 (bind2 (fld_int m ''status'') (fld_bytes unb64 m ''body'') Pair) (fld_map as_str m ''headers'')
       (\<lambda>(st, body) _. no_reply\<lparr>rp_status := st, rp_body := body\<rparr>)"
| "sdk_reply unb64 (FsRead _) m = map_option (\<lambda>d. no_reply\<lparr>rp_data := d\<rparr>) (fld_bytes unb64 m ''data'')"
| "sdk_reply unb64 (FsList _) m = map_option (\<lambda>es. no_reply\<lparr>rp_entries := es\<rparr>) (fld_objs decode_entry m ''entries'')"
| "sdk_reply unb64 (LlmComplete _ _ _ _) m =
     bind2 (fld_str m ''text'') (decode_usage m)
       (\<lambda>t (p, c, n). no_reply\<lparr>rp_text := t, rp_prompt_tokens := p, rp_completion_tokens := c, rp_total_tokens := n\<rparr>)"
| "sdk_reply unb64 (HireJunior _ _ _) m =
     bind2 (bind2 (fld_str m ''name'') (fld_str m ''image_name'') Pair) (bind2 (fld_str m ''rank'') (fld_str m ''parent'') Pair)
       (\<lambda>(nm, _) _. no_reply\<lparr>rp_name := nm\<rparr>)"
| "sdk_reply unb64 (MemoryGet _ _) m =
     bind2 (fld_bytes unb64 m ''value'') (fld_bool m ''exists'') (\<lambda>v ex. no_reply\<lparr>rp_value := v, rp_exists := ex\<rparr>)"
| "sdk_reply unb64 (MemoryList _ _) m = map_option (\<lambda>ks. no_reply\<lparr>rp_keys := ks\<rparr>) (fld_strings m ''keys'')"
| "sdk_reply unb64 (AiInvoke _ _) m =
     bind2 (fld_str m ''output'') (bind2 (fld_str m ''stderr'') (fld_int m ''exit_code'') Pair) (\<lambda>out _. no_reply\<lparr>rp_output := out\<rparr>)"
| "sdk_reply unb64 (FsWrite _ _) m = Some no_reply"
| "sdk_reply unb64 (PeerSend _ _ _) m = Some no_reply"
| "sdk_reply unb64 (MemoryPut _ _ _) m = Some no_reply"
| "sdk_reply unb64 (MemoryDelete _ _) m = Some no_reply"

text \<open>The kind of result each request has, and what of it the caller is to see.\<close>

fun methods_of :: "call_value \<Rightarrow> string list" where
  "methods_of (Fetched _ _ _) = [''net/fetch'']"
| "methods_of (FsData _) = [''fs/read'']"
| "methods_of (FsEntries _) = [''fs/list'']"
| "methods_of (Completed _ _ _ _) = [''llm/complete'']"
| "methods_of (MemFound _ _) = [''memory/get'']"
| "methods_of (MemKeys _) = [''memory/list'']"
| "methods_of (AiDone _ _ _) = [''ai_tool/invoke'']"
| "methods_of (Hired _ _ _ _) = [''hire/junior'']"
| "methods_of Done = [''fs/write'', ''peer/send'', ''memory/put'', ''memory/delete'']"

definition answers_call :: "agent_call \<Rightarrow> call_value \<Rightarrow> bool" where
  "answers_call c v \<longleftrightarrow> call_method c \<in> set (methods_of v)"

fun seen_of :: "call_value \<Rightarrow> agent_reply" where
  "seen_of (Fetched st hs body) = no_reply\<lparr>rp_status := st, rp_body := body\<rparr>"
| "seen_of (FsData d) = no_reply\<lparr>rp_data := d\<rparr>"
| "seen_of (FsEntries es) = no_reply\<lparr>rp_entries := es\<rparr>"
| "seen_of (Completed t p c n) = no_reply\<lparr>rp_text := t, rp_prompt_tokens := p, rp_completion_tokens := c, rp_total_tokens := n\<rparr>"
| "seen_of (MemFound v ex) = no_reply\<lparr>rp_value := v, rp_exists := ex\<rparr>"
| "seen_of (MemKeys ks) = no_reply\<lparr>rp_keys := ks\<rparr>"
| "seen_of (AiDone out err n) = no_reply\<lparr>rp_output := out\<rparr>"
| "seen_of (Hired nm im rk parent) = no_reply\<lparr>rp_name := nm\<rparr>"
| "seen_of Done = no_reply"

lemma entry_objs: "fld_objs decode_entry [(k, WArr (map entry_obj es))] k = Some es"
  by (simp add: fld_objs_def comp_def entry_obj_def split_def decode_entry_def fld_strs fld_int_def fld_bool_def fld_str_def bind2_def
      all_some_map[where g = "\<lambda>x. x"])

lemma reply_of_result:
  assumes "\<And>x. unb64 (b64 x) = Some x" "answers_call c v"
  shows "sdk_reply unb64 c (result_fields b64 v) = Some (seen_of v)"
proof (cases v)
  case (Fetched st hs body)
  with assms show ?thesis
    by (cases c) (auto simp: answers_call_def bind2_def fld_bytes_def fld_int_def fld_map_def json_strs_def comp_def split_def
      as_str_def all_some_map[where g = "\<lambda>x. x"])
next
  case (MemFound x ex)
  with assms show ?thesis by (cases c) (auto simp: answers_call_def bind2_def fld_bytes_def fld_bool_def)
next
  case (AiDone out err n)
  with assms(2) show ?thesis
    by (cases c) (auto simp: answers_call_def bind2_def fld_str_def some_str_def fld_int_def)
next
  case (MemKeys ks)
  with assms(2) show ?thesis
    by (cases c) (auto simp: answers_call_def fld_strings_def comp_def as_str_def all_some_map[where g = "\<lambda>x. x"])
next
  case (FsEntries es)
  with assms(2) show ?thesis by (cases c) (auto simp: answers_call_def entry_objs)
next
  case Done
  with assms(2) show ?thesis by (cases c) (auto simp: answers_call_def)
qed (use assms in \<open>cases c; auto simp: answers_call_def bind2_def fld_strs fld_bytes_def fld_int_def decode_usage_def\<close>)+

text \<open>An exchange loses nothing on the wire: the daemon decodes from a request's parameters exactly the
  request the agent made, and the agent's function returns of the daemon's result exactly the fields it
  promises. The field names and types that the SDK writes out by hand agree with the records of the daemon,
  for every method and argument, fields left out when empty included.\<close>

theorem call_exchange:
  assumes "\<And>x. unb64 (b64 x) = Some x"
  shows "decode_call unb64 (call_method c) (call_params b64 c) = Some c \<and>
    (answers_call c v \<longrightarrow> sdk_reply unb64 c (result_fields b64 v) = Some (seen_of v))"
  using decode_params reply_of_result assms by blast

theorem call_exchange_witness:
  "decode_call Some ''memory/get'' [(''scope'', WStr []), (''key'', WStr ''k'')] = Some (MemoryGet [] ''k'')
   \<and> sdk_reply Some (MemoryGet [] ''k'') [(''value'', WStr ''hi''), (''exists'', WBool True)]
       = Some (no_reply\<lparr>rp_value := ''hi'', rp_exists := True\<rparr>)"
  using call_exchange[of Some "\<lambda>x. x" "MemoryGet [] ''k''" "MemFound ''hi'' True"] by (simp add: answers_call_def)

subsection \<open>Calls, the read loop and subscriptions\<close>

text \<open>What the read loop is about to do with the message it took; \<open>LoopDone\<close> is after its return.\<close>

datatype loop_at = Idle | HoldResponse int rpc_message | HoldTask rpc_message | HoldPeer rpc_message | HoldEvent nat rpc_message | LoopDone

record sub =
  sb_id :: string
  sb_queue :: "rpc_message list"
  sb_once :: bool
  sb_ended :: bool
  sb_shut :: bool

record sdk =
  sk_next :: int
  sk_pend :: "int set"
  sk_buf :: "int \<Rightarrow> rpc_message list"
  sk_phase :: "int \<rightharpoonup> call_phase"
  sk_at :: loop_at
  sk_received :: "rpc_message list"
  sk_tasks :: "rpc_message list"
  sk_taken :: "rpc_message list"
  sk_peers :: "rpc_message list"
  sk_subs :: "string \<rightharpoonup> nat"
  sk_sub :: "sub list"
  sk_sent :: "rpc_message list"
  sk_closed :: bool
  sk_panicked :: bool

definition sdk_buffer :: nat where "sdk_buffer = 16"

definition connect :: sdk where
  "connect = \<lparr>sk_next = 0, sk_pend = {}, sk_buf = (\<lambda>_. []), sk_phase = Map.empty, sk_at = Idle, sk_received = [], sk_tasks = [],
     sk_taken = [], sk_peers = [], sk_subs = Map.empty, sk_sub = [], sk_sent = [], sk_closed = False, sk_panicked = False\<rparr>"

definition sdk_end :: "int \<Rightarrow> call_phase \<Rightarrow> sdk \<Rightarrow> sdk" where
  "sdk_end i p s = s\<lparr>sk_phase := (sk_phase s)(i \<mapsto> p), sk_pend := sk_pend s - {i}\<rparr>"

definition sdk_call :: "sdk \<Rightarrow> sdk" where
  "sdk_call s =
     (let i = wrap64 (sk_next s + 1)
      in s\<lparr>sk_next := i, sk_pend := insert i (sk_pend s), sk_buf := (sk_buf s)(i := []), sk_phase := (sk_phase s)(i \<mapsto> Registered)\<rparr>)"

definition sdk_written :: "int \<Rightarrow> bool \<Rightarrow> sdk \<Rightarrow> sdk option" where
  "sdk_written i ok s =
     (if sk_phase s i \<noteq> Some Registered then None
      else if ok then Some (s\<lparr>sk_phase := (sk_phase s)(i \<mapsto> Waiting)\<rparr>)
      else Some (sdk_end i CallFailed s))"

definition sdk_receive :: "int \<Rightarrow> sdk \<Rightarrow> sdk option" where
  "sdk_receive i s =
     (if sk_phase s i \<noteq> Some Waiting then None
      else case sk_buf s i of
          [] \<Rightarrow> None
        | m # ms \<Rightarrow> Some (sdk_end i (Answered m) (s\<lparr>sk_buf := (sk_buf s)(i := ms)\<rparr>)))"

definition sdk_give_up :: "int \<Rightarrow> sdk \<Rightarrow> sdk option" where
  "sdk_give_up i s = (if sk_phase s i = Some Waiting then Some (sdk_end i CallFailed s) else None)"

definition sdk_see_closed :: "int \<Rightarrow> sdk \<Rightarrow> sdk option" where
  "sdk_see_closed i s = (if sk_closed s then sdk_give_up i s else None)"

text \<open>What the answer of a call becomes: \<open>out\<close> decodes a result into the caller's record.\<close>

definition call_result :: "(string \<Rightarrow> 'a option) \<Rightarrow> 'a \<Rightarrow> rpc_message \<Rightarrow> (wire_error option + 'a)" where
  "call_result out zero m =
     (case rm_error m of
        Some e \<Rightarrow> Inl (Some e)
      | None \<Rightarrow> if 0 < length (rm_result m) then (case out (rm_result m) of None \<Rightarrow> Inl None | Some v \<Rightarrow> Inr v) else Inr zero)"

record wire_parse =
  wp_id :: "string \<Rightarrow> int option"
  wp_sub :: "string \<Rightarrow> string"

definition sdk_respond :: "string \<Rightarrow> string \<Rightarrow> sdk \<Rightarrow> sdk" where
  "sdk_respond i r s = s\<lparr>sk_sent := sk_sent s @ [\<lparr>rm_id = i, rm_method = [], rm_params = [], rm_result = r, rm_error = None\<rparr>]\<rparr>"

definition sdk_respond_error :: "string \<Rightarrow> int \<Rightarrow> string \<Rightarrow> sdk \<Rightarrow> sdk" where
  "sdk_respond_error i code msg s = s\<lparr>sk_sent := sk_sent s @ [new_error_response i \<lparr>we_code = code, we_message = msg\<rparr>]\<rparr>"

definition sdk_read :: "wire_parse \<Rightarrow> rpc_message \<Rightarrow> sdk \<Rightarrow> sdk option" where
  "sdk_read p m s =
     (if sk_at s \<noteq> Idle then None
      else (let s = s\<lparr>sk_received := sk_received s @ [m]\<rparr>; meth = rm_method m in
        if 0 < length (rm_id m) \<and> meth = [] then
          (case wp_id p (rm_id m) of
             None \<Rightarrow> Some s
           | Some i \<Rightarrow> Some (if i \<in> sk_pend s then s\<lparr>sk_at := HoldResponse i m\<rparr> else s))
        else if meth = ''task/run'' then Some (sdk_respond (rm_id m) ''{}'' s\<lparr>sk_at := HoldTask m\<rparr>)
        else if meth = ''peer/recv'' then Some (s\<lparr>sk_at := HoldPeer m\<rparr>)
        else if meth = ''events/recv'' then
          (case sk_subs s (wp_sub p (rm_params m)) of None \<Rightarrow> Some s | Some k \<Rightarrow> Some (s\<lparr>sk_at := HoldEvent k m\<rparr>))
        else if meth = ''shutdown'' then Some (s\<lparr>sk_at := LoopDone\<rparr>)
        else Some (if 0 < length (rm_id m) then sdk_respond_error (rm_id m) (- 32601) (''method not found: '' @ meth) s else s)))"

definition upd_sub :: "nat \<Rightarrow> (sub \<Rightarrow> sub) \<Rightarrow> sdk \<Rightarrow> sdk" where
  "upd_sub k f s = s\<lparr>sk_sub := (sk_sub s)[k := f (sk_sub s ! k)]\<rparr>"

text \<open>The send of what the loop holds; none while it has to wait for a place.\<close>

definition sdk_deliver :: "sdk \<Rightarrow> sdk option" where
  "sdk_deliver s =
     (case sk_at s of
        HoldResponse i m \<Rightarrow> if sk_buf s i = [] then Some (s\<lparr>sk_buf := (sk_buf s)(i := [m]), sk_at := Idle\<rparr>) else None
      | HoldTask m \<Rightarrow> if length (sk_tasks s) < sdk_buffer then Some (s\<lparr>sk_tasks := sk_tasks s @ [m], sk_at := Idle\<rparr>) else None
      | HoldPeer m \<Rightarrow> if length (sk_peers s) < sdk_buffer then Some (s\<lparr>sk_peers := sk_peers s @ [m], sk_at := Idle\<rparr>) else None
      | HoldEvent k m \<Rightarrow>
          if length (sk_sub s) \<le> k then None
          else if sb_shut (sk_sub s ! k) then Some (s\<lparr>sk_panicked := True\<rparr>)
          else if length (sb_queue (sk_sub s ! k)) < sdk_buffer
          then Some (upd_sub k (\<lambda>b. b\<lparr>sb_queue := sb_queue b @ [m]\<rparr>) (s\<lparr>sk_at := Idle\<rparr>))
          else None
      | _ \<Rightarrow> None)"

text \<open>The other branches of the loop's selects: the agent is closed, or the subscription is.\<close>

definition sdk_stop_waiting :: "sdk \<Rightarrow> sdk option" where
  "sdk_stop_waiting s =
     (case sk_at s of
        HoldTask m \<Rightarrow> if sk_closed s then Some (s\<lparr>sk_at := LoopDone\<rparr>) else None
      | HoldPeer m \<Rightarrow> if sk_closed s then Some (s\<lparr>sk_at := LoopDone\<rparr>) else None
      | HoldEvent k m \<Rightarrow>
          if k < length (sk_sub s) \<and> sb_ended (sk_sub s ! k) then Some (s\<lparr>sk_at := Idle\<rparr>)
          else if sk_closed s then Some (s\<lparr>sk_at := LoopDone\<rparr>) else None
      | _ \<Rightarrow> None)"

definition sdk_close :: "sdk \<Rightarrow> sdk" where
  "sdk_close s = s\<lparr>sk_closed := True\<rparr>"

text \<open>The end of the stream, and the deferred clean-up after the loop.\<close>

definition sdk_eof :: "sdk \<Rightarrow> sdk option" where
  "sdk_eof s = (if sk_at s = Idle then Some (s\<lparr>sk_at := LoopDone\<rparr>) else None)"

definition sdk_cleanup :: "sdk \<Rightarrow> sdk option" where
  "sdk_cleanup s =
     (if sk_at s \<noteq> LoopDone then None
      else Some ((sdk_close s)\<lparr>sk_subs := Map.empty,
                  sk_sub := map (\<lambda>b. if sk_subs s (sb_id b) \<noteq> None \<and> \<not> sb_once b then b\<lparr>sb_once := True, sb_ended := True, sb_shut := True\<rparr> else b)
                              (sk_sub s)\<rparr>))"

definition sdk_take_task :: "sdk \<Rightarrow> sdk option" where
  "sdk_take_task s = (case sk_tasks s of [] \<Rightarrow> None | m # ms \<Rightarrow> Some (s\<lparr>sk_tasks := ms, sk_taken := sk_taken s @ [m]\<rparr>))"

text \<open>A subscription is entered in the map after the daemon's answer came; its close runs once: out of
  the map under the lock, then the two channels, then the daemon is told.\<close>

definition sdk_subscribed :: "string \<Rightarrow> sdk \<Rightarrow> sdk option" where
  "sdk_subscribed sid s =
     (if sid = [] then None
      else Some (s\<lparr>sk_sub := sk_sub s @ [\<lparr>sb_id = sid, sb_queue = [], sb_once = False, sb_ended = False, sb_shut = False\<rparr>],
                   sk_subs := (sk_subs s)(sid \<mapsto> length (sk_sub s))\<rparr>))"

definition sub_close_begin :: "nat \<Rightarrow> sdk \<Rightarrow> sdk option" where
  "sub_close_begin k s =
     (if k < length (sk_sub s) \<and> \<not> sb_once (sk_sub s ! k)
      then Some (upd_sub k (\<lambda>b. b\<lparr>sb_once := True\<rparr>) (s\<lparr>sk_subs := (sk_subs s)(sb_id (sk_sub s ! k) := None)\<rparr>))
      else None)"

definition sub_close_end :: "nat \<Rightarrow> sdk \<Rightarrow> sdk option" where
  "sub_close_end k s =
     (if k < length (sk_sub s) \<and> sb_once (sk_sub s ! k) \<and> \<not> sb_ended (sk_sub s ! k)
      then Some (upd_sub k (\<lambda>b. b\<lparr>sb_ended := True\<rparr>) s) else None)"

definition sub_close_chan :: "nat \<Rightarrow> sdk \<Rightarrow> sdk option" where
  "sub_close_chan k s =
     (if k < length (sk_sub s) \<and> sb_ended (sk_sub s ! k) \<and> \<not> sb_shut (sk_sub s ! k)
      then Some (upd_sub k (\<lambda>b. b\<lparr>sb_shut := True\<rparr>) s) else None)"

datatype sdk_act =
    SCall | SWrote int bool | SReceive int | SGiveUp int | SSeeClosed int
  | SRead rpc_message | SDeliver | SStopWaiting | SEof | SCleanup | SClose | STakeTask
  | SSubscribed string | SSubCloseBegin nat | SSubCloseEnd nat | SSubCloseChan nat

fun sdk_do :: "wire_parse \<Rightarrow> sdk_act \<Rightarrow> sdk \<Rightarrow> sdk option" where
  "sdk_do p SCall s = Some (sdk_call s)"
| "sdk_do p (SWrote i ok) s = sdk_written i ok s"
| "sdk_do p (SReceive i) s = sdk_receive i s"
| "sdk_do p (SGiveUp i) s = sdk_give_up i s"
| "sdk_do p (SSeeClosed i) s = sdk_see_closed i s"
| "sdk_do p (SRead m) s = sdk_read p m s"
| "sdk_do p SDeliver s = sdk_deliver s"
| "sdk_do p SStopWaiting s = sdk_stop_waiting s"
| "sdk_do p SEof s = sdk_eof s"
| "sdk_do p SCleanup s = sdk_cleanup s"
| "sdk_do p SClose s = Some (sdk_close s)"
| "sdk_do p STakeTask s = sdk_take_task s"
| "sdk_do p (SSubscribed sid) s = sdk_subscribed sid s"
| "sdk_do p (SSubCloseBegin k) s = sub_close_begin k s"
| "sdk_do p (SSubCloseEnd k) s = sub_close_end k s"
| "sdk_do p (SSubCloseChan k) s = sub_close_chan k s"

definition sdk_step :: "wire_parse \<Rightarrow> sdk_act \<Rightarrow> sdk \<Rightarrow> sdk option" where
  "sdk_step p a s = (if sk_panicked s then None else sdk_do p a s)"

subsection \<open>Answers and tasks\<close>

definition own_msg :: "wire_parse \<Rightarrow> rpc_message list \<Rightarrow> int \<Rightarrow> rpc_message \<Rightarrow> bool" where
  "own_msg p got i m \<longleftrightarrow> wp_id p (rm_id m) = Some i \<and> m \<in> set got"

definition sdk_inv :: "wire_parse \<Rightarrow> sdk \<Rightarrow> bool" where
  "sdk_inv p s \<longleftrightarrow> (\<forall>i. list_all (own_msg p (sk_received s) i) (sk_buf s i))
     \<and> (\<forall>i m. sk_phase s i = Some (Answered m) \<longrightarrow> own_msg p (sk_received s) i m)
     \<and> (case sk_at s of HoldResponse i m \<Rightarrow> own_msg p (sk_received s) i m | _ \<Rightarrow> True)"

text \<open>A step that leaves the channels, the answers and what was received leaves the invariant, if the loop
  does not come to hold a response.\<close>

lemma sdk_inv_frame:
  assumes "sdk_inv p s" "sk_received s' = sk_received s" "sk_buf s' = sk_buf s" "sk_phase s' = sk_phase s"
    and "sk_at s' = sk_at s \<or> (\<forall>i m. sk_at s' \<noteq> HoldResponse i m)"
  shows "sdk_inv p s'"
  using assms unfolding sdk_inv_def by (auto split: loop_at.splits)

lemma sdk_end_inv: "sdk_inv p s \<Longrightarrow> (\<And>m. ph = Answered m \<Longrightarrow> own_msg p (sk_received s) i m) \<Longrightarrow> sdk_inv p (sdk_end i ph s)"
  by (simp add: sdk_inv_def sdk_end_def split: loop_at.splits)

lemma sdk_buf_inv: "sdk_inv p s \<Longrightarrow> list_all (own_msg p (sk_received s) i) ms \<Longrightarrow> sdk_inv p (s\<lparr>sk_buf := (sk_buf s)(i := ms)\<rparr>)"
  by (simp add: sdk_inv_def split: loop_at.splits)

lemma sdk_call_inv: "sdk_inv p s \<Longrightarrow> sdk_inv p (sdk_call s)"
  by (simp add: sdk_inv_def sdk_call_def Let_def split: loop_at.splits)

lemma sdk_waiting_inv: "sdk_inv p s \<Longrightarrow> sdk_inv p (s\<lparr>sk_phase := (sk_phase s)(i \<mapsto> Waiting)\<rparr>)"
  by (simp add: sdk_inv_def split: loop_at.splits)

lemma sdk_receive_inv:
  assumes "sdk_inv p s" "sdk_receive i s = Some s'"
  shows "sdk_inv p s'"
proof -
  from assms(2) obtain m ms where b: "sk_buf s i = m # ms" "s' = sdk_end i (Answered m) (s\<lparr>sk_buf := (sk_buf s)(i := ms)\<rparr>)"
    by (auto simp: sdk_receive_def split: if_splits list.splits)
  from assms(1) have "list_all (own_msg p (sk_received s) i) (sk_buf s i)" by (simp add: sdk_inv_def)
  with b(1) have m: "own_msg p (sk_received s) i m" "list_all (own_msg p (sk_received s) i) ms" by simp_all
  from sdk_buf_inv[OF assms(1) m(2)] have "sdk_inv p (s\<lparr>sk_buf := (sk_buf s)(i := ms)\<rparr>)" .
  with m(1) show ?thesis unfolding b(2) by (intro sdk_end_inv) (simp_all add: own_msg_def)
qed

lemma sdk_received_inv: "sdk_inv p s \<Longrightarrow> sdk_inv p (s\<lparr>sk_received := sk_received s @ [m]\<rparr>)"
  by (simp add: sdk_inv_def own_msg_def list_all_iff split: loop_at.splits)

lemma sdk_read_inv:
  assumes "sdk_inv p s" "sdk_read p m s = Some s'"
  shows "sdk_inv p s'"
proof -
  let ?s = "s\<lparr>sk_received := sk_received s @ [m]\<rparr>"
  have inv: "sdk_inv p ?s" using assms(1) by (rule sdk_received_inv)
  consider (frame) "sk_received s' = sk_received ?s" "sk_buf s' = sk_buf ?s" "sk_phase s' = sk_phase ?s"
      "sk_at s' = sk_at ?s \<or> (\<forall>i m. sk_at s' \<noteq> HoldResponse i m)"
    | (resp) i where "wp_id p (rm_id m) = Some i" "s' = ?s\<lparr>sk_at := HoldResponse i m\<rparr>"
    using assms(2) by (auto simp: sdk_read_def sdk_respond_def sdk_respond_error_def Let_def split: if_splits option.splits)
  then show ?thesis
  proof cases
    case frame
    with sdk_inv_frame[OF inv] show ?thesis by blast
  next
    case resp
    with inv show ?thesis by (simp add: sdk_inv_def own_msg_def)
  qed
qed

lemma sdk_deliver_inv:
  assumes "sdk_inv p s" "sdk_deliver s = Some s'"
  shows "sdk_inv p s'"
proof (cases "sk_at s")
  case (HoldResponse i m)
  with assms(1) have "list_all (own_msg p (sk_received s) i) [m]" by (simp add: sdk_inv_def)
  from sdk_buf_inv[OF assms(1) this] have "sdk_inv p (s\<lparr>sk_buf := (sk_buf s)(i := [m]), sk_at := Idle\<rparr>)"
    by (rule sdk_inv_frame) simp_all
  with HoldResponse assms(2) show ?thesis by (simp add: sdk_deliver_def split: if_splits)
qed (use assms sdk_inv_frame[OF assms(1), of s'] in \<open>auto simp: sdk_deliver_def upd_sub_def split: if_splits\<close>)

lemma sdk_step_inv:
  assumes "sdk_inv p s" "sdk_step p a s = Some s'"
  shows "sdk_inv p s'"
proof -
  from assms(2) have d: "sdk_do p a s = Some s'" by (simp add: sdk_step_def split: if_splits)
  have fr: "sk_received s' = sk_received s \<Longrightarrow> sk_buf s' = sk_buf s \<Longrightarrow> sk_phase s' = sk_phase s
      \<Longrightarrow> sk_at s' = sk_at s \<or> (\<forall>i m. sk_at s' \<noteq> HoldResponse i m) \<Longrightarrow> sdk_inv p s'"
    using sdk_inv_frame[OF assms(1)] .
  show ?thesis
  proof (cases a)
    case SCall
    with d assms(1) sdk_call_inv show ?thesis by auto
  next
    case (SWrote i ok)
    with d have "s' = s\<lparr>sk_phase := (sk_phase s)(i \<mapsto> Waiting)\<rparr> \<or> s' = sdk_end i CallFailed s"
      by (auto simp: sdk_written_def split: if_splits)
    with assms(1) sdk_waiting_inv sdk_end_inv[OF assms(1), of CallFailed i] show ?thesis by auto
  next
    case (SReceive i)
    with d assms(1) sdk_receive_inv show ?thesis by simp
  next
    case (SGiveUp i)
    with d sdk_end_inv[OF assms(1), of CallFailed i] show ?thesis by (auto simp: sdk_give_up_def split: if_splits)
  next
    case (SSeeClosed i)
    with d sdk_end_inv[OF assms(1), of CallFailed i] show ?thesis
      by (auto simp: sdk_see_closed_def sdk_give_up_def split: if_splits)
  next
    case (SRead m)
    with d assms(1) sdk_read_inv show ?thesis by simp
  next
    case SDeliver
    with d assms(1) sdk_deliver_inv show ?thesis by simp
  next
    case SStopWaiting
    with d show ?thesis by (intro fr) (auto simp: sdk_stop_waiting_def split: loop_at.splits if_splits)
  qed (use d in \<open>(intro fr; auto simp: sdk_eof_def sdk_cleanup_def sdk_close_def sdk_take_task_def sdk_subscribed_def
        sub_close_begin_def sub_close_end_def sub_close_chan_def upd_sub_def split: if_splits list.splits)+\<close>)
qed

definition sdk_answer :: "sdk \<Rightarrow> int \<Rightarrow> rpc_message option" where
  "sdk_answer s i = (case sk_phase s i of Some (Answered m) \<Rightarrow> Some m | _ \<Rightarrow> None)"

lemma sdk_received_mono: "sdk_step p a s = Some s' \<Longrightarrow> set (sk_received s) \<subseteq> set (sk_received s')"
  by (cases a) (auto simp: sdk_step_def sdk_call_def sdk_written_def sdk_receive_def sdk_give_up_def sdk_see_closed_def sdk_end_def
      sdk_read_def sdk_respond_def sdk_respond_error_def sdk_deliver_def sdk_stop_waiting_def sdk_eof_def sdk_cleanup_def sdk_close_def
      sdk_take_task_def sdk_subscribed_def sub_close_begin_def sub_close_end_def sub_close_chan_def upd_sub_def Let_def
      split: if_splits option.splits list.splits loop_at.splits)

interpretation sdk_calls: call_table "sdk_step p" "sdk_inv p" sdk_answer sk_received "wp_id p" for p
proof
  show "sdk_inv p s \<Longrightarrow> sdk_answer s i = Some m \<Longrightarrow> wp_id p (rm_id m) = Some i \<and> m \<in> set (sk_received s)" for s i m
    by (auto simp: sdk_inv_def own_msg_def sdk_answer_def split: option.splits call_phase.splits)
qed (fact sdk_step_inv sdk_received_mono)+

lemma connect_inv: "sdk_inv p connect"
  by (simp add: sdk_inv_def connect_def)

definition is_task :: "rpc_message \<Rightarrow> bool" where
  "is_task m \<longleftrightarrow> rm_method m = ''task/run''"

definition held_task :: "sdk \<Rightarrow> rpc_message list" where
  "held_task s = (case sk_at s of HoldTask m \<Rightarrow> [m] | _ \<Rightarrow> [])"

text \<open>What the read loop writes for a message.\<close>

definition sdk_replies :: "rpc_message \<Rightarrow> rpc_message list" where
  "sdk_replies m =
     (if 0 < length (rm_id m) \<and> rm_method m = [] then []
      else if is_task m then [\<lparr>rm_id = rm_id m, rm_method = [], rm_params = [], rm_result = ''{}'', rm_error = None\<rparr>]
      else if rm_method m \<in> {''peer/recv'', ''events/recv'', ''shutdown''} then []
      else if 0 < length (rm_id m) then [new_error_response (rm_id m) \<lparr>we_code = - 32601, we_message = ''method not found: '' @ rm_method m\<rparr>] else [])"

definition task_inv :: "sdk \<Rightarrow> bool" where
  "task_inv s \<longleftrightarrow> (\<exists>lost. sk_taken s @ sk_tasks s @ held_task s @ lost = filter is_task (sk_received s) \<and> length lost \<le> 1
      \<and> (sk_at s \<noteq> LoopDone \<longrightarrow> lost = []))
     \<and> length (sk_tasks s) \<le> sdk_buffer \<and> sk_sent s = concat (map sdk_replies (sk_received s))"

lemma task_inv_frame:
  assumes "task_inv s" "sk_taken s' @ sk_tasks s' = sk_taken s @ sk_tasks s" "length (sk_tasks s') \<le> length (sk_tasks s)"
    and "sk_received s' = sk_received s" "sk_sent s' = sk_sent s"
    and "held_task s' = held_task s" "sk_at s' \<noteq> LoopDone \<longrightarrow> sk_at s \<noteq> LoopDone"
  shows "task_inv s'"
proof -
  from assms(1) obtain lost where l: "sk_taken s @ sk_tasks s @ held_task s @ lost = filter is_task (sk_received s)"
      "length lost \<le> 1" "sk_at s \<noteq> LoopDone \<longrightarrow> lost = []" and q: "length (sk_tasks s) \<le> sdk_buffer"
      "sk_sent s = concat (map sdk_replies (sk_received s))"
    by (auto simp: task_inv_def)
  from l(1) have "(sk_taken s' @ sk_tasks s') @ held_task s @ lost = filter is_task (sk_received s)"
    unfolding assms(2) by simp
  with l(2,3) q assms(3-7) show ?thesis unfolding task_inv_def by (intro conjI exI[of _ lost]) auto
qed

lemma sdk_read_task:
  assumes "task_inv s" "sdk_read p m s = Some s'"
  shows "task_inv s'"
proof -
  from assms(2) have idle: "sk_at s = Idle" by (simp add: sdk_read_def split: if_splits)
  with assms(1) have before: "sk_taken s @ sk_tasks s = filter is_task (sk_received s)" "sk_sent s = concat (map sdk_replies (sk_received s))"
      "length (sk_tasks s) \<le> sdk_buffer"
    by (auto simp: task_inv_def held_task_def)
  have after: "sk_taken s' = sk_taken s" "sk_tasks s' = sk_tasks s" "sk_received s' = sk_received s @ [m]"
      "sk_sent s' = sk_sent s @ sdk_replies m" "held_task s' = filter is_task [m]"
    using assms(2) idle by (auto simp: sdk_read_def sdk_respond_def sdk_respond_error_def Let_def held_task_def is_task_def
        sdk_replies_def split: if_splits option.splits)
  show ?thesis unfolding task_inv_def using before by (intro conjI exI[of _ "[]"]) (simp_all add: after)
qed

lemma sdk_deliver_task:
  assumes "task_inv s" "sdk_deliver s = Some s'"
  shows "task_inv s'"
proof (cases "sk_at s")
  case (HoldTask m)
  with assms show ?thesis by (auto simp: sdk_deliver_def task_inv_def held_task_def sdk_buffer_def split: if_splits)
qed (use assms task_inv_frame[OF assms(1), of s'] in \<open>auto simp: sdk_deliver_def upd_sub_def held_task_def split: if_splits\<close>)

lemma sdk_stop_task:
  assumes "task_inv s" "sdk_stop_waiting s = Some s'"
  shows "task_inv s'"
proof (cases "sk_at s")
  case (HoldTask m)
  with assms show ?thesis by (auto simp: sdk_stop_waiting_def task_inv_def held_task_def split: if_splits)
qed (use assms task_inv_frame[OF assms(1), of s'] in \<open>auto simp: sdk_stop_waiting_def held_task_def split: if_splits\<close>)

lemma sdk_step_task:
  assumes "task_inv s" "sdk_step p a s = Some s'"
  shows "task_inv s'"
proof -
  from assms(2) have d: "sdk_do p a s = Some s'" by (simp add: sdk_step_def split: if_splits)
  note fr = task_inv_frame[OF assms(1)]
  show ?thesis
  proof (cases a)
    case (SRead m)
    with d assms(1) sdk_read_task show ?thesis by simp
  next
    case SDeliver
    with d assms(1) sdk_deliver_task show ?thesis by simp
  next
    case SStopWaiting
    with d assms(1) sdk_stop_task show ?thesis by simp
  next
    case STakeTask
    with d show ?thesis by (intro fr) (auto simp: sdk_take_task_def held_task_def split: list.splits)
  qed (use d in \<open>(intro fr; auto simp: sdk_call_def sdk_written_def sdk_receive_def sdk_give_up_def sdk_see_closed_def sdk_end_def
        sdk_eof_def sdk_cleanup_def sdk_close_def sdk_subscribed_def sub_close_begin_def sub_close_end_def sub_close_chan_def
        upd_sub_def held_task_def Let_def split: if_splits list.splits)+\<close>)
qed

lemma sdk_run_task: "task_inv s \<Longrightarrow> run_steps (sdk_step p) acts s = Some s' \<Longrightarrow> task_inv s'"
  by (induction acts arbitrary: s) (auto split: option.splits dest: sdk_step_task)

text \<open>C25. An agent gets every task the daemon sent it once and in order: what it took and what is queued,
  at most sixteen, is what arrived, and only the one task that waits for a place when the agent closes
  itself is lost; and the agent has answered each task, once, and each request it does not know.\<close>

theorem tasks_in_order:
  assumes "run_steps (sdk_step p) acts connect = Some s"
  shows "(\<exists>lost. sk_taken s @ sk_tasks s @ held_task s @ lost = filter is_task (sk_received s) \<and> length lost \<le> 1
      \<and> (sk_at s \<noteq> LoopDone \<longrightarrow> lost = []))
    \<and> length (sk_tasks s) \<le> sdk_buffer \<and> sk_sent s = concat (map sdk_replies (sk_received s))"
proof -
  have "task_inv connect" by (simp add: task_inv_def connect_def held_task_def)
  from sdk_run_task[OF this assms] show ?thesis by (simp add: task_inv_def)
qed

definition task_msg :: "string \<Rightarrow> rpc_message" where
  "task_msg i = \<lparr>rm_id = i, rm_method = ''task/run'', rm_params = [], rm_result = [], rm_error = None\<rparr>"

definition event_msg :: "string \<Rightarrow> rpc_message" where
  "event_msg sid = \<lparr>rm_id = [], rm_method = ''events/recv'', rm_params = sid, rm_result = [], rm_error = None\<rparr>"

definition demo_parse :: wire_parse where
  "demo_parse = \<lparr>wp_id = parse_12, wp_sub = (\<lambda>x. x)\<rparr>"

lemmas sdk_eval = sdk_step_def sdk_call_def sdk_written_def sdk_receive_def sdk_end_def sdk_read_def sdk_respond_def sdk_deliver_def
  sdk_stop_waiting_def sdk_take_task_def sdk_subscribed_def sub_close_begin_def sub_close_end_def sub_close_chan_def upd_sub_def
  Let_def connect_def demo_parse_def sdk_buffer_def wrap64_def

theorem tasks_in_order_witness:
  "\<exists>s. run_steps (sdk_step demo_parse) [SRead (task_msg ''7''), SDeliver, SRead (task_msg ''8''), STakeTask, SDeliver] connect = Some s
     \<and> sk_sent s = concat (map sdk_replies (sk_received s)) \<and> sk_taken s = [task_msg ''7'']"
proof -
  obtain s where s: "run_steps (sdk_step demo_parse) [SRead (task_msg ''7''), SDeliver, SRead (task_msg ''8''), STakeTask, SDeliver] connect
      = Some s" "sk_taken s = [task_msg ''7'']"
    by (auto simp: sdk_eval task_msg_def)
  with tasks_in_order[OF s(1)] show ?thesis by blast
qed

text \<open>The agent's own calls are matched as the daemon's are: whatever the read loop, the calls and the
  subscriptions do, a call that is answered got a message the daemon sent with that call's id, and no
  message answers two calls.\<close>

theorem sdk_calls_get_their_answers:
  assumes "run_steps (sdk_step p) acts connect = Some s"
  shows "\<forall>i m. sk_phase s i = Some (Answered m) \<longrightarrow> wp_id p (rm_id m) = Some i \<and> m \<in> set (sk_received s)
    \<and> (\<forall>j. sk_phase s j = Some (Answered m) \<longrightarrow> j = i)"
proof (intro allI impI)
  fix i m assume "sk_phase s i = Some (Answered m)"
  then have i: "sdk_answer s i = Some m" by (simp add: sdk_answer_def)
  have "j = i" if "sk_phase s j = Some (Answered m)" for j
    using sdk_calls.no_mixup[OF connect_inv assms _ i, of j] that by (simp add: sdk_answer_def)
  with sdk_calls.own_answer[OF connect_inv assms i]
  show "wp_id p (rm_id m) = Some i \<and> m \<in> set (sk_received s) \<and> (\<forall>j. sk_phase s j = Some (Answered m) \<longrightarrow> j = i)" by blast
qed

theorem sdk_calls_get_their_answers_witness:
  "\<exists>s. run_steps (sdk_step demo_parse) [SCall, SWrote 1 True, SRead (reply ''1'' ''a''), SDeliver, SReceive 1] connect = Some s
     \<and> reply ''1'' ''a'' \<in> set (sk_received s)"
proof -
  obtain s where s: "run_steps (sdk_step demo_parse) [SCall, SWrote 1 True, SRead (reply ''1'' ''a''), SDeliver, SReceive 1] connect = Some s"
      "sk_phase s 1 = Some (Answered (reply ''1'' ''a''))"
    by (auto simp: sdk_eval reply_def parse_12_def)
  with sdk_calls_get_their_answers[OF s(1)] show ?thesis by blast
qed

text \<open>An event that arrives between the daemon's answer to a subscription and its entry in the map is
  dropped as if it were late.\<close>

lemma first_event_lost:
  "\<exists>s. run_steps (sdk_step demo_parse) [SRead (event_msg ''s''), SSubscribed ''s''] connect = Some s
     \<and> map sb_queue (sk_sub s) = [[]] \<and> sk_at s = Idle"
  by (simp add: sdk_eval event_msg_def)

text \<open>Closing a subscription closes the channel the read loop may be about to send on: a panic.\<close>

lemma close_panics_reader:
  "\<exists>s. run_steps (sdk_step demo_parse) [SSubscribed ''s'', SRead (event_msg ''s''), SSubCloseBegin 0, SSubCloseEnd 0, SSubCloseChan 0, SDeliver]
       connect = Some s \<and> sk_panicked s"
  by (simp add: sdk_eval event_msg_def)

end
