(* ===== verification/Ipc_Types.thy ===== *)
theory Ipc_Types
  imports Http_Routes Sdk
begin

section \<open>Requests of the command line (internal/ipc/types.go, methods.go; the daemon's Register)\<close>

text \<open>
  What the command line and the web page's hooks ask of the daemon and what it answers, with the JSON of
  each: \<open>enc_x\<close> and \<open>dec_x\<close> write and read the fields of the Go struct \<open>x\<close> by its tags, where
  \<open>omitempty\<close> leaves a zero value out and an absent field has the zero value. A raw message is kept as
  its text, in the compact form \<open>Marshal\<close> gives it. \<open>serve_ipc\<close> is the daemon's table of methods over
  the handlers of \<open>Room_Handlers\<close> and \<open>Conv_Handlers\<close>.
\<close>

subsection \<open>Fields\<close>

definition fld_raw :: "fields \<Rightarrow> string \<Rightarrow> string option" where
  "fld_raw m k = (case map_of m k of None \<Rightarrow> Some [] | Some (WRaw s) \<Rightarrow> Some s | _ \<Rightarrow> None)"

definition fld_obj :: "(fields \<Rightarrow> 'a option) \<Rightarrow> fields \<Rightarrow> string \<Rightarrow> 'a option" where
  "fld_obj f m k = (case map_of m k of None \<Rightarrow> f [] | Some WNull \<Rightarrow> f [] | Some (WObj kvs) \<Rightarrow> f kvs | _ \<Rightarrow> None)"

definition some_raw :: "string \<Rightarrow> string \<Rightarrow> fields" where
  "some_raw k s = (if s \<noteq> [] then [(k, WRaw s)] else [])"

definition some_int :: "string \<Rightarrow> int \<Rightarrow> fields" where
  "some_int k n = (if n \<noteq> 0 then [(k, WInt n)] else [])"

definition objs :: "('a \<Rightarrow> fields) \<Rightarrow> 'a list \<Rightarrow> wval" where
  "objs enc xs = WArr (map (\<lambda>x. WObj (enc x)) xs)"

definition some_objs :: "string \<Rightarrow> ('a \<Rightarrow> fields) \<Rightarrow> 'a list \<Rightarrow> fields" where
  "some_objs k enc xs = (if xs \<noteq> [] then [(k, objs enc xs)] else [])"

text \<open>A field by its name, past the ones before it, and what reading finds when it is there or left out.\<close>

lemma map_of_opt:
  "map_of (some_str j s @ m) k = (if j = k \<and> s \<noteq> [] then Some (WStr s) else map_of m k)"
  "map_of (some_raw j s @ m) k = (if j = k \<and> s \<noteq> [] then Some (WRaw s) else map_of m k)"
  "map_of (some_int j n @ m) k = (if j = k \<and> n \<noteq> 0 then Some (WInt n) else map_of m k)"
  "map_of (some_objs j enc xs @ m) k = (if j = k \<and> xs \<noteq> [] then Some (objs enc xs) else map_of m k)"
  "map_of (some_str j s) k = (if j = k \<and> s \<noteq> [] then Some (WStr s) else None)"
  "map_of (some_raw j s) k = (if j = k \<and> s \<noteq> [] then Some (WRaw s) else None)"
  "map_of (some_int j n) k = (if j = k \<and> n \<noteq> 0 then Some (WInt n) else None)"
  "map_of (some_objs j enc xs) k = (if j = k \<and> xs \<noteq> [] then Some (objs enc xs) else None)"
  by (simp_all add: some_str_def some_raw_def some_int_def some_objs_def del: map_of_append)

lemmas fld_defs = fld_str_def fld_raw_def fld_int_def fld_bool_def

text \<open>A struct whose reading gives back what was written; a list of it is then read back too.\<close>

locale codec =
  fixes enc :: "'a \<Rightarrow> fields"
    and dec :: "fields \<Rightarrow> 'a option"
  assumes dec_enc: "dec (enc x) = Some x"
begin

lemma obj_field: "map_of m k = Some (WObj (enc x)) \<Longrightarrow> fld_obj dec m k = Some x"
  by (simp add: fld_obj_def dec_enc)

lemma list_field: "map_of m k = Some (objs enc xs) \<Longrightarrow> fld_objs dec m k = Some xs"
  by (simp add: fld_objs_def objs_def comp_def dec_enc all_some_map[where g = "\<lambda>x. x"])

lemma opt_list_field:
  "map_of m k = (if xs \<noteq> [] then Some (objs enc xs) else None) \<Longrightarrow> fld_objs dec m k = Some xs"
  using list_field by (cases "xs = []") (simp_all add: fld_objs_def)

end

subsection \<open>Structs\<close>

definition enc_image_ref :: "image_ref \<Rightarrow> fields" where
  "enc_image_ref r = [(''name'', WStr (ref_name r)), (''version'', WStr (ref_version r))]"

definition dec_image_ref :: "fields \<Rightarrow> image_ref option" where
  "dec_image_ref m = bind2 (fld_str m ''name'') (fld_str m ''version'') (\<lambda>n v. \<lparr>ref_name = n, ref_version = v\<rparr>)"

definition enc_volume :: "volume \<Rightarrow> fields" where
  "enc_volume v = [(''name'', WStr (vol_name v)), (''path'', WStr (vol_path v))]"

definition dec_volume :: "fields \<Rightarrow> volume option" where
  "dec_volume m = bind2 (fld_str m ''name'') (fld_str m ''path'') (\<lambda>n p. \<lparr>vol_name = n, vol_path = p\<rparr>)"

definition enc_room_ref :: "room_ref \<Rightarrow> fields" where
  "enc_room_ref r = [(''room_id'', WStr (rr_id r)), (''name'', WStr (rr_name r)), (''state'', WStr (rr_state r))]"

definition dec_room_ref :: "fields \<Rightarrow> room_ref option" where
  "dec_room_ref m = bind2 (bind2 (fld_str m ''name'') (fld_str m ''room_id'') RoomRef) (fld_str m ''state'') (\<lambda>f s. f s)"

definition enc_mount_ref :: "volume_ref \<Rightarrow> fields" where
  "enc_mount_ref v =
     [(''name'', WStr (vr_name v))] @ some_str ''mode'' (vr_mode v) @ [(''mountpoint'', WStr (vr_mountpoint v))]"

definition dec_mount_ref :: "fields \<Rightarrow> volume_ref option" where
  "dec_mount_ref m =
     bind2 (bind2 (fld_str m ''name'') (fld_str m ''mode'') Pair) (fld_str m ''mountpoint'')
       (\<lambda>(n, d) p. \<lparr>vr_name = n, vr_mode = d, vr_mountpoint = p\<rparr>)"

definition enc_binding :: "binding \<Rightarrow> fields" where
  "enc_binding b = [(''volume'', WStr (bd_volume b))] @ some_str ''subdir'' (bd_subdir b)"

definition dec_binding :: "fields \<Rightarrow> binding option" where
  "dec_binding m = bind2 (fld_str m ''volume'') (fld_str m ''subdir'') (\<lambda>v s. \<lparr>bd_volume = v, bd_subdir = s\<rparr>)"

definition enc_member_ref :: "member \<Rightarrow> fields" where
  "enc_member_ref x = [(''room_id'', WStr (mb_room x)), (''agent_name'', WStr (mb_agent x))]"

definition dec_member_ref :: "fields \<Rightarrow> member option" where
  "dec_member_ref m = bind2 (fld_str m ''room_id'') (fld_str m ''agent_name'') (\<lambda>r a. \<lparr>mb_room = r, mb_agent = a\<rparr>)"

record wire_member =
  wm_name :: string
  wm_image :: string
  wm_rank :: string
  wm_state :: string
  wm_quota :: "(string \<times> int) list"

definition enc_wire_member :: "wire_member \<Rightarrow> fields" where
  "enc_wire_member x =
     [(''name'', WStr (wm_name x)), (''image'', WStr (wm_image x)), (''rank'', WStr (wm_rank x)), (''state'', WStr (wm_state x))]
       @ (if wm_quota x \<noteq> [] then [(''quota'', json_ints (wm_quota x))] else [])"

definition dec_wire_member :: "fields \<Rightarrow> wire_member option" where
  "dec_wire_member m =
     bind2 (bind2 (bind2 (fld_str m ''name'') (fld_str m ''image'') Pair) (bind2 (fld_str m ''rank'') (fld_str m ''state'') Pair) Pair)
       (fld_map as_int m ''quota'')
       (\<lambda>((n, i), r, s) q. \<lparr>wm_name = n, wm_image = i, wm_rank = r, wm_state = s, wm_quota = q\<rparr>)"

record log_entry =
  le_agent :: string
  le_path :: string
  le_contents :: string

definition enc_log_entry :: "log_entry \<Rightarrow> fields" where
  "enc_log_entry e = [(''agent'', WStr (le_agent e)), (''path'', WStr (le_path e)), (''contents'', WStr (le_contents e))]"

definition dec_log_entry :: "fields \<Rightarrow> log_entry option" where
  "dec_log_entry m =
     bind2 (bind2 (fld_str m ''agent'') (fld_str m ''path'') Pair) (fld_str m ''contents'')
       (\<lambda>(a, p) c. \<lparr>le_agent = a, le_path = p, le_contents = c\<rparr>)"

text \<open>The wire form of a summary: the times are text, and absent when they are zero.\<close>

record wire_summary =
  ws_id :: string
  ws_room :: string
  ws_tag :: string
  ws_status :: string
  ws_initial_target :: string
  ws_max_rounds :: int
  ws_round_count :: int
  ws_message_count :: int
  ws_created_at :: string
  ws_started_at :: string
  ws_finished_at :: string

fun status_text :: "status \<Rightarrow> string" where
  "status_text StatusPlanned = ''planned''"
| "status_text StatusActive = ''active''"
| "status_text StatusDone = ''done''"
| "status_text StatusFailed = ''failed''"
| "status_text StatusCancelled = ''cancelled''"
| "status_text StatusInterrupted = ''interrupted''"
| "status_text (StatusOther s) = s"

definition summary_to_wire :: "(int \<Rightarrow> string) \<Rightarrow> summary \<Rightarrow> wire_summary" where
  "summary_to_wire fmt s =
     \<lparr>ws_id = sm_id s, ws_room = sm_room s, ws_tag = sm_tag s, ws_status = status_text (sm_status s),
      ws_initial_target = sm_initial_target s, ws_max_rounds = sm_max_rounds s, ws_round_count = sm_round_count s,
      ws_message_count = sm_message_count s, ws_created_at = fmt (sm_created_at s),
      ws_started_at = (if sm_started_at s \<noteq> 0 then fmt (sm_started_at s) else []),
      ws_finished_at = (if sm_finished_at s \<noteq> 0 then fmt (sm_finished_at s) else [])\<rparr>"

definition enc_wire_summary :: "wire_summary \<Rightarrow> fields" where
  "enc_wire_summary s =
     [(''id'', WStr (ws_id s)), (''room_id'', WStr (ws_room s))] @ some_str ''tag'' (ws_tag s)
       @ [(''status'', WStr (ws_status s)), (''initial_target'', WStr (ws_initial_target s)),
          (''max_rounds'', WInt (ws_max_rounds s)), (''round_count'', WInt (ws_round_count s)),
          (''message_count'', WInt (ws_message_count s)), (''created_at'', WStr (ws_created_at s))]
       @ some_str ''started_at'' (ws_started_at s) @ some_str ''finished_at'' (ws_finished_at s)"

definition dec_wire_summary :: "fields \<Rightarrow> wire_summary option" where
  "dec_wire_summary m =
     (case (fld_str m ''id'', fld_str m ''room_id'', fld_str m ''tag'', fld_str m ''status'', fld_str m ''initial_target'',
            fld_int m ''max_rounds'', fld_int m ''round_count'', fld_int m ''message_count'',
            fld_str m ''created_at'', fld_str m ''started_at'', fld_str m ''finished_at'') of
        (Some i, Some r, Some t, Some st, Some it, Some mr, Some rc, Some mc, Some ca, Some sa, Some fa) \<Rightarrow>
          Some \<lparr>ws_id = i, ws_room = r, ws_tag = t, ws_status = st, ws_initial_target = it, ws_max_rounds = mr,
                ws_round_count = rc, ws_message_count = mc, ws_created_at = ca, ws_started_at = sa, ws_finished_at = fa\<rparr>
      | _ \<Rightarrow> None)"

interpretation image_refs: codec enc_image_ref dec_image_ref
  by unfold_locales (simp add: enc_image_ref_def dec_image_ref_def bind2_def fld_defs)

interpretation volumes: codec enc_volume dec_volume
  by unfold_locales (simp add: enc_volume_def dec_volume_def bind2_def fld_defs)

interpretation room_refs: codec enc_room_ref dec_room_ref
  by unfold_locales (simp add: enc_room_ref_def dec_room_ref_def bind2_def fld_defs)

interpretation mount_refs: codec enc_mount_ref dec_mount_ref
  by unfold_locales (simp add: enc_mount_ref_def dec_mount_ref_def bind2_def fld_defs map_of_opt del: map_of_append)

interpretation bindings: codec enc_binding dec_binding
  by unfold_locales (simp add: enc_binding_def dec_binding_def bind2_def fld_defs map_of_opt del: map_of_append)

interpretation member_refs: codec enc_member_ref dec_member_ref
  by unfold_locales (simp add: enc_member_ref_def dec_member_ref_def bind2_def fld_defs)

interpretation wire_members: codec enc_wire_member dec_wire_member
proof
  fix x
  have "fld_map as_int (enc_wire_member x) ''quota'' = Some (wm_quota x)"
    by (simp add: enc_wire_member_def fld_map_def json_ints_def comp_def split_def as_int_def all_some_map[where g = "\<lambda>x. x"])
  then show "dec_wire_member (enc_wire_member x) = Some x"
    by (simp add: dec_wire_member_def bind2_def) (simp add: enc_wire_member_def fld_defs)
qed

interpretation log_entries: codec enc_log_entry dec_log_entry
  by unfold_locales (simp add: enc_log_entry_def dec_log_entry_def bind2_def fld_defs)

interpretation summaries: codec enc_wire_summary dec_wire_summary
proof
  fix s
  have "fld_str (enc_wire_summary s) ''tag'' = Some (ws_tag s)" "fld_str (enc_wire_summary s) ''started_at'' = Some (ws_started_at s)"
    "fld_str (enc_wire_summary s) ''finished_at'' = Some (ws_finished_at s)"
    by (simp_all add: enc_wire_summary_def fld_defs map_of_opt del: map_of_append)
  then show "dec_wire_summary (enc_wire_summary s) = Some s"
    by (simp add: dec_wire_summary_def) (simp add: enc_wire_summary_def fld_defs map_of_opt del: map_of_append)
qed

subsection \<open>Requests\<close>

record hire_params =
  ah_room :: string
  ah_image :: image_ref
  ah_rank :: string
  ah_model :: string
  ah_quota :: string
  ah_volumes :: "volume_ref list"

datatype ipc_call =
    MethodDaemonPing | MethodDaemonVersion
  | MethodImageBuild string | MethodImageList | MethodImagePull string
  | MethodVolumeCreate string | MethodVolumeList | MethodVolumeRemove string
  | MethodRoomInit string | MethodRoomList | MethodRoomStop string | MethodRoomTeam string
  | MethodRoomRun string string string | MethodRoomLogs string string
  | MethodRoomRename string string | MethodRoomSetBindings string "binding list"
  | MethodAgentHire hire_params
  | MethodConversationCreate create_params | MethodConversationStart string string | MethodConversationList string
  | MethodConversationGet string string | MethodConversationCancel string string string
  | MethodConversationDelete string string

primrec ipc_method :: "ipc_call \<Rightarrow> string" where
  "ipc_method MethodDaemonPing = ''daemon/ping''"
| "ipc_method MethodDaemonVersion = ''daemon/version''"
| "ipc_method (MethodImageBuild d) = ''image/build''"
| "ipc_method MethodImageList = ''image/list''"
| "ipc_method (MethodImagePull u) = ''image/pull''"
| "ipc_method (MethodVolumeCreate n) = ''volume/create''"
| "ipc_method MethodVolumeList = ''volume/list''"
| "ipc_method (MethodVolumeRemove n) = ''volume/remove''"
| "ipc_method (MethodRoomInit n) = ''room/init''"
| "ipc_method MethodRoomList = ''room/list''"
| "ipc_method (MethodRoomStop r) = ''room/stop''"
| "ipc_method (MethodRoomTeam r) = ''room/team''"
| "ipc_method (MethodRoomRun r t k) = ''room/run''"
| "ipc_method (MethodRoomLogs r a) = ''room/logs''"
| "ipc_method (MethodRoomRename r n) = ''room/rename''"
| "ipc_method (MethodRoomSetBindings r bs) = ''room/set-bindings''"
| "ipc_method (MethodAgentHire p) = ''agent/hire''"
| "ipc_method (MethodConversationCreate p) = ''conversation/create''"
| "ipc_method (MethodConversationStart r c) = ''conversation/start''"
| "ipc_method (MethodConversationList r) = ''conversation/list''"
| "ipc_method (MethodConversationGet r c) = ''conversation/get''"
| "ipc_method (MethodConversationCancel r c y) = ''conversation/cancel''"
| "ipc_method (MethodConversationDelete r c) = ''conversation/delete''"

definition enc_hire :: "hire_params \<Rightarrow> fields" where
  "enc_hire p =
     [(''room_id'', WStr (ah_room p)), (''image'', WObj (enc_image_ref (ah_image p)))]
       @ some_str ''rank'' (ah_rank p) @ some_str ''model'' (ah_model p) @ some_raw ''quota'' (ah_quota p)
       @ some_objs ''volumes'' enc_mount_ref (ah_volumes p)"

definition dec_hire :: "fields \<Rightarrow> hire_params option" where
  "dec_hire m =
     (case (fld_str m ''room_id'', fld_obj dec_image_ref m ''image'', fld_str m ''rank'', fld_str m ''model'',
            fld_raw m ''quota'', fld_objs dec_mount_ref m ''volumes'') of
        (Some r, Some i, Some k, Some d, Some q, Some vs) \<Rightarrow>
          Some \<lparr>ah_room = r, ah_image = i, ah_rank = k, ah_model = d, ah_quota = q, ah_volumes = vs\<rparr>
      | _ \<Rightarrow> None)"

definition enc_create :: "create_params \<Rightarrow> fields" where
  "enc_create p =
     [(''room_id'', WStr (cp_room p))] @ some_str ''tag'' (cp_tag p) @ [(''target'', WStr (cp_target p))]
       @ some_raw ''input'' (cp_input p) @ some_int ''max_rounds'' (cp_max_rounds p)
       @ some_objs ''members'' enc_member_ref (cp_members p)"

definition dec_create :: "fields \<Rightarrow> create_params option" where
  "dec_create m =
     (case (fld_str m ''room_id'', fld_str m ''tag'', fld_str m ''target'', fld_raw m ''input'', fld_int m ''max_rounds'',
            fld_objs dec_member_ref m ''members'') of
        (Some r, Some g, Some t, Some i, Some n, Some ms) \<Rightarrow>
          Some \<lparr>cp_room = r, cp_target = t, cp_tag = g, cp_input = i, cp_max_rounds = n, cp_members = ms\<rparr>
      | _ \<Rightarrow> None)"

definition enc_run :: "string \<Rightarrow> string \<Rightarrow> string \<Rightarrow> fields" where
  "enc_run r t k =
     [(''room_id'', WStr r)] @ some_str ''target'' t @ [(''task'', WRaw (if k = [] then ''null'' else k))]"

definition enc_room_conv :: "string \<Rightarrow> string \<Rightarrow> fields" where
  "enc_room_conv r c = [(''room_id'', WStr r), (''conv_id'', WStr c)]"

text \<open>A request without parameters sends none.\<close>

primrec ipc_params :: "ipc_call \<Rightarrow> fields" where
  "ipc_params MethodDaemonPing = []"
| "ipc_params MethodDaemonVersion = []"
| "ipc_params (MethodImageBuild d) = [(''source_dir'', WStr d)]"
| "ipc_params MethodImageList = []"
| "ipc_params (MethodImagePull u) = [(''url'', WStr u)]"
| "ipc_params (MethodVolumeCreate n) = [(''name'', WStr n)]"
| "ipc_params MethodVolumeList = []"
| "ipc_params (MethodVolumeRemove n) = [(''name'', WStr n)]"
| "ipc_params (MethodRoomInit n) = [(''name'', WStr n)]"
| "ipc_params MethodRoomList = []"
| "ipc_params (MethodRoomStop r) = [(''room_id'', WStr r)]"
| "ipc_params (MethodRoomTeam r) = [(''room_id'', WStr r)]"
| "ipc_params (MethodRoomRun r t k) = enc_run r t k"
| "ipc_params (MethodRoomLogs r a) = [(''room_id'', WStr r)] @ some_str ''agent'' a"
| "ipc_params (MethodRoomRename r n) = [(''room_id'', WStr r), (''name'', WStr n)]"
| "ipc_params (MethodRoomSetBindings r bs) = [(''room_id'', WStr r), (''bindings'', objs enc_binding bs)]"
| "ipc_params (MethodAgentHire p) = enc_hire p"
| "ipc_params (MethodConversationCreate p) = enc_create p"
| "ipc_params (MethodConversationStart r c) = enc_room_conv r c"
| "ipc_params (MethodConversationList r) = [(''room_id'', WStr r)]"
| "ipc_params (MethodConversationGet r c) = enc_room_conv r c"
| "ipc_params (MethodConversationCancel r c y) = enc_room_conv r c @ some_str ''reason'' y"
| "ipc_params (MethodConversationDelete r c) = enc_room_conv r c"

text \<open>What each handler reads, by the methods of the daemon's table; a method that is not there has none.\<close>

definition dec_room_conv :: "(string \<Rightarrow> string \<Rightarrow> ipc_call) \<Rightarrow> fields \<Rightarrow> ipc_call option" where
  "dec_room_conv f m = bind2 (fld_str m ''room_id'') (fld_str m ''conv_id'') f"

definition dec_image_call :: "string \<Rightarrow> fields \<Rightarrow> ipc_call option" where
  "dec_image_call meth m =
     (if meth = ''image/build'' then map_option MethodImageBuild (fld_str m ''source_dir'')
      else if meth = ''image/list'' then Some MethodImageList
      else if meth = ''image/pull'' then map_option MethodImagePull (fld_str m ''url'')
      else if meth = ''volume/create'' then map_option MethodVolumeCreate (fld_str m ''name'')
      else if meth = ''volume/list'' then Some MethodVolumeList
      else if meth = ''volume/remove'' then map_option MethodVolumeRemove (fld_str m ''name'')
      else None)"

definition dec_room_call :: "string \<Rightarrow> fields \<Rightarrow> ipc_call option" where
  "dec_room_call meth m =
     (if meth = ''room/init'' then map_option MethodRoomInit (fld_str m ''name'')
      else if meth = ''room/list'' then Some MethodRoomList
      else if meth = ''room/stop'' then map_option MethodRoomStop (fld_str m ''room_id'')
      else if meth = ''room/team'' then map_option MethodRoomTeam (fld_str m ''room_id'')
      else if meth = ''room/run'' then
        bind2 (bind2 (fld_str m ''room_id'') (fld_str m ''target'') MethodRoomRun) (fld_raw m ''task'') (\<lambda>f k. f k)
      else if meth = ''room/logs'' then bind2 (fld_str m ''room_id'') (fld_str m ''agent'') MethodRoomLogs
      else if meth = ''room/rename'' then bind2 (fld_str m ''room_id'') (fld_str m ''name'') MethodRoomRename
      else if meth = ''room/set-bindings'' then
        bind2 (fld_str m ''room_id'') (fld_objs dec_binding m ''bindings'') MethodRoomSetBindings
      else if meth = ''agent/hire'' then map_option MethodAgentHire (dec_hire m)
      else None)"

definition dec_conv_call :: "string \<Rightarrow> fields \<Rightarrow> ipc_call option" where
  "dec_conv_call meth m =
     (if meth = ''conversation/create'' then map_option MethodConversationCreate (dec_create m)
      else if meth = ''conversation/start'' then dec_room_conv MethodConversationStart m
      else if meth = ''conversation/list'' then map_option MethodConversationList (fld_str m ''room_id'')
      else if meth = ''conversation/get'' then dec_room_conv MethodConversationGet m
      else if meth = ''conversation/cancel'' then
        bind2 (bind2 (fld_str m ''room_id'') (fld_str m ''conv_id'') MethodConversationCancel) (fld_str m ''reason'') (\<lambda>f y. f y)
      else if meth = ''conversation/delete'' then dec_room_conv MethodConversationDelete m
      else None)"

definition image_methods :: "string list" where
  "image_methods = [''image/build'', ''image/list'', ''image/pull'', ''volume/create'', ''volume/list'', ''volume/remove'']"

definition room_methods :: "string list" where
  "room_methods = [''room/init'', ''room/list'', ''room/stop'', ''room/team'', ''room/logs'', ''room/rename'', ''agent/hire'',
     ''room/run'', ''room/set-bindings'']"

definition conv_methods :: "string list" where
  "conv_methods = [''conversation/create'', ''conversation/start'', ''conversation/list'', ''conversation/get'',
     ''conversation/cancel'', ''conversation/delete'']"

definition meta_methods :: "string list" where
  "meta_methods = [''daemon/ping'', ''daemon/version'']"

definition dec_ipc :: "string \<Rightarrow> fields \<Rightarrow> ipc_call option" where
  "dec_ipc meth m =
     (if meth \<in> set image_methods then dec_image_call meth m
      else if meth \<in> set room_methods then dec_room_call meth m
      else if meth \<in> set conv_methods then dec_conv_call meth m
      else if meth = ''daemon/ping'' then Some MethodDaemonPing
      else if meth = ''daemon/version'' then Some MethodDaemonVersion
      else None)"

text \<open>Of a task only the empty raw message is not kept: it is sent as null.\<close>

definition sent_as :: "ipc_call \<Rightarrow> ipc_call" where
  "sent_as c = (case c of MethodRoomRun r t k \<Rightarrow> MethodRoomRun r t (if k = [] then ''null'' else k) | _ \<Rightarrow> c)"

lemmas method_lists = image_methods_def room_methods_def conv_methods_def meta_methods_def

lemma dec_enc_hire: "dec_hire (enc_hire p) = Some p"
proof -
  have "fld_objs dec_mount_ref (enc_hire p) ''volumes'' = Some (ah_volumes p)"
    by (rule mount_refs.opt_list_field) (simp add: enc_hire_def map_of_opt del: map_of_append)
  moreover have "fld_obj dec_image_ref (enc_hire p) ''image'' = Some (ah_image p)"
    by (rule image_refs.obj_field) (simp add: enc_hire_def)
  moreover have "fld_str (enc_hire p) ''room_id'' = Some (ah_room p)" "fld_str (enc_hire p) ''rank'' = Some (ah_rank p)"
    "fld_str (enc_hire p) ''model'' = Some (ah_model p)" "fld_raw (enc_hire p) ''quota'' = Some (ah_quota p)"
    by (simp_all add: enc_hire_def fld_defs map_of_opt del: map_of_append)
  ultimately show ?thesis by (simp add: dec_hire_def)
qed

lemma dec_enc_create: "dec_create (enc_create p) = Some p"
proof -
  have "fld_objs dec_member_ref (enc_create p) ''members'' = Some (cp_members p)"
    by (rule member_refs.opt_list_field) (simp add: enc_create_def map_of_opt del: map_of_append)
  moreover have "fld_str (enc_create p) ''room_id'' = Some (cp_room p)" "fld_str (enc_create p) ''tag'' = Some (cp_tag p)"
    "fld_str (enc_create p) ''target'' = Some (cp_target p)" "fld_raw (enc_create p) ''input'' = Some (cp_input p)"
    "fld_int (enc_create p) ''max_rounds'' = Some (cp_max_rounds p)"
    by (simp_all add: enc_create_def fld_defs map_of_opt del: map_of_append)
  ultimately show ?thesis by (simp add: dec_create_def)
qed

lemma dec_enc_bindings:
  "fld_objs dec_binding [(''room_id'', WStr r), (''bindings'', objs enc_binding bs)] ''bindings'' = Some bs"
  by (rule bindings.list_field) simp

lemmas dec_call_defs = dec_ipc_def dec_image_call_def dec_room_call_def dec_conv_call_def dec_room_conv_def method_lists

lemma params_arrive: "dec_ipc (ipc_method c) (ipc_params c) = Some (sent_as c)"
  by (cases c) (simp_all add: dec_call_defs sent_as_def dec_enc_hire dec_enc_create dec_enc_bindings bind2_def fld_defs
      enc_run_def enc_room_conv_def map_of_opt del: map_of_append)

subsection \<open>Results\<close>

datatype ipc_value =
    PingResult bool | VersionResult string
  | ImageResult image_ref string | ImageListResult "image_ref list"
  | VolumeResult volume | VolumeListResult "volume list"
  | RoomInitResult string string | RoomListResult "room_ref list" | RoomRenameResult string string
  | RoomTeamResult string "wire_member list" | AgentHireResult wire_member
  | RoomRunResult string | RoomLogsResult string "log_entry list" | RoomSetBindingsResult string "binding list"
  | ConvStatusResult string string | ConversationListResult string "wire_summary list"
  | ConversationGetResult string | ConversationDeleteResult string bool
  | EmptyResult

primrec enc_value :: "ipc_value \<Rightarrow> fields" where
  "enc_value (PingResult ok) = [(''ok'', WBool ok)]"
| "enc_value (VersionResult v) = [(''version'', WStr v)]"
| "enc_value (ImageResult r p) = [(''image'', WObj (enc_image_ref r)), (''path'', WStr p)]"
| "enc_value (ImageListResult rs) = [(''images'', objs enc_image_ref rs)]"
| "enc_value (VolumeResult v) = enc_volume v"
| "enc_value (VolumeListResult vs) = [(''volumes'', objs enc_volume vs)]"
| "enc_value (RoomInitResult r f) = [(''room_id'', WStr r), (''rootfs'', WStr f)]"
| "enc_value (RoomListResult rs) = [(''rooms'', objs enc_room_ref rs)]"
| "enc_value (RoomRenameResult r n) = [(''room_id'', WStr r), (''name'', WStr n)]"
| "enc_value (RoomTeamResult r ms) = [(''room_id'', WStr r), (''members'', objs enc_wire_member ms)]"
| "enc_value (AgentHireResult x) = [(''member'', WObj (enc_wire_member x))]"
| "enc_value (RoomRunResult t) = some_raw ''output'' t"
| "enc_value (RoomLogsResult r es) = [(''room_id'', WStr r), (''entries'', objs enc_log_entry es)]"
| "enc_value (RoomSetBindingsResult r bs) = [(''room_id'', WStr r), (''bindings'', objs enc_binding bs)]"
| "enc_value (ConvStatusResult c st) = [(''conv_id'', WStr c), (''status'', WStr st)]"
| "enc_value (ConversationListResult r cs) = [(''room_id'', WStr r), (''conversations'', objs enc_wire_summary cs)]"
| "enc_value (ConversationGetResult t) = [(''conversation'', WRaw t)]"
| "enc_value (ConversationDeleteResult c d) = [(''conv_id'', WStr c), (''deleted'', WBool d)]"
| "enc_value EmptyResult = []"

text \<open>What a caller that unmarshals the result into the method's struct reads.\<close>

definition dec_status :: "fields \<Rightarrow> ipc_value option" where
  "dec_status m = bind2 (fld_str m ''conv_id'') (fld_str m ''status'') ConvStatusResult"

primrec dec_value :: "ipc_call \<Rightarrow> fields \<Rightarrow> ipc_value option" where
  "dec_value MethodDaemonPing m = map_option PingResult (fld_bool m ''ok'')"
| "dec_value MethodDaemonVersion m = map_option VersionResult (fld_str m ''version'')"
| "dec_value (MethodImageBuild d) m = bind2 (fld_obj dec_image_ref m ''image'') (fld_str m ''path'') ImageResult"
| "dec_value MethodImageList m = map_option ImageListResult (fld_objs dec_image_ref m ''images'')"
| "dec_value (MethodImagePull u) m = bind2 (fld_obj dec_image_ref m ''image'') (fld_str m ''path'') ImageResult"
| "dec_value (MethodVolumeCreate n) m = map_option VolumeResult (dec_volume m)"
| "dec_value MethodVolumeList m = map_option VolumeListResult (fld_objs dec_volume m ''volumes'')"
| "dec_value (MethodVolumeRemove n) m = Some EmptyResult"
| "dec_value (MethodRoomInit n) m = bind2 (fld_str m ''room_id'') (fld_str m ''rootfs'') RoomInitResult"
| "dec_value MethodRoomList m = map_option RoomListResult (fld_objs dec_room_ref m ''rooms'')"
| "dec_value (MethodRoomStop r) m = Some EmptyResult"
| "dec_value (MethodRoomTeam r) m = bind2 (fld_str m ''room_id'') (fld_objs dec_wire_member m ''members'') RoomTeamResult"
| "dec_value (MethodRoomRun r t k) m = map_option RoomRunResult (fld_raw m ''output'')"
| "dec_value (MethodRoomLogs r a) m = bind2 (fld_str m ''room_id'') (fld_objs dec_log_entry m ''entries'') RoomLogsResult"
| "dec_value (MethodRoomRename r n) m = bind2 (fld_str m ''room_id'') (fld_str m ''name'') RoomRenameResult"
| "dec_value (MethodRoomSetBindings r bs) m =
     bind2 (fld_str m ''room_id'') (fld_objs dec_binding m ''bindings'') RoomSetBindingsResult"
| "dec_value (MethodAgentHire p) m = map_option AgentHireResult (fld_obj dec_wire_member m ''member'')"
| "dec_value (MethodConversationCreate p) m = dec_status m"
| "dec_value (MethodConversationStart r c) m = dec_status m"
| "dec_value (MethodConversationList r) m =
     bind2 (fld_str m ''room_id'') (fld_objs dec_wire_summary m ''conversations'') ConversationListResult"
| "dec_value (MethodConversationGet r c) m = map_option ConversationGetResult (fld_raw m ''conversation'')"
| "dec_value (MethodConversationCancel r c y) m = dec_status m"
| "dec_value (MethodConversationDelete r c) m = bind2 (fld_str m ''conv_id'') (fld_bool m ''deleted'') ConversationDeleteResult"

text \<open>The methods a result is of.\<close>

primrec result_of :: "ipc_value \<Rightarrow> string list" where
  "result_of (PingResult ok) = [''daemon/ping'']"
| "result_of (VersionResult v) = [''daemon/version'']"
| "result_of (ImageResult r p) = [''image/build'', ''image/pull'']"
| "result_of (ImageListResult rs) = [''image/list'']"
| "result_of (VolumeResult v) = [''volume/create'']"
| "result_of (VolumeListResult vs) = [''volume/list'']"
| "result_of (RoomInitResult r f) = [''room/init'']"
| "result_of (RoomListResult rs) = [''room/list'']"
| "result_of (RoomRenameResult r n) = [''room/rename'']"
| "result_of (RoomTeamResult r ms) = [''room/team'']"
| "result_of (AgentHireResult x) = [''agent/hire'']"
| "result_of (RoomRunResult t) = [''room/run'']"
| "result_of (RoomLogsResult r es) = [''room/logs'']"
| "result_of (RoomSetBindingsResult r bs) = [''room/set-bindings'']"
| "result_of (ConvStatusResult c st) = [''conversation/create'', ''conversation/start'', ''conversation/cancel'']"
| "result_of (ConversationListResult r cs) = [''conversation/list'']"
| "result_of (ConversationGetResult t) = [''conversation/get'']"
| "result_of (ConversationDeleteResult c d) = [''conversation/delete'']"
| "result_of EmptyResult = [''volume/remove'', ''room/stop'']"

lemma list_fields:
  "fld_objs dec_image_ref [(''images'', objs enc_image_ref rs)] ''images'' = Some rs"
  "fld_objs dec_volume [(''volumes'', objs enc_volume vs)] ''volumes'' = Some vs"
  "fld_objs dec_room_ref [(''rooms'', objs enc_room_ref xs)] ''rooms'' = Some xs"
  "fld_objs dec_wire_member [(''room_id'', WStr r), (''members'', objs enc_wire_member ms)] ''members'' = Some ms"
  "fld_objs dec_log_entry [(''room_id'', WStr r), (''entries'', objs enc_log_entry es)] ''entries'' = Some es"
  "fld_objs dec_wire_summary [(''room_id'', WStr r), (''conversations'', objs enc_wire_summary cs)] ''conversations'' = Some cs"
  by (simp_all add: image_refs.list_field volumes.list_field room_refs.list_field wire_members.list_field
      log_entries.list_field summaries.list_field)

lemma obj_fields:
  "fld_obj dec_image_ref [(''image'', WObj (enc_image_ref i)), (''path'', WStr p)] ''image'' = Some i"
  "fld_obj dec_wire_member [(''member'', WObj (enc_wire_member x))] ''member'' = Some x"
  by (simp_all add: image_refs.obj_field wire_members.obj_field)

lemma value_arrives: "ipc_method c \<in> set (result_of v) \<Longrightarrow> dec_value c (enc_value v) = Some v"
  by (cases v; cases c) (simp_all add: list_fields obj_fields dec_enc_bindings volumes.dec_enc bind2_def fld_defs dec_status_def map_of_opt)

end
