(* ===== verification/Ipc_Daemon.thy ===== *)
theory Ipc_Daemon
  imports Ipc_Types
begin

section \<open>The daemon as the command line sees it (daemon.go Register, cmd/hived/main.go)\<close>

text \<open>
  \<open>serve_ipc\<close> runs a decoded request by its handler on the joined state of Rooms and conversations;
  \<open>handle_ipc\<close> is the entry of the table for a method, from JSON fields to JSON fields, and
  \<open>call_daemon\<close> a client's whole exchange. What handlers meet outside them (the clock, the disk's
  answers, directories that can or cannot be made, the outcome of a task) is the record \<open>ienv\<close>.
\<close>

record ienv =
  ie_base :: renv
  ie_yaml :: yaml
  ie_store :: store_io
  ie_fetch :: fetcher
  ie_stage_ok :: "string \<Rightarrow> bool"
  ie_stage :: string
  ie_cwd :: string
  ie_images :: "(string \<times> bool \<times> (string \<times> bool) list) list option"
  ie_mk :: bool
  ie_quota_json :: "string \<Rightarrow> quota option"
  ie_room_dir :: bool
  ie_logs_missing :: bool
  ie_logs :: "(string \<times> bool \<times> string option) list option"
  ie_read_error :: string
  ie_sink :: nat
  ie_task :: run_end
  ie_time :: "int \<Rightarrow> string"
  ie_conv_json :: "conversation \<Rightarrow> string"
  ie_version :: string

definition abs_from :: "string \<Rightarrow> string \<Rightarrow> string" where
  "abs_from cwd p = (if is_abs p then clean p else join_path [cwd, p])"

text \<open>The override of a hire: absent or null, JSON of another shape, or a quota.\<close>

definition quota_raw_of :: "(string \<Rightarrow> quota option) \<Rightarrow> string \<Rightarrow> quota_raw" where
  "quota_raw_of qjson raw =
     (if raw = [] \<or> raw = ''null'' then NoQuota
      else case qjson raw of None \<Rightarrow> BadQuota | Some q \<Rightarrow> QuotaJson q)"

definition config_of_params :: "(string \<Rightarrow> quota option) \<Rightarrow> hire_params \<Rightarrow> hire_config" where
  "config_of_params qjson p =
     \<lparr>hc_image = ah_image p, hc_rank = ah_rank p, hc_model = ah_model p, hc_quota = quota_raw_of qjson (ah_quota p),
      hc_volumes = ah_volumes p, hc_parent = [], hc_name = []\<rparr>"

definition wire_of_member :: "hmember \<Rightarrow> wire_member" where
  "wire_of_member m =
     \<lparr>wm_name = hm_name m, wm_image = ref_name (hm_image m), wm_rank = rk_name (hm_rank m), wm_state = ''running'', wm_quota = []\<rparr>"

definition wire_of_team :: "team_member \<Rightarrow> wire_member" where
  "wire_of_team m =
     \<lparr>wm_name = tm_name m, wm_image = tm_image m, wm_rank = tm_rank m, wm_state = ''running'', wm_quota = tm_quota m\<rparr>"

definition log_of :: "string \<times> string \<times> string \<Rightarrow> log_entry" where
  "log_of x = (case x of (a, p, c) \<Rightarrow> \<lparr>le_agent = a, le_path = p, le_contents = c\<rparr>)"

definition status_result :: "string \<times> status \<Rightarrow> ipc_value" where
  "status_result x = ConvStatusResult (fst x) (status_text (snd x))"

definition on_quiet :: "('a \<Rightarrow> ipc_value) \<Rightarrow> 'a res \<Rightarrow> hserver \<Rightarrow> ipc_value res \<times> hserver" where
  "on_quiet f r s = (map_sum id f r, s)"

primrec serve_ipc :: "ienv \<Rightarrow> ipc_call \<Rightarrow> hserver \<Rightarrow> ipc_value res \<times> hserver" where
  "serve_ipc e MethodDaemonPing s = (Inr (PingResult True), s)"
| "serve_ipc e MethodDaemonVersion s = (Inr (VersionResult (ie_version e)), s)"
| "serve_ipc e (MethodImageBuild d) s =
     on_rooms (\<lambda>(r, p). ImageResult r p) (handle_image_build (ie_yaml e) (ie_store e) (Some (abs_from (ie_cwd e) d)) (hv_rooms s)) s"
| "serve_ipc e MethodImageList s = on_quiet ImageListResult (handle_image_list (ie_images e)) s"
| "serve_ipc e (MethodImagePull u) s =
     on_rooms (\<lambda>(r, p). ImageResult r p)
       (handle_image_pull (ie_yaml e) (ie_fetch e) (ie_stage_ok e) (ie_store e) (ie_stage e) (Some u) (hv_rooms s)) s"
| "serve_ipc e (MethodVolumeCreate n) s =
     on_rooms VolumeResult (handle_volume_create (ie_yaml e) (ie_mk e) (Some n) (hv_rooms s)) s"
| "serve_ipc e MethodVolumeList s = (Inr (VolumeListResult (handle_volume_list (hv_rooms s))), s)"
| "serve_ipc e (MethodVolumeRemove n) s =
     on_rooms (\<lambda>_. EmptyResult) (handle_volume_remove (ie_yaml e) (re_rm (ie_base e)) (Some n) (hv_rooms s)) s"
| "serve_ipc e (MethodRoomInit n) s =
     on_rooms (\<lambda>(r, f). RoomInitResult r f) (handle_room_init (re_spawn (ie_base e)) (ie_mk e) (Some n) (hv_rooms s)) s"
| "serve_ipc e MethodRoomList s = (Inr (RoomListResult (handle_room_list (re_ids (ie_base e)) (hv_rooms s))), s)"
| "serve_ipc e (MethodRoomStop r) s =
     on_rooms (\<lambda>_. EmptyResult) (handle_room_stop (re_conn (ie_base e)) (re_del (ie_base e)) (Some r) (hv_rooms s)) s"
| "serve_ipc e (MethodRoomTeam r) s =
     on_quiet (\<lambda>ms. RoomTeamResult r (map wire_of_team ms)) (handle_room_team (Some r) (hv_rooms s)) s"
| "serve_ipc e (MethodRoomRun r t k) s =
     (case handle_room_run (ie_sink e) (ie_task e) (Some (r, t, k)) (hv_rooms s) of
        (x, _, after) \<Rightarrow> on_rooms RoomRunResult (x, after) s)"
| "serve_ipc e (MethodRoomLogs r a) s =
     on_quiet (\<lambda>es. RoomLogsResult r (map log_of es))
       (handle_room_logs (ie_room_dir e) (ie_logs_missing e) (ie_logs e) (ie_read_error e) (Some (r, a)) (hv_rooms s)) s"
| "serve_ipc e (MethodRoomRename r n) s =
     on_rooms (\<lambda>(i, nm). RoomRenameResult i nm) (handle_room_rename (re_spawn (ie_base e)) (Some (r, n)) (hv_rooms s)) s"
| "serve_ipc e (MethodRoomSetBindings r bs) s =
     on_rooms (\<lambda>(i, out). RoomSetBindingsResult i out) (handle_room_set_bindings (re_spawn (ie_base e)) (Some (r, bs)) (hv_rooms s)) s"
| "serve_ipc e (MethodAgentHire p) s =
     (case handle_agent_hire (re_spawn (ie_base e)) (Some (ah_room p, config_of_params (ie_quota_json e) p)) (rd_core (hv_rooms s)) of
        (x, core) \<Rightarrow> on_rooms (\<lambda>m. AgentHireResult (wire_of_member m)) (x, (hv_rooms s)\<lparr>rd_core := core\<rparr>) s)"
| "serve_ipc e (MethodConversationCreate p) s =
     on_convs status_result (handle_conversation_create (re_env (ie_base e)) (re_new_id (ie_base e)) (Some p) (hv_convs s)) s"
| "serve_ipc e (MethodConversationStart r c) s =
     on_convs status_result (handle_conversation_start (re_env (ie_base e)) (re_env2 (ie_base e)) (Some (r, c)) (hv_convs s)) s"
| "serve_ipc e (MethodConversationList r) s =
     on_quiet (\<lambda>xs. ConversationListResult r (map (summary_to_wire (ie_time e)) xs))
       (handle_conversation_list (re_convs (ie_base e)) (Some r) (hv_convs s)) s"
| "serve_ipc e (MethodConversationGet r c) s =
     on_quiet (\<lambda>x. ConversationGetResult (ie_conv_json e x)) (handle_conversation_get (Some (r, c)) (hv_convs s)) s"
| "serve_ipc e (MethodConversationCancel r c y) s =
     on_convs status_result (handle_conversation_cancel (re_env (ie_base e)) (Some (r, c, y)) (hv_convs s)) s"
| "serve_ipc e (MethodConversationDelete r c) s =
     on_convs (\<lambda>(i, d). ConversationDeleteResult i d)
       (handle_conversation_delete (re_env (ie_base e)) (re_rm (ie_base e)) (Some (r, c)) (hv_convs s)) s"

text \<open>The tables of \<open>Register\<close> and of the two handlers of \<open>main\<close>.\<close>

definition registered :: "string list" where
  "registered = image_methods @ room_methods @ conv_methods"

definition handle_ipc :: "ienv \<Rightarrow> string \<Rightarrow> fields \<Rightarrow> hserver \<Rightarrow> fields res \<times> hserver" where
  "handle_ipc e meth m s =
     (if meth \<notin> set meta_methods \<and> meth \<notin> set registered then (Inl MethodNotFound, s)
      else case dec_ipc meth m of
          None \<Rightarrow> (Inl InvalidParams, s)
        | Some c \<Rightarrow> apfst (map_sum id enc_value) (serve_ipc e c s))"

text \<open>A call of the client: the result is unmarshalled by the caller, which ignores that it could fail.\<close>

definition call_daemon :: "ienv \<Rightarrow> ipc_call \<Rightarrow> hserver \<Rightarrow> ipc_value option res \<times> hserver" where
  "call_daemon e c s = apfst (map_sum id (dec_value c)) (handle_ipc e (ipc_method c) (ipc_params c) s)"

subsection \<open>Nothing is lost on the way\<close>

lemma method_sent [simp]: "ipc_method (sent_as c) = ipc_method c"
  by (cases c) (simp_all add: sent_as_def)

lemma dec_sent [simp]: "dec_value (sent_as c) = dec_value c"
  by (cases c) (simp_all add: sent_as_def fun_eq_iff)

lemma method_registered: "ipc_method c \<in> set meta_methods \<or> ipc_method c \<in> set registered"
  by (cases c) (simp_all add: registered_def method_lists)

lemma map_sum_Inr: "map_sum f g x = Inr v \<longleftrightarrow> (\<exists>y. x = Inr y \<and> v = g y)"
  by (cases x) auto

lemma on_typed:
  "fst (on_rooms f x s) = Inr v \<Longrightarrow> \<exists>y. v = f y" "fst (on_convs g z s) = Inr v \<Longrightarrow> \<exists>y. v = g y"
  "fst (on_quiet h r s) = Inr v \<Longrightarrow> \<exists>y. v = h y"
  by (auto simp: on_rooms_def on_convs_def on_quiet_def map_sum_Inr)

text \<open>A handler's result is of the struct its method's caller unmarshals.\<close>

lemma serve_ipc_typed: "fst (serve_ipc e c s) = Inr v \<Longrightarrow> ipc_method c \<in> set (result_of v)"
  by (cases c) (auto dest!: on_typed simp: status_result_def split_def)

lemma call_parts:
  "fst (call_daemon e c s) = map_sum id (dec_value c) (map_sum id enc_value (fst (serve_ipc e (sent_as c) s)))"
  "snd (call_daemon e c s) = snd (serve_ipc e (sent_as c) s)"
  using method_registered[of c] by (auto simp: call_daemon_def handle_ipc_def params_arrive)

text \<open>C38. The command line and the daemon agree on every method's JSON: a call is answered as if the client had run
  the handler on its own arguments. No parameter or result field is renamed, lost or invented between the
  structs, no result fails to unmarshal and every method the client can name is in the daemon's tables.\<close>

theorem ipc_exchange:
  "call_daemon e c s = (map_sum id Some (fst (serve_ipc e (sent_as c) s)), snd (serve_ipc e (sent_as c) s))"
proof -
  have "fst (call_daemon e c s) = map_sum id Some (fst (serve_ipc e (sent_as c) s))"
    using serve_ipc_typed[of e "sent_as c" s] value_arrives[of c]
    by (cases "fst (serve_ipc e (sent_as c) s)") (auto simp: call_parts)
  then show ?thesis by (simp add: prod_eq_iff call_parts)
qed

subsection \<open>The invariants\<close>

text \<open>The request on the Rooms and on the conversations that a call of the command line stands for.\<close>

definition ipc_room_op :: "ienv \<Rightarrow> ipc_call \<Rightarrow> rop option" where
  "ipc_room_op e c =
     (case c of
        MethodImageBuild d \<Rightarrow> Some (OpBuild (ie_store e) (Some (abs_from (ie_cwd e) d)))
      | MethodImagePull u \<Rightarrow> Some (OpPull (ie_fetch e) (ie_stage_ok e) (ie_store e) (ie_stage e) (Some u))
      | MethodVolumeCreate n \<Rightarrow> Some (OpVolCreate (ie_mk e) (Some n))
      | MethodVolumeRemove n \<Rightarrow> Some (OpVolRemove (re_rm (ie_base e)) (Some n))
      | MethodRoomInit n \<Rightarrow> Some (OpInit (ie_mk e) (Some n))
      | MethodRoomStop r \<Rightarrow> Some (OpStop (re_del (ie_base e)) (Some r))
      | MethodRoomRename r n \<Rightarrow> Some (OpRename (Some (r, n)))
      | MethodRoomSetBindings r bs \<Rightarrow> Some (OpBindings (Some (r, bs)))
      | MethodAgentHire p \<Rightarrow> Some (OpHire (Some (ah_room p, config_of_params (ie_quota_json e) p)))
      | _ \<Rightarrow> None)"

definition ipc_conv_op :: "ienv \<Rightarrow> ipc_call \<Rightarrow> command option" where
  "ipc_conv_op e c =
     (case c of
        MethodConversationCreate p \<Rightarrow> Some (CreateC (re_env (ie_base e)) (re_new_id (ie_base e)) (Some p))
      | MethodConversationStart r i \<Rightarrow> Some (StartC (re_env (ie_base e)) (re_env2 (ie_base e)) (Some (r, i)))
      | MethodConversationCancel r i y \<Rightarrow> Some (CancelC (re_env (ie_base e)) (Some (r, i, y)))
      | _ \<Rightarrow> None)"

definition same_rooms :: "rdaemon \<Rightarrow> rdaemon \<Rightarrow> bool" where
  "same_rooms s s' \<longleftrightarrow> s' = s\<lparr>rd_notify := rd_notify s'\<rparr>"

lemma run_same_rooms: "handle_room_run sink t p s = (x, during, after) \<Longrightarrow> same_rooms s after"
  by (auto simp: handle_room_run_def same_rooms_def Let_def split: option.splits if_splits prod.splits)

lemma serve_ipc_rooms:
  "case ipc_room_op e c of
     None \<Rightarrow> same_rooms (hv_rooms s) (hv_rooms (snd (serve_ipc e c s)))
   | Some op \<Rightarrow> hv_rooms (snd (serve_ipc e c s)) = rexec (ie_yaml e) (re_conn (ie_base e)) (re_spawn (ie_base e), op) (hv_rooms s)"
  using run_same_rooms
  by (cases c) (auto simp: ipc_room_op_def on_rooms_def on_convs_def on_quiet_def same_rooms_def split: prod.split)

lemma serve_ipc_convs:
  "(\<forall>r i. c \<noteq> MethodConversationDelete r i) \<Longrightarrow>
   hv_convs (snd (serve_ipc e c s)) = (case ipc_conv_op e c of None \<Rightarrow> hv_convs s | Some op \<Rightarrow> exec op (hv_convs s))"
  by (cases c) (simp_all add: ipc_conv_op_def on_rooms_def on_convs_def on_quiet_def split: prod.split)

lemma same_rooms_keep: "same_rooms s s' \<Longrightarrow> daemon_typed s' = daemon_typed s \<and> rd_core s' = rd_core s"
  by (cases s; cases s') (auto simp: same_rooms_def daemon_typed_def)

text \<open>Whatever is called on the command line's socket, the Rooms stay well formed and the state files
  their snapshots when the files can be written; and unless it deletes a conversation, every conversation
  stays readable under its key and its status moves only along the diagram.\<close>

theorem ipc_keeps_invariants:
  assumes "daemon_typed (hv_rooms s)" "mirrored (rd_core (hv_rooms s))" "\<not> hd_shutting (rd_core (hv_rooms s))"
    and "re_del (ie_base e)" "sp_save (re_spawn (ie_base e))" "life_inv (hv_convs s)"
    and "call_daemon e c s = (a, s')"
  shows "daemon_typed (hv_rooms s') \<and> mirrored (rd_core (hv_rooms s')) \<and>
    ((\<forall>r i. c \<noteq> MethodConversationDelete r i) \<longrightarrow>
      life_inv (hv_convs s') \<and> moves (store_of (hv_convs s)) (store_of (hv_convs s')))"
proof -
  let ?c = "sent_as c"
  have s': "s' = snd (serve_ipc e ?c s)" using assms(7) call_parts(2) by (metis snd_conv)
  have "daemon_typed (hv_rooms s') \<and> mirrored (rd_core (hv_rooms s'))"
  proof (cases "ipc_room_op e ?c")
    case None
    with serve_ipc_rooms[where e = e and c = ?c and s = s] assms(1,2) show ?thesis by (auto simp: s' dest: same_rooms_keep)
  next
    case (Some op)
    have "saves (re_spawn (ie_base e), op)"
      using Some assms(4,5) by (cases c) (auto simp: ipc_room_op_def sent_as_def)
    with Some serve_ipc_rooms[where e = e and c = ?c and s = s] assms(1-3) show ?thesis by (simp add: s' rexec_typed rexec_mirrored)
  qed
  moreover have "life_inv (hv_convs s') \<and> moves (store_of (hv_convs s)) (store_of (hv_convs s'))"
    if "\<forall>r i. c \<noteq> MethodConversationDelete r i"
  proof -
    have "\<forall>r i. ?c \<noteq> MethodConversationDelete r i" using that by (cases c) (simp_all add: sent_as_def)
    from serve_ipc_convs[OF this, where e = e and s = s] show ?thesis
      using assms(6) exec_step by (auto simp: s' split: option.split)
  qed
  ultimately show ?thesis by blast
qed

definition ienv_a :: ienv where
  "ienv_a = \<lparr>ie_base = renv_a, ie_yaml = (\<lambda>_. None), ie_store = io_ok, ie_fetch = (\<lambda>_. None), ie_stage_ok = (\<lambda>_. True),
     ie_stage = ''/tmp/s'', ie_cwd = ''/'', ie_images = None, ie_mk = True, ie_quota_json = (\<lambda>_. None), ie_room_dir = True,
     ie_logs_missing = False, ie_logs = None, ie_read_error = [], ie_sink = 0, ie_task = RunExited, ie_time = (\<lambda>_. []),
     ie_conv_json = (\<lambda>_. []), ie_version = ''dev''\<rparr>"

theorem ipc_keeps_invariants_witness:
  "let s' = snd (call_daemon ienv_a (MethodConversationCancel ''r1'' ''c1'' ''stop'') \<lparr>hv_rooms = boot, hv_convs = cdaemon_p\<rparr>)
   in mirrored (rd_core (hv_rooms s')) \<and> life_inv (hv_convs s')
      \<and> (\<exists>c'. load_conv (store_of (hv_convs s')) (''r1'', ''c1'') = Inr c' \<and> advances conv_p c')"
proof -
  let ?s = "\<lparr>hv_rooms = boot, hv_convs = cdaemon_p\<rparr>" and ?c = "MethodConversationCancel ''r1'' ''c1'' ''stop''"
  have "mirrored (rd_core boot)" "\<not> hd_shutting (rd_core boot)" "re_del (ie_base ienv_a)" "sp_save (re_spawn (ie_base ienv_a))"
    by (simp_all add: boot_def mirrored_def boss_daemon_def ienv_a_def renv_a_def spawn_a_def)
  moreover note boot_typed
  moreover have "life_inv cdaemon_p" by (simp add: life_inv_def placed_p)
  ultimately show ?thesis
    using ipc_keeps_invariants[of ?s ienv_a ?c, OF _ _ _ _ _ _ surjective_pairing] load_p by (auto simp: moves_def Let_def)
qed

subsection \<open>The web page's hooks\<close>

text \<open>The call that a browser's request on a Room or a conversation stands for; its body is needed to have decoded.\<close>

definition call_of :: "rbody \<Rightarrow> room_route \<Rightarrow> ipc_call option" where
  "call_of b r =
     (case r of
        RoomDelete rid \<Rightarrow> Some (MethodRoomStop rid)
      | RoomRename rid \<Rightarrow> map_option (MethodRoomRename rid) (rb_name b)
      | RoomBindings rid \<Rightarrow> map_option (MethodRoomSetBindings rid) (rb_bindings b)
      | ConvCreate rid \<Rightarrow>
          (case rb_create b of
             None \<Rightarrow> None
           | Some p \<Rightarrow> if cp_target p = [] then None else Some (MethodConversationCreate (p\<lparr>cp_room := rid\<rparr>)))
      | ConvDelete rid cid \<Rightarrow> Some (MethodConversationDelete rid cid)
      | ConvStart rid cid \<Rightarrow> Some (MethodConversationStart rid cid)
      | ConvCancel rid cid \<Rightarrow> Some (MethodConversationCancel rid cid (rb_reason b))
      | _ \<Rightarrow> None)"

lemma on_parts:
  "fst (on_rooms f x s) = map_sum id f (fst x)" "snd (on_rooms f x s) = s\<lparr>hv_rooms := snd x\<rparr>"
  "fst (on_convs g y s) = map_sum id g (fst y)" "snd (on_convs g y s) = s\<lparr>hv_convs := snd y\<rparr>"
  by (simp_all add: on_rooms_def on_convs_def)

lemma ok_same: "(\<exists>a. answer_400 g (map_sum id f r) = Inr a) \<longleftrightarrow> (\<exists>v. map_sum id h r = Inr v)"
  by (cases r) (simp_all add: answer_400_def)


end
