(* ===== verification/Mem_Proxy.thy ===== *)
theory Mem_Proxy
  imports Rank Remote
begin

section \<open>The memory proxy (internal/proxy/memproxy)\<close>

text \<open>
  An agent's memory is a directory of files, one per key: its Room's own directory or that of a
  volume. A key becomes a file name by percent-encoding (\<open>encode_key\<close>); a read or a removal tries
  the encoded name and then the key itself. The disk maps paths to contents; \<open>mi_bad\<close> says at which
  paths an access fails for another reason than absence (a directory, no permission), \<open>mi_tmp\<close> is
  the random part of the temp file's name.
\<close>

definition max_key_len :: nat where "max_key_len = 256"

record mem_proxy =
  mp_room :: string
  mp_rank :: rank
  mp_volumes :: "string \<Rightarrow> volume res"
  mp_rooms_dir :: string

record mem_io =
  mi_io :: io
  mi_bad :: "string \<Rightarrow> bool"
  mi_tmp :: string

subsection \<open>Keys\<close>

text \<open>\<^verbatim>\<open>url.PathEscape\<close>: every byte but the unreserved ones and some punctuation becomes
  a percent sign and two upper-case hex digits.\<close>

definition path_safe :: "char \<Rightarrow> bool" where
  "path_safe c \<longleftrightarrow> (CHR ''a'' \<le> c \<and> c \<le> CHR ''z'') \<or> (CHR ''A'' \<le> c \<and> c \<le> CHR ''Z'')
     \<or> (CHR ''0'' \<le> c \<and> c \<le> CHR ''9'') \<or> c \<in> set ''-_.~$&+:=@''"

definition hex_digit :: "nat \<Rightarrow> char" where
  "hex_digit n = ''0123456789ABCDEF'' ! n"

definition escape_char :: "char \<Rightarrow> string" where
  "escape_char c = (if path_safe c then [c]
     else [CHR ''%'', hex_digit (of_char c div 16), hex_digit (of_char c mod 16)])"

definition encode_key :: "string \<Rightarrow> string" where
  "encode_key k = concat (map escape_char k)"

definition decode_key :: "string \<Rightarrow> string option" where
  "decode_key nm = unescape nm"

text \<open>\<^verbatim>\<open>utf8.ValidString\<close> over the bytes of the string.\<close>

definition cont_byte :: "nat \<Rightarrow> bool" where "cont_byte b \<longleftrightarrow> 128 \<le> b \<and> b < 192"

fun utf8_bytes :: "nat list \<Rightarrow> bool" where
  "utf8_bytes [] = True"
| "utf8_bytes (b # bs) =
     (if b < 128 then utf8_bytes bs
      else if 194 \<le> b \<and> b < 224 then
        (case bs of c # r \<Rightarrow> cont_byte c \<and> utf8_bytes r | _ \<Rightarrow> False)
      else if 224 \<le> b \<and> b < 240 then
        (case bs of c # e # r \<Rightarrow>
           cont_byte c \<and> cont_byte e \<and> (b = 224 \<longrightarrow> 160 \<le> c) \<and> (b = 237 \<longrightarrow> c < 160) \<and> utf8_bytes r
         | _ \<Rightarrow> False)
      else if 240 \<le> b \<and> b < 245 then
        (case bs of c # e # f # r \<Rightarrow>
           cont_byte c \<and> cont_byte e \<and> cont_byte f \<and> (b = 240 \<longrightarrow> 144 \<le> c) \<and> (b = 244 \<longrightarrow> c < 144) \<and> utf8_bytes r
         | _ \<Rightarrow> False)
      else False)"

definition validate_key :: "string \<Rightarrow> unit res" where
  "validate_key k =
     (if k = [] then Inl InvalidParams
      else if length k > max_key_len then Inl InvalidParams
      else if \<not> utf8_bytes (map of_char k) then Inl InvalidParams
      else if CHR 0x00 \<in> set k then Inl InvalidParams
      else Inr ())"

subsection \<open>The handlers\<close>

definition mem_gate :: "mem_proxy \<Rightarrow> unit res" where
  "mem_gate p = (if memory_allowed (mp_rank p) then Inr () else Inl PermissionDenied)"

definition resolve_dir :: "mem_proxy \<Rightarrow> string \<Rightarrow> string res" where
  "resolve_dir p scope =
     (if scope = [] then Inr (join_path [mp_rooms_dir p, mp_room p, ''memory''])
      else case mp_volumes p scope of
          Inl _ \<Rightarrow> Inl InvalidParams
        | Inr vol \<Rightarrow> Inr (memory_dir vol))"

text \<open>The checks Put, Get and Delete share; their result is the directory.\<close>

definition mem_open :: "mem_proxy \<Rightarrow> string \<Rightarrow> string \<Rightarrow> string res" where
  "mem_open p scope k =
     (case validate_key k of Inl e \<Rightarrow> Inl e | Inr _ \<Rightarrow> resolve_dir p scope)"

definition mem_put ::
  "mem_proxy \<Rightarrow> mem_io \<Rightarrow> (string \<times> string \<times> string) option \<Rightarrow> string disk \<Rightarrow> unit res \<times> string disk" where
  "mem_put p w params d =
     (case mem_gate p of
        Inl e \<Rightarrow> (Inl e, d)
      | Inr _ \<Rightarrow>
          (case params of
             None \<Rightarrow> (Inl InvalidParams, d)
           | Some (scope, k, v) \<Rightarrow>
               (case mem_open p scope k of
                  Inl e \<Rightarrow> (Inl e, d)
                | Inr dir \<Rightarrow>
                    (let path = join_path [dir, encode_key k];
                         io = (if mi_bad w path then (mi_io w)\<lparr>rename_ok := False\<rparr> else mi_io w);
                         (ok, d') = atomic_replace io (join_path [dir, ''.put-'' @ mi_tmp w]) path v d
                     in (if ok then Inr () else Inl Plain, d')))))"

text \<open>The first of the paths that names a file.\<close>

fun read_first :: "(string \<Rightarrow> bool) \<Rightarrow> string disk \<Rightarrow> string list \<Rightarrow> string option res" where
  "read_first bad d [] = Inr None"
| "read_first bad d (c # cs) =
     (if bad c then Inl Plain
      else case d c of Some v \<Rightarrow> Inr (Some v) | None \<Rightarrow> read_first bad d cs)"

definition mem_get ::
  "mem_proxy \<Rightarrow> mem_io \<Rightarrow> (string \<times> string) option \<Rightarrow> string disk \<Rightarrow> string option res" where
  "mem_get p w params d =
     (case mem_gate p of
        Inl e \<Rightarrow> Inl e
      | Inr _ \<Rightarrow>
          (case params of
             None \<Rightarrow> Inl InvalidParams
           | Some (scope, k) \<Rightarrow>
               (case mem_open p scope k of
                  Inl e \<Rightarrow> Inl e
                | Inr dir \<Rightarrow>
                    read_first (mi_bad w) d [join_path [dir, encode_key k], join_path [dir, k]])))"

text \<open>The key a file name stands for.\<close>

definition canonical_key :: "string \<Rightarrow> string" where
  "canonical_key nm =
     (case decode_key nm of Some k \<Rightarrow> if encode_key k = nm then k else nm | None \<Rightarrow> nm)"

definition mem_list ::
  "mem_proxy \<Rightarrow> (string \<Rightarrow> (string \<times> bool) list option res) \<Rightarrow> (string \<times> string) option \<Rightarrow> string list res" where
  "mem_list p read_dir params =
     (case mem_gate p of
        Inl e \<Rightarrow> Inl e
      | Inr _ \<Rightarrow>
          (case params of
             None \<Rightarrow> Inl InvalidParams
           | Some (scope, pre) \<Rightarrow>
               (case resolve_dir p scope of
                  Inl e \<Rightarrow> Inl e
                | Inr dir \<Rightarrow>
                    (case read_dir dir of
                       Inl e \<Rightarrow> Inl e
                     | Inr None \<Rightarrow> Inr []
                     | Inr (Some es) \<Rightarrow>
                         Inr (sort (filter (\<lambda>k. pre = [] \<or> has_prefix k pre)
                           (remdups (map (\<lambda>e. canonical_key (fst e))
                             (filter (\<lambda>(nm, is_dir). \<not> is_dir \<and> \<not> has_prefix nm ''.put-'') es)))))))))"

fun remove_each :: "(string \<Rightarrow> bool) \<Rightarrow> string list \<Rightarrow> string disk \<Rightarrow> unit res \<times> string disk" where
  "remove_each bad [] d = (Inr (), d)"
| "remove_each bad (c # cs) d = (if bad c then (Inl Plain, d) else remove_each bad cs (d(c := None)))"

definition mem_delete ::
  "mem_proxy \<Rightarrow> mem_io \<Rightarrow> (string \<times> string) option \<Rightarrow> string disk \<Rightarrow> unit res \<times> string disk" where
  "mem_delete p w params d =
     (case mem_gate p of
        Inl e \<Rightarrow> (Inl e, d)
      | Inr _ \<Rightarrow>
          (case params of
             None \<Rightarrow> (Inl InvalidParams, d)
           | Some (scope, k) \<Rightarrow>
               (case mem_open p scope k of
                  Inl e \<Rightarrow> (Inl e, d)
                | Inr dir \<Rightarrow>
                    remove_each (mi_bad w) [join_path [dir, encode_key k], join_path [dir, k]] d)))"

subsection \<open>Encoding and decoding a key\<close>

lemma hex_val_digit: "n < 16 \<Longrightarrow> hex_val (hex_digit n) = Some n"
proof -
  assume "n < 16"
  then have "n \<in> set [0 ..< 16]" by simp
  moreover have "list_all (\<lambda>n. hex_val (hex_digit n) = Some n) [0 ..< 16]" by code_simp
  ultimately show ?thesis by (simp add: list_all_iff)
qed

lemma unescape_escape_char: "unescape (escape_char c @ s) = map_option ((#) c) (unescape s)"
proof (cases "path_safe c")
  case True
  then have "c \<noteq> CHR ''%''" by (auto simp: path_safe_def less_eq_char_def)
  with True show ?thesis by (simp add: escape_char_def)
next
  case False
  have "of_char c < (256 :: nat)" by (metis of_char_of nat_of_char_less_256)
  then have "(of_char c :: nat) div 16 < 16" "(of_char c :: nat) mod 16 < 16"
    using less_mult_imp_div_less[of "of_char c" 16 16] by simp_all
  with False show ?thesis by (simp add: escape_char_def hex_val_digit)
qed

lemma unescape_encode: "unescape (encode_key k @ s) = map_option ((@) k) (unescape s)"
proof (induction k)
  case Nil
  show ?case by (cases "unescape s") (simp_all add: encode_key_def)
next
  case (Cons c k)
  then show ?case by (cases "unescape s") (simp_all add: encode_key_def unescape_escape_char)
qed

lemma decode_encode: "decode_key (encode_key k) = Some k"
  using unescape_encode[of k "[]"] by (simp add: decode_key_def)

lemma encode_key_inj [simp]: "encode_key k = encode_key k' \<longleftrightarrow> k = k'"
  by (metis decode_encode option.inject)

lemma canonical_encode [simp]: "canonical_key (encode_key k) = k"
  by (simp add: canonical_key_def decode_encode)


lemma encode_no_slash: "CHR ''/'' \<notin> set (encode_key k)"
proof -
  have "CHR ''/'' \<notin> set (escape_char c)" for c
  proof (cases "path_safe c")
    case False
    have "list_all (\<lambda>n. hex_digit n \<noteq> CHR ''/'') [0 ..< 16]" by code_simp
    then have "n < 16 \<Longrightarrow> CHR ''/'' \<noteq> hex_digit n" for n by (fastforce simp: list_all_iff)
    then show ?thesis
      using False less_mult_imp_div_less[of "of_char c" 16 16] by (simp add: escape_char_def)
  qed (auto simp: escape_char_def path_safe_def less_eq_char_def)
  then show ?thesis by (simp add: encode_key_def)
qed

lemma encode_safe: "list_all path_safe k \<Longrightarrow> encode_key k = k"
  by (induction k) (simp_all add: encode_key_def escape_char_def)

lemma encode_no_percent: "CHR ''%'' \<notin> set (encode_key k) \<Longrightarrow> encode_key k = k"
  by (rule encode_safe) (induction k; auto simp: encode_key_def escape_char_def split: if_splits)

lemma encode_is_name: "k \<noteq> [] \<Longrightarrow> k \<noteq> ''.'' \<Longrightarrow> k \<noteq> ''..'' \<Longrightarrow> is_name (encode_key k)"
proof -
  assume k: "k \<noteq> []" "k \<noteq> ''.''" "k \<noteq> ''..''"
  have safe: "path_safe CHR ''.''" by (simp add: path_safe_def)
  have e: "encode_key [] = []" "encode_key ''.'' = ''.''" "encode_key ''..'' = ''..''"
    by (simp_all add: encode_key_def escape_char_def safe)
  from k have "encode_key k \<noteq> []" "encode_key k \<noteq> ''.''" "encode_key k \<noteq> ''..''"
    using encode_key_inj[of k] by (metis e)+
  then show ?thesis using encode_no_slash by (simp add: is_name_def dot_def dotdot_def)
qed

lemma encode_prefix: "list_all path_safe p \<Longrightarrow> has_prefix (encode_key k) p \<longleftrightarrow> has_prefix k p"
proof
  assume p: "list_all path_safe p" and "has_prefix (encode_key k) p"
  then obtain t where "encode_key k = p @ t" by (auto simp: has_prefix_iff)
  with p have "encode_key k = encode_key p @ t" by (simp add: encode_safe)
  then have "unescape (encode_key k) = map_option ((@) p) (unescape t)" by (simp add: unescape_encode)
  then show "has_prefix k p" using decode_encode[of k] by (auto simp: decode_key_def has_prefix_iff)
next
  assume "list_all path_safe p" "has_prefix k p"
  then show "has_prefix (encode_key k) p"
    by (auto simp: has_prefix_iff encode_key_def) (metis encode_key_def encode_safe)
qed

lemma put_mark_safe: "list_all path_safe ''.put-''"
  by (simp add: path_safe_def less_eq_char_def)

subsection \<open>Keys that are their own names\<close>

text \<open>
  The interface a client of the memory relies on: a store with a lookup, in which a write and a
  removal change the entry of their key and no other.
\<close>

locale keyed_store =
  fixes good :: "'k \<Rightarrow> bool"
    and look :: "'s \<Rightarrow> 'k \<Rightarrow> 'v option"
    and put :: "'w \<Rightarrow> 'k \<Rightarrow> 'v \<Rightarrow> 's \<Rightarrow> 's"
    and del :: "'w \<Rightarrow> 'k \<Rightarrow> 's \<Rightarrow> 's"
    and fine :: "'w \<Rightarrow> bool"
  assumes look_put: "fine w \<Longrightarrow> good k \<Longrightarrow> good j \<Longrightarrow> look (put w k v s) j = (if j = k then Some v else look s j)"
    and look_del: "fine w \<Longrightarrow> good k \<Longrightarrow> good j \<Longrightarrow> look (del w k s) j = (if j = k then None else look s j)"
begin

definition run :: "('w \<times> 'k \<times> 'v option) list \<Rightarrow> 's \<Rightarrow> 's" where
  "run = fold (\<lambda>(w, k, c) s. case c of Some v \<Rightarrow> put w k v s | None \<Rightarrow> del w k s)"

lemma refines_map:
  assumes "\<forall>(w, k, c) \<in> set ops. fine w \<and> good k" "good j"
  shows "look (run ops s) j = fold (\<lambda>(w, k, c) m. m(k := c)) ops (look s) j"
  using assms
proof (induction ops rule: rev_induct)
  case (snoc op ops)
  obtain w k c where op: "op = (w, k, c)" by (cases op) auto
  from snoc op show ?case by (cases c) (auto simp: run_def look_put look_del)
qed (simp add: run_def)

end

definition plain_key :: "string \<Rightarrow> bool" where
  "plain_key k \<longleftrightarrow> is_ok (validate_key k) \<and> CHR ''%'' \<notin> set k \<and> CHR ''/'' \<notin> set k
     \<and> k \<noteq> ''.'' \<and> k \<noteq> ''..'' \<and> \<not> has_prefix k ''.put-''"

definition mem_ready :: "mem_io \<Rightarrow> bool" where
  "mem_ready w \<longleftrightarrow> mi_io w = io_good \<and> mi_bad w = (\<lambda>_. False) \<and> CHR ''/'' \<notin> set (mi_tmp w)"

definition mem_dir :: "string \<Rightarrow> bool" where
  "mem_dir dir \<longleftrightarrow> is_abs dir \<and> clean dir = dir"

text \<open>What a directory holds under a key, and the two operations as changes of the disk.\<close>

definition mem_view :: "string disk \<Rightarrow> string \<times> string \<Rightarrow> string option" where
  "mem_view d = (\<lambda>(dir, k).
     if d (join_path [dir, encode_key k]) = None then d (join_path [dir, k]) else d (join_path [dir, encode_key k]))"

definition mem_set :: "mem_io \<Rightarrow> string \<times> string \<Rightarrow> string \<Rightarrow> string disk \<Rightarrow> string disk" where
  "mem_set w = (\<lambda>(dir, k) v d. d(join_path [dir, encode_key k] \<mapsto> v, join_path [dir, ''.put-'' @ mi_tmp w] := None))"

definition mem_clear :: "mem_io \<Rightarrow> string \<times> string \<Rightarrow> string disk \<Rightarrow> string disk" where
  "mem_clear w = (\<lambda>(dir, k) d. d(join_path [dir, encode_key k] := None, join_path [dir, k] := None))"

lemma plain_key_is_name: "plain_key k \<Longrightarrow> is_name k \<and> is_name (encode_key k)"
proof -
  assume "plain_key k"
  then have "k \<noteq> []" "k \<noteq> ''.''" "k \<noteq> ''..''" "CHR ''/'' \<notin> set k"
    by (auto simp: plain_key_def validate_key_def split: if_splits)
  then show ?thesis by (simp add: encode_is_name) (simp add: is_name_def dot_def dotdot_def)
qed

lemma plain_key_encode: "plain_key j \<Longrightarrow> encode_key k = j \<Longrightarrow> k = j"
  using encode_no_percent[of k] by (auto simp: plain_key_def)

lemma plain_key_mark: "plain_key k \<Longrightarrow> k \<noteq> ''.put-'' @ x \<and> encode_key k \<noteq> ''.put-'' @ x"
  using encode_prefix[OF put_mark_safe, of k] by (auto simp: plain_key_def)

lemma put_mark_is_name: "mem_ready w \<Longrightarrow> is_name (''.put-'' @ mi_tmp w)"
  by (auto simp: mem_ready_def is_name_def dot_def dotdot_def)

lemma slot_path_inj:
  assumes "mem_dir dir" "mem_dir dir'" "is_name x" "is_name y"
  shows "join_path [dir, x] = join_path [dir', y] \<longleftrightarrow> dir = dir' \<and> x = y"
proof -
  from assms(1,2) obtain ds es where "names ds" "dir = abs_path ds" "names es" "dir' = abs_path es"
    by (metis mem_dir_def clean_abs_form)
  with assms(3,4) show ?thesis by (simp add: join_path_name abs_path_inj)
qed

interpretation mem: keyed_store
  "\<lambda>(dir, k). mem_dir dir \<and> plain_key k" mem_view mem_set mem_clear mem_ready
proof
  fix w :: mem_io and a b :: "string \<times> string" and v :: string and d :: "string disk"
  obtain dir k where a: "a = (dir, k)" by fastforce
  obtain dir' j where b: "b = (dir', j)" by fastforce
  assume w: "mem_ready w" and g: "case a of (dir, k) \<Rightarrow> mem_dir dir \<and> plain_key k"
    "case b of (dir, k) \<Rightarrow> mem_dir dir \<and> plain_key k"
  from g have g: "mem_dir dir" "plain_key k" "mem_dir dir'" "plain_key j" by (simp_all add: a b)
  note nm = plain_key_is_name[OF g(2)] plain_key_is_name[OF g(4)] put_mark_is_name[OF w]
  have e: "encode_key k \<noteq> j" "encode_key j \<noteq> k" if "k \<noteq> j"
    using plain_key_encode[OF g(4), of k] plain_key_encode[OF g(2), of j] that by auto
  note inj = slot_path_inj[OF g(3) g(1)] slot_path_inj[OF g(3) g(3)] slot_path_inj[OF g(1) g(1)]
  show "mem_view (mem_set w a v d) b = (if b = a then Some v else mem_view d b)"
    using nm e plain_key_mark[OF g(4), of "mi_tmp w"]
    by (auto simp: a b mem_view_def mem_set_def inj simp del: append.simps split: if_splits)
  show "mem_view (mem_clear w a d) b = (if b = a then None else mem_view d b)"
    using nm e by (auto simp: a b mem_view_def mem_clear_def inj split: if_splits)
qed


subsection \<open>The memory of every agent is a map\<close>

text \<open>A request of some agent: its proxy, what its system calls meet, the scope, the key, and the value
  to put, none for a removal.\<close>

type_synonym mem_op = "mem_proxy \<times> mem_io \<times> string \<times> string \<times> string option"

definition mem_exec :: "mem_op \<Rightarrow> string disk \<Rightarrow> string disk" where
  "mem_exec = (\<lambda>(p, w, scope, k, c) d.
     case c of
       Some v \<Rightarrow> snd (mem_put p w (Some (scope, k, v)) d)
     | None \<Rightarrow> snd (mem_delete p w (Some (scope, k)) d))"

definition mem_slot :: "mem_proxy \<Rightarrow> string \<Rightarrow> string \<Rightarrow> string \<times> string" where
  "mem_slot p scope k = ((case resolve_dir p scope of Inl _ \<Rightarrow> [] | Inr dir \<Rightarrow> dir), k)"

definition mem_allowed_op :: "mem_op \<Rightarrow> bool" where
  "mem_allowed_op = (\<lambda>(p, w, scope, k, _).
     memory_allowed (mp_rank p) \<and> is_ok (resolve_dir p scope) \<and> mem_dir (fst (mem_slot p scope k))
     \<and> plain_key k \<and> mem_ready w)"

lemma mem_open_plain:
  "plain_key k \<Longrightarrow> is_ok (resolve_dir p scope) \<Longrightarrow> mem_open p scope k = Inr (fst (mem_slot p scope k))"
  by (auto simp: mem_open_def plain_key_def mem_slot_def is_ok_iff)

lemma mem_exec_slot:
  assumes "mem_allowed_op (p, w, scope, k, c)"
  shows "mem_exec (p, w, scope, k, c) d =
    (case c of Some v \<Rightarrow> mem_set w (mem_slot p scope k) v d | None \<Rightarrow> mem_clear w (mem_slot p scope k) d)"
proof -
  obtain dir where sl: "mem_slot p scope k = (dir, k)" by (simp add: mem_slot_def)
  from assms have o: "mem_open p scope k = Inr dir" and w: "mi_io w = io_good" "mi_bad w = (\<lambda>_. False)"
    and g: "mem_gate p = Inr ()"
    by (auto simp: mem_allowed_op_def mem_open_plain mem_ready_def mem_gate_def sl)
  with sl o w g show ?thesis
    by (simp add: mem_exec_def mem_put_def mem_delete_def mem_set_def mem_clear_def split: option.split)
qed

lemma mem_get_view:
  assumes "mem_allowed_op (p, w, scope, k, c)"
  shows "mem_get p w (Some (scope, k)) d = Inr (mem_view d (mem_slot p scope k))"
proof -
  obtain dir where sl: "mem_slot p scope k = (dir, k)" by (simp add: mem_slot_def)
  from assms have o: "mem_open p scope k = Inr dir" and w: "mi_bad w = (\<lambda>_. False)" and g: "mem_gate p = Inr ()"
    by (auto simp: mem_allowed_op_def mem_open_plain mem_ready_def mem_gate_def sl)
  with sl o w g show ?thesis by (simp add: mem_get_def mem_view_def split: option.split)
qed

lemma mem_exec_run:
  assumes "\<forall>op \<in> set ops. mem_allowed_op op"
  shows "fold mem_exec ops d = mem.run (map (\<lambda>(p, w, scope, k, c). (w, mem_slot p scope k, c)) ops) d"
  using assms
proof (induction ops arbitrary: d)
  case (Cons op ops)
  obtain p w scope k c where "op = (p, w, scope, k, c)" by (cases op) auto
  with Cons show ?case by (simp add: mem.run_def mem_exec_slot split: option.split)
qed (simp add: mem.run_def)



definition mem_proxy_a :: mem_proxy where
  "mem_proxy_a = \<lparr>mp_room = ''r1'', mp_rank = staff, mp_volumes = (\<lambda>_. Inl Plain), mp_rooms_dir = ''/rooms''\<rparr>"

definition mem_io_a :: mem_io where
  "mem_io_a = \<lparr>mi_io = io_good, mi_bad = (\<lambda>_. False), mi_tmp = ''7''\<rparr>"

lemma mem_a_simps [simp]:
  "mem_ready mem_io_a" "mi_bad mem_io_a = (\<lambda>_. False)" "memory_allowed (mp_rank mem_proxy_a)"
  "resolve_dir mem_proxy_a [] = Inr ''/rooms/r1/memory''"
  by (simp_all add: mem_ready_def mem_io_a_def mem_proxy_a_def staff_def resolve_dir_def path_eval)


subsection \<open>Keys that leave the directory\<close>

text \<open>The key itself is the second path a get or a delete tries, joined to the directory as it
  is: a key of the form \<open>../../\<close>, another Room's id, \<open>/memory/\<close> and a name reads and deletes that
  Room's memory from any Room's private scope.\<close>

theorem memory_key_escapes:
  assumes "memory_allowed (mp_rank p)" "mi_bad w = (\<lambda>_. False)"
    and "mp_rooms_dir p = abs_path rs" "names rs" "is_name (mp_room p)" "is_name other" "is_name f"
    and "validate_key (''../../'' @ other @ ''/memory/'' @ f) = Inr ()"
    and "d (abs_path (rs @ [other, ''memory'', f])) = Some v"
    and "d (join_path [join_path [mp_rooms_dir p, mp_room p, ''memory''], encode_key (''../../'' @ other @ ''/memory/'' @ f)]) = None"
  shows "mem_get p w (Some ([], ''../../'' @ other @ ''/memory/'' @ f)) d = Inr (Some v)
    \<and> (\<exists>d'. mem_delete p w (Some ([], ''../../'' @ other @ ''/memory/'' @ f)) d = (Inr (), d')
           \<and> d' (abs_path (rs @ [other, ''memory'', f])) = None)"
proof -
  let ?k = "''../../'' @ other @ ''/memory/'' @ f"
  let ?dir = "abs_path (rs @ [mp_room p, ''memory''])"
  have m: "is_name ''memory''" by (simp add: is_name_def dot_def dotdot_def)
  have "join_path [abs_path rs, mp_room p, ''memory''] = ?dir"
  proof -
    have "join_path [abs_path rs, mp_room p, ''memory''] = join_path [abs_path rs, mp_room p @ ''/memory'']"
      using assms(5) by (simp add: join_path_def is_name_def)
    also have "\<dots> = ?dir"
      using assms(4,5) m
      by (subst join_path_abs) (auto simp: is_name_def split_on_app split_on_id push_comp_def dot_def dotdot_def)
    finally show ?thesis .
  qed
  then have dir: "resolve_dir p [] = Inr ?dir" by (simp add: resolve_dir_def assms(3))
  have sp: "split_on CHR ''/'' ?k = [dotdot, dotdot, other, ''memory'', f]"
    using assms(6,7) by (simp add: split_on_app split_on_id is_name_def dotdot_def)
  have "mp_room p \<noteq> dotdot" using assms(5) by (simp add: is_name_def)
  then have j: "join_path [?dir, ?k] = abs_path (rs @ [other, ''memory'', f])"
    using assms(4-7) m
    by (subst join_path_abs) (simp_all only: sp, auto simp: push_comp_up push_comp_name, auto simp: dotdot_def)
  have "mem_open p [] ?k = Inr ?dir" using assms(8) dir by (simp add: mem_open_def)
  moreover have "mem_gate p = Inr ()" using assms(1) by (simp add: mem_gate_def)
  moreover have "join_path [mp_rooms_dir p, mp_room p, ''memory''] = ?dir"
    using dir by (simp add: resolve_dir_def)
  ultimately show ?thesis
    using assms(2,9,10) j by (simp add: mem_get_def mem_delete_def del: append.simps)
qed


lemma memory_key_escapes_witness:
  "mem_get mem_proxy_a mem_io_a (Some ([], ''../../r2/memory/plan'')) [''/rooms/r2/memory/plan'' \<mapsto> ''secret''] = Inr (Some ''secret'')"
proof -
  have v: "validate_key (''../../'' @ ''r2'' @ ''/memory/'' @ ''plan'') = Inr ()"
    by (simp add: validate_key_def max_key_len_def)
  have n: "names [''rooms'']" "is_name ''r1''" "is_name ''r2''" "is_name ''plan''"
    by (simp_all add: is_name_def dot_def dotdot_def)
  have a: "abs_path ([''rooms''] @ [''r2'', ''memory'', ''plan'']) = ''/rooms/r2/memory/plan''"
    "abs_path [''rooms''] = ''/rooms''" by (simp_all add: abs_path_def)
  let ?e = "encode_key (''../../'' @ ''r2'' @ ''/memory/'' @ ''plan'')"
  have dir: "join_path [''/rooms'', ''r1'', ''memory''] = abs_path [''rooms'', ''r1'', ''memory'']"
    by (simp add: path_eval)
  have "is_name ?e" by (rule encode_is_name) simp_all
  then have "join_path [abs_path [''rooms'', ''r1'', ''memory''], ?e] \<noteq> abs_path ([''rooms''] @ [''r2'', ''memory'', ''plan''])"
    by (subst join_path_name) (simp_all only: abs_path_inj names_simps n, simp_all add: is_name_def dot_def dotdot_def abs_path_inj)
  then have "join_path [join_path [''/rooms'', ''r1'', ''memory''], ?e] \<noteq> ''/rooms/r2/memory/plan''"
    unfolding dir a(1) .
  then show ?thesis
    using memory_key_escapes[of mem_proxy_a mem_io_a "[''rooms'']" "''r2''" "''plan''" "[''/rooms/r2/memory/plan'' \<mapsto> ''secret'']" "''secret''"]
      v n a by (simp add: mem_proxy_a_def mem_io_a_def staff_def)
qed

text \<open>A key that is another key's file name reads and deletes that other key.\<close>

lemma percent_key_aliases:
  assumes "mem_gate p = Inr ()" "mem_open p scope (encode_key k) = Inr dir" "mi_bad w = (\<lambda>_. False)"
    and "d (join_path [dir, encode_key (encode_key k)]) = None" "d (join_path [dir, encode_key k]) = Some v"
  shows "mem_get p w (Some (scope, encode_key k)) d = Inr (Some v)"
    and "snd (mem_delete p w (Some (scope, encode_key k)) d) (join_path [dir, encode_key k]) = None"
  using assms by (simp_all add: mem_get_def mem_delete_def)

text \<open>A list leaves out the temp files, and with them every key that begins like one.\<close>

lemma put_mark_unlisted:
  assumes "mem_gate p = Inr ()" "resolve_dir p scope = Inr dir" "read_dir dir = Inr (Some es)"
    and "\<forall>e \<in> set es. \<exists>k. e = (encode_key k, False)"
  shows "\<exists>ks. mem_list p read_dir (Some (scope, [])) = Inr ks \<and> sorted ks \<and> distinct ks
    \<and> set ks = {k. (encode_key k, False) \<in> set es \<and> \<not> has_prefix k ''.put-''}"
proof -
  from assms(4) obtain ks where es: "es = map (\<lambda>k. (encode_key k, False)) ks"
    by (metis ex_map_conv)
  have "mem_list p read_dir (Some (scope, [])) =
      Inr (sort (remdups (filter (\<lambda>k. \<not> has_prefix k ''.put-'') ks)))"
    using assms(1-3) encode_prefix[OF put_mark_safe] by (simp add: mem_list_def es filter_map comp_def)
  then show ?thesis by (auto simp: es)
qed

end
