(* ===== verification/Metered_Proxies.thy ===== *)
theory Metered_Proxies
  imports Quota Rank
begin

section \<open>The metered proxies (internal/proxy/netproxy, llmproxy, aitoolproxy)\<close>

text \<open>
  The three proxies that spend an agent's quota: an HTTP request, a completion of a language model,
  an AI tool on the command line. What answers them is not under the repository: it is an argument
  (\<open>http\<close>, the provider), none for a failed call. Each handler gives its answer, the calls it made
  to the outside, in order, and the quota actor after it.
\<close>

record meter =
  mt_room :: string
  mt_agent :: string
  mt_rank :: rank

definition meter_key :: "meter \<Rightarrow> string \<Rightarrow> qkey" where
  "meter_key p res = \<lparr>k_room = mt_room p, k_agent = mt_agent p, k_resource = res\<rparr>"

subsection \<open>net/fetch\<close>

record net_request =
  nr_method :: string
  nr_url :: string
  nr_headers :: "(string \<times> string) list"
  nr_body :: string

record net_response =
  ns_status :: int
  ns_headers :: "(string \<times> string list) list"
  ns_body :: string

record net_result =
  nt_status :: int
  nt_headers :: "(string \<times> string) list"
  nt_body :: string

text \<open>\<open>valid\<close> stands for the checks of \<^verbatim>\<open>http.NewRequestWithContext\<close>.\<close>

record net_world =
  nw_valid :: "net_request \<Rightarrow> bool"
  nw_http :: "net_request \<Rightarrow> net_response option"

definition net_fetch ::
  "net_world \<Rightarrow> meter \<Rightarrow> net_request option \<Rightarrow> actor \<Rightarrow> net_result res \<times> net_request list \<times> actor" where
  "net_fetch w p params a =
     (case params of
        None \<Rightarrow> (Inl InvalidParams, [], a)
      | Some r \<Rightarrow>
          if \<not> net_allowed (mt_rank p) then (Inl PermissionDenied, [], a)
          else case consume a (meter_key p ''http'') 1 of
              (Inl e, a) \<Rightarrow> (Inl e, [], a)
            | (Inr x, a) \<Rightarrow>
                if \<not> r_allowed x then (Inl QuotaExceeded, [], a)
                else (let r = (if nr_method r = [] then r\<lparr>nr_method := ''GET''\<rparr> else r) in
                  if \<not> nw_valid w r then (Inl Plain, [], a)
                  else case nw_http w r of
                      None \<Rightarrow> (Inl Plain, [r], a)
                    | Some resp \<Rightarrow>
                        (Inr \<lparr>nt_status = ns_status resp,
                              nt_headers = map (\<lambda>(k, v). (k, hd v)) (filter (\<lambda>(k, v). v \<noteq> []) (ns_headers resp)),
                              nt_body = ns_body resp\<rparr>, [r], a)))"

subsection \<open>llm/complete\<close>

record llm_message =
  lm_role :: string
  lm_content :: string

record llm_params =
  lp_provider :: string
  lp_model :: string
  lp_messages :: "llm_message list"
  lp_max_tokens :: int

record llm_result =
  lr_text :: string
  lr_prompt_tokens :: int
  lr_completion_tokens :: int
  lr_total_tokens :: int

record llm_provider =
  pv_name :: string
  pv_complete :: "llm_params \<Rightarrow> llm_result option"

definition llm_complete ::
  "llm_provider option \<Rightarrow> meter \<Rightarrow> llm_params option \<Rightarrow> actor \<Rightarrow> llm_result res \<times> llm_params list \<times> actor" where
  "llm_complete prov p params a =
     (case params of
        None \<Rightarrow> (Inl InvalidParams, [], a)
      | Some cp \<Rightarrow>
          if \<not> llm_allowed (mt_rank p) then (Inl PermissionDenied, [], a)
          else case prov of
              None \<Rightarrow> (Inl Internal, [], a)
            | Some pv \<Rightarrow>
                (let cp = (if lp_provider cp = [] then cp\<lparr>lp_provider := pv_name pv\<rparr> else cp);
                     cp = (if lp_model cp = [] then cp\<lparr>lp_model := ''gpt-4o-mini''\<rparr> else cp) in
                 case pv_complete pv cp of
                   None \<Rightarrow> (Inl Plain, [cp], a)
                 | Some r \<Rightarrow>
                     (case consume a (meter_key p (''tokens:'' @ lp_model cp)) (lr_total_tokens r) of
                        (Inl e, a) \<Rightarrow> (Inl e, [cp], a)
                      | (Inr x, a) \<Rightarrow> (if r_allowed x then Inr r else Inl QuotaExceeded, [cp], a))))"

text \<open>The offline provider. The mark that ends a cut text is one character, three bytes in UTF-8.\<close>

definition ellipsis :: string where "ellipsis = [CHR 0xE2, CHR 0x80, CHR 0xA6]"

definition truncate_text :: "string \<Rightarrow> nat \<Rightarrow> string" where
  "truncate_text s n = (if length s \<le> n then s else take n s @ ellipsis)"

definition approx_tokens :: "llm_message list \<Rightarrow> int" where
  "approx_tokens ms = sum_list (map (\<lambda>m. int (length (lm_content m) div 4)) ms)"

definition mock_complete :: "llm_params \<Rightarrow> llm_result option" where
  "mock_complete p =
     (let last_user = foldl (\<lambda>l m. if lm_role m = ''user'' then lm_content m else l) [] (lp_messages p);
          text = ''mock-summary: '' @ truncate_text last_user 200
      in Some \<lparr>lr_text = text, lr_prompt_tokens = approx_tokens (lp_messages p),
               lr_completion_tokens = int (length text div 4),
               lr_total_tokens = approx_tokens (lp_messages p) + int (length text div 4)\<rparr>)"

definition mock_provider :: llm_provider where
  "mock_provider = \<lparr>pv_name = ''mock'', pv_complete = mock_complete\<rparr>"

text \<open>The request to an OpenAI-compatible server: which of the two limits is sent depends on the
  model's name. Lower case is ASCII's here.\<close>

record oa_request =
  oa_model :: string
  oa_messages :: "(string \<times> string) list"
  oa_max_tokens :: int
  oa_max_completion_tokens :: int

definition lower_char :: "char \<Rightarrow> char" where
  "lower_char c = (if CHR ''A'' \<le> c \<and> c \<le> CHR ''Z'' then char_of (of_char c + 32 :: nat) else c)"

definition uses_max_completion_tokens :: "string \<Rightarrow> bool" where
  "uses_max_completion_tokens model =
     (let m = map lower_char model;
          m = (case index_of CHR ''/'' m of None \<Rightarrow> m | Some i \<Rightarrow> drop (Suc i) m)
      in has_prefix m ''gpt-5'' \<or> has_prefix m ''o1-'' \<or> m = ''o1'' \<or> has_prefix m ''o3-'' \<or> m = ''o3''
         \<or> has_prefix m ''o4-'' \<or> m = ''o4'')"

definition openai_request :: "llm_params \<Rightarrow> oa_request" where
  "openai_request p =
     (let new = uses_max_completion_tokens (lp_model p)
      in \<lparr>oa_model = lp_model p, oa_messages = map (\<lambda>m. (lm_role m, lm_content m)) (lp_messages p),
          oa_max_tokens = (if new then 0 else lp_max_tokens p),
          oa_max_completion_tokens = (if new then lp_max_tokens p else 0)\<rparr>)"

subsection \<open>ai_tool/invoke\<close>

record ai_params =
  ap_tool :: string
  ap_prompt :: string
  ap_timeout :: int

record ai_result =
  ar_output :: string
  ar_stderr :: string
  ar_exit :: int

record ai_provider =
  ai_name :: string
  ai_invoke :: "string \<Rightarrow> string \<Rightarrow> int \<Rightarrow> ai_result option"

text \<open>Durations are in nanoseconds; the product is Go's, in 64 bits.\<close>

definition default_timeout :: int where "default_timeout = 300000000000"

definition ai_tool_invoke ::
  "ai_provider option \<Rightarrow> string \<Rightarrow> meter \<Rightarrow> ai_params option \<Rightarrow> actor
    \<Rightarrow> ai_result res \<times> (string \<times> string \<times> int) list \<times> actor" where
  "ai_tool_invoke prov workspace p params a =
     (case params of
        None \<Rightarrow> (Inl InvalidParams, [], a)
      | Some ip \<Rightarrow>
          if \<not> ai_tool_allowed (mt_rank p) then (Inl PermissionDenied, [], a)
          else case prov of
              None \<Rightarrow> (Inl Internal, [], a)
            | Some pv \<Rightarrow>
                if ap_tool ip \<noteq> [] \<and> ap_tool ip \<noteq> ai_name pv then (Inl InvalidParams, [], a)
                else case consume a (meter_key p (''ai_tool:'' @ ai_name pv)) 1 of
                    (Inl e, a) \<Rightarrow> (Inl e, [], a)
                  | (Inr x, a) \<Rightarrow>
                      if \<not> r_allowed x then (Inl QuotaExceeded, [], a)
                      else (let t = (if ap_timeout ip > 0 then wrap64 (ap_timeout ip * 1000000000) else default_timeout) in
                        (case ai_invoke pv workspace (ap_prompt ip) t of
                           None \<Rightarrow> Inl Plain | Some r \<Rightarrow> Inr r,
                         [(workspace, ap_prompt ip, t)], a)))"

text \<open>The Claude Code provider: how the child ended, and whether the deadline had passed. A child that
  the deadline kills ends by a signal, which \<^verbatim>\<open>cmd.Run\<close> reports as an exit error with code -1.\<close>

datatype run_end = Exited int | Signalled | NotStarted

definition claude_invoke ::
  "bool \<Rightarrow> string \<Rightarrow> run_end \<Rightarrow> bool \<Rightarrow> string \<Rightarrow> string \<Rightarrow> ai_result option" where
  "claude_invoke is_dir cwd ended deadline out err =
     (if cwd = [] then None
      else if \<not> is_dir then None
      else case ended of
          Exited n \<Rightarrow>
            if n \<noteq> 0 then Some \<lparr>ar_output = out, ar_stderr = err, ar_exit = n\<rparr>
            else if deadline then None
            else Some \<lparr>ar_output = out, ar_stderr = err, ar_exit = 0\<rparr>
        | Signalled \<Rightarrow> Some \<lparr>ar_output = out, ar_stderr = err, ar_exit = -1\<rparr>
        | NotStarted \<Rightarrow> None)"

definition truncate_trim :: "string \<Rightarrow> nat \<Rightarrow> string" where
  "truncate_trim s n = (if length s \<le> n then s else trim_space (take n s) @ ellipsis)"

definition mock_invoke :: "string \<Rightarrow> string \<Rightarrow> int \<Rightarrow> ai_result option" where
  "mock_invoke cwd prompt t =
     Some \<lparr>ar_output = ''mock-claude: '' @ truncate_trim prompt 500, ar_stderr = [], ar_exit = 0\<rparr>"


subsection \<open>Handlers that pay first\<close>

text \<open>A run of requests to a handler, by any agents: the quota keys of the calls made outside, in order,
  and the actor after it.\<close>

fun calls_made :: "('p \<Rightarrow> actor \<Rightarrow> 'r \<times> 'c list \<times> actor) \<Rightarrow> ('p \<Rightarrow> qkey) \<Rightarrow> 'p list \<Rightarrow> actor \<Rightarrow> qkey list \<times> actor" where
  "calls_made handle key [] a = ([], a)"
| "calls_made handle key (p # ps) a =
     (let (r, out, a) = handle p a; (ks, a) = calls_made handle key ps a
      in (map (\<lambda>_. key p) out @ ks, a))"

text \<open>The contract: at most one call outside, and that one only after one unit was charged.\<close>

locale pays_first =
  fixes handle :: "'p \<Rightarrow> actor \<Rightarrow> 'r \<times> 'c list \<times> actor"
    and key :: "'p \<Rightarrow> qkey"
  assumes pays: "handle p a = (r, out, a') \<Longrightarrow>
    out = [] \<and> a' = a
    \<or> length out \<le> 1 \<and> (\<exists>x. consume a (key p) 1 = (Inr x, a') \<and> (r_allowed x \<or> out = []))"
begin

lemma one_request:
  assumes "handle p a = (r, out, a')" "limits a k = Some lim" "lim < max_int64" "0 \<le> used a k" "used a k \<le> lim"
  shows "int (length (filter (\<lambda>j. j = k) (map (\<lambda>_. key p) out))) \<le> used a' k - used a k
    \<and> used a' k \<le> lim \<and> limits a' k = Some lim"
  using pays[OF assms(1)]
proof (elim disjE)
  assume "length out \<le> 1 \<and> (\<exists>x. consume a (key p) 1 = (Inr x, a') \<and> (r_allowed x \<or> out = []))"
  then obtain x where out: "length out \<le> 1" and c: "consume a (key p) 1 = (Inr x, a')" and x: "r_allowed x \<or> out = []"
    by blast
  have l: "limits a' = limits a" using consume_limits[of a "key p" 1] by (simp add: c)
  show ?thesis
  proof (cases "key p = k")
    case False
    then have "used a' k = used a k" using consume_frame[of k "key p" a 1] by (simp add: c)
    with False l assms show ?thesis by (simp add: filter_empty_conv)
  next
    case True
    have int: "wrap64 (used a k + 1) = used a k + 1"
      using assms by (intro wrap64_id) (simp add: in_int64_def min_int64_def max_int64_def)
    show ?thesis
    proof (cases "r_allowed x")
      case True
      from consume_granted(2,3)[of a "key p" 1 x] True c \<open>key p = k\<close> int assms(2)
      have "used a' k = used a k + 1" "used a k + 1 \<le> lim" by simp_all
      with out l assms(2) show ?thesis by (cases out) auto
    next
      case False
      with consume_denied[of a "key p" 1 x] c x have "a' = a" "out = []" by simp_all
      with assms show ?thesis by simp
    qed
  qed
qed (use assms in simp)

lemma calls_within_limit:
  assumes "limits a k = Some lim" "lim < max_int64" "0 \<le> used a k" "used a k \<le> lim"
  shows "int (length (filter (\<lambda>j. j = k) (fst (calls_made handle key ps a))))
       \<le> used (snd (calls_made handle key ps a)) k - used a k
    \<and> used (snd (calls_made handle key ps a)) k \<le> lim"
  using assms
proof (induction ps arbitrary: a)
  case (Cons p ps)
  obtain r out b where h: "handle p a = (r, out, b)" by (metis prod.exhaust)
  note one = one_request[OF h Cons.prems]
  from one Cons.prems(3) have "used b k \<ge> 0" by linarith
  with one Cons.IH[of b] Cons.prems show ?case by (fastforce simp: h split_def Let_def)
qed simp

end

lemma net_fetch_pays:
  assumes "net_fetch w p params a = (r, out, a')"
  shows "out = [] \<and> a' = a
    \<or> length out \<le> 1 \<and> (\<exists>x. consume a (meter_key p ''http'') 1 = (Inr x, a') \<and> (r_allowed x \<or> out = []))"
proof (cases "consume a (meter_key p ''http'') 1")
  case (Pair q b)
  then have "\<And>e. q = Inl e \<Longrightarrow> b = a" using consume_error[of a "meter_key p ''http''" 1] by simp
  with assms Pair show ?thesis
    by (cases q) (auto simp: net_fetch_def Let_def split: option.splits if_splits)
qed

interpretation net: pays_first "\<lambda>(w, p, params) a. net_fetch w p params a" "\<lambda>(w, p, params). meter_key p ''http''"
  by unfold_locales (auto dest: net_fetch_pays)

lemma ai_tool_invoke_pays:
  assumes "ai_tool_invoke prov ws p params a = (r, out, a')"
  shows "out = [] \<and> a' = a
    \<or> length out \<le> 1 \<and> (\<exists>x. consume a (meter_key p (''ai_tool:'' @ (case prov of None \<Rightarrow> [] | Some pv \<Rightarrow> ai_name pv))) 1
         = (Inr x, a') \<and> (r_allowed x \<or> out = []))"
proof (cases prov)
  case (Some pv)
  show ?thesis
  proof (cases "consume a (meter_key p (''ai_tool:'' @ ai_name pv)) 1")
    case (Pair q b)
    then have "\<And>e. q = Inl e \<Longrightarrow> b = a" using consume_error[of a "meter_key p (''ai_tool:'' @ ai_name pv)" 1] by simp
    with assms Pair Some show ?thesis
      by (cases q) (auto simp: ai_tool_invoke_def Let_def split: option.splits if_splits)
  qed
qed (use assms in \<open>auto simp: ai_tool_invoke_def split: option.splits if_splits\<close>)

interpretation ai: pays_first "\<lambda>(prov, ws, p, params) a. ai_tool_invoke prov ws p params a"
  "\<lambda>(prov, ws, p, params). meter_key p (''ai_tool:'' @ (case prov of None \<Rightarrow> [] | Some pv \<Rightarrow> ai_name pv))"
  by unfold_locales (auto dest: ai_tool_invoke_pays)

text \<open>C30. The HTTP requests and the AI tool runs made for an agent never exceed what its quota had left:
  in any run of requests of any agents, the calls made under a limited key are at most the limit less
  the counter at the start, and the counter never passes the limit.\<close>

theorem outside_calls_within_quota:
  assumes "limits a k = Some lim" "lim < max_int64" "0 \<le> used a k" "used a k \<le> lim"
  shows "int (length (filter (\<lambda>j. j = k) (fst (calls_made (\<lambda>(w, p, params). net_fetch w p params)
           (\<lambda>(w, p, params). meter_key p ''http'') fetches a)))) \<le> lim - used a k
    \<and> int (length (filter (\<lambda>j. j = k) (fst (calls_made (\<lambda>(prov, ws, p, params). ai_tool_invoke prov ws p params)
           (\<lambda>(prov, ws, p, params). meter_key p (''ai_tool:'' @ (case prov of None \<Rightarrow> [] | Some pv \<Rightarrow> ai_name pv))) runs a))))
         \<le> lim - used a k"
proof (rule conjI)
  show "int (length (filter (\<lambda>j. j = k) (fst (calls_made (\<lambda>(w, p, params). net_fetch w p params)
           (\<lambda>(w, p, params). meter_key p ''http'') fetches a)))) \<le> lim - used a k"
    using net.calls_within_limit[OF assms, of fetches] by linarith
  show "int (length (filter (\<lambda>j. j = k) (fst (calls_made (\<lambda>(prov, ws, p, params). ai_tool_invoke prov ws p params)
           (\<lambda>(prov, ws, p, params). meter_key p (''ai_tool:'' @ (case prov of None \<Rightarrow> [] | Some pv \<Rightarrow> ai_name pv))) runs a))))
         \<le> lim - used a k"
    using ai.calls_within_limit[OF assms, of runs] by linarith
qed

text \<open>A completion is charged after the call was made, and one that does not fit is not charged: with
  a provider whose answers cost more than what is left, any number of calls reaches it, each answered
  with a quota error, and the counter never moves.\<close>

theorem over_budget_calls_uncharged:
  assumes "llm_allowed (mt_rank p)" "\<not> stopped a" "lp_provider cp \<noteq> []" "lp_model cp \<noteq> []"
    and "pv_complete pv cp = Some r" "0 \<le> lr_total_tokens r"
    and "limits a (meter_key p (''tokens:'' @ lp_model cp)) = Some lim"
    and "in_int64 (used a (meter_key p (''tokens:'' @ lp_model cp)) + lr_total_tokens r)"
    and "used a (meter_key p (''tokens:'' @ lp_model cp)) + lr_total_tokens r > lim"
  shows "calls_made (\<lambda>params. llm_complete (Some pv) p params) (\<lambda>_. meter_key p (''tokens:'' @ lp_model cp))
      (replicate n (Some cp)) a = (replicate n (meter_key p (''tokens:'' @ lp_model cp)), a)
    \<and> fst (llm_complete (Some pv) p (Some cp) a) = Inl QuotaExceeded"
proof -
  have "llm_complete (Some pv) p (Some cp) a = (Inl QuotaExceeded, [cp], a)"
    using assms by (simp add: llm_complete_def quota_defs serve_consume_def wrap64_id)
  then show ?thesis by (induction n) simp_all
qed


definition meter_a :: meter where
  "meter_a = \<lparr>mt_room = ''r1'', mt_agent = ''bob'', mt_rank = staff\<rparr>"

definition meter_actor :: "string \<Rightarrow> int \<Rightarrow> int \<Rightarrow> actor" where
  "meter_actor res lim n = set_used (snd (set_limit new_actor (meter_key meter_a res) lim)) (meter_key meter_a res) n"

lemma meter_actor_simps [simp]:
  "limits (meter_actor res lim n) (meter_key meter_a res) = Some lim" "\<not> stopped (meter_actor res lim n)"
  "used (meter_actor res lim n) (meter_key meter_a res) = n"
  by (simp_all add: meter_actor_def set_limit_limits)

lemma outside_calls_within_quota_witness:
  "int (length (filter (\<lambda>j. j = meter_key meter_a ''http'')
      (fst (calls_made (\<lambda>(w, p, params). net_fetch w p params) (\<lambda>(w, p, params). meter_key p ''http'')
        (replicate 5 (\<lparr>nw_valid = (\<lambda>_. True), nw_http = (\<lambda>_. None)\<rparr>, meter_a,
           Some \<lparr>nr_method = [], nr_url = ''http://x'', nr_headers = [], nr_body = []\<rparr>))
        (meter_actor ''http'' 3 1))))) \<le> 2"
  using outside_calls_within_quota[of "meter_actor ''http'' 3 1" "meter_key meter_a ''http''" 3, THEN conjunct1]
  by (simp add: max_int64_def del: replicate.simps)

definition big_answer :: llm_provider where
  "big_answer = \<lparr>pv_name = ''x'', pv_complete = (\<lambda>_. Some \<lparr>lr_text = ''t'', lr_prompt_tokens = 10, lr_completion_tokens = 90, lr_total_tokens = 100\<rparr>)\<rparr>"

definition ask_big :: llm_params where
  "ask_big = \<lparr>lp_provider = ''x'', lp_model = ''m'', lp_messages = [], lp_max_tokens = 0\<rparr>"

lemma over_budget_calls_uncharged_witness:
  "calls_made (\<lambda>params. llm_complete (Some big_answer) meter_a params) (\<lambda>_. meter_key meter_a ''tokens:m'')
     (replicate 7 (Some ask_big)) (meter_actor ''tokens:m'' 50 10)
   = (replicate 7 (meter_key meter_a ''tokens:m''), meter_actor ''tokens:m'' 50 10)"
proof -
  have "llm_allowed (mt_rank meter_a)" "lp_provider ask_big = ''x''" "lp_model ask_big = ''m''"
    "pv_complete big_answer ask_big = Some \<lparr>lr_text = ''t'', lr_prompt_tokens = 10, lr_completion_tokens = 90, lr_total_tokens = 100\<rparr>"
    by (simp_all add: meter_a_def staff_def ask_big_def big_answer_def)
  then show ?thesis
    using over_budget_calls_uncharged[of meter_a "meter_actor ''tokens:m'' 50 10" ask_big big_answer _ 50 7]
    by (simp add: in_int64_def min_int64_def max_int64_def del: replicate.simps)
qed

text \<open>A run the deadline kills is answered as a success with exit code -1; the branch for a timeout
  is only taken when the child ended with 0.\<close>

lemma killed_run_is_a_success:
  "cwd \<noteq> [] \<Longrightarrow> claude_invoke True cwd Signalled True out err = Some \<lparr>ar_output = out, ar_stderr = err, ar_exit = -1\<rparr>"
  by (simp add: claude_invoke_def)

text \<open>The mock's charge is what it says: prompt plus completion.\<close>

lemma mock_total: "mock_complete p = Some r \<Longrightarrow> lr_total_tokens r = lr_prompt_tokens r + lr_completion_tokens r
    \<and> length (lr_text r) \<le> 217"
  by (auto simp: mock_complete_def Let_def truncate_text_def ellipsis_def)

text \<open>Exactly one of the two limits is sent, and vendor prefix and case do not matter.\<close>

lemma openai_one_limit:
  "oa_max_tokens (openai_request p) = 0 \<or> oa_max_completion_tokens (openai_request p) = 0"
  by (simp add: openai_request_def Let_def)

lemma openai_families:
  "uses_max_completion_tokens ''openai/GPT-5-mini''" "\<not> uses_max_completion_tokens ''gpt-4o-mini''"
  "uses_max_completion_tokens ''o1''" "\<not> uses_max_completion_tokens ''o10''"
  by code_simp+

end
