(* ===== verification/Agent_Server.thy ===== *)
theory Agent_Server
  imports Ipc_Daemon Mem_Proxy Event_Bus Metered_Proxies
begin

section \<open>The daemon as an agent sees it (daemon.go installAgentProxies, room.go installCoreHandlers)\<close>

text \<open>
  When an agent is hired the daemon puts a handler for each method on its connection, over proxies built
  from the member and the daemon's own parts. \<open>serve_agent\<close> is that table on the joined state: what a request
  of the member \<open>m\<close> of the Room \<open>rid\<close> is answered, what it makes the daemon do outside, and the state after it.
  What handlers meet outside (the outcomes of writes, the network, the providers) is the record \<open>aenv\<close>.
  The state of the conversations and the state files are kept by \<open>Conv_Handlers\<close> and \<open>Hire\<close> as values of their
  own, apart from the files of agents.
\<close>

record aenv =
  av_yaml :: yaml
  av_io :: io
  av_read_dir :: "string disk \<Rightarrow> string \<Rightarrow> dir_entry list option"
  av_mem :: mem_io
  av_mem_dir :: "string \<Rightarrow> (string \<times> bool) list option res"
  av_net :: net_world
  av_llm :: "llm_provider option"
  av_ai :: "ai_provider option"
  av_conn :: nat
  av_sub_id :: string
  av_peer :: peer_env
  av_spawn :: spawn
  av_raw :: "wval \<Rightarrow> string"

text \<open>The calls of \<open>Tools\<close>, with the time limit of an AI tool that the SDK leaves out, and those on events.\<close>

datatype agent_request =
    Ask agent_call | AskTool string string int | AskPublish string wval | AskSubscribe string | AskUnsubscribe string

datatype agent_value = Value call_value | SubId string

datatype outside = HttpOut net_request | LlmOut llm_params | ToolOut "string \<times> string \<times> int" | EventOut "nat \<times> recv_event"

type_synonym agent_step = "hserver \<Rightarrow> (agent_value res \<times> outside list) \<times> hserver"

subsection \<open>Proxies of a member\<close>

definition rootfs_dir :: "hdaemon \<Rightarrow> string \<Rightarrow> string" where
  "rootfs_dir d rid = join_path [hd_rooms_dir d, rid, ''rootfs'']"

definition agent_fs :: "hdaemon \<Rightarrow> string \<Rightarrow> hmember \<Rightarrow> fs_proxy" where
  "agent_fs d rid m = fs_proxy_of (rootfs_dir d rid) (hm_rank m) (hm_mounts m)"

definition agent_meter :: "string \<Rightarrow> hmember \<Rightarrow> meter" where
  "agent_meter rid m = \<lparr>mt_room = rid, mt_agent = hm_name m, mt_rank = hm_rank m\<rparr>"

definition agent_mem :: "hdaemon \<Rightarrow> string \<Rightarrow> hmember \<Rightarrow> mem_proxy" where
  "agent_mem d rid m = \<lparr>mp_room = rid, mp_rank = hm_rank m, mp_volumes = hd_volumes d, mp_rooms_dir = hd_rooms_dir d\<rparr>"

definition agent_events :: "aenv \<Rightarrow> hdaemon \<Rightarrow> string \<Rightarrow> hmember \<Rightarrow> event_proxy" where
  "agent_events e d rid m =
     \<lparr>ep_room = rid, ep_agent = hm_name m, ep_rank = hm_rank m, ep_volumes = hd_volumes d, ep_conn = av_conn e\<rparr>"

definition set_core :: "hdaemon \<Rightarrow> hserver \<Rightarrow> hserver" where
  "set_core d s = s\<lparr>hv_rooms := (hv_rooms s)\<lparr>rd_core := d\<rparr>\<rparr>"

definition set_quota :: "actor \<Rightarrow> hserver \<Rightarrow> hserver" where
  "set_quota a s = set_core ((rd_core (hv_rooms s))\<lparr>hd_quota := a\<rparr>) s"

definition set_bus :: "emgr \<Rightarrow> hserver \<Rightarrow> hserver" where
  "set_bus m s = s\<lparr>hv_rooms := (hv_rooms s)\<lparr>rd_bus := m\<rparr>\<rparr>"

definition set_files :: "yaml \<Rightarrow> string disk \<Rightarrow> hserver \<Rightarrow> hserver" where
  "set_files yaml d s = s\<lparr>hv_rooms := sync_lookups yaml ((hv_rooms s)\<lparr>rd_disk := d\<rparr>)\<rparr>"

subsection \<open>The handlers\<close>

definition quietly :: "('a \<Rightarrow> call_value) \<Rightarrow> 'a res \<Rightarrow> agent_step" where
  "quietly f r s = ((map_sum id (Value \<circ> f) r, []), s)"

definition serve_tool :: "aenv \<Rightarrow> string \<Rightarrow> hmember \<Rightarrow> string \<Rightarrow> string \<Rightarrow> int \<Rightarrow> agent_step" where
  "serve_tool e rid m tool prompt timeout s =
     (let core = rd_core (hv_rooms s) in
      case ai_tool_invoke (av_ai e) (workspace_dir core rid) (agent_meter rid m)
             (Some \<lparr>ap_tool = tool, ap_prompt = prompt, ap_timeout = timeout\<rparr>) (hd_quota core) of
        (r, out, a) \<Rightarrow>
          ((map_sum id (\<lambda>x. Value (AiDone (ar_output x) (ar_stderr x) (ar_exit x))) r, map ToolOut out), set_quota a s))"

definition junior_of_call :: "string \<Rightarrow> string \<Rightarrow> junior_opts \<Rightarrow> junior_params" where
  "junior_of_call ref rk jo =
     \<lparr>jp_ref = ref, jp_rank = rk, jp_name = jo_name jo, jp_model = jo_model jo,
      jp_quota = map_option (\<lambda>(ts, cs). \<lparr>q_tokens = ts, q_api_calls = cs\<rparr>) (jo_quota jo),
      jp_volumes = map (\<lambda>(n, md, mp). \<lparr>vr_name = n, vr_mode = md, vr_mountpoint = mp\<rparr>) (jo_volumes jo)\<rparr>"

primrec serve_call :: "aenv \<Rightarrow> string \<Rightarrow> hmember \<Rightarrow> agent_call \<Rightarrow> agent_step" where
  "serve_call e rid m (FsRead p) s =
     quietly FsData (fs_read_file (agent_fs (rd_core (hv_rooms s)) rid m) (rd_disk (hv_rooms s)) (Some p)) s"
| "serve_call e rid m (FsWrite p d) s =
     (case fs_write_file (agent_fs (rd_core (hv_rooms s)) rid m) (av_io e) (Some (p, d)) (rd_disk (hv_rooms s)) of
        (r, disk) \<Rightarrow> quietly (\<lambda>_. Done) r (set_files (av_yaml e) disk s))"
| "serve_call e rid m (FsList p) s =
     quietly (\<lambda>es. FsEntries (map (\<lambda>x. (fe_name x, fe_is_dir x, fe_size x)) es))
       (fs_list_dir (agent_fs (rd_core (hv_rooms s)) rid m) (av_read_dir e) (rd_disk (hv_rooms s)) (Some p)) s"
| "serve_call e rid m (NetFetch meth url hs body) s =
     (case net_fetch (av_net e) (agent_meter rid m)
             (Some \<lparr>nr_method = meth, nr_url = url, nr_headers = hs, nr_body = body\<rparr>) (hd_quota (rd_core (hv_rooms s))) of
        (r, out, a) \<Rightarrow>
          ((map_sum id (\<lambda>x. Value (Fetched (nt_status x) (nt_headers x) (nt_body x))) r, map HttpOut out), set_quota a s))"
| "serve_call e rid m (LlmComplete prov model ms n) s =
     (case llm_complete (av_llm e) (agent_meter rid m)
             (Some \<lparr>lp_provider = prov, lp_model = model,
                    lp_messages = map (\<lambda>x. \<lparr>lm_role = mg_role x, lm_content = mg_content x\<rparr>) ms, lp_max_tokens = n\<rparr>)
             (hd_quota (rd_core (hv_rooms s))) of
        (r, out, a) \<Rightarrow>
          ((map_sum id (\<lambda>x. Value (Completed (lr_text x) (lr_prompt_tokens x) (lr_completion_tokens x) (lr_total_tokens x))) r,
            map LlmOut out), set_quota a s))"
| "serve_call e rid m (MemoryPut scope k v) s =
     (case mem_put (agent_mem (rd_core (hv_rooms s)) rid m) (av_mem e) (Some (scope, k, v)) (rd_disk (hv_rooms s)) of
        (r, disk) \<Rightarrow> quietly (\<lambda>_. Done) r (set_files (av_yaml e) disk s))"
| "serve_call e rid m (MemoryGet scope k) s =
     quietly (\<lambda>x. case x of None \<Rightarrow> MemFound [] False | Some v \<Rightarrow> MemFound v True)
       (mem_get (agent_mem (rd_core (hv_rooms s)) rid m) (av_mem e) (Some (scope, k)) (rd_disk (hv_rooms s))) s"
| "serve_call e rid m (MemoryList scope pre) s =
     quietly MemKeys (mem_list (agent_mem (rd_core (hv_rooms s)) rid m) (av_mem_dir e) (Some (scope, pre))) s"
| "serve_call e rid m (MemoryDelete scope k) s =
     (case mem_delete (agent_mem (rd_core (hv_rooms s)) rid m) (av_mem e) (Some (scope, k)) (rd_disk (hv_rooms s)) of
        (r, disk) \<Rightarrow> quietly (\<lambda>_. Done) r (set_files (av_yaml e) disk s))"
| "serve_call e rid m (AiInvoke tool prompt) s = serve_tool e rid m tool prompt 0 s"
| "serve_call e rid m (HireJunior ref rk jo) s =
     (case handle_hire_junior (av_spawn e) rid m (Some (junior_of_call ref rk jo)) (rd_core (hv_rooms s)) of
        (r, core) \<Rightarrow>
          quietly (\<lambda>c. Hired (hm_name c) (ref_name (hm_image c)) (rk_name (hm_rank c)) (hm_name m)) r (set_core core s))"
| "serve_call e rid m (PeerSend to payload conv) s =
     (case handle_peer_send (av_peer e)
             (Some \<lparr>pc_room = rid, pc_from = hm_name m, pc_to = to, pc_conv = conv, pc_payload = av_raw e payload\<rparr>)
             (cd_hub (hv_convs s)) of
        (r, h) \<Rightarrow> quietly (\<lambda>_. Done) r (s\<lparr>hv_convs := (hv_convs s)\<lparr>cd_hub := h\<rparr>\<rparr>))"

text \<open>A publish waits for its delivery, at which the bus's goroutine takes it in turn; after a shutdown there is none.\<close>

definition serve_publish :: "aenv \<Rightarrow> string \<Rightarrow> hmember \<Rightarrow> string \<Rightarrow> wval \<Rightarrow> agent_step" where
  "serve_publish e rid m scope payload s =
     (case ep_publish (agent_events e (rd_core (hv_rooms s)) rid m) (Some (scope, av_raw e payload)) (rd_bus (hv_rooms s)) of
        (Inl x, bus) \<Rightarrow> ((Inl x, []), set_bus bus s)
      | (Inr (a, env), bus) \<Rightarrow>
          if em_down bus then ((Inl Internal, []), set_bus bus s)
          else case deliver (pe_notify (av_peer e)) env (em_heap bus a) of
              (r, sent, b) \<Rightarrow>
                ((map_sum as_protocol_error (\<lambda>_. Value Done) r, map EventOut sent), set_bus (on_bus a (\<lambda>_. b) bus) s))"

primrec serve_agent :: "aenv \<Rightarrow> string \<Rightarrow> hmember \<Rightarrow> agent_request \<Rightarrow> agent_step" where
  "serve_agent e rid m (Ask c) s = serve_call e rid m c s"
| "serve_agent e rid m (AskTool tool prompt timeout) s = serve_tool e rid m tool prompt timeout s"
| "serve_agent e rid m (AskPublish scope payload) s = serve_publish e rid m scope payload s"
| "serve_agent e rid m (AskSubscribe scope) s =
     (case ep_subscribe (agent_events e (rd_core (hv_rooms s)) rid m) (av_sub_id e) (Some scope) (rd_bus (hv_rooms s)) of
        (r, bus) \<Rightarrow> ((map_sum id SubId r, []), set_bus bus s))"
| "serve_agent e rid m (AskUnsubscribe i) s =
     (case ep_unsubscribe (agent_events e (rd_core (hv_rooms s)) rid m) (Some i) (rd_bus (hv_rooms s)) of
        (r, bus) \<Rightarrow> quietly (\<lambda>_. Done) r (set_bus bus s))"

subsection \<open>Requests on the wire\<close>

text \<open>The methods the table has a handler for, besides those of the Room's life (\<open>log\<close>, \<open>task/done\<close>,
  \<open>task/error\<close>), and the fields each handler's record reads.\<close>

definition agent_methods :: "string list" where
  "agent_methods =
     [''fs/read'', ''fs/write'', ''fs/list'', ''net/fetch'', ''llm/complete'', ''memory/put'', ''memory/get'',
      ''memory/list'', ''memory/delete'', ''events/publish'', ''events/subscribe'', ''events/unsubscribe'',
      ''ai_tool/invoke'', ''hire/junior'', ''peer/send'']"

definition memory_methods :: "string list" where
  "memory_methods =
     [''memory/put'', ''memory/get'', ''memory/list'', ''memory/delete'', ''events/publish'', ''events/subscribe'',
      ''events/unsubscribe'']"

definition decode_request :: "(string \<Rightarrow> string option) \<Rightarrow> string \<Rightarrow> (string \<times> wval) list \<Rightarrow> agent_request option" where
  "decode_request unb64 meth ps =
     (if meth = ''events/publish'' then map_option (\<lambda>s. AskPublish s (get_any ps ''payload'')) (fld_str ps ''scope'')
      else if meth = ''events/subscribe'' then map_option AskSubscribe (fld_str ps ''scope'')
      else if meth = ''events/unsubscribe'' then map_option AskUnsubscribe (fld_str ps ''sub_id'')
      else if meth = ''ai_tool/invoke'' then
        bind2 (bind2 (fld_str ps ''tool'') (fld_str ps ''prompt'') AskTool) (fld_int ps ''timeout'') (\<lambda>f n. f n)
      else map_option Ask (decode_call unb64 meth ps))"

text \<open>The answer to parameters that do not decode. The memory and event proxies look at the rank before
  they decode, and the peer handler returns the JSON library's error as it is.\<close>

definition bad_params :: "string \<Rightarrow> hmember \<Rightarrow> herr" where
  "bad_params meth m =
     (if meth \<in> set memory_methods \<and> \<not> memory_allowed (hm_rank m) then PermissionDenied
      else if meth = ''peer/send'' then Plain
      else InvalidParams)"

definition handle_agent ::
  "(string \<Rightarrow> string option) \<Rightarrow> aenv \<Rightarrow> string \<Rightarrow> hmember \<Rightarrow> string \<Rightarrow> (string \<times> wval) list option \<Rightarrow> agent_step option" where
  "handle_agent unb64 e rid m meth params =
     (if meth \<notin> set agent_methods then None
      else Some (case params of
          None \<Rightarrow> (\<lambda>s. ((Inl (bad_params meth m), []), s))
        | Some ps \<Rightarrow>
            (case decode_request unb64 meth ps of
               None \<Rightarrow> (\<lambda>s. ((Inl (bad_params meth m), []), s))
             | Some r \<Rightarrow> serve_agent e rid m r)))"

fun agent_fields :: "(string \<Rightarrow> string) \<Rightarrow> agent_value \<Rightarrow> (string \<times> wval) list" where
  "agent_fields b64 (Value v) = result_fields b64 v"
| "agent_fields b64 (SubId i) = [(''sub_id'', WStr i)]"

subsection \<open>A call of the SDK is the daemon's function on the same arguments\<close>

lemma quietly_eq: "quietly f r s = ((map_sum id (Value \<circ> f) r, []), s)"
  by (simp add: quietly_def)

lemma serve_call_typed:
  "serve_call e rid m c s = ((Inr w, out), s') \<Longrightarrow> \<exists>v. w = Value v \<and> answers_call c v"
  by (cases c)
     (auto simp: quietly_eq serve_tool_def map_sum_Inr answers_call_def Let_def split: prod.splits option.splits)

lemma call_methods: "call_method c \<in> set agent_methods"
  by (cases c) (simp_all add: agent_methods_def)

lemma serve_agent_Ask [simp]: "serve_agent e rid m (Ask c) = serve_call e rid m c"
  by (rule ext) simp

lemma serve_decoded:
  assumes "\<And>x. unb64 (b64 x) = Some x"
  shows "\<exists>r. decode_request unb64 (call_method c) (call_params b64 c) = Some r \<and> serve_agent e rid m r = serve_call e rid m c"
proof (cases "\<exists>t p. c = AiInvoke t p")
  case True
  then show ?thesis by (auto simp: decode_request_def bind2_def fld_strs fld_int_def fun_eq_iff)
next
  case False
  then have "call_method c \<noteq> ''events/publish'' \<and> call_method c \<noteq> ''events/subscribe''
      \<and> call_method c \<noteq> ''events/unsubscribe'' \<and> call_method c \<noteq> ''ai_tool/invoke''"
    by (cases c) auto
  then show ?thesis using decode_params[of unb64 b64 c] assms by (simp add: decode_request_def)
qed

text \<open>C16. What an agent calls is what the daemon runs: every call of the Go SDK, written to JSON and read
  back by the daemon, is answered by the handler of that call on the arguments the agent gave, for the
  member whose connection it came by; and when the handler succeeds, what the SDK's function returns is the
  handler's result, of the kind that the call promises.\<close>

theorem agent_exchange:
  assumes "\<And>x. unb64 (b64 x) = Some x"
  shows "handle_agent unb64 e rid m (call_method c) (Some (call_params b64 c)) = Some (serve_call e rid m c)
    \<and> (\<forall>s s' w out. serve_call e rid m c s = ((Inr w, out), s') \<longrightarrow>
         (\<exists>v. w = Value v \<and> answers_call c v \<and> sdk_reply unb64 c (agent_fields b64 w) = Some (seen_of v)))"
proof (intro conjI allI impI)
  obtain r where "decode_request unb64 (call_method c) (call_params b64 c) = Some r" "serve_agent e rid m r = serve_call e rid m c"
    using serve_decoded[of unb64 b64 c e rid m] assms by blast
  then show "handle_agent unb64 e rid m (call_method c) (Some (call_params b64 c)) = Some (serve_call e rid m c)"
    by (simp add: handle_agent_def call_methods)
next
  fix s s' w out
  assume "serve_call e rid m c s = ((Inr w, out), s')"
  from serve_call_typed[OF this] obtain v where v: "w = Value v" "answers_call c v" by blast
  have "sdk_reply unb64 c (result_fields b64 v) = Some (seen_of v)" using assms v(2) by (rule reply_of_result)
  with v show "\<exists>v. w = Value v \<and> answers_call c v \<and> sdk_reply unb64 c (agent_fields b64 w) = Some (seen_of v)" by auto
qed

definition aenv_a :: aenv where
  "aenv_a = \<lparr>av_yaml = (\<lambda>_. None), av_io = io_good, av_read_dir = (\<lambda>_ _. None), av_mem = mem_io_a, av_mem_dir = (\<lambda>_. Inr None),
     av_net = \<lparr>nw_valid = (\<lambda>_. True), nw_http = (\<lambda>_. None)\<rparr>, av_llm = None, av_ai = None, av_conn = 1, av_sub_id = ''s'',
     av_peer = penv_a, av_spawn = spawn_a, av_raw = (\<lambda>_. [])\<rparr>"

definition hserver_f :: hserver where
  "hserver_f = \<lparr>hv_rooms = boot\<lparr>rd_disk := [''/rooms/r1/rootfs/tmp/x'' \<mapsto> ''hi'']\<rparr>, hv_convs = cdaemon_p\<rparr>"

theorem agent_exchange_witness:
  "\<exists>f w out s'. handle_agent Some aenv_a ''r1'' boss ''fs/read'' (Some [(''path'', WStr ''/tmp/x'')]) = Some f
     \<and> f hserver_f = ((Inr w, out), s')
     \<and> sdk_reply Some (FsRead ''/tmp/x'') (agent_fields (\<lambda>x. x) w) = Some (seen_of (FsData ''hi''))"
proof -
  have c: "serve_call aenv_a ''r1'' boss (FsRead ''/tmp/x'') hserver_f = ((Inr (Value (FsData ''hi'')), []), hserver_f)"
    by (simp add: quietly_def hserver_f_def boot_def boss_daemon_def agent_fs_def rootfs_dir_def fs_proxy_of_def
        fs_read_file_def resolve_def path_eval Let_def
        boss_def redirects_def mounted_rank_def allow_read_def intern_def manager_def trim_prefix_def has_suffix_def trim_suffix_def)
  note x = agent_exchange[of Some "\<lambda>x. x" aenv_a "''r1''" boss "FsRead ''/tmp/x''", OF HOL.refl]
  from x have "handle_agent Some aenv_a ''r1'' boss ''fs/read'' (Some [(''path'', WStr ''/tmp/x'')])
      = Some (serve_call aenv_a ''r1'' boss (FsRead ''/tmp/x''))" by simp
  with c conjunct2[OF x, rule_format, OF c] show ?thesis by (intro exI[of _ "serve_call aenv_a ''r1'' boss (FsRead ''/tmp/x'')"]) auto
qed

end
