(* ===== verification/Awaiter.thy ===== *)
theory Awaiter
  imports Tools
begin

section \<open>Waiting for the replies of peers (internal/peerawait, peer_call and peer_call_many of the runners)\<close>

text \<open>
  A runner's router goroutine hands each message of a peer to the awaiter registered for its sender
  and conversation, or to a fallback queue. A channel has room for one message; it is a number, its
  content and whether it is closed are part of the state. Closing a closed channel and sending on one
  make Go panic: \<open>aw_panic\<close> records it. \<open>astep\<close> interleaves the operations; \<open>Dispatch\<close> is two steps,
  as the code sends after it released the lock.
\<close>

record peer_note =
  pn_from :: string
  pn_payload :: string
  pn_conv :: string

record chan =
  ch_buf :: "peer_note option"
  ch_closed :: bool

record awaiter =
  aw_waiters :: "string \<rightharpoonup> nat"
  aw_chans :: "nat \<Rightarrow> chan"
  aw_next :: nat
  aw_fallback :: "peer_note list"
  aw_fallback_closed :: bool
  aw_panic :: bool

definition fallback_buffer :: nat where "fallback_buffer = 16"

definition fresh_chan :: chan where "fresh_chan = \<lparr>ch_buf = None, ch_closed = False\<rparr>"

definition new_awaiter :: awaiter where
  "new_awaiter = \<lparr>aw_waiters = Map.empty, aw_chans = (\<lambda>_. fresh_chan), aw_next = 0, aw_fallback = [],
     aw_fallback_closed = False, aw_panic = False\<rparr>"

definition await_key :: "string \<Rightarrow> string \<Rightarrow> string" where
  "await_key sender conv = sender @ ''|'' @ conv"

definition close_chan :: "nat \<Rightarrow> awaiter \<Rightarrow> awaiter" where
  "close_chan c a =
     (if ch_closed (aw_chans a c) then a\<lparr>aw_panic := True\<rparr>
      else a\<lparr>aw_chans := (aw_chans a)(c := (aw_chans a c)\<lparr>ch_closed := True\<rparr>)\<rparr>)"

definition aw_register :: "string \<Rightarrow> string \<Rightarrow> awaiter \<Rightarrow> nat \<times> awaiter" where
  "aw_register sender conv a =
     (let key = await_key sender conv;
          c = aw_next a;
          b = a\<lparr>aw_next := Suc c, aw_chans := (aw_chans a)(c := fresh_chan)\<rparr>;
          b = (case aw_waiters a key of None \<Rightarrow> b | Some old \<Rightarrow> close_chan old b)
      in (c, b\<lparr>aw_waiters := (aw_waiters a)(key \<mapsto> c)\<rparr>))"

definition aw_cancel :: "string \<Rightarrow> nat \<Rightarrow> awaiter \<Rightarrow> awaiter" where
  "aw_cancel key c a =
     (if aw_waiters a key = Some c then a\<lparr>aw_waiters := (aw_waiters a)(key := None)\<rparr> else a)"

text \<open>The two halves of \<open>Dispatch\<close>.\<close>

definition aw_take :: "peer_note \<Rightarrow> awaiter \<Rightarrow> nat option \<times> awaiter" where
  "aw_take p a =
     (let key = await_key (pn_from p) (pn_conv p) in
      case aw_waiters a key of
        None \<Rightarrow> (None, a)
      | Some c \<Rightarrow> (Some c, a\<lparr>aw_waiters := (aw_waiters a)(key := None)\<rparr>))"

definition aw_put :: "nat option \<Rightarrow> peer_note \<Rightarrow> awaiter \<Rightarrow> awaiter" where
  "aw_put oc p a =
     (case oc of
        Some c \<Rightarrow>
          (if ch_closed (aw_chans a c) then a\<lparr>aw_panic := True\<rparr>
           else if ch_buf (aw_chans a c) \<noteq> None then a
           else a\<lparr>aw_chans := (aw_chans a)(c := (aw_chans a c)\<lparr>ch_buf := Some p\<rparr>)\<rparr>)
      | None \<Rightarrow>
          (if aw_fallback_closed a then a\<lparr>aw_panic := True\<rparr>
           else if length (aw_fallback a) < fallback_buffer then a\<lparr>aw_fallback := aw_fallback a @ [p]\<rparr>
           else a))"

definition aw_dispatch :: "peer_note \<Rightarrow> awaiter \<Rightarrow> bool \<times> awaiter" where
  "aw_dispatch p a = (let (oc, b) = aw_take p a in (oc \<noteq> None, aw_put oc p b))"

text \<open>\<open>Close\<close> closes every waiting channel, then the fallback; closing that one twice is recovered from.\<close>

definition aw_close :: "awaiter \<Rightarrow> awaiter" where
  "aw_close a =
     a\<lparr>aw_panic := (aw_panic a \<or> (\<exists>c \<in> ran (aw_waiters a). ch_closed (aw_chans a c))),
       aw_chans := (\<lambda>c. if c \<in> ran (aw_waiters a) then (aw_chans a c)\<lparr>ch_closed := True\<rparr> else aw_chans a c),
       aw_waiters := Map.empty, aw_fallback_closed := True\<rparr>"

subsection \<open>The calls interleaved\<close>

text \<open>\<open>as_held\<close> is the message the router goroutine holds between the two halves of a dispatch, and
  \<open>as_key\<close> the key each channel was registered under.\<close>

record asys =
  as_aw :: awaiter
  as_held :: "(nat option \<times> peer_note) option"
  as_done :: bool
  as_key :: "nat \<Rightarrow> string"

definition new_asys :: asys where
  "new_asys = \<lparr>as_aw = new_awaiter, as_held = None, as_done = False, as_key = (\<lambda>_. [])\<rparr>"

inductive astep :: "asys \<Rightarrow> asys \<Rightarrow> bool" where
  reg: "aw_register sender conv (as_aw s) = (c, a) \<Longrightarrow>
      astep s (s\<lparr>as_aw := a, as_key := (as_key s)(c := await_key sender conv)\<rparr>)"
| cancel: "c < aw_next (as_aw s) \<Longrightarrow> astep s (s\<lparr>as_aw := aw_cancel (as_key s c) c (as_aw s)\<rparr>)"
| take: "as_held s = None \<Longrightarrow> \<not> as_done s \<Longrightarrow> aw_take p (as_aw s) = (oc, a) \<Longrightarrow>
      astep s (s\<lparr>as_aw := a, as_held := Some (oc, p)\<rparr>)"
| put: "as_held s = Some (oc, p) \<Longrightarrow> astep s (s\<lparr>as_aw := aw_put oc p (as_aw s), as_held := None\<rparr>)"
| recv: "c < aw_next (as_aw s) \<Longrightarrow> ch_buf (aw_chans (as_aw s) c) = Some p \<Longrightarrow>
      astep s (s\<lparr>as_aw := (as_aw s)\<lparr>aw_chans := (aw_chans (as_aw s))(c := (aw_chans (as_aw s) c)\<lparr>ch_buf := None\<rparr>)\<rparr>\<rparr>)"
| fall: "aw_fallback (as_aw s) = p # q \<Longrightarrow> astep s (s\<lparr>as_aw := (as_aw s)\<lparr>aw_fallback := q\<rparr>\<rparr>)"
| stop: "as_held s = None \<Longrightarrow> \<not> as_done s \<Longrightarrow> astep s (s\<lparr>as_aw := aw_close (as_aw s), as_done := True\<rparr>)"

text \<open>A waiting channel is open and empty and known under its key only; the one the router holds a
  message for is open, empty and no longer waiting; a buffered message is one of the channel's key.\<close>

definition chan_ready :: "asys \<Rightarrow> nat \<Rightarrow> bool" where
  "chan_ready s c \<longleftrightarrow> c < aw_next (as_aw s) \<and> aw_chans (as_aw s) c = fresh_chan"

definition asys_inv :: "asys \<Rightarrow> bool" where
  "asys_inv s \<longleftrightarrow>
     (\<forall>k c. aw_waiters (as_aw s) k = Some c \<longrightarrow> chan_ready s c \<and> as_key s c = k)
     \<and> (\<forall>c p. as_held s = Some (Some c, p) \<longrightarrow>
          chan_ready s c \<and> c \<notin> ran (aw_waiters (as_aw s)) \<and> as_key s c = await_key (pn_from p) (pn_conv p))
     \<and> (\<forall>c p. ch_buf (aw_chans (as_aw s) c) = Some p \<longrightarrow> as_key s c = await_key (pn_from p) (pn_conv p))
     \<and> (\<forall>c \<ge> aw_next (as_aw s). aw_chans (as_aw s) c = fresh_chan)
     \<and> (aw_fallback_closed (as_aw s) \<longleftrightarrow> as_done s)
     \<and> (as_done s \<longrightarrow> as_held s = None)
     \<and> length (aw_fallback (as_aw s)) \<le> fallback_buffer
     \<and> \<not> aw_panic (as_aw s)"

lemma asys_inv_new: "asys_inv new_asys"
  by (simp add: asys_inv_def new_asys_def new_awaiter_def fresh_chan_def)

lemma fresh_chan_simps [simp]: "ch_buf fresh_chan = None" "\<not> ch_closed fresh_chan"
  by (simp_all add: fresh_chan_def)

lemma asys_inv_waiting: "asys_inv s \<Longrightarrow> aw_waiters (as_aw s) k = Some c \<Longrightarrow> chan_ready s c \<and> as_key s c = k"
  by (simp add: asys_inv_def)

lemma asys_inv_held:
  "asys_inv s \<Longrightarrow> as_held s = Some (Some c, p) \<Longrightarrow>
     chan_ready s c \<and> c \<notin> ran (aw_waiters (as_aw s)) \<and> as_key s c = await_key (pn_from p) (pn_conv p)"
  by (simp add: asys_inv_def)

lemma asys_inv_buffered:
  "asys_inv s \<Longrightarrow> ch_buf (aw_chans (as_aw s) c) = Some p \<Longrightarrow> as_key s c = await_key (pn_from p) (pn_conv p)"
  by (simp add: asys_inv_def)

text \<open>Each step keeps the invariant.\<close>

lemma register_inv:
  assumes inv: "asys_inv s" and reg: "aw_register sender conv (as_aw s) = (c, a)"
  shows "asys_inv (s\<lparr>as_aw := a, as_key := (as_key s)(c := await_key sender conv)\<rparr>)"
proof -
  let ?k = "await_key sender conv"
  let ?b = "(as_aw s)\<lparr>aw_next := Suc (aw_next (as_aw s)), aw_chans := (aw_chans (as_aw s))(aw_next (as_aw s) := fresh_chan)\<rparr>"
  have c: "c = aw_next (as_aw s)" using reg by (simp add: aw_register_def Let_def)
  have old: "old < c \<and> aw_chans (as_aw s) old = fresh_chan \<and> as_key s old = k"
    if "aw_waiters (as_aw s) k = Some old" for k old
    using asys_inv_waiting[OF inv that] by (simp add: chan_ready_def c)
  have held: "d < c \<and> aw_chans (as_aw s) d = fresh_chan \<and> d \<notin> ran (aw_waiters (as_aw s))
      \<and> as_key s d = await_key (pn_from p) (pn_conv p)"
    if "as_held s = Some (Some d, p)" for d p
    using asys_inv_held[OF inv that] by (simp add: chan_ready_def c)
  have buf: "as_key s d = await_key (pn_from p) (pn_conv p)" if "ch_buf (aw_chans (as_aw s) d) = Some p" for d p
    using asys_inv_buffered[OF inv that] .
  have a: "a = (case aw_waiters (as_aw s) ?k of None \<Rightarrow> ?b | Some old \<Rightarrow> close_chan old ?b)
      \<lparr>aw_waiters := (aw_waiters (as_aw s))(?k \<mapsto> c)\<rparr>"
    using reg by (auto simp: aw_register_def Let_def)
  show ?thesis
  proof (cases "aw_waiters (as_aw s) ?k")
    case None
    with inv show ?thesis
      unfolding asys_inv_def a c
      by (auto simp: chan_ready_def ran_def less_Suc_eq split: if_splits)
  next
    case (Some old)
    have "\<not> ch_closed (aw_chans ?b old)" using old[OF Some] by (simp add: c)
    then have a': "a = ?b\<lparr>aw_chans := (aw_chans ?b)(old := fresh_chan\<lparr>ch_closed := True\<rparr>), aw_waiters := (aw_waiters (as_aw s))(?k \<mapsto> c)\<rparr>"
      using old[OF Some] unfolding a Some by (simp add: close_chan_def c)
    have new: "as_key s d = k \<and> d \<noteq> old \<and> d \<noteq> c \<and> chan_ready s d" if "aw_waiters (as_aw s) k = Some d" "k \<noteq> ?k" for k d
      using asys_inv_waiting[OF inv that(1)] asys_inv_waiting[OF inv Some] that(2) c by (auto simp: chan_ready_def)
    have heldn: "d \<noteq> old" if "as_held s = Some (Some d, p)" for d p
      using held[OF that] Some by (auto dest: ranI)
    show ?thesis
      unfolding asys_inv_def a'
    proof (intro conjI allI impI, goal_cases)
      case (1 k d)
      then show ?case using new[of k d] old[OF Some] by (auto simp: chan_ready_def less_Suc_eq c split: if_splits)
    next
      case (2 k d)
      then show ?case using new by (auto split: if_splits)
    next
      case (3 d p)
      then show ?case using held[of d p] heldn[of d p] by (auto simp: chan_ready_def c)
    next
      case (4 d p)
      then show ?case using held by (auto simp: ran_def split: if_splits)
    next
      case (5 d p)
      then show ?case using held by auto
    next
      case (6 d p)
      then show ?case using buf by (auto simp: c split: if_splits)
    next
      case (7 d)
      then show ?case using inv old[OF Some] by (auto simp: asys_inv_def c)
    qed (use inv in \<open>simp_all add: asys_inv_def\<close>)
  qed
qed

lemma cancel_inv: "asys_inv s \<Longrightarrow> asys_inv (s\<lparr>as_aw := aw_cancel k c (as_aw s)\<rparr>)"
  by (auto simp: asys_inv_def aw_cancel_def chan_ready_def ran_def)

lemma take_inv:
  assumes "asys_inv s" "as_held s = None" "\<not> as_done s" "aw_take p (as_aw s) = (oc, a)"
  shows "asys_inv (s\<lparr>as_aw := a, as_held := Some (oc, p)\<rparr>)"
proof -
  let ?k = "await_key (pn_from p) (pn_conv p)"
  have key: "k = ?k" if "aw_waiters (as_aw s) k = Some c" "aw_waiters (as_aw s) ?k = Some c" for k c
    using asys_inv_waiting[OF assms(1)] that by metis
  from assms show ?thesis
    by (auto simp: asys_inv_def aw_take_def chan_ready_def ran_def Let_def dest: key split: option.splits if_splits)
qed

lemma put_inv:
  assumes "asys_inv s" "as_held s = Some (oc, p)"
  shows "asys_inv (s\<lparr>as_aw := aw_put oc p (as_aw s), as_held := None\<rparr>)"
  using assms by (cases oc) (auto simp: asys_inv_def aw_put_def chan_ready_def ran_def)

lemma recv_inv:
  assumes "asys_inv s" "c < aw_next (as_aw s)" "ch_buf (aw_chans (as_aw s) c) = Some p"
  shows "asys_inv (s\<lparr>as_aw := (as_aw s)\<lparr>aw_chans := (aw_chans (as_aw s))(c := (aw_chans (as_aw s) c)\<lparr>ch_buf := None\<rparr>)\<rparr>\<rparr>)"
  using assms by (auto simp: asys_inv_def chan_ready_def fresh_chan_def)

lemma stop_inv:
  assumes "asys_inv s" "as_held s = None" "\<not> as_done s"
  shows "asys_inv (s\<lparr>as_aw := aw_close (as_aw s), as_done := True\<rparr>)"
proof -
  have "c < aw_next (as_aw s)" if "c \<in> ran (aw_waiters (as_aw s))" for c
    using that assms(1) by (auto simp: asys_inv_def chan_ready_def ran_def)
  with assms show ?thesis
    by (auto simp: asys_inv_def aw_close_def chan_ready_def dest: leD) (auto simp: ran_def)
qed

lemma asys_inv_step: "astep s t \<Longrightarrow> asys_inv s \<Longrightarrow> asys_inv t"
proof (induction rule: astep.induct)
  case (fall s p q)
  then show ?case by (auto simp: asys_inv_def chan_ready_def)
qed (simp_all add: register_inv cancel_inv take_inv put_inv recv_inv stop_inv)

lemma asys_inv_reach: "astep\<^sup>*\<^sup>* new_asys s \<Longrightarrow> asys_inv s"
  by (induction rule: rtranclp_induct) (auto intro: asys_inv_new asys_inv_step)

text \<open>However registrations, cancellations, arriving messages, receives and the shutdown
  interleave: nothing is sent on a closed channel and no channel is closed twice, so the runner never
  panics; a message taken for a waiting call finds that call's channel open and empty, so it is
  never dropped; and a call only ever receives a message of the sender and conversation it was
  registered for.\<close>

theorem awaiter_never_panics:
  assumes "astep\<^sup>*\<^sup>* new_asys s"
  shows "\<not> aw_panic (as_aw s)
    \<and> (\<forall>c p. as_held s = Some (Some c, p) \<longrightarrow> aw_put (Some c) p (as_aw s) = (as_aw s)
          \<lparr>aw_chans := (aw_chans (as_aw s))(c := \<lparr>ch_buf = Some p, ch_closed = False\<rparr>)\<rparr>)
    \<and> (\<forall>c p. ch_buf (aw_chans (as_aw s) c) = Some p \<longrightarrow> as_key s c = await_key (pn_from p) (pn_conv p))"
proof (intro conjI allI impI)
  note inv = asys_inv_reach[OF assms]
  then show "\<not> aw_panic (as_aw s)" by (simp add: asys_inv_def)
  fix c p
  show "as_key s c = await_key (pn_from p) (pn_conv p)" if "ch_buf (aw_chans (as_aw s) c) = Some p"
    using asys_inv_buffered[OF inv that] .
  show "aw_put (Some c) p (as_aw s) = (as_aw s)\<lparr>aw_chans := (aw_chans (as_aw s))(c := \<lparr>ch_buf = Some p, ch_closed = False\<rparr>)\<rparr>"
    if "as_held s = Some (Some c, p)"
    using asys_inv_held[OF inv that] by (simp add: aw_put_def chan_ready_def fresh_chan_def)
qed

definition bob_note :: peer_note where
  "bob_note = \<lparr>pn_from = ''bob'', pn_payload = ''1'', pn_conv = ''c1''\<rparr>"

lemma awaiter_never_panics_witness:
  "\<exists>s. astep\<^sup>*\<^sup>* new_asys s \<and> as_held s = Some (Some 0, bob_note) \<and> \<not> aw_panic (as_aw s)
     \<and> aw_put (Some 0) bob_note (as_aw s) =
         (as_aw s)\<lparr>aw_chans := (aw_chans (as_aw s))(0 := \<lparr>ch_buf = Some bob_note, ch_closed = False\<rparr>)\<rparr>"
proof -
  obtain c a where r: "aw_register ''bob'' ''c1'' (as_aw new_asys) = (c, a)" by fastforce
  then have c: "c = 0" "aw_waiters a ''bob|c1'' = Some 0"
    by (auto simp: aw_register_def new_asys_def new_awaiter_def await_key_def Let_def)
  let ?s = "new_asys\<lparr>as_aw := a, as_key := (as_key new_asys)(c := await_key ''bob'' ''c1'')\<rparr>"
  obtain oc b where t: "aw_take bob_note (as_aw ?s) = (oc, b)" by fastforce
  then have oc: "oc = Some 0" using c by (auto simp: aw_take_def bob_note_def await_key_def Let_def)
  let ?t = "?s\<lparr>as_aw := b, as_held := Some (oc, bob_note)\<rparr>"
  have "astep new_asys ?s" using r by (rule astep.reg)
  moreover have "astep ?s ?t" by (rule astep.take) (use t in \<open>simp_all add: new_asys_def\<close>)
  ultimately have s: "astep\<^sup>*\<^sup>* new_asys ?t" by (meson converse_rtranclp_into_rtranclp rtranclp.rtrancl_refl)
  show ?thesis
    using awaiter_never_panics[OF s] s oc by (intro exI[of _ ?t]) simp
qed

text \<open>Two names and conversations can have one key: a name with a bar takes the replies of another.\<close>

lemma await_key_collides: "await_key ''a|b'' ''c'' = await_key ''a'' ''b|c''"
  by (simp add: await_key_def)

lemma await_key_inj:
  assumes "CHR ''|'' \<notin> set x" "CHR ''|'' \<notin> set y"
  shows "await_key x c = await_key y d \<longleftrightarrow> x = y \<and> c = d"
proof
  assume "await_key x c = await_key y d"
  then have "split_on CHR ''|'' (x @ CHR ''|'' # c) = split_on CHR ''|'' (y @ CHR ''|'' # d)"
    by (simp add: await_key_def)
  with assms have "x = y" by (simp add: split_on_append)
  with \<open>await_key x c = await_key y d\<close> show "x = y \<and> c = d" by (simp add: await_key_def)
qed simp

subsection \<open>peer_call\<close>

text \<open>Times are in nanoseconds. The product is a 64-bit one.\<close>

definition peer_call_default :: int where "peer_call_default = 60000000000"
definition peer_call_cap :: int where "peer_call_cap = 300000000000"

definition peer_timeout :: "fields \<Rightarrow> int" where
  "peer_timeout args =
     (case map_of args ''timeout_seconds'' of
        Some (WNum t) \<Rightarrow>
          (if 0 < t then (let d = wrap64 (go_int t * 1000000000) in if peer_call_cap < d then peer_call_cap else d)
           else peer_call_default)
      | _ \<Rightarrow> peer_call_default)"

text \<open>What the call waits for: its channel's message, the channel closed, the time over, the context
  cancelled. What happens to the awaiter and the daemon while it waits is the argument \<open>wait\<close>.\<close>

datatype wait_end = GotReply peer_note | WaitClosed | WaitTimeout | WaitCancelled

definition reply_value :: "wait_end \<Rightarrow> wval res" where
  "reply_value e =
     (case e of
        GotReply p \<Rightarrow> Inr (WObj [(''from'', WStr (pn_from p)), (''payload'', WRaw (pn_payload p))])
      | _ \<Rightarrow> Inl Plain)"

definition peer_call ::
  "string \<Rightarrow> 'w agent \<Rightarrow> (nat \<Rightarrow> int \<Rightarrow> awaiter \<times> 'w \<Rightarrow> wait_end \<times> awaiter \<times> 'w)
    \<Rightarrow> fields \<Rightarrow> awaiter \<times> 'w \<Rightarrow> wval res \<times> awaiter \<times> 'w" where
  "peer_call conv a wait args s =
     (let callee = get_string args ''to'' in
      if callee = [] \<or> conv = [] then (Inl Plain, s)
      else
        (let (c, aw) = aw_register callee conv (fst s);
             key = await_key callee conv in
         case a (PeerSend callee (get_any args ''payload'') conv) (snd s) of
           (Inl e, w) \<Rightarrow> (Inl Plain, aw_cancel key c aw, w)
         | (Inr _, w) \<Rightarrow>
             (let (e, aw, w) = wait c (peer_timeout args) (aw, w)
              in (reply_value e, aw_cancel key c aw, w))))"

lemma peer_timeout_cap: "peer_timeout args \<le> peer_call_cap"
  by (auto simp: peer_timeout_def peer_call_cap_def peer_call_default_def Let_def split: option.split wval.split)

lemma peer_timeout_lower:
  assumes "map_of args ''timeout_seconds'' = Some (WNum t)" "1 \<le> t" "t \<le> 9223372036"
  shows "1000000000 \<le> peer_timeout args"
proof -
  from assms(2,3) have t: "1 \<le> \<lfloor>t\<rfloor>" "\<lfloor>t\<rfloor> \<le> 9223372036" by linarith+
  then have "wrap64 (\<lfloor>t\<rfloor> * 1000000000) = \<lfloor>t\<rfloor> * 1000000000"
    by (intro wrap64_id) (unfold in_int64_def min_int64_def max_int64_def, linarith)
  with t assms(1,2) show ?thesis by (simp add: peer_timeout_def go_int_def Let_def peer_call_cap_def)
qed

text \<open>Outside that range the time can be nothing: half a second is cut to zero, and a request for
  a long time overflows to a negative one.\<close>

lemma peer_timeout_fraction: "peer_timeout [(''timeout_seconds'', WNum (1 / 2))] = 0"
proof -
  have "\<lfloor>1 / 2 :: rat\<rfloor> = 0" by linarith
  then show ?thesis by (simp add: peer_timeout_def go_int_def wrap64_def peer_call_cap_def Let_def)
qed

lemma peer_timeout_overflow: "peer_timeout [(''timeout_seconds'', WNum 9223372037)] < 0"
  by (simp add: peer_timeout_def go_int_def wrap64_def peer_call_cap_def Let_def)

text \<open>A call leaves no awaiter of its own behind.\<close>

lemma aw_cancel_gone: "aw_waiters (aw_cancel k c a) k \<noteq> Some c"
  by (simp add: aw_cancel_def)

lemma peer_call_unregisters:
  "peer_call conv a wait args s = (r, aw', w') \<Longrightarrow> get_string args ''to'' \<noteq> [] \<Longrightarrow> conv \<noteq> [] \<Longrightarrow>
     aw_waiters aw' (await_key (get_string args ''to'') conv) \<noteq> Some (aw_next (fst s))"
  by (auto simp: peer_call_def aw_register_def Let_def aw_cancel_gone split: sum.splits prod.splits)

subsection \<open>peer_call_many\<close>

text \<open>All calls are registered, then a goroutine for each sends and waits. They share one timer channel,
  which gives its tick to one of them. \<open>fstep\<close> is a step of the goroutines or of the timer.\<close>

datatype call_end = Replied peer_note | SendFailed | AwaiterClosed | TimedOut | CtxEnded
datatype call_state = ToSend | Waiting | Ended call_end
datatype timer = Armed | Fired | Spent

record fan =
  fn_stat :: "call_state list"
  fn_chs :: "nat list"
  fn_aw :: awaiter
  fn_timer :: timer
  fn_ctx :: bool

fun many_calls :: "wval list \<Rightarrow> (string \<times> wval) list res" where
  "many_calls [] = Inr []"
| "many_calls (v # vs) =
     (case v of
        WObj kvs \<Rightarrow>
          (if get_string kvs ''to'' = [] then Inl Plain
           else case many_calls vs of Inl e \<Rightarrow> Inl e | Inr cs \<Rightarrow> Inr ((get_string kvs ''to'', get_any kvs ''payload'') # cs))
      | _ \<Rightarrow> Inl Plain)"

fun register_all :: "string \<Rightarrow> (string \<times> wval) list \<Rightarrow> awaiter \<Rightarrow> nat list \<times> awaiter" where
  "register_all conv [] a = ([], a)"
| "register_all conv (x # xs) a =
     (let (c, a) = aw_register (fst x) conv a; (cs, a) = register_all conv xs a in (c # cs, a))"

definition many_begin :: "string \<Rightarrow> fields \<Rightarrow> awaiter \<Rightarrow> ((string \<times> wval) list \<times> fan) res" where
  "many_begin conv args a =
     (if conv = [] then Inl Plain
      else case map_of args ''calls'' of
          Some (WArr (v # vs)) \<Rightarrow>
            (case many_calls (v # vs) of
               Inl e \<Rightarrow> Inl e
             | Inr calls \<Rightarrow>
                 (let (chs, a) = register_all conv calls a in
                  Inr (calls, \<lparr>fn_stat = map (\<lambda>_. ToSend) calls, fn_chs = chs, fn_aw = a, fn_timer = Armed, fn_ctx = False\<rparr>)))
        | _ \<Rightarrow> Inl Plain)"

definition chan_of :: "fan \<Rightarrow> nat \<Rightarrow> chan" where
  "chan_of f i = aw_chans (fn_aw f) (fn_chs f ! i)"

definition put_stat :: "fan \<Rightarrow> nat \<Rightarrow> call_state \<Rightarrow> fan" where
  "put_stat f i x = f\<lparr>fn_stat := (fn_stat f)[i := x]\<rparr>"

inductive fstep :: "fan \<Rightarrow> fan \<Rightarrow> bool" where
  sent: "i < length (fn_stat f) \<Longrightarrow> fn_stat f ! i = ToSend \<Longrightarrow> fstep f (put_stat f i Waiting)"
| failed: "i < length (fn_stat f) \<Longrightarrow> fn_stat f ! i = ToSend \<Longrightarrow> fstep f (put_stat f i (Ended SendFailed))"
| reply: "i < length (fn_stat f) \<Longrightarrow> fn_stat f ! i = Waiting \<Longrightarrow> ch_buf (chan_of f i) = Some p \<Longrightarrow>
    fstep f (put_stat (f\<lparr>fn_aw := (fn_aw f)\<lparr>aw_chans := (aw_chans (fn_aw f))(fn_chs f ! i := (chan_of f i)\<lparr>ch_buf := None\<rparr>)\<rparr>\<rparr>)
      i (Ended (Replied p)))"
| closed: "i < length (fn_stat f) \<Longrightarrow> fn_stat f ! i = Waiting \<Longrightarrow> ch_buf (chan_of f i) = None \<Longrightarrow> ch_closed (chan_of f i) \<Longrightarrow>
    fstep f (put_stat f i (Ended AwaiterClosed))"
| late: "i < length (fn_stat f) \<Longrightarrow> fn_stat f ! i = Waiting \<Longrightarrow> fn_timer f = Fired \<Longrightarrow>
    fstep f (put_stat (f\<lparr>fn_timer := Spent\<rparr>) i (Ended TimedOut))"
| ctx: "i < length (fn_stat f) \<Longrightarrow> fn_stat f ! i = Waiting \<Longrightarrow> fn_ctx f \<Longrightarrow> fstep f (put_stat f i (Ended CtxEnded))"
| fire: "fn_timer f = Armed \<Longrightarrow> fstep f (f\<lparr>fn_timer := Fired\<rparr>)"

inductive_cases fstep_cases: "fstep f g"

text \<open>The end: every awaiter is unregistered and the results are given in the order of the calls. The
  texts of errors are an argument.\<close>

definition fan_done :: "fan \<Rightarrow> bool" where
  "fan_done f \<longleftrightarrow> list_all (\<lambda>x. case x of Ended _ \<Rightarrow> True | _ \<Rightarrow> False) (fn_stat f)"

definition end_value :: "(string \<Rightarrow> wval option) \<Rightarrow> (call_end \<Rightarrow> string) \<Rightarrow> string \<Rightarrow> call_state \<Rightarrow> wval" where
  "end_value decode err_text callee x =
     WObj ((''to'', WStr callee) #
       (case x of
          Ended (Replied p) \<Rightarrow>
            [(''ok'', WBool True), (''from'', WStr (pn_from p)),
             (''payload'', case decode (pn_payload p) of Some v \<Rightarrow> v | None \<Rightarrow> WStr (pn_payload p))]
        | Ended e \<Rightarrow> [(''ok'', WBool False), (''error'', WStr (err_text e))]
        | _ \<Rightarrow> [(''ok'', WBool False)]))"

definition cancel_all :: "string \<Rightarrow> (string \<times> nat) list \<Rightarrow> awaiter \<Rightarrow> awaiter" where
  "cancel_all conv xs a = fold (\<lambda>(callee, c) a. aw_cancel (await_key callee conv) c a) xs a"

definition many_end ::
  "(string \<Rightarrow> wval option) \<Rightarrow> (call_end \<Rightarrow> string) \<Rightarrow> string \<Rightarrow> (string \<times> wval) list \<Rightarrow> fan \<Rightarrow> wval \<times> awaiter" where
  "many_end decode err_text conv calls f =
     (WObj [(''replies'', WGo (WArr (map (\<lambda>(x, s). end_value decode err_text (fst x) s) (zip calls (fn_stat f)))))],
      cancel_all conv (zip (map fst calls) (fn_chs f)) (fn_aw f))"

subsection \<open>When the calls end\<close>

fun stat_weight :: "call_state \<Rightarrow> nat" where
  "stat_weight ToSend = 2"
| "stat_weight Waiting = 1"
| "stat_weight (Ended _) = 0"

definition fan_weight :: "fan \<Rightarrow> nat" where
  "fan_weight f = sum_list (map stat_weight (fn_stat f)) + (if fn_timer f = Armed then 1 else 0)"

lemma sum_list_update_nat:
  "i < length xs \<Longrightarrow> g y < g (xs ! i) \<Longrightarrow> sum_list (map g (xs[i := y])) < (sum_list (map g xs) :: nat)"
proof (induction xs arbitrary: i)
  case (Cons x xs)
  then show ?case by (cases i) auto
qed simp

lemma fstep_weight: "fstep f g \<Longrightarrow> fan_weight g < fan_weight f"
  by (induction rule: fstep.induct)
    (auto simp: fan_weight_def put_stat_def intro!: sum_list_update_nat add_strict_right_mono)

lemma fstep_runs_bounded: "(fstep ^^ n) f g \<Longrightarrow> n + fan_weight g \<le> fan_weight f"
proof (induction n arbitrary: g)
  case (Suc n)
  then obtain h where h: "(fstep ^^ n) f h" "fstep h g" by auto
  with Suc.IH[OF h(1)] fstep_weight[OF h(2)] show ?case by simp
qed simp

text \<open>A call is silent when it has not ended and its channel is open and empty.\<close>

definition silent :: "fan \<Rightarrow> nat \<Rightarrow> bool" where
  "silent f i \<longleftrightarrow> i < length (fn_stat f) \<and> (\<forall>e. fn_stat f ! i \<noteq> Ended e)
     \<and> ch_buf (chan_of f i) = None \<and> \<not> ch_closed (chan_of f i)"

definition open_calls :: "fan \<Rightarrow> nat set" where
  "open_calls f = {i. i < length (fn_stat f) \<and> (\<forall>e. fn_stat f ! i \<noteq> Ended e)}"

lemma fan_done_open: "fan_done f \<longleftrightarrow> open_calls f = {}"
proof -
  have "(case x of Ended _ \<Rightarrow> True | _ \<Rightarrow> False) \<longleftrightarrow> (\<exists>e. x = Ended e)" for x by (cases x) auto
  then show ?thesis by (auto simp: fan_done_def open_calls_def list_all_length)
qed

text \<open>A state without a step is finished or has a silent call and a timer that is spent.\<close>

lemma fan_stuck:
  assumes stuck: "\<And>g. \<not> fstep f g" and i: "i \<in> open_calls f"
  shows "silent f i \<and> fn_timer f = Spent \<and> \<not> fn_ctx f"
proof -
  from i have il: "i < length (fn_stat f)" and ne: "\<forall>e. fn_stat f ! i \<noteq> Ended e" by (auto simp: open_calls_def)
  have "fn_stat f ! i \<noteq> ToSend" using fstep.sent[OF il] stuck by blast
  with ne have w: "fn_stat f ! i = Waiting" by (cases "fn_stat f ! i") auto
  have "ch_buf (chan_of f i) = None" using fstep.reply[OF il w] stuck by (cases "ch_buf (chan_of f i)") auto
  moreover from this have "\<not> ch_closed (chan_of f i)" using fstep.closed[OF il w] stuck by blast
  moreover have "fn_timer f = Spent" using fstep.late[OF il w] fstep.fire[of f] stuck by (cases "fn_timer f") auto
  moreover have "\<not> fn_ctx f" using fstep.ctx[OF il w] stuck by blast
  ultimately show ?thesis using il ne by (simp add: silent_def)
qed

definition fan_ok :: "fan \<Rightarrow> bool" where
  "fan_ok f \<longleftrightarrow> distinct (fn_chs f) \<and> length (fn_chs f) = length (fn_stat f)"

lemma fan_ok_step: "fstep f g \<Longrightarrow> fan_ok f \<Longrightarrow> fan_ok g"
  by (induction rule: fstep.induct) (simp_all add: fan_ok_def put_stat_def)

lemma open_calls_put:
  "open_calls (put_stat f i (Ended e)) = open_calls f - {i}"
  "i < length (fn_stat f) \<Longrightarrow> fn_stat f ! i = ToSend \<Longrightarrow> open_calls (put_stat f i Waiting) = open_calls f"
proof -
  have "(fn_stat f)[i := y] ! x = (if x = i then y else fn_stat f ! x)" if "x < length (fn_stat f)" for x y
    using that by (auto simp: nth_list_update)
  then show "open_calls (put_stat f i (Ended e)) = open_calls f - {i}"
    "i < length (fn_stat f) \<Longrightarrow> fn_stat f ! i = ToSend \<Longrightarrow> open_calls (put_stat f i Waiting) = open_calls f"
    by (auto simp: open_calls_def put_stat_def split: if_splits)
qed

lemma open_calls_simps [simp]:
  "open_calls (f\<lparr>fn_aw := a\<rparr>) = open_calls f" "open_calls (f\<lparr>fn_timer := t\<rparr>) = open_calls f"
  by (simp_all add: open_calls_def)

lemma put_stat_simps [simp]:
  "fn_timer (put_stat f i x) = fn_timer f" "fn_ctx (put_stat f i x) = fn_ctx f"
  "chan_of (put_stat f i x) = chan_of f" "chan_of (f\<lparr>fn_timer := t\<rparr>) = chan_of f"
  by (simp_all add: put_stat_def chan_of_def fun_eq_iff)

text \<open>A call is answered when its channel holds a message or is closed.\<close>

definition answered :: "fan \<Rightarrow> nat \<Rightarrow> bool" where
  "answered f i \<longleftrightarrow> ch_buf (chan_of f i) \<noteq> None \<or> ch_closed (chan_of f i)"

text \<open>The three situations in which a fan-out ends, each kept by every step.\<close>

lemma last_call_step:
  "fstep f g \<Longrightarrow> fn_timer f \<noteq> Spent \<and> open_calls f \<subseteq> {k} \<or> open_calls f = {} \<Longrightarrow>
     fn_timer g \<noteq> Spent \<and> open_calls g \<subseteq> {k} \<or> open_calls g = {}"
proof (induction rule: fstep.induct)
  case (late i f)
  then have "i \<in> open_calls f" by (simp add: open_calls_def)
  with late show ?case by (auto simp: open_calls_put)
qed (auto simp: open_calls_put)

lemma answered_step:
  "fstep f g \<Longrightarrow> fan_ok f \<Longrightarrow> \<forall>i \<in> open_calls f. answered f i \<Longrightarrow> \<forall>i \<in> open_calls g. answered g i"
proof (induction rule: fstep.induct)
  case (reply i f p)
  show ?case
  proof
    fix j
    let ?f = "f\<lparr>fn_aw := (fn_aw f)\<lparr>aw_chans := (aw_chans (fn_aw f))(fn_chs f ! i := (chan_of f i)\<lparr>ch_buf := None\<rparr>)\<rparr>\<rparr>"
    assume "j \<in> open_calls (put_stat ?f i (Ended (Replied p)))"
    then have j: "j \<in> open_calls f" "j \<noteq> i" by (auto simp: open_calls_put)
    then have "fn_chs f ! j \<noteq> fn_chs f ! i"
      using reply.hyps(1) reply.prems(1) by (auto simp: fan_ok_def open_calls_def nth_eq_iff_index_eq)
    with j reply.prems(2) show "answered (put_stat ?f i (Ended (Replied p))) j"
      by (simp add: answered_def chan_of_def)
  qed
qed (auto simp: open_calls_put answered_def)

lemma ctx_step: "fstep f g \<Longrightarrow> fn_ctx g = fn_ctx f"
  by (induction rule: fstep.induct) simp_all

definition fan_ends :: "fan \<Rightarrow> bool" where
  "fan_ends f \<longleftrightarrow> fn_ctx f \<or> (\<forall>i \<in> open_calls f. answered f i)
     \<or> (fn_timer f \<noteq> Spent \<and> (\<exists>k. open_calls f \<subseteq> {k}))"

lemma fan_ends_step: "fstep f g \<Longrightarrow> fan_ok f \<Longrightarrow> fan_ends f \<Longrightarrow> fan_ends g"
  unfolding fan_ends_def using ctx_step[of f g] answered_step[of f g] last_call_step[of f g] by blast

text \<open>C14. A fan-out to several peers returns when every call still open has its reply waiting, or the
  context ends, or the timer has not been used up and only one call is open: then every run
  of its goroutines is of bounded length and comes to rest only when every call has a result.\<close>

theorem peer_call_many_returns:
  assumes "fan_ok f" "fan_ends f" "(fstep ^^ n) f g"
  shows "n \<le> 2 * length (fn_stat f) + 1 \<and> ((\<forall>h. \<not> fstep g h) \<longrightarrow> fan_done g)"
proof
  have "sum_list (map stat_weight xs) \<le> 2 * length xs" for xs
  proof (induction xs)
    case (Cons x xs)
    then show ?case by (cases x) auto
  qed simp
  then have "fan_weight f \<le> 2 * length (fn_stat f) + 1"
    by (auto simp: fan_weight_def intro: le_SucI)
  then show "n \<le> 2 * length (fn_stat f) + 1" using fstep_runs_bounded[OF assms(3)] by linarith
  have "fan_ok g \<and> fan_ends g"
    using assms(3)
  proof (induction n arbitrary: g)
    case (Suc n)
    then show ?case using fan_ok_step fan_ends_step by (metis relpowp_Suc_E)
  qed (use assms in simp)
  then show "(\<forall>h. \<not> fstep g h) \<longrightarrow> fan_done g"
    using fan_stuck[of g] unfolding fan_ends_def fan_done_open silent_def answered_def by blast
qed

text \<open>With two silent peers it does not: one goroutine takes the timer's only tick, the other waits on.\<close>

definition waits :: "fan \<Rightarrow> nat \<Rightarrow> bool" where
  "waits f i \<longleftrightarrow> i < length (fn_stat f) \<and> fn_stat f ! i = Waiting \<and> \<not> answered f i"

lemma waits_step:
  "fstep f g \<Longrightarrow> \<not> fn_ctx f \<Longrightarrow> waits f i \<Longrightarrow> waits g i \<or> (fn_timer f = Fired \<and> fn_timer g = Spent
     \<and> (\<forall>j. j \<noteq> i \<longrightarrow> waits f j \<longrightarrow> waits g j))"
proof (induction rule: fstep.induct)
  case (reply k f p)
  then show ?case by (cases "k = i") (auto simp: waits_def answered_def put_stat_def chan_of_def)
next
  case (closed k f)
  then show ?case by (cases "k = i") (auto simp: waits_def answered_def put_stat_def chan_of_def)
next
  case (late k f)
  then show ?case by (cases "k = i") (auto simp: waits_def answered_def put_stat_def chan_of_def)
qed (auto simp: waits_def answered_def put_stat_def chan_of_def nth_list_update)

text \<open>After two peers have been asked and neither answers, \<open>peer_call_many\<close> never returns, whatever
  its goroutines do and although its timeout has passed: the one timer channel ticks once.\<close>

theorem peer_call_many_hangs:
  assumes "i \<noteq> j" "waits f i" "waits f j" "\<not> fn_ctx f" "fstep\<^sup>*\<^sup>* f g"
  shows "\<not> fan_done g \<and> (waits g i \<or> waits g j)"
proof -
  have "\<not> fn_ctx g \<and> (waits g i \<and> waits g j \<or> fn_timer g = Spent \<and> (waits g i \<or> waits g j))"
    using assms(5)
  proof (induction rule: rtranclp_induct)
    case (step g h)
    have spent: "fn_timer h = Spent" if "fn_timer g = Spent"
      using step.hyps(2) that by (induction rule: fstep.induct) simp_all
    have ctx: "\<not> fn_ctx g" "\<not> fn_ctx h" using step.IH ctx_step[OF step.hyps(2)] by auto
    have w: "waits g k \<Longrightarrow> waits h k \<or> (fn_timer g = Fired \<and> fn_timer h = Spent \<and> (\<forall>l. l \<noteq> k \<longrightarrow> waits g l \<longrightarrow> waits h l))" for k
      using waits_step[OF step.hyps(2) ctx(1)] .
    show ?case
    proof (cases "fn_timer g = Spent")
      case True
      with step.IH w[of i] w[of j] spent ctx(2) show ?thesis by auto
    next
      case False
      with step.IH have both: "waits g i" "waits g j" by auto
      then have "waits h i \<and> waits h j \<or> fn_timer h = Spent \<and> (waits h i \<or> waits h j)"
        using w[of i] w[of j] assms(1) by blast
      with ctx(2) show ?thesis by simp
    qed
  qed (use assms in simp)
  then have "waits g i \<or> waits g j" by blast
  moreover from this have "open_calls g \<noteq> {}" by (auto simp: open_calls_def waits_def)
  ultimately show ?thesis by (simp add: fan_done_open)
qed


text \<open>The start registers a channel for each call, all different; two calls to one peer close the first.\<close>

lemma register_all_chans:
  "register_all conv xs a = (cs, b) \<Longrightarrow> cs = [aw_next a..<aw_next a + length xs] \<and> aw_next b = aw_next a + length xs"
proof (induction xs arbitrary: a cs b)
  case (Cons x xs)
  obtain c a1 where r: "aw_register (fst x) conv a = (c, a1)" by fastforce
  then have c: "c = aw_next a" "aw_next a1 = Suc (aw_next a)"
    by (auto simp: aw_register_def Let_def close_chan_def split: option.splits if_splits)
  obtain ds b1 where r': "register_all conv xs a1 = (ds, b1)" by fastforce
  from Cons.prems r r' have "cs = c # ds" "b = b1" by simp_all
  with Cons.IH[OF r'] c show ?case by (simp add: upt_conv_Cons del: upt_Suc)
qed simp

lemma many_begin_ok:
  "many_begin conv args a = Inr (calls, f) \<Longrightarrow> fan_ok f \<and> fn_timer f = Armed \<and> fn_stat f = map (\<lambda>_. ToSend) calls \<and> calls \<noteq> []"
  using register_all_chans[of conv calls a "fn_chs f" "fn_aw f"]
  by (auto simp: many_begin_def fan_ok_def Let_def split: if_splits option.splits wval.splits list.splits sum.splits prod.splits)

lemma register_closes_old:
  assumes "aw_waiters a (await_key callee conv) = Some c" "aw_register callee conv a = (d, b)" "c < aw_next a"
  shows "ch_closed (aw_chans b c)"
  using assms by (auto simp: aw_register_def close_chan_def Let_def)

text \<open>Two examples: one call nobody answers, ended by the timer, and two.\<close>

definition call_to :: "string \<Rightarrow> wval" where
  "call_to callee = WObj [(''to'', WStr callee), (''payload'', WNull)]"

definition started :: "string list \<Rightarrow> fan" where
  "started callees = \<lparr>fn_stat = map (\<lambda>_. Waiting) callees, fn_chs = [0..<length callees],
     fn_aw = snd (register_all ''c1'' (map (\<lambda>n. (n, WNull)) callees) new_awaiter), fn_timer = Armed, fn_ctx = False\<rparr>"

lemma started_silent:
  "waits (started [''bob'', ''eve'']) 0" "waits (started [''bob'', ''eve'']) 1"
  by (simp_all add: waits_def answered_def chan_of_def started_def aw_register_def new_awaiter_def Let_def await_key_def)

lemma peer_call_many_returns_witness:
  "\<exists>g. (fstep ^^ 2) (started [''bob'']) g \<and> (\<forall>h. \<not> fstep g h) \<and> fan_done g \<and> fn_stat g = [Ended TimedOut]"
proof -
  let ?f = "started [''bob'']"
  let ?g = "?f\<lparr>fn_timer := Fired\<rparr>"
  let ?h = "put_stat (?g\<lparr>fn_timer := Spent\<rparr>) 0 (Ended TimedOut)"
  have "fstep ?f ?g" by (rule fstep.fire) (simp add: started_def)
  moreover have "fstep ?g ?h" by (rule fstep.late) (simp_all add: started_def)
  ultimately have run: "(fstep ^^ 2) ?f ?h" by (auto simp: numeral_2_eq_2)
  have ok: "fan_ok ?f" by (simp add: fan_ok_def started_def)
  have ends: "fan_ends ?f" by (auto simp: fan_ends_def open_calls_def started_def)
  have stat: "fn_stat ?h = [Ended TimedOut]" "fn_timer ?h = Spent" by (simp_all add: put_stat_def started_def)
  have rest: "\<not> fstep ?h k" for k
    by (rule notI, erule fstep.cases) (use stat in \<open>auto simp: less_Suc_eq\<close>)
  with peer_call_many_returns[OF ok ends run] run stat show ?thesis by (intro exI[of _ ?h]) blast
qed

lemma peer_call_many_hangs_witness:
  "fstep\<^sup>*\<^sup>* (started [''bob'', ''eve''])
     (put_stat ((started [''bob'', ''eve''])\<lparr>fn_timer := Spent\<rparr>) 0 (Ended TimedOut))
   \<and> \<not> fan_done (put_stat ((started [''bob'', ''eve''])\<lparr>fn_timer := Spent\<rparr>) 0 (Ended TimedOut))"
proof -
  let ?f = "started [''bob'', ''eve'']"
  let ?h = "put_stat (?f\<lparr>fn_timer := Fired\<rparr>\<lparr>fn_timer := Spent\<rparr>) 0 (Ended TimedOut)"
  have "fstep ?f (?f\<lparr>fn_timer := Fired\<rparr>)" by (rule fstep.fire) (simp add: started_def)
  moreover have "fstep (?f\<lparr>fn_timer := Fired\<rparr>) ?h" by (rule fstep.late) (simp_all add: started_def)
  ultimately have "fstep\<^sup>*\<^sup>* ?f ?h" by (meson converse_rtranclp_into_rtranclp rtranclp.rtrancl_refl)
  moreover have "?h = put_stat (?f\<lparr>fn_timer := Spent\<rparr>) 0 (Ended TimedOut)" by simp
  moreover have "\<not> fn_ctx ?f" by (simp add: started_def)
  ultimately show ?thesis using peer_call_many_hangs[OF _ started_silent] by (metis zero_neq_one)
qed

lemma duplicate_callee_closed:
  "ch_closed (chan_of (started [''bob'', ''bob'']) 0)"
  by (simp add: chan_of_def started_def aw_register_def close_chan_def new_awaiter_def Let_def await_key_def)

lemma many_begin_started:
  "many_begin ''c1'' [(''calls'', WArr [call_to ''bob'', call_to ''bob''])] new_awaiter
     = Inr ([(''bob'', WNull), (''bob'', WNull)], (started [''bob'', ''bob''])\<lparr>fn_stat := [ToSend, ToSend]\<rparr>)"
  by (simp add: many_begin_def call_to_def get_string_def get_any_def started_def aw_register_def close_chan_def
      new_awaiter_def Let_def await_key_def)

end
