(* ===== verification/Cmd_Remote.thy ===== *)
theory Cmd_Remote
  imports Remote
begin

section \<open>The command line's own reading of references (cmd/hive/pull.go, hivefile_fetch.go)\<close>

text \<open>
  To keep its binary small the command line has a second copy of two functions of \<open>Remote\<close>: whether a
  reference is remote, and its parts, from which it builds the URL of a Hivefile. The copies are meant to
  stay in step; the lemmas here say where they do and where they do not.
\<close>

definition looks_remote_ref :: "string \<Rightarrow> bool" where
  "looks_remote_ref s =
     (if length s = 0 then False
      else if length s \<ge> 9 \<and> take 9 s = ''github://'' then True
      else if length s \<ge> 19 \<and> take 19 s = ''https://github.com/'' then True
      else if length s \<ge> 18 \<and> take 18 s = ''http://github.com/'' then True
      else list_ex (\<lambda>c. c = CHR ''#'') s \<and> list_ex (\<lambda>c. c = CHR ''/'') s \<and> \<not> list_ex (\<lambda>c. c = CHR '':'') s)"

text \<open>The text after the first occurrence of a string.\<close>

fun after_first :: "string \<Rightarrow> string \<Rightarrow> string" where
  "after_first p [] = []"
| "after_first p (c # s) = (if has_prefix (c # s) p then drop (length p) (c # s) else after_first p s)"

text \<open>Owner, repository, path and reference, in Go's named results; the path is trimmed on the way out.\<close>

type_synonym remote_parts = "string \<times> string \<times> string \<times> string"

definition split_scheme :: "string \<Rightarrow> remote_parts res" where
  "split_scheme s =
     (let rest = trim_prefix s ''github://'';
          (gitref, rest) = (case last_index CHR ''@'' rest of
              Some at \<Rightarrow> (drop (Suc at) rest, take at rest) | None \<Rightarrow> (''main'', rest));
          parts = split_on CHR ''/'' (trim_set rest ''/'')
      in if length parts < 2 then Inl Plain
         else Inr (parts ! 0, parts ! 1, trim_set (join_with CHR ''/'' (drop 2 parts)) ''/'', gitref))"

definition split_https :: "string \<Rightarrow> remote_parts res" where
  "split_https s =
     (let parts = split_on CHR ''/'' (trim_set (after_first ''github.com/'' s) ''/'') in
      if length parts < 2 then Inl Plain
      else if length parts \<ge> 4 \<and> (parts ! 2 = ''tree'' \<or> parts ! 2 = ''blob'')
        then Inr (parts ! 0, parts ! 1, trim_set (join_with CHR ''/'' (drop 4 parts)) ''/'', parts ! 3)
      else Inr (parts ! 0, parts ! 1, [], ''main''))"

definition split_short :: "string \<Rightarrow> remote_parts res" where
  "split_short s =
     (case index_of CHR ''#'' s of
        None \<Rightarrow> Inl Plain
      | Some hash_at \<Rightarrow>
          (let owner_repo = take hash_at s; tail = drop (Suc hash_at) s in
           case index_of CHR ''/'' owner_repo of
             None \<Rightarrow> Inl Plain
           | Some i \<Rightarrow>
               (let (gitref, tail) = (case last_index CHR ''@'' tail of
                    Some at \<Rightarrow> (drop (Suc at) tail, take at tail) | None \<Rightarrow> (''main'', tail))
                in Inr (take i owner_repo, drop (Suc i) owner_repo, trim_set tail ''/'', gitref))))"

definition split_remote_ref :: "string \<Rightarrow> remote_parts res" where
  "split_remote_ref s =
     (if has_prefix s ''github://'' then split_scheme s
      else if has_prefix s ''https://github.com/'' \<or> has_prefix s ''http://github.com/'' then split_https s
      else if CHR ''#'' \<in> set s then split_short s
      else Inl Plain)"

definition hivefile_raw_url :: "string \<Rightarrow> string res" where
  "hivefile_raw_url ref =
     (case split_remote_ref ref of
        Inl e \<Rightarrow> Inl e
      | Inr (owner, repo, path, gitref) \<Rightarrow>
          Inr (''https://raw.githubusercontent.com/'' @ owner @ ''/'' @ repo @ ''/'' @ gitref @ ''/'' @ path
               @ (if path = [] then [] else ''/'') @ ''Hivefile.yaml''))"

text \<open>The fetch: \<open>get\<close> is the answer of the network, the body of a 200 or nothing; the temporary file can fail.\<close>

definition fetch_hivefile :: "fetcher \<Rightarrow> bool \<Rightarrow> string \<Rightarrow> string \<Rightarrow> string disk \<Rightarrow> string res \<times> string disk" where
  "fetch_hivefile get tmp_ok tmp ref d =
     (case hivefile_raw_url ref of
        Inl e \<Rightarrow> (Inl e, d)
      | Inr url \<Rightarrow>
          (case get url of
             None \<Rightarrow> (Inl Plain, d)
           | Some body \<Rightarrow> if tmp_ok then (Inr tmp, d(tmp \<mapsto> body)) else (Inl Plain, d)))"

definition load_hivefile :: "(string \<Rightarrow> hivefile option) \<Rightarrow> string \<Rightarrow> string disk \<Rightarrow> hivefile res" where
  "load_hivefile yaml path d =
     (case d path of
        None \<Rightarrow> Inl Plain
      | Some data \<Rightarrow> (case yaml data of None \<Rightarrow> Inl Plain | Some f \<Rightarrow> validate_hivefile f))"

subsection \<open>In step with the daemon\<close>

lemma take_prefix: "length p = n \<Longrightarrow> (n \<le> length s \<and> take n s = p) = has_prefix s p"
  by (auto simp: has_prefix_def dest: arg_cong[where f = length])

lemma looks_remote_prefixes:
  "looks_remote_ref s \<longleftrightarrow> has_prefix s ''github://'' \<or> has_prefix s ''https://github.com/'' \<or> has_prefix s ''http://github.com/''
     \<or> (CHR ''#'' \<in> set s \<and> CHR ''/'' \<in> set s \<and> CHR '':'' \<notin> set s)"
proof -
  have a: "(9 \<le> length s \<and> take 9 s = ''github://'') = has_prefix s ''github://''"
    by (rule take_prefix) simp
  have b: "(19 \<le> length s \<and> take 19 s = ''https://github.com/'') = has_prefix s ''https://github.com/''"
    by (rule take_prefix) simp
  have c: "(18 \<le> length s \<and> take 18 s = ''http://github.com/'') = has_prefix s ''http://github.com/''"
    by (rule take_prefix) simp
  have d: "list_ex (\<lambda>c. c = x) s \<longleftrightarrow> x \<in> set s" for x by (auto simp: list_ex_iff)
  show ?thesis
  proof (cases "s = []")
    case False
    then have "length s \<noteq> 0" by simp
    then show ?thesis unfolding looks_remote_ref_def a b c d by argo
  qed (simp add: looks_remote_ref_def has_prefix_def)
qed

lemma looks_remote_same: "trim_space s = s \<Longrightarrow> looks_remote_ref s = looks_remote s"
  by (simp add: looks_remote_prefixes looks_remote_def)

lemma after_https:
  assumes "has_prefix s ''https://github.com/'' \<or> has_prefix s ''http://github.com/''" "CHR ''%'' \<notin> set s" "CHR ''?'' \<notin> set s" "CHR ''#'' \<notin> set s"
  shows "\<exists>t. after_first ''github.com/'' s = t \<and> url_path s = Some (CHR ''/'' # t)"
proof -
  have u: "CHR ''%'' \<notin> set t \<Longrightarrow> unescape t = Some t" for t by (induction t) auto
  have t: "CHR ''?'' \<notin> set t \<Longrightarrow> CHR ''#'' \<notin> set t \<Longrightarrow> takeWhile (\<lambda>c. c \<noteq> CHR ''?'' \<and> c \<noteq> CHR ''#'') t = t" for t
    by (rule takeWhile_eq_all_conv[THEN iffD2]) auto
  from assms(1) consider t where "s = ''https://github.com/'' @ t" | t where "s = ''http://github.com/'' @ t"
    by (auto simp: has_prefix_iff)
  then show ?thesis
    using assms(2-4) by cases (auto simp: url_path_def Let_def u t)
qed

lemma trim_lead: "trim_set (CHR ''/'' # t) ''/'' = trim_set t ''/''"
  by (simp add: trim_set_def trim_left_def)

definition plain_url :: "string \<Rightarrow> bool" where
  "plain_url s \<longleftrightarrow> CHR ''%'' \<notin> set s \<and> CHR ''?'' \<notin> set s \<and> CHR ''#'' \<notin> set s"

lemma split_ref_cases:
  "(case last_index CHR ''@'' s of Some at \<Rightarrow> (drop (Suc at) s, take at s) | None \<Rightarrow> (''main'', s)) =
     (if last_index CHR ''@'' s = None then ''main'' else fst (split_ref s), snd (split_ref s))"
  by (simp add: split_ref_def split: option.split)

lemma split_ref_none: "last_index CHR ''@'' s = None \<Longrightarrow> split_ref s = ([], s)"
  by (simp add: split_ref_def)

lemma mk_ref_parts:
  assumes "owner \<noteq> []" "repo \<noteq> []" "gitref \<noteq> []" "gitref = ref \<or> ref = [] \<and> gitref = ''main''"
  shows "mk_ref h owner repo path ref =
     Inr \<lparr>rr_host = h, rr_owner = owner, rr_repo = repo, rr_path = trim_set path ''/'', rr_ref = gitref\<rparr>"
  using assms by (auto simp: mk_ref_def default_ref_def)

lemma split_scheme_agrees:
  assumes "split_scheme s = Inr (owner, repo, path, gitref)" "owner \<noteq> []" "repo \<noteq> []" "gitref \<noteq> []"
  shows "parse_github_scheme s = Inr \<lparr>rr_host = ''github.com'', rr_owner = owner, rr_repo = repo, rr_path = path, rr_ref = gitref\<rparr>"
  using assms split_ref_none[of "trim_prefix s ''github://''"]
  by (auto simp: split_scheme_def parse_github_scheme_def split_ref_cases Let_def split_def mk_ref_parts split: if_splits)

lemma split_short_agrees:
  assumes "split_short s = Inr (owner, repo, path, gitref)" "owner \<noteq> []" "repo \<noteq> []" "gitref \<noteq> []"
  shows "parse_short_form s = Inr \<lparr>rr_host = ''github.com'', rr_owner = owner, rr_repo = repo, rr_path = path, rr_ref = gitref\<rparr>"
proof -
  obtain i where i: "index_of CHR ''#'' s = Some i" using assms(1) by (cases "index_of CHR ''#'' s") (auto simp: split_short_def)
  then obtain j where j: "index_of CHR ''/'' (take i s) = Some j"
    using assms(1) by (cases "index_of CHR ''/'' (take i s)") (auto simp: split_short_def Let_def)
  from i j assms show ?thesis using split_ref_none[of "drop (Suc i) s"]
    by (auto simp: split_short_def parse_short_form_def split_ref_cases Let_def split_def mk_ref_parts split: if_splits)
qed

lemma split_https_agrees:
  assumes "split_https s = Inr (owner, repo, path, gitref)" "owner \<noteq> []" "repo \<noteq> []" "gitref \<noteq> []"
    and "has_prefix s ''https://github.com/'' \<or> has_prefix s ''http://github.com/''" "plain_url s"
  shows "parse_github_https s = Inr \<lparr>rr_host = ''github.com'', rr_owner = owner, rr_repo = repo, rr_path = path, rr_ref = gitref\<rparr>"
proof -
  from after_https[OF assms(5)] assms(6)
  have u: "url_path s = Some (CHR ''/'' # after_first ''github.com/'' s)" by (auto simp: plain_url_def)
  let ?ps = "split_on CHR ''/'' (trim_set (after_first ''github.com/'' s) ''/'')"
  have "\<not> length ?ps < 2" using assms(1) by (auto simp: split_https_def Let_def)
  then show ?thesis
    using assms(1-4) by (auto simp: parse_github_https_def u trim_lead split_https_def Let_def mk_ref_parts trim_set_def
      trim_right_def trim_left_def split: if_splits)
qed

text \<open>The command line reads a reference the way the daemon does: on a reference without space around it,
  and on a browser's URL without escapes or a query, when it finds an owner, a repository and a
  branch the daemon finds the same ones and the same path, and the Hivefile is fetched from the URL the
  daemon would fetch a file of that name from.\<close>

theorem reference_copies_agree:
  assumes "trim_space s = s" "split_remote_ref s = Inr (owner, repo, path, gitref)"
    and "owner \<noteq> []" "repo \<noteq> []" "gitref \<noteq> []"
    and "has_prefix s ''https://github.com/'' \<or> has_prefix s ''http://github.com/'' \<Longrightarrow> plain_url s"
  shows "parse_remote_ref s = Inr \<lparr>rr_host = ''github.com'', rr_owner = owner, rr_repo = repo, rr_path = path, rr_ref = gitref\<rparr> \<and>
    hivefile_raw_url s =
      Inr (raw_url \<lparr>rr_host = ''github.com'', rr_owner = owner, rr_repo = repo, rr_path = path, rr_ref = gitref\<rparr> ''Hivefile.yaml'')"
proof
  show "parse_remote_ref s = Inr \<lparr>rr_host = ''github.com'', rr_owner = owner, rr_repo = repo, rr_path = path, rr_ref = gitref\<rparr>"
    using assms split_scheme_agrees split_short_agrees split_https_agrees
    by (auto simp: split_remote_ref_def parse_remote_ref_def Let_def split: if_splits)
qed (simp add: hivefile_raw_url_def assms(2) raw_url_def Let_def trim_left_def)

theorem reference_copies_agree_witness:
  "parse_remote_ref ''hive/team#kit@v2'' =
     Inr \<lparr>rr_host = ''github.com'', rr_owner = ''hive'', rr_repo = ''team'', rr_path = ''kit'', rr_ref = ''v2''\<rparr>"
proof -
  have "trim_space ''hive/team#kit@v2'' = ''hive/team#kit@v2''" by code_simp
  moreover have "split_remote_ref ''hive/team#kit@v2'' = Inr (''hive'', ''team'', ''kit'', ''v2'')" by code_simp
  moreover have "\<not> (has_prefix ''hive/team#kit@v2'' ''https://github.com/'' \<or> has_prefix ''hive/team#kit@v2'' ''http://github.com/'')"
    by code_simp
  ultimately show ?thesis using reference_copies_agree[of "''hive/team#kit@v2''" "''hive''" "''team''" "''kit''" "''v2''"] by blast
qed

subsection \<open>Out of step\<close>

text \<open>Nothing after the \<open>@\<close> is the default branch for the daemon and an empty one here, so the URL has an empty segment.\<close>

lemma empty_branch_differs:
  "hivefile_raw_url ''a/b#p@'' = Inr ''https://raw.githubusercontent.com/a/b//p/Hivefile.yaml''"
  "map_sum id rr_ref (parse_remote_ref ''a/b#p@'') = Inr ''main''"
  by code_simp+

text \<open>A space before the reference: the daemon trims it, the command line takes the reference for a local one.\<close>

lemma leading_space_differs: "looks_remote '' github://a/b'' \<and> \<not> looks_remote_ref '' github://a/b''"
  by code_simp

text \<open>A query is part of the repository's name here, and is dropped by the daemon.\<close>

lemma query_differs:
  "hivefile_raw_url ''https://github.com/a/b?x'' = Inr ''https://raw.githubusercontent.com/a/b?x/main/Hivefile.yaml''"
  "map_sum id rr_repo (parse_remote_ref ''https://github.com/a/b?x'') = Inr ''b''"
  by code_simp+

text \<open>A local file called like a short form, its directory with a sharp in the name, cannot be hired from.\<close>

lemma sharp_path_is_remote: "looks_remote_ref ''./teams/c#/Hivefile.yaml''"
  by code_simp

end
