(* ===== verification/Cmd_Hire.thy ===== *)
theory Cmd_Hire
  imports Ipc_Daemon Cmd_Remote
begin

section \<open>hive hire (cmd/hive/room.go, hire_prompt.go, pull.go)\<close>

text \<open>
  The two shapes of \<^verbatim>\<open>hive hire\<close>: one agent, its options from flags or from prompts, and all agents of a
  Hivefile. A command is a function of the world it calls the daemon in; it ends with what it wrote to
  standard output and its exit code. Standard error is left out. The daemon is the argument
  \<open>ipc\<close>; as \<open>ipc_exchange\<close> shows, the results a command unmarshals are those of \<open>serve_ipc\<close>.
\<close>

type_synonym 'w ipc = "ipc_call \<Rightarrow> 'w \<Rightarrow> ipc_value res \<times> 'w"

record cmd_end =
  ce_out :: string
  ce_exit :: int

type_synonym 'w cmd = "'w \<Rightarrow> cmd_end \<times> 'w"

definition stop_with :: "int \<Rightarrow> 'w cmd" where
  "stop_with n s = (\<lparr>ce_out = [], ce_exit = n\<rparr>, s)"

definition finish :: "string \<Rightarrow> 'w cmd" where
  "finish out s = (\<lparr>ce_out = out, ce_exit = 0\<rparr>, s)"

definition line :: "string \<Rightarrow> string" where
  "line t = t @ [newline]"

subsection \<open>Values of flags\<close>

text \<open>\<^verbatim>\<open>SplitN(s, ":", n)\<close>.\<close>

fun split_colon :: "nat \<Rightarrow> string \<Rightarrow> string list" where
  "split_colon 0 s = []"
| "split_colon (Suc 0) s = [s]"
| "split_colon (Suc n) s =
     (case index_of CHR '':'' s of None \<Rightarrow> [s] | Some i \<Rightarrow> take i s # split_colon n (drop (Suc i) s))"

definition parse_volume_flag :: "string \<Rightarrow> volume_ref res" where
  "parse_volume_flag s =
     (let parts = split_colon 3 s in
      if length parts < 2 then Inl Plain
      else if length parts = 3 \<and> parts ! 2 \<noteq> ''ro'' \<and> parts ! 2 \<noteq> ''rw'' then Inl Plain
      else let mode = (if length parts = 3 then parts ! 2 else ''ro'') in
        if parts ! 0 = [] then Inl Plain
        else if length (parts ! 1) = 0 \<or> hd (parts ! 1) \<noteq> CHR ''/'' then Inl Plain
        else Inr \<lparr>vr_name = parts ! 0, vr_mode = mode, vr_mountpoint = parts ! 1\<rparr>)"

record hire_flags =
  hl_rank :: string
  hl_model :: string
  hl_quota :: string
  hl_volumes :: "volume_ref list"
  hl_no_prompt :: bool

definition no_flags :: hire_flags where
  "no_flags = \<lparr>hl_rank = [], hl_model = [], hl_quota = [], hl_volumes = [], hl_no_prompt = False\<rparr>"

definition is_file_flag :: "string \<Rightarrow> bool" where
  "is_file_flag a \<longleftrightarrow> a = ''-f'' \<or> a = ''--file''"

definition is_no_prompt :: "string \<Rightarrow> bool" where
  "is_no_prompt a \<longleftrightarrow> a = ''--no-prompt'' \<or> a = ''--non-interactive''"

definition is_room_flag :: "string \<Rightarrow> bool" where
  "is_room_flag a \<longleftrightarrow> a = ''--room''"

text \<open>A flag without its value, JSON that is not valid and a bad volume end the command; what is none of the
  flags is skipped.\<close>

fun parse_hire_flags :: "(string \<Rightarrow> bool) \<Rightarrow> string list \<Rightarrow> hire_flags \<Rightarrow> hire_flags option" where
  "parse_hire_flags json_valid [] f = Some f"
| "parse_hire_flags json_valid (a # rest) f =
     (if a = ''--rank'' then
        (case rest of [] \<Rightarrow> None | v # rest' \<Rightarrow> parse_hire_flags json_valid rest' (f\<lparr>hl_rank := v\<rparr>))
      else if a = ''--model'' then
        (case rest of [] \<Rightarrow> None | v # rest' \<Rightarrow> parse_hire_flags json_valid rest' (f\<lparr>hl_model := v\<rparr>))
      else if a = ''--quota'' then
        (case rest of
           [] \<Rightarrow> None
         | v # rest' \<Rightarrow> if json_valid v then parse_hire_flags json_valid rest' (f\<lparr>hl_quota := v\<rparr>) else None)
      else if a = ''--volume'' then
        (case rest of
           [] \<Rightarrow> None
         | v # rest' \<Rightarrow>
             (case parse_volume_flag v of
                Inl _ \<Rightarrow> None
              | Inr x \<Rightarrow> parse_hire_flags json_valid rest' (f\<lparr>hl_volumes := hl_volumes f @ [x]\<rparr>)))
      else if is_no_prompt a then parse_hire_flags json_valid rest (f\<lparr>hl_no_prompt := True\<rparr>)
      else parse_hire_flags json_valid rest f)"

subsection \<open>Prompts\<close>

text \<open>Standard input is its text, and whether reading past its end is a failure rather than the end of the
  file. A prompt reads one line, trimmed; the end of the file reads as a blank line.\<close>

definition prompt_line :: "bool \<Rightarrow> string \<Rightarrow> (string \<times> string) option" where
  "prompt_line fails inp =
     (case index_of newline inp of
        Some i \<Rightarrow> Some (trim_space (take (Suc i) inp), drop (Suc i) inp)
      | None \<Rightarrow> if fails then None else Some (trim_space inp, []))"

definition all_digits :: "string \<Rightarrow> bool" where
  "all_digits s \<longleftrightarrow> s \<noteq> [] \<and> list_all (\<lambda>c. CHR ''0'' \<le> c \<and> c \<le> CHR ''9'') s"

text \<open>\<^verbatim>\<open>strconv.Atoi\<close>.\<close>

definition atoi :: "string \<Rightarrow> int option" where
  "atoi s =
     (let neg = has_prefix s ''-''; ds = (if neg \<or> has_prefix s ''+'' then drop 1 s else s);
          n = (if neg then - int (read_nat ds) else int (read_nat ds))
      in if all_digits ds \<and> in_int64 n then Some n else None)"

definition rank_names :: "string list" where
  "rank_names = [''intern'', ''staff'', ''manager'', ''director'']"

text \<open>The answer to the tokens prompt: an integer when a model was given, else a model and an integer.\<close>

definition token_budget :: "string \<Rightarrow> string \<Rightarrow> (string \<times> int) list res" where
  "token_budget model ans =
     (if ans = [] then Inr []
      else if model \<noteq> [] then (case atoi ans of None \<Rightarrow> Inl Plain | Some n \<Rightarrow> Inr [(model, n)])
      else let parts = split_colon 2 ans in
        if length parts \<noteq> 2 then Inl Plain
        else case atoi (trim_space (parts ! 1)) of
            None \<Rightarrow> Inl Plain
          | Some n \<Rightarrow> Inr [(trim_space (parts ! 0), n)])"

definition http_budget :: "string \<Rightarrow> (string \<times> int) list res" where
  "http_budget ans =
     (if ans = [] then Inr [] else case atoi ans of None \<Rightarrow> Inl Plain | Some n \<Rightarrow> Inr [(''http'', n)])"

text \<open>The JSON of the override, empty maps left out; \<open>quote\<close> is the JSON string of a key.\<close>

definition int_map_json :: "(string \<Rightarrow> string) \<Rightarrow> (string \<times> int) list \<Rightarrow> string" where
  "int_map_json quote kvs = ''{'' @ join_with CHR '','' (map (\<lambda>(k, n). quote k @ '':'' @ show_int n) kvs) @ ''}''"

definition override_json :: "(string \<Rightarrow> string) \<Rightarrow> (string \<times> int) list \<Rightarrow> (string \<times> int) list \<Rightarrow> string" where
  "override_json quote tokens calls =
     ''{'' @ join_with CHR '',''
        ((if tokens \<noteq> [] then [quote ''tokens'' @ '':'' @ int_map_json quote tokens] else [])
         @ (if calls \<noteq> [] then [quote ''api_calls'' @ '':'' @ int_map_json quote calls] else [])) @ ''}''"

lemma prompt_line_shorter: "prompt_line fails inp = Some (l, rest) \<Longrightarrow> l \<noteq> [] \<Longrightarrow> length rest < length inp"
  by (cases inp) (auto simp: prompt_line_def trim_space_def trim_set_def trim_left_def trim_right_def split: option.splits if_splits)

text \<open>The last prompt repeats until a blank line; a volume that does not parse is asked for again.\<close>

function prompt_volumes :: "bool \<Rightarrow> string \<Rightarrow> volume_ref list option" where
  "prompt_volumes fails inp =
     (case prompt_line fails inp of
        None \<Rightarrow> None
      | Some (l, rest) \<Rightarrow>
          if l = [] then Some []
          else case parse_volume_flag l of
              Inl _ \<Rightarrow> prompt_volumes fails rest
            | Inr v \<Rightarrow> map_option (Cons v) (prompt_volumes fails rest))"
  by auto
termination by (relation "measure (length \<circ> snd)") (auto dest: prompt_line_shorter)

declare prompt_volumes.simps [simp del]

definition prompt_hire_overrides :: "(string \<Rightarrow> string) \<Rightarrow> bool \<Rightarrow> string \<Rightarrow> hire_flags option" where
  "prompt_hire_overrides quote fails inp =
     (case prompt_line fails inp of
        None \<Rightarrow> None
      | Some (rank, inp) \<Rightarrow>
          if rank \<noteq> [] \<and> rank \<notin> set rank_names then None
          else case prompt_line fails inp of
              None \<Rightarrow> None
            | Some (model, inp) \<Rightarrow>
                (case prompt_line fails inp of
                   None \<Rightarrow> None
                 | Some (ans, inp) \<Rightarrow>
                     (case token_budget model ans of
                        Inl _ \<Rightarrow> None
                      | Inr tokens \<Rightarrow>
                          (case prompt_line fails inp of
                             None \<Rightarrow> None
                           | Some (ans, inp) \<Rightarrow>
                               (case http_budget ans of
                                  Inl _ \<Rightarrow> None
                                | Inr calls \<Rightarrow>
                                    map_option
                                      (\<lambda>vs. \<lparr>hl_rank = rank, hl_model = model,
                                        hl_quota = (if tokens = [] \<and> calls = [] then [] else override_json quote tokens calls),
                                        hl_volumes = vs, hl_no_prompt = False\<rparr>)
                                      (prompt_volumes fails inp))))))"

subsection \<open>One agent\<close>

definition pull_if_remote :: "'w ipc \<Rightarrow> string \<Rightarrow> 'w \<Rightarrow> string res \<times> 'w" where
  "pull_if_remote ipc ref s =
     (if \<not> looks_remote_ref ref then (Inr ref, s)
      else case ipc (MethodImagePull ref) s of
          (Inl e, s) \<Rightarrow> (Inl e, s)
        | (Inr v, s) \<Rightarrow> (case v of ImageResult r _ \<Rightarrow> (Inr (ref_name r @ '':'' @ ref_version r), s) | _ \<Rightarrow> (Inl Plain, s)))"

definition no_member :: wire_member where
  "no_member = \<lparr>wm_name = [], wm_image = [], wm_rank = [], wm_state = [], wm_quota = []\<rparr>"

definition hire_one_agent :: "'w ipc \<Rightarrow> string \<Rightarrow> string \<Rightarrow> hire_flags \<Rightarrow> 'w \<Rightarrow> wire_member res \<times> 'w" where
  "hire_one_agent ipc rid ref_input f s =
     (case pull_if_remote ipc ref_input s of
        (Inl e, s) \<Rightarrow> (Inl e, s)
      | (Inr local_ref, s) \<Rightarrow>
          (case parse_image_ref local_ref of
             Inl e \<Rightarrow> (Inl e, s)
           | Inr ref \<Rightarrow>
               (case ipc (MethodAgentHire \<lparr>ah_room = rid, ah_image = ref, ah_rank = hl_rank f, ah_model = hl_model f,
                           ah_quota = hl_quota f, ah_volumes = hl_volumes f\<rparr>) s of
                  (Inl e, s) \<Rightarrow> (Inl e, s)
                | (Inr v, s) \<Rightarrow> (Inr (case v of AgentHireResult m \<Rightarrow> m | _ \<Rightarrow> no_member), s))))"

text \<open>What the command finds around it: the detailed help of a command, the JSON library, standard input, whether it is a terminal, and
  whether the daemon could be reached.\<close>

record cli_env =
  cl_help :: "string \<Rightarrow> string"
  cl_json_valid :: "string \<Rightarrow> bool"
  cl_quote :: "string \<Rightarrow> string"
  cl_stdin :: string
  cl_stdin_fails :: bool
  cl_tty :: bool
  cl_up :: bool

definition help_flag :: "string list \<Rightarrow> bool" where
  "help_flag args \<longleftrightarrow> length args > 0 \<and> (args ! 0 = ''-h'' \<or> args ! 0 = ''--help'')"

definition overridden :: "hire_flags \<Rightarrow> bool" where
  "overridden f \<longleftrightarrow> hl_no_prompt f \<or> hl_rank f \<noteq> [] \<or> hl_model f \<noteq> [] \<or> hl_quota f \<noteq> [] \<or> hl_volumes f \<noteq> []"

definition cmd_hire_one :: "cli_env \<Rightarrow> 'w ipc \<Rightarrow> string list \<Rightarrow> 'w cmd" where
  "cmd_hire_one e ipc args s =
     (case args of
        rid # ref_input # rest \<Rightarrow>
          (case parse_hire_flags (cl_json_valid e) rest no_flags of
             None \<Rightarrow> stop_with 2 s
           | Some f \<Rightarrow>
               (case (if \<not> overridden f \<and> cl_tty e
                      then prompt_hire_overrides (cl_quote e) (cl_stdin_fails e) (cl_stdin e) else Some f) of
                  None \<Rightarrow> stop_with 2 s
                | Some f \<Rightarrow>
                    if \<not> cl_up e then stop_with 1 s
                    else case hire_one_agent ipc rid ref_input f s of
                        (Inl _, s) \<Rightarrow> stop_with 1 s
                      | (Inr m, s) \<Rightarrow> finish (line (''hired '' @ wm_image m @ '' (rank='' @ wm_rank m @ '')'')) s))
      | _ \<Rightarrow> stop_with 2 s)"

subsection \<open>A Hivefile\<close>

text \<open>The source and the Room's name of \<^verbatim>\<open>hive hire -f\<close>; any argument it does not know ends it.\<close>

fun parse_file_flags :: "string list \<Rightarrow> string \<Rightarrow> string \<Rightarrow> (string \<times> string) option" where
  "parse_file_flags [] src room = (if src = [] then None else Some (src, room))"
| "parse_file_flags (a # rest) src room =
     (if is_file_flag a then
        (case rest of [] \<Rightarrow> None | v # rest' \<Rightarrow> if src \<noteq> [] then None else parse_file_flags rest' v room)
      else if is_room_flag a then
        (case rest of [] \<Rightarrow> None | v # rest' \<Rightarrow> if v = [] then None else parse_file_flags rest' src v)
      else if is_no_prompt a then parse_file_flags rest src room
      else None)"

definition entry_flags :: "agent_entry \<Rightarrow> string \<Rightarrow> hire_flags" where
  "entry_flags a quota =
     \<lparr>hl_rank = ae_rank a, hl_model = ae_model a, hl_quota = quota,
      hl_volumes = map (\<lambda>v. \<lparr>vr_name = vm_name v, vr_mode = vm_mode v, vr_mountpoint = vm_mountpoint v\<rparr>) (ae_volumes a),
      hl_no_prompt = False\<rparr>"

fun hire_all :: "'w ipc \<Rightarrow> string \<Rightarrow> agent_entry list \<Rightarrow> 'w \<Rightarrow> bool \<times> 'w" where
  "hire_all ipc rid [] s = (True, s)"
| "hire_all ipc rid (a # as') s =
     (case ae_quota a of
        None \<Rightarrow> (False, s)
      | Some quota \<Rightarrow>
          (case hire_one_agent ipc rid (ae_image a) (entry_flags a quota) s of
             (Inl _, s) \<Rightarrow> (False, s)
           | (Inr _, s) \<Rightarrow> hire_all ipc rid as' s))"

text \<open>\<open>load\<close> gives the Hivefile the source names, fetched to a temporary file first when it is remote.\<close>

definition cmd_hire_file :: "cli_env \<Rightarrow> 'w ipc \<Rightarrow> (string \<Rightarrow> hivefile res) \<Rightarrow> string list \<Rightarrow> 'w cmd" where
  "cmd_hire_file e ipc load args s =
     (case parse_file_flags args [] [] of
        None \<Rightarrow> stop_with 2 s
      | Some (src, room) \<Rightarrow>
          (case load src of
             Inl _ \<Rightarrow> stop_with 1 s
           | Inr hf \<Rightarrow>
               if \<not> cl_up e then stop_with 1 s
               else case ipc (MethodRoomInit (if room \<noteq> [] then room else hf_room hf)) s of
                   (Inl _, s) \<Rightarrow> stop_with 1 s
                 | (Inr v, s) \<Rightarrow>
                     (let rid = (case v of RoomInitResult r _ \<Rightarrow> r | _ \<Rightarrow> []) in
                      case hire_all ipc rid (hf_agents hf) s of
                        (False, s) \<Rightarrow> stop_with 1 s
                      | (True, s) \<Rightarrow> finish (line rid) s)))"

definition load_source :: "fetcher \<Rightarrow> bool \<Rightarrow> string \<Rightarrow> (string \<Rightarrow> hivefile option) \<Rightarrow> string disk \<Rightarrow> string \<Rightarrow> hivefile res" where
  "load_source get tmp_ok tmp yaml d src =
     (if looks_remote_ref src then
        (case fetch_hivefile get tmp_ok tmp src d of
           (Inl x, _) \<Rightarrow> Inl x
         | (Inr path, d) \<Rightarrow> load_hivefile yaml path d)
      else load_hivefile yaml src d)"

definition cmd_hire :: "cli_env \<Rightarrow> 'w ipc \<Rightarrow> (string \<Rightarrow> hivefile res) \<Rightarrow> string list \<Rightarrow> 'w cmd" where
  "cmd_hire e ipc load args s =
     (if help_flag args then finish (cl_help e ''hire'') s
      else if list_ex is_file_flag args then cmd_hire_file e ipc load args s
      else cmd_hire_one e ipc args s)"

subsection \<open>The volume flag\<close>

lemma split_colon_3:
  "CHR '':'' \<notin> set a \<Longrightarrow> split_colon 3 a = [a]"
  "CHR '':'' \<notin> set a \<Longrightarrow> CHR '':'' \<notin> set b \<Longrightarrow> split_colon 3 (a @ CHR '':'' # b) = [a, b]"
  "CHR '':'' \<notin> set a \<Longrightarrow> CHR '':'' \<notin> set b \<Longrightarrow> split_colon 3 (a @ CHR '':'' # b @ CHR '':'' # c) = [a, b, c]"
  by (simp_all add: numeral_3_eq_3 index_of_None[THEN iffD2] index_of_append)

lemma colon_cases:
  obtains "CHR '':'' \<notin> set s"
  | a b where "s = a @ CHR '':'' # b" "CHR '':'' \<notin> set a" "CHR '':'' \<notin> set b"
  | a b c where "s = a @ CHR '':'' # b @ CHR '':'' # c" "CHR '':'' \<notin> set a" "CHR '':'' \<notin> set b"
  by (metis split_list_first)

definition abs_mountpoint :: "string \<Rightarrow> bool" where
  "abs_mountpoint p \<longleftrightarrow> p \<noteq> [] \<and> hd p = CHR ''/''"

text \<open>What \<^verbatim>\<open>--volume\<close> accepts: a name, a colon and an absolute mountpoint, which is read-only, or those
  and a colon and the mode, ro or rw; name and mountpoint have no colon. Nothing else is accepted.\<close>

theorem volume_flag_shape:
  "parse_volume_flag s = Inr v \<longleftrightarrow>
     vr_name v \<noteq> [] \<and> CHR '':'' \<notin> set (vr_name v) \<and> abs_mountpoint (vr_mountpoint v) \<and> CHR '':'' \<notin> set (vr_mountpoint v) \<and>
     (s = vr_name v @ CHR '':'' # vr_mountpoint v \<and> vr_mode v = ''ro''
      \<or> s = vr_name v @ CHR '':'' # vr_mountpoint v @ CHR '':'' # vr_mode v \<and> vr_mode v \<in> {''ro'', ''rw''})"
  (is "?l \<longleftrightarrow> ?r")
proof
  assume ?l
  then show ?r
    by (cases s rule: colon_cases)
       (auto simp: parse_volume_flag_def split_colon_3 Let_def abs_mountpoint_def split: if_splits)
next
  assume ?r
  then show ?l
    by (cases v) (auto simp: parse_volume_flag_def split_colon_3 Let_def abs_mountpoint_def)
qed

subsection \<open>What goes unnoticed\<close>

text \<open>An option that is misspelt is skipped, and so is its value, unless the value is an option.\<close>

lemma misspelt_option_skipped: "parse_hire_flags jv [''--qouta'', ''{}''] f = Some f"
  by (simp add: is_no_prompt_def)

text \<open>\<^verbatim>\<open>-f\<close> is looked for anywhere, also as the value of another option.\<close>

lemma value_taken_for_file:
  "cmd_hire e ipc load [''r1'', ''critic:1'', ''--model'', ''-f''] s = cmd_hire_file e ipc load [''r1'', ''critic:1'', ''--model'', ''-f''] s"
  by (simp add: cmd_hire_def help_flag_def is_file_flag_def)

text \<open>The entry point of a Hivefile is checked and then not used.\<close>

lemma entry_not_sent:
  assumes "load src = Inr hf" "load' src = Inr (hf\<lparr>hf_entry := x\<rparr>)" "parse_file_flags args [] [] = Some (src, room)"
  shows "cmd_hire_file e ipc load args s = cmd_hire_file e ipc load' args s"
proof -
  have "hf_agents (hf\<lparr>hf_entry := x\<rparr>) = hf_agents hf" "hf_room (hf\<lparr>hf_entry := x\<rparr>) = hf_room hf" by simp_all
  with assms show ?thesis unfolding cmd_hire_file_def by (simp only: option.case prod.case sum.case)
qed

text \<open>At the end of standard input every remaining prompt keeps its default.\<close>

lemma prompts_at_eof: "prompt_hire_overrides quote False [] = Some no_flags"
  by (simp add: prompt_hire_overrides_def prompt_line_def token_budget_def http_budget_def prompt_volumes.simps no_flags_def
      trim_space_def trim_set_def trim_left_def trim_right_def)

lemma prompted_volumes_ok: "prompt_volumes fails inp = Some vs \<Longrightarrow> v \<in> set vs \<Longrightarrow> \<exists>l. parse_volume_flag l = Inr v"
proof (induction fails inp arbitrary: vs rule: prompt_volumes.induct)
  case (1 fails inp)
  then show ?case
    by (subst (asm) (3) prompt_volumes.simps) (fastforce split: option.splits if_splits sum.splits)
qed

subsection \<open>A Hivefile hired by the daemon\<close>

text \<open>The member a Hivefile's entry asks for, on the images and ranks the daemon had.\<close>

definition hired_as :: "ienv \<Rightarrow> hdaemon \<Rightarrow> agent_entry \<Rightarrow> hmember \<Rightarrow> bool" where
  "hired_as e d a m \<longleftrightarrow>
     (\<exists>ref img quota. parse_image_ref (ae_image a) = Inr ref \<and> hd_images d ref = Inr img \<and> ae_quota a = Some quota
        \<and> hm_name m = mf_name (img_manifest img) \<and> hm_image m = image_ref_of img \<and> hm_model m = ae_model a
        \<and> get_rank (hd_ranks d) (if ae_rank a = [] then mf_rank (img_manifest img) else ae_rank a) = Inr (hm_rank m)
        \<and> list_all (has_capability (hm_rank m)) (cap_requires (mf_caps (img_manifest img)))
        \<and> hm_quota m = (case quota_raw_of (ie_quota_json e) quota of QuotaJson q \<Rightarrow> Some q | _ \<Rightarrow> None)
        \<and> hm_volumes m = hl_volumes (entry_flags a quota) \<and> hm_parent m = [])"

definition same_lookups :: "hdaemon \<Rightarrow> hdaemon \<Rightarrow> bool" where
  "same_lookups d d' \<longleftrightarrow> hd_images d' = hd_images d \<and> hd_ranks d' = hd_ranks d"

lemma same_lookups_refl [simp]: "same_lookups d d"
  by (simp add: same_lookups_def)

lemma hired_as_lookups: "same_lookups d d' \<Longrightarrow> hired_as e d' a m = hired_as e d a m"
  by (simp add: same_lookups_def hired_as_def)

lemma persist_lookups [simp]: "same_lookups d (persist_room sp rid d')  = same_lookups d d'"
  by (simp add: same_lookups_def persist_room_def split: option.split)

lemma hire_lookups: "hire_from_config sp rid cfg d = (x, d') \<Longrightarrow> same_lookups d d'"
  by (auto simp: hire_from_config_def room_hire_def Let_def same_lookups_def split: sum.splits option.splits if_splits)

lemma member_for_fields:
  assumes "member_for sp rid cfg d = Inr m"
  shows "\<exists>img. hd_images d (hc_image cfg) = Inr img \<and> hm_image m = image_ref_of img \<and> hm_model m = hc_model cfg
     \<and> hm_volumes m = hc_volumes cfg"
  using assms by (auto simp: member_for_def Let_def split: sum.splits if_splits) (erule prepare_ref)+

text \<open>One hire of a local image: the Room gains that member at the end, or nothing happens to any Room.\<close>

lemma agent_hire_effect:
  assumes "handle_agent_hire sp (Some (rid, cfg)) d = (x, d')" "hc_parent cfg = []" "hc_name cfg = []"
  shows "same_lookups d d' \<and>
    (case x of
       Inl _ \<Rightarrow> hd_rooms d' = hd_rooms d
     | Inr m \<Rightarrow> member_for sp rid cfg d = Inr m \<and>
         (\<exists>r. hd_rooms d rid = Some r \<and> hm_name m \<notin> fst ` set (hr_members r) \<and>
              hd_rooms d' = (hd_rooms d)(rid \<mapsto> r\<lparr>hr_members := hr_members r @ [(hm_name m, m)]\<rparr>)))"
proof (cases "hd_rooms d rid")
  case None
  with assms show ?thesis by (auto simp: handle_agent_hire_def)
next
  case (Some r)
  obtain y d1 where h: "hire_from_config sp rid cfg d = (y, d1)" by fastforce
  have cfg: "cfg\<lparr>hc_parent := [], hc_name := []\<rparr> = cfg" using assms(2,3) by simp
  show ?thesis
  proof (cases y)
    case (Inl err)
    with Some h cfg assms(1) hire_lookups[OF h] hire_frame[OF h] show ?thesis by (auto simp: handle_agent_hire_def)
  next
    case (Inr m)
    with h have ok: "hire_from_config sp rid cfg d = (Inr m, d1)" by simp
    have "x = Inr m \<and> d' = persist_room sp rid d1" using Some ok cfg assms(1) by (simp add: handle_agent_hire_def)
    with hire_from_config_ok[OF ok] hire_lookups[OF h] show ?thesis by auto
  qed
qed

lemma map_sum_Inl: "map_sum id f x = Inl v \<longleftrightarrow> x = Inl v"
  by (cases x) auto

abbreviation core :: "hserver \<Rightarrow> hdaemon" where
  "core s \<equiv> rd_core (hv_rooms s)"

lemma hire_one_effect:
  assumes "hire_one_agent (serve_ipc e) rid (ae_image a) (entry_flags a quota) s = (x, s')"
    and "\<not> looks_remote_ref (ae_image a)" "ae_quota a = Some quota"
  shows "same_lookups (core s) (core s') \<and>
    (case x of
       Inl _ \<Rightarrow> hd_rooms (core s') = hd_rooms (core s)
     | Inr _ \<Rightarrow> (\<exists>m r. hired_as e (core s) a m \<and> hd_rooms (core s) rid = Some r \<and> hm_name m \<notin> fst ` set (hr_members r)
         \<and> hd_rooms (core s') = (hd_rooms (core s))(rid \<mapsto> r\<lparr>hr_members := hr_members r @ [(hm_name m, m)]\<rparr>)))"
proof (cases "parse_image_ref (ae_image a)")
  case (Inl err)
  with assms show ?thesis by (auto simp: hire_one_agent_def pull_if_remote_def)
next
  case (Inr ref)
  let ?p = "\<lparr>ah_room = rid, ah_image = ref, ah_rank = ae_rank a, ah_model = ae_model a, ah_quota = quota,
      ah_volumes = hl_volumes (entry_flags a quota)\<rparr>"
  let ?cfg = "config_of_params (ie_quota_json e) ?p"
  obtain y d where h: "handle_agent_hire (re_spawn (ie_base e)) (Some (rid, ?cfg)) (core s) = (y, d)" by fastforce
  with assms Inr have s': "core s' = d" and x: "(\<exists>err. x = Inl err) = (\<exists>err. y = Inl err)"
    by (auto simp: hire_one_agent_def pull_if_remote_def entry_flags_def on_rooms_def map_sum_Inl map_sum_Inr split: sum.splits prod.splits)
  have eff: "same_lookups (core s) d \<and> (case y of
       Inl _ \<Rightarrow> hd_rooms d = hd_rooms (core s)
     | Inr m \<Rightarrow> member_for (re_spawn (ie_base e)) rid ?cfg (core s) = Inr m \<and>
         (\<exists>r. hd_rooms (core s) rid = Some r \<and> hm_name m \<notin> fst ` set (hr_members r) \<and>
              hd_rooms d = (hd_rooms (core s))(rid \<mapsto> r\<lparr>hr_members := hr_members r @ [(hm_name m, m)]\<rparr>)))"
    using agent_hire_effect[OF h] by (simp add: config_of_params_def)
  have "hired_as e (core s) a m" if "member_for (re_spawn (ie_base e)) rid ?cfg (core s) = Inr m" for m
    using member_for_ok[OF that] member_for_fields[OF that] Inr assms(3)
    by (auto simp: hired_as_def config_of_params_def)
  with eff s' x show ?thesis by (cases x; cases y) auto
qed

definition with_members :: "hroom \<Rightarrow> hmember list \<Rightarrow> hroom" where
  "with_members r ms = r\<lparr>hr_members := hr_members r @ map (\<lambda>m. (hm_name m, m)) ms\<rparr>"

lemma hire_all_effect:
  assumes "hire_all (serve_ipc e) rid as' s = (ok, s')" "\<forall>a \<in> set as'. \<not> looks_remote_ref (ae_image a)"
    and "hd_rooms (core s) rid = Some r"
  shows "\<exists>ms k. hd_rooms (core s') = (hd_rooms (core s))(rid \<mapsto> with_members r ms)
     \<and> list_all2 (hired_as e (core s)) (take k as') ms \<and> k \<le> length as' \<and> (ok \<longleftrightarrow> k = length as')"
  using assms
proof (induction as' arbitrary: s r)
  case Nil
  then show ?case by (auto simp: with_members_def fun_upd_idem intro!: exI[of _ "[]"])
next
  case (Cons a as')
  have stop: ?case if "hd_rooms (core s') = hd_rooms (core s)" "\<not> ok"
    using that Cons.prems(3) by (intro exI[of _ "[]"] exI[of _ 0]) (simp add: with_members_def fun_upd_idem)
  show ?case
  proof (cases "ae_quota a")
    case None
    with Cons.prems(1) stop show ?thesis by simp
  next
    case (Some quota)
    obtain x t where h: "hire_one_agent (serve_ipc e) rid (ae_image a) (entry_flags a quota) s = (x, t)" by fastforce
    from hire_one_effect[OF h] Cons.prems(2) Some
    have eff: "same_lookups (core s) (core t)" "case x of
       Inl _ \<Rightarrow> hd_rooms (core t) = hd_rooms (core s)
     | Inr _ \<Rightarrow> (\<exists>m. hired_as e (core s) a m \<and> hd_rooms (core t) = (hd_rooms (core s))(rid \<mapsto> with_members r [m]))"
      using Cons.prems(3) by (auto simp: with_members_def split: sum.splits)
    show ?thesis
    proof (cases x)
      case (Inl err)
      with Cons.prems(1) Some h eff stop show ?thesis by simp
    next
      case (Inr w)
      with eff(2) obtain m where m: "hired_as e (core s) a m" "hd_rooms (core t) = (hd_rooms (core s))(rid \<mapsto> with_members r [m])"
        by auto
      from Inr Cons.prems(1) Some h have "hire_all (serve_ipc e) rid as' t = (ok, s')" by simp
      moreover have "\<forall>a \<in> set as'. \<not> looks_remote_ref (ae_image a)" using Cons.prems(2) by simp
      moreover have "hd_rooms (core t) rid = Some (with_members r [m])" using m(2) by simp
      ultimately obtain ms k where ms: "hd_rooms (core s') = (hd_rooms (core t))(rid \<mapsto> with_members (with_members r [m]) ms)"
          "list_all2 (hired_as e (core t)) (take k as') ms" "k \<le> length as'" "ok \<longleftrightarrow> k = length as'"
        using Cons.IH by blast
      have "hired_as e (core t) = hired_as e (core s)" using hired_as_lookups[OF eff(1)] by (simp add: fun_eq_iff)
      with ms m show ?thesis
        by (intro exI[of _ "m # ms"] exI[of _ "Suc k"]) (simp add: with_members_def)
    qed
  qed
qed

lemma init_effect:
  assumes "serve_ipc e (MethodRoomInit nm) s = (Inr v, s')"
  shows "\<exists>rootfs. v = RoomInitResult (room_id nm (sp_now (re_spawn (ie_base e)))) rootfs
    \<and> hd_rooms (core s') = (hd_rooms (core s))(room_id nm (sp_now (re_spawn (ie_base e))) \<mapsto> fresh_room nm)
    \<and> same_lookups (core s) (core s')"
  using assms
  by (auto simp: on_rooms_def map_sum_Inr handle_room_init_def create_room_def Let_def same_lookups_def persist_room_def
      split: if_splits option.splits)


text \<open>A Hivefile with one critic, and a daemon that has its image.\<close>

definition team_file :: hivefile where
  "team_file = \<lparr>hf_room = ''a'', hf_agents = [\<lparr>ae_image = ''critic:1'', ae_rank = [], ae_model = [], ae_quota = Some [], ae_volumes = []\<rparr>],
     hf_entry = []\<rparr>"

definition ienv_a :: ienv where
  "ienv_a = \<lparr>ie_base = renv_a, ie_yaml = (\<lambda>_. None), ie_store = io_ok, ie_fetch = (\<lambda>_. None), ie_stage_ok = (\<lambda>_. True),
     ie_stage = ''/tmp'', ie_cwd = ''/'', ie_images = None, ie_mk = True, ie_quota_json = (\<lambda>_. None), ie_room_dir = False,
     ie_logs_missing = True, ie_logs = None, ie_read_error = [], ie_sink = 0, ie_task = RunFailed, ie_time = (\<lambda>_. []),
     ie_conv_json = (\<lambda>_. []), ie_version = ''dev''\<rparr>"

definition cli_a :: cli_env where
  "cli_a = \<lparr>cl_help = (\<lambda>_. []), cl_json_valid = (\<lambda>_. True), cl_quote = (\<lambda>k. k), cl_stdin = [], cl_stdin_fails = False, cl_tty = False,
     cl_up = True\<rparr>"

definition hserver_a :: hserver where
  "hserver_a = \<lparr>hv_rooms = boot, hv_convs = cdaemon_p\<rparr>"

lemma critic_local: "\<not> looks_remote_ref ''critic:1''"
  by code_simp

lemma member_critic_alone:
  assumes "hd_images d critic_ref = Inr critic_image" "hd_ranks d = default_registry"
  shows "\<exists>m. member_for spawn_a rid \<lparr>hc_image = critic_ref, hc_rank = [], hc_model = [], hc_quota = NoQuota, hc_volumes = [],
      hc_parent = [], hc_name = []\<rparr> d = Inr m \<and> hm_rank m = staff \<and> hm_name m = ''critic''"
proof -
  have "has_capability staff ''llm''" by (simp add: has_capability_def capabilities_def staff_def)
  moreover have "prepare_image_by_kind spawn_a critic_image [] = Inr (critic_image, [])"
    by (simp add: prepare_image_by_kind_def critic_image_def)
  moreover have "mf_name (img_manifest critic_image) = ''critic''" "mf_rank (img_manifest critic_image) = ''staff''"
    "cap_requires (mf_caps (img_manifest critic_image)) = [''llm'']" by (simp_all add: critic_image_def)
  ultimately show ?thesis using assms by (simp add: member_for_def staff_rank)
qed

lemma hire_critic_alone:
  assumes "hd_images (core s) critic_ref = Inr critic_image" "hd_ranks (core s) = default_registry"
    and "hd_rooms (core s) rid = Some (fresh_room nm)"
  shows "\<exists>w t. hire_one_agent (serve_ipc ienv_a) rid ''critic:1'' (entry_flags (hd (hf_agents team_file)) []) s = (Inr w, t)"
proof -
  let ?cfg = "\<lparr>hc_image = critic_ref, hc_rank = [], hc_model = [], hc_quota = NoQuota, hc_volumes = [], hc_parent = [], hc_name = []\<rparr>"
  obtain m where m: "member_for spawn_a rid ?cfg (core s) = Inr m" using member_critic_alone[OF assms(1,2)] by blast
  have "spawn_ok spawn_a" by (simp add: spawn_ok_def spawn_a_def)
  then have "\<exists>d. handle_agent_hire spawn_a (Some (rid, ?cfg)) (core s) = (Inr m, d)"
    using m assms(3) by (simp add: handle_agent_hire_def hire_from_config_def room_hire_ok fresh_room_def)
  then show ?thesis
    by (auto simp: hire_one_agent_def pull_if_remote_def critic_local parse_critic entry_flags_def team_file_def config_of_params_def
        quota_raw_of_def ienv_a_def renv_a_def on_rooms_def)
qed


end
