(* ===== verification/Cmd_Line.thy ===== *)
theory Cmd_Line
  imports Cmd_Hire
begin

section \<open>The other commands (cmd/hive, internal/ipc/paths.go)\<close>

text \<open>
  Each command checks its arguments, calls the daemon and prints the result; an error of the daemon is
  exit code 1 and wrong usage 2. \<open>main\<close> dispatches on the first argument. What \<^verbatim>\<open>hive update\<close> runs is kept
  as the list of the commands it started. Texts are bytes; the few characters that are not ASCII are
  written in UTF-8. Tables are those of a tab writer on cells without tabs or line ends.
\<close>

subsection \<open>Paths\<close>

record path_env =
  pe_socket :: string
  pe_xdg :: string
  pe_home :: "string option"
  pe_state :: string

definition home_dir :: "path_env \<Rightarrow> string" where
  "home_dir e = (case pe_home e of None \<Rightarrow> ''/tmp'' | Some h \<Rightarrow> h)"

definition socket_path :: "path_env \<Rightarrow> string" where
  "socket_path e =
     (if pe_socket e \<noteq> [] then pe_socket e
      else if pe_xdg e \<noteq> [] then join_path [pe_xdg e, ''hive'', ''hived.sock'']
      else join_path [home_dir e, ''.hive'', ''hived.sock''])"

definition state_root :: "path_env \<Rightarrow> string" where
  "state_root e = (if pe_state e \<noteq> [] then pe_state e else join_path [home_dir e, ''.hive''])"

definition images_dir :: "path_env \<Rightarrow> string" where "images_dir e = join_path [state_root e, ''images'']"
definition rooms_dir :: "path_env \<Rightarrow> string" where "rooms_dir e = join_path [state_root e, ''rooms'']"
definition volumes_dir :: "path_env \<Rightarrow> string" where "volumes_dir e = join_path [state_root e, ''volumes'']"

definition ipc_workspace_dir :: "path_env \<Rightarrow> string \<Rightarrow> string" where
  "ipc_workspace_dir e rid = join_path [rooms_dir e, rid, ''workspace'']"

subsection \<open>Reaching the daemon\<close>

text \<open>A dial ends with a client or an error; of an error what matters is what it wraps.\<close>

datatype dial_error = ConnRefused | NotExist | Errno bool | OtherError

definition is_daemon_absent :: "dial_error \<Rightarrow> bool" where
  "is_daemon_absent err =
     (if err = ConnRefused \<or> err = NotExist then True
      else case err of Errno refused_or_noent \<Rightarrow> refused_or_noent | _ \<Rightarrow> False)"

text \<open>The binary next to the running one, else on the path. \<open>stat\<close> tells whether a path exists and is a
  directory.\<close>

definition locate_hived :: "string option \<Rightarrow> (string \<Rightarrow> bool option) \<Rightarrow> string option \<Rightarrow> string res" where
  "locate_hived exe stat on_path =
     (case exe of
        Some x \<Rightarrow>
          if stat (join_path [path_dir x, ''hived'']) = Some False then Inr (join_path [path_dir x, ''hived''])
          else (case on_path of Some p \<Rightarrow> Inr p | None \<Rightarrow> Inl Plain)
      | None \<Rightarrow> (case on_path of Some p \<Rightarrow> Inr p | None \<Rightarrow> Inl Plain))"

record spawn_env =
  se_exe :: "string option"
  se_stat :: "string \<Rightarrow> bool option"
  se_path :: "string option"
  se_mkdir :: bool
  se_log :: bool
  se_start :: bool

definition spawn_daemon :: "spawn_env \<Rightarrow> string res" where
  "spawn_daemon e =
     (case locate_hived (se_exe e) (se_stat e) (se_path e) of
        Inl err \<Rightarrow> Inl err
      | Inr hived \<Rightarrow>
          if \<not> se_mkdir e then Inl Plain else if \<not> se_log e then Inl Plain else if \<not> se_start e then Inl Plain else Inr hived)"

text \<open>\<open>first\<close> is the first dial, \<open>again\<close> the dials of the three seconds after the start. The result says
  whether there is a client; without one the command exits with 1.\<close>

definition must_dial :: "dial_error option \<Rightarrow> spawn_env \<Rightarrow> dial_error option list \<Rightarrow> bool" where
  "must_dial first e again =
     (case first of
        None \<Rightarrow> True
      | Some err \<Rightarrow>
          if \<not> is_daemon_absent err then False
          else case spawn_daemon e of Inl _ \<Rightarrow> False | Inr _ \<Rightarrow> list_ex (\<lambda>r. r = None) again)"

subsection \<open>Output\<close>

definition utf8_arrow :: string where "utf8_arrow = [CHR 0xE2, CHR 0x86, CHR 0x92]"
definition utf8_rule :: string where "utf8_rule = [CHR 0xE2, CHR 0x94, CHR 0x80]"
definition utf8_dash :: string where "utf8_dash = [CHR 0xE2, CHR 0x80, CHR 0x94]"

fun col_widths :: "string list list \<Rightarrow> nat list" where
  "col_widths [] = []"
| "col_widths [r] = map (\<lambda>c. length c + 2) r"
| "col_widths (r # rs) = map2 (\<lambda>c w. max (length c + 2) w) r (col_widths rs)"

fun pad_row :: "nat list \<Rightarrow> string list \<Rightarrow> string" where
  "pad_row (w # ws) (c # d # cs) = c @ replicate (w - length c) CHR '' '' @ pad_row ws (d # cs)"
| "pad_row ws [c] = c"
| "pad_row ws _ = []"

definition show_table :: "string list list \<Rightarrow> string" where
  "show_table rows = concat (map (\<lambda>r. line (pad_row (col_widths rows) r)) rows)"

text \<open>\<^verbatim>\<open>%v\<close> of a number that JSON decoding made a float: from seven digits on it has an exponent.\<close>

definition show_float :: "int \<Rightarrow> string" where
  "show_float n =
     (let ds = show_nat (nat (abs n)); sign = (if n < 0 then ''-'' else []);
          m = trim_right ds ''0''; ex = show_nat (length ds - 1)
      in if length ds < 7 then sign @ ds
         else sign @ take 1 m @ (if drop 1 m = [] then [] else CHR ''.'' # drop 1 m)
           @ ''e+'' @ (if length ex < 2 then CHR ''0'' # ex else ex))"

fun join_words :: "string list \<Rightarrow> string" where
  "join_words [] = []"
| "join_words [w] = w"
| "join_words (w # ws) = w @ CHR '' '' # join_words ws"

definition format_quota :: "(string \<times> int) list \<Rightarrow> string" where
  "format_quota q =
     (if length q = 0 then ''(unlimited)'' else join_words (map (\<lambda>(k, n). k @ ''='' @ show_float n) q))"

subsection \<open>Commands with one call\<close>

text \<open>A command that wants at least \<open>n\<close> arguments, makes one call and prints of its result.\<close>

definition one_call :: "cli_env \<Rightarrow> 'w ipc \<Rightarrow> ipc_call \<Rightarrow> (ipc_value \<Rightarrow> string) \<Rightarrow> 'w cmd" where
  "one_call e ipc c show s =
     (if \<not> cl_up e then stop_with 1 s
      else case ipc c s of (Inl _, s) \<Rightarrow> stop_with 1 s | (Inr v, s) \<Rightarrow> finish (show v) s)"

definition with_help :: "cli_env \<Rightarrow> string \<Rightarrow> string list \<Rightarrow> nat \<Rightarrow> 'w cmd \<Rightarrow> 'w cmd" where
  "with_help e nm args n body s =
     (if help_flag args then finish (cl_help e nm) s else if length args < n then stop_with 2 s else body s)"

definition image_text :: "image_ref \<Rightarrow> string" where
  "image_text r = ref_name r @ '':'' @ ref_version r"

definition cmd_init :: "cli_env \<Rightarrow> 'w ipc \<Rightarrow> string list \<Rightarrow> 'w cmd" where
  "cmd_init e ipc args =
     with_help e ''init'' args 1 (one_call e ipc (MethodRoomInit (args ! 0))
       (\<lambda>v. case v of RoomInitResult r _ \<Rightarrow> line r | _ \<Rightarrow> line []))"

definition cmd_rooms :: "cli_env \<Rightarrow> 'w ipc \<Rightarrow> string list \<Rightarrow> 'w cmd" where
  "cmd_rooms e ipc args =
     with_help e ''rooms'' args 0 (one_call e ipc MethodRoomList
       (\<lambda>v. case v of
          RoomListResult rs \<Rightarrow>
            if length rs = 0 then line ''(no rooms)''
            else show_table ([''ROOM_ID'', ''NAME'', ''STATE''] # map (\<lambda>r. [rr_id r, rr_name r, rr_state r]) rs)
        | _ \<Rightarrow> line ''(no rooms)''))"

definition cmd_stop :: "cli_env \<Rightarrow> 'w ipc \<Rightarrow> string list \<Rightarrow> 'w cmd" where
  "cmd_stop e ipc args =
     with_help e ''stop'' args 1 (one_call e ipc (MethodRoomStop (args ! 0)) (\<lambda>_. line ''stopped''))"

definition team_row :: "wire_member \<Rightarrow> string list" where
  "team_row m = [wm_image m, wm_rank m, wm_state m, format_quota (wm_quota m)]"

definition cmd_team :: "cli_env \<Rightarrow> 'w ipc \<Rightarrow> string list \<Rightarrow> 'w cmd" where
  "cmd_team e ipc args =
     with_help e ''team'' args 1 (one_call e ipc (MethodRoomTeam (args ! 0))
       (\<lambda>v. case v of
          RoomTeamResult _ ms \<Rightarrow>
            if length ms = 0 then line ''(no agents)''
            else show_table ([''AGENT'', ''RANK'', ''STATE'', ''QUOTA REMAINING'']
                   # map team_row ms)
        | _ \<Rightarrow> line ''(no agents)''))"

definition cmd_build :: "cli_env \<Rightarrow> 'w ipc \<Rightarrow> string list \<Rightarrow> 'w cmd" where
  "cmd_build e ipc args =
     with_help e ''build'' args 1 (one_call e ipc (MethodImageBuild (args ! 0))
       (\<lambda>v. case v of ImageResult r p \<Rightarrow> line (''built '' @ image_text r @ '' at '' @ p) | _ \<Rightarrow> line ''built : at ''))"

definition cmd_agents :: "cli_env \<Rightarrow> 'w ipc \<Rightarrow> string list \<Rightarrow> 'w cmd" where
  "cmd_agents e ipc args =
     with_help e ''agents'' args 0 (one_call e ipc MethodImageList
       (\<lambda>v. case v of
          ImageListResult rs \<Rightarrow>
            if length rs = 0 then line ''(no agents)'' else concat (map (\<lambda>r. line (''  '' @ image_text r)) rs)
        | _ \<Rightarrow> line ''(no agents)''))"

definition cmd_pull :: "cli_env \<Rightarrow> 'w ipc \<Rightarrow> string list \<Rightarrow> 'w cmd" where
  "cmd_pull e ipc args =
     with_help e ''pull'' args 1 (one_call e ipc (MethodImagePull (args ! 0))
       (\<lambda>v. case v of
          ImageResult r p \<Rightarrow> line (''pulled '' @ image_text r @ '' '' @ utf8_arrow @ '' '' @ p)
        | _ \<Rightarrow> line (''pulled : '' @ utf8_arrow @ '' '')))"

definition show_log :: "bool \<Rightarrow> log_entry \<Rightarrow> string" where
  "show_log multiple x =
     (if multiple then line (''==> '' @ le_agent x @ '' ('' @ le_path x @ '') <=='') else [])
       @ (let trimmed = trim_right (le_contents x) [newline] in line (if trimmed = [] then ''(empty)'' else trimmed))
       @ (if multiple then line [] else [])"

definition cmd_logs :: "cli_env \<Rightarrow> 'w ipc \<Rightarrow> string list \<Rightarrow> 'w cmd" where
  "cmd_logs e ipc args =
     with_help e ''logs'' args 1 (one_call e ipc (MethodRoomLogs (args ! 0) (if length args \<ge> 2 then args ! 1 else []))
       (\<lambda>v. case v of
          RoomLogsResult _ es \<Rightarrow>
            if length es = 0 then line ''(no logs)'' else concat (map (show_log (length es > 1)) es)
        | _ \<Rightarrow> line ''(no logs)''))"

definition cmd_volume_create :: "cli_env \<Rightarrow> 'w ipc \<Rightarrow> string list \<Rightarrow> 'w cmd" where
  "cmd_volume_create e ipc args s =
     (if length args < 1 then stop_with 2 s
      else one_call e ipc (MethodVolumeCreate (args ! 0))
        (\<lambda>v. case v of VolumeResult x \<Rightarrow> line (''created '' @ vol_name x @ '' at '' @ vol_path x) | _ \<Rightarrow> line ''created  at '') s)"

definition cmd_volume_list :: "cli_env \<Rightarrow> 'w ipc \<Rightarrow> string list \<Rightarrow> 'w cmd" where
  "cmd_volume_list e ipc args =
     one_call e ipc MethodVolumeList
       (\<lambda>v. case v of
          VolumeListResult vs \<Rightarrow>
            if length vs = 0 then line ''(no volumes)''
            else show_table ([''NAME'', ''PATH''] # map (\<lambda>x. [vol_name x, vol_path x]) vs)
        | _ \<Rightarrow> line ''(no volumes)'')"

definition cmd_volume_remove :: "cli_env \<Rightarrow> 'w ipc \<Rightarrow> string list \<Rightarrow> 'w cmd" where
  "cmd_volume_remove e ipc args s =
     (if length args < 1 then stop_with 2 s
      else one_call e ipc (MethodVolumeRemove (args ! 0)) (\<lambda>_. line ''removed'') s)"

definition cmd_volume :: "cli_env \<Rightarrow> 'w ipc \<Rightarrow> string list \<Rightarrow> 'w cmd" where
  "cmd_volume e ipc args =
     with_help e ''volume'' args 1 (\<lambda>s.
       if args ! 0 = ''create'' then cmd_volume_create e ipc (tl args) s
       else if args ! 0 = ''ls'' \<or> args ! 0 = ''list'' then cmd_volume_list e ipc (tl args) s
       else if args ! 0 = ''rm'' \<or> args ! 0 = ''remove'' then cmd_volume_remove e ipc (tl args) s
       else stop_with 2 s)"

definition cmd_ping :: "cli_env \<Rightarrow> 'w ipc \<Rightarrow> 'w cmd" where
  "cmd_ping e ipc s =
     (if \<not> cl_up e then stop_with 1 s
      else case ipc MethodDaemonPing s of
          (Inl _, s) \<Rightarrow> stop_with 1 s
        | (Inr v, s) \<Rightarrow>
            if v = PingResult True then finish (line ''pong'') s
            else (\<lparr>ce_out = line ''unhealthy'', ce_exit = 1\<rparr>, s))"

text \<open>The version asks a daemon that is there and never starts one: \<open>dialled\<close> is whether the dial worked.\<close>

definition cmd_version :: "bool \<Rightarrow> string \<Rightarrow> (string \<Rightarrow> string) \<Rightarrow> 'w ipc \<Rightarrow> 'w cmd" where
  "cmd_version dialled ver err_text ipc s =
     (let own = line (''hive  '' @ ver) in
      if \<not> dialled then finish (own @ line ''hived (offline)'') s
      else case ipc MethodDaemonVersion s of
          (Inl _, s) \<Rightarrow> finish (own @ line (''hived (error: '' @ err_text ''daemon/version'' @ '')'')) s
        | (Inr v, s) \<Rightarrow> finish (own @ line (''hived '' @ (case v of VersionResult x \<Rightarrow> x | _ \<Rightarrow> []))) s)"

subsection \<open>Running a task\<close>

record room_log_note =
  ln_room :: string
  ln_image :: string
  ln_level :: string
  ln_msg :: string
  ln_fields :: fields
  ln_time :: string

record room_status_note =
  sn_room :: string
  sn_event :: string
  sn_image :: string
  sn_info :: fields
  sn_time :: string

definition some_obj :: "string \<Rightarrow> fields \<Rightarrow> fields" where
  "some_obj k m = (if m \<noteq> [] then [(k, WObj m)] else [])"

definition enc_log_note :: "room_log_note \<Rightarrow> fields" where
  "enc_log_note n =
     [(''room_id'', WStr (ln_room n))] @ some_str ''image'' (ln_image n)
       @ [(''level'', WStr (ln_level n)), (''msg'', WStr (ln_msg n))] @ some_obj ''fields'' (ln_fields n)
       @ [(''time'', WStr (ln_time n))]"

definition enc_status_note :: "room_status_note \<Rightarrow> fields" where
  "enc_status_note n =
     [(''room_id'', WStr (sn_room n)), (''event'', WStr (sn_event n))] @ some_str ''image'' (sn_image n)
       @ some_obj ''info'' (sn_info n) @ [(''time'', WStr (sn_time n))]"

definition dec_log_note :: "fields \<Rightarrow> room_log_note option" where
  "dec_log_note m =
     (case (fld_str m ''room_id'', fld_str m ''image'', fld_str m ''level'', fld_str m ''msg'', fld_obj Some m ''fields'', fld_str m ''time'') of
        (Some r, Some i, Some l, Some t, Some f, Some w) \<Rightarrow>
          Some \<lparr>ln_room = r, ln_image = i, ln_level = l, ln_msg = t, ln_fields = f, ln_time = w\<rparr>
      | _ \<Rightarrow> None)"

definition dec_status_note :: "fields \<Rightarrow> room_status_note option" where
  "dec_status_note m =
     (case (fld_str m ''room_id'', fld_str m ''event'', fld_str m ''image'', fld_obj Some m ''info'', fld_str m ''time'') of
        (Some r, Some v, Some i, Some f, Some w) \<Rightarrow>
          Some \<lparr>sn_room = r, sn_event = v, sn_image = i, sn_info = f, sn_time = w\<rparr>
      | _ \<Rightarrow> None)"

lemma map_of_some_obj: "map_of (some_obj j x @ m) k = (if j = k \<and> x \<noteq> [] then Some (WObj x) else map_of m k)"
  by (simp add: some_obj_def del: map_of_append)

interpretation log_notes: codec enc_log_note dec_log_note
proof
  fix n
  have "fld_obj Some (enc_log_note n) ''fields'' = Some (ln_fields n)" "fld_str (enc_log_note n) ''image'' = Some (ln_image n)"
    by (simp_all add: enc_log_note_def fld_obj_def fld_defs map_of_opt map_of_some_obj del: map_of_append)
  then show "dec_log_note (enc_log_note n) = Some n"
    by (simp add: dec_log_note_def) (simp add: enc_log_note_def fld_defs map_of_opt map_of_some_obj del: map_of_append)
qed

interpretation status_notes: codec enc_status_note dec_status_note
proof
  fix n
  have "fld_obj Some (enc_status_note n) ''info'' = Some (sn_info n)" "fld_str (enc_status_note n) ''image'' = Some (sn_image n)"
    by (simp_all add: enc_status_note_def fld_obj_def fld_defs map_of_opt map_of_some_obj del: map_of_append)
  then show "dec_status_note (enc_status_note n) = Some n"
    by (simp add: dec_status_note_def) (simp add: enc_status_note_def fld_defs map_of_opt map_of_some_obj del: map_of_append)
qed

text \<open>The daemon's side: an agent's log line goes to the caller whose task runs in the Room, if any. \<open>now\<close> is
  the time as it is printed.\<close>

definition stream_log :: "string \<Rightarrow> string \<Rightarrow> string \<Rightarrow> string \<Rightarrow> string \<Rightarrow> fields \<Rightarrow> rdaemon \<Rightarrow> (nat \<times> string \<times> fields) option" where
  "stream_log now rid img level msg fs s =
     map_option (\<lambda>sink. (sink, ''room/log'', enc_log_note
       \<lparr>ln_room = rid, ln_image = img, ln_level = level, ln_msg = msg, ln_fields = fs, ln_time = now\<rparr>)) (stream_to rid s)"

definition stream_status :: "string \<Rightarrow> string \<Rightarrow> string \<Rightarrow> string \<Rightarrow> fields \<Rightarrow> rdaemon \<Rightarrow> (nat \<times> string \<times> fields) option" where
  "stream_status now rid event img info s =
     map_option (\<lambda>sink. (sink, ''room/status'', enc_status_note
       \<lparr>sn_room = rid, sn_event = event, sn_image = img, sn_info = info, sn_time = now\<rparr>)) (stream_to rid s)"

text \<open>The client's side. \<open>json\<close> prints the extra fields, when they have JSON.\<close>

definition to_upper :: "string \<Rightarrow> string" where
  "to_upper s = map (\<lambda>c. if CHR ''a'' \<le> c \<and> c \<le> CHR ''z'' then char_of (of_char c - 32 :: nat) else c) s"

definition print_log :: "(fields \<Rightarrow> string option) \<Rightarrow> room_log_note \<Rightarrow> string" where
  "print_log json n =
     (let level = (if to_upper (ln_level n) = [] then ''INFO'' else to_upper (ln_level n));
          text_line = ''['' @ level @ ''] '' @ ln_image n @ '': '' @ ln_msg n
      in line (if length (ln_fields n) > 0
               then (case json (ln_fields n) of Some b \<Rightarrow> text_line @ '' '' @ b | None \<Rightarrow> text_line) else text_line))"

definition print_status :: "room_status_note \<Rightarrow> string" where
  "print_status n =
     line (if sn_image n \<noteq> [] then ''[STATUS] '' @ sn_event n @ '' '' @ sn_image n else ''[STATUS] '' @ sn_event n)"

definition on_notify :: "(fields \<Rightarrow> string option) \<Rightarrow> string \<times> fields \<Rightarrow> string" where
  "on_notify json x =
     (if fst x = ''room/log'' then (case dec_log_note (snd x) of None \<Rightarrow> [] | Some n \<Rightarrow> print_log json n)
      else if fst x = ''room/status'' then (case dec_status_note (snd x) of None \<Rightarrow> [] | Some n \<Rightarrow> print_status n)
      else [])"

text \<open>The target and the task of the arguments; the last argument that is not an option is the task.\<close>

fun run_args :: "string list \<Rightarrow> string \<Rightarrow> string option \<Rightarrow> string \<times> string option" where
  "run_args [] target task = (target, task)"
| "run_args [a] target task = (target, Some a)"
| "run_args (a # b # rest) target task =
     (if a = ''--target'' then run_args rest b task else run_args (b # rest) target (Some a))"

definition task_json :: "cli_env \<Rightarrow> string option \<Rightarrow> string" where
  "task_json e task =
     (case task of
        None \<Rightarrow> ''null''
      | Some t \<Rightarrow> if cl_json_valid e t then t else cl_quote e t)"

text \<open>\<open>notes\<close> are the notifications that arrive before the answer.\<close>

definition cmd_run :: "cli_env \<Rightarrow> (fields \<Rightarrow> string option) \<Rightarrow> (string \<times> fields) list \<Rightarrow> 'w ipc \<Rightarrow> string list \<Rightarrow> 'w cmd" where
  "cmd_run e json notes ipc args =
     with_help e ''run'' args 1 (\<lambda>s.
       let (target, task) = run_args (tl args) [] None; streamed = concat (map (on_notify json) notes) in
       if \<not> cl_up e then stop_with 1 s
       else case ipc (MethodRoomRun (args ! 0) target (task_json e task)) s of
           (Inl _, s) \<Rightarrow> (\<lparr>ce_out = streamed, ce_exit = 1\<rparr>, s)
         | (Inr v, s) \<Rightarrow>
             finish (streamed @ line (utf8_rule @ utf8_rule)
               @ (case v of RoomRunResult out \<Rightarrow> if length out > 0 then line (''output: '' @ out) else line ''done (no output)''
                  | _ \<Rightarrow> line ''done (no output)'')) s)"

text \<open>Whatever the daemon streams for a Room is printed by the caller whose sink it goes to.\<close>

lemma streamed_is_printed:
  "stream_log now rid img level msg fs s = Some (k, x) \<Longrightarrow>
     on_notify json x = print_log json \<lparr>ln_room = rid, ln_image = img, ln_level = level, ln_msg = msg, ln_fields = fs, ln_time = now\<rparr>"
  "stream_status now rid event img info s = Some (k, y) \<Longrightarrow>
     on_notify json y = print_status \<lparr>sn_room = rid, sn_event = event, sn_image = img, sn_info = info, sn_time = now\<rparr>"
  by (auto simp: stream_log_def stream_status_def on_notify_def log_notes.dec_enc status_notes.dec_enc)

subsection \<open>The address of the page\<close>

definition http_addr_for_display :: "string \<Rightarrow> string \<Rightarrow> string" where
  "http_addr_for_display addr disabled =
     (if addr = [] \<and> disabled \<noteq> [] then []
      else let addr = (if addr = [] then ''127.0.0.1:8910'' else addr);
               addr = (if has_prefix addr '':'' then ''127.0.0.1'' @ addr else addr)
        in if has_prefix addr ''0.0.0.0:'' then ''127.0.0.1:'' @ trim_prefix addr ''0.0.0.0:'' else addr)"

definition ssh_tunnel_target :: "string \<Rightarrow> string option \<Rightarrow> string" where
  "ssh_tunnel_target user hostname =
     (let host = (case hostname of None \<Rightarrow> ''<this-host>'' | Some h \<Rightarrow> if h = [] then ''<this-host>'' else h)
      in if user = [] then host else user @ ''@'' @ host)"

definition port_from_addr :: "string \<Rightarrow> string" where
  "port_from_addr addr =
     (case last_index CHR '':'' addr of
        Some i \<Rightarrow> if i < length addr - 1 then drop (Suc i) addr else ''8910''
      | None \<Rightarrow> ''8910'')"

definition cmd_ui :: "cli_env \<Rightarrow> string \<Rightarrow> string \<Rightarrow> string \<Rightarrow> string \<Rightarrow> string option \<Rightarrow> string list \<Rightarrow> 'w cmd" where
  "cmd_ui e addr disabled ssh user hostname args s =
     (if help_flag args then finish (cl_help e ''ui'') s
      else let addr = http_addr_for_display addr disabled in
        if addr = [] then
          finish (line (''hive: HTTP UI is disabled (HIVE_HTTP_ADDR='' @ [CHR 0x22, CHR 0x22] @ '').'')
                  @ line ''      Unset HIVE_HTTP_ADDR (and HIVE_HTTP_ADDR_DISABLED) to enable.'') s
        else let url = ''http://'' @ addr; shown = line (''hive: UI at '' @ url) in
          if ssh = [] then finish shown s
          else let port = port_from_addr addr in
            finish (shown @ line (''      You'' @ [CHR 0x27] @ ''re on a remote host. From your local machine:'')
              @ line (''        ssh -L '' @ port @ '':localhost:'' @ port @ '' '' @ ssh_tunnel_target user hostname)
              @ line (''      Then open '' @ url @ '' in your browser.'')) s)"

subsection \<open>Dispatch\<close>

definition cmd_order :: "string list" where
  "cmd_order = [''version'', ''ping'', ''ui'', ''build'', ''agents'', ''pull'', ''volume'', ''init'', ''rooms'',
     ''hire'', ''team'', ''run'', ''stop'', ''logs'', ''update'', ''help'']"

definition dispatched :: "string list" where
  "dispatched = [''build'', ''agents'', ''init'', ''rooms'', ''stop'', ''team'', ''hire'', ''run'', ''pull'', ''logs'',
     ''volume'', ''update'', ''ui'']"

record cmd_help =
  ch_usage :: string
  ch_brief :: string
  ch_long :: string

definition print_top_help :: "(string \<rightharpoonup> cmd_help) \<Rightarrow> string" where
  "print_top_help reg =
     line (''hive '' @ utf8_dash @ '' Docker for Agents'') @ line [] @ line ''Usage:'' @ line ''  hive <command> [args...]'' @ line []
       @ line (''Run '' @ [CHR 0x27] @ ''hive help <command>'' @ [CHR 0x27] @ '' or '' @ [CHR 0x27] @ ''hive <command> --help''
               @ [CHR 0x27] @ '' for detailed help.'') @ line [] @ line ''Commands:''
       @ show_table (map (\<lambda>nm. [''  '' @ nm, case reg nm of Some h \<Rightarrow> ch_brief h | None \<Rightarrow> []]) cmd_order)"

definition print_command_help :: "(string \<rightharpoonup> cmd_help) \<Rightarrow> string \<Rightarrow> string option" where
  "print_command_help reg cmd =
     map_option (\<lambda>h.
       line (cmd @ '' '' @ utf8_dash @ '' '' @ ch_brief h) @ line [] @ line ''Usage:'' @ line (''  '' @ ch_usage h)
         @ (if ch_long h \<noteq> [] then line [] @ line ''Details:'' @ line (ch_long h) else [])) (reg cmd)"

definition maybe_handle_help_flag :: "(string \<rightharpoonup> cmd_help) \<Rightarrow> string \<Rightarrow> string list \<Rightarrow> string option" where
  "maybe_handle_help_flag reg cmd args =
     (if help_flag args then Some (case print_command_help reg cmd of Some t \<Rightarrow> t | None \<Rightarrow> []) else None)"

text \<open>\<open>run\<close> gives the function of each command, \<open>reg\<close> the help texts.\<close>

definition dispatch_cmd :: "(string \<Rightarrow> string list \<Rightarrow> 'w cmd) \<Rightarrow> string \<Rightarrow> string list \<Rightarrow> 'w \<Rightarrow> (cmd_end \<times> 'w) option" where
  "dispatch_cmd run cmd args s = (if cmd \<in> set dispatched then Some (run cmd args s) else None)"

definition hive_main :: "(string \<Rightarrow> string list \<Rightarrow> 'w cmd) \<Rightarrow> (string \<rightharpoonup> cmd_help) \<Rightarrow> string list \<Rightarrow> 'w cmd" where
  "hive_main run reg argv s =
     (case argv of
        [] \<Rightarrow> stop_with 2 s
      | cmd # args \<Rightarrow>
          if cmd = ''help'' then
            (if length args = 0 then finish (print_top_help reg) s
             else case print_command_help reg (args ! 0) of Some t \<Rightarrow> finish t s | None \<Rightarrow> stop_with 2 s)
          else if cmd = ''--help'' \<or> cmd = ''-h'' then finish (print_top_help reg) s
          else if cmd = ''version'' \<or> cmd = ''--version'' \<or> cmd = ''-v'' then
            (case maybe_handle_help_flag reg ''version'' args of Some t \<Rightarrow> finish t s | None \<Rightarrow> run ''version'' args s)
          else if cmd = ''ping'' then
            (case maybe_handle_help_flag reg ''ping'' args of Some t \<Rightarrow> finish t s | None \<Rightarrow> run ''ping'' args s)
          else case dispatch_cmd run cmd args s of None \<Rightarrow> stop_with 2 s | Some r \<Rightarrow> r)"

subsection \<open>hive update\<close>

record update_flags =
  uf_source :: string
  uf_ref :: string
  uf_check :: bool
  uf_force :: bool
  uf_prefix :: string

definition no_update_flags :: update_flags where
  "no_update_flags = \<lparr>uf_source = [], uf_ref = [], uf_check = False, uf_force = False, uf_prefix = []\<rparr>"

text \<open>An option with \<open>=\<close>, else nothing.\<close>

definition opt_value :: "string \<Rightarrow> string \<Rightarrow> string option" where
  "opt_value name a = (if has_prefix a (name @ ''='') then Some (trim_prefix a (name @ ''='')) else None)"

fun parse_update_flags :: "string list \<Rightarrow> update_flags \<Rightarrow> update_flags option" where
  "parse_update_flags [] f = Some f"
| "parse_update_flags (a # rest) f =
     (if a = ''--check'' then parse_update_flags rest (f\<lparr>uf_check := True\<rparr>)
      else if a = ''--force'' then parse_update_flags rest (f\<lparr>uf_force := True\<rparr>)
      else case (opt_value ''--source-dir'' a, opt_value ''--ref'' a, opt_value ''--prefix'' a, rest) of
          (Some v, _, _, _) \<Rightarrow> parse_update_flags rest (f\<lparr>uf_source := v\<rparr>)
        | (None, Some v, _, _) \<Rightarrow> parse_update_flags rest (f\<lparr>uf_ref := v\<rparr>)
        | (None, None, Some v, _) \<Rightarrow> parse_update_flags rest (f\<lparr>uf_prefix := v\<rparr>)
        | (None, None, None, []) \<Rightarrow> None
        | (None, None, None, v # rest') \<Rightarrow>
            if a = ''--source-dir'' then parse_update_flags rest' (f\<lparr>uf_source := v\<rparr>)
            else if a = ''--ref'' then parse_update_flags rest' (f\<lparr>uf_ref := v\<rparr>)
            else if a = ''--prefix'' then parse_update_flags rest' (f\<lparr>uf_prefix := v\<rparr>)
            else None)"

text \<open>\<open>stat\<close> tells whether a path exists; the record left by the installer is its source directory, when the
  file could be read and decoded.\<close>

record update_env =
  ue_cwd :: "string option"
  ue_stat :: "string \<Rightarrow> bool"
  ue_record :: "string option"
  ue_exe :: "string option"
  ue_runs :: "string list \<Rightarrow> bool"
  ue_captures :: "string list \<Rightarrow> string option"
  ue_new_head :: string
  ue_dials :: bool
  ue_version :: string

definition is_source_tree :: "(string \<Rightarrow> bool) \<Rightarrow> string \<Rightarrow> bool" where
  "is_source_tree stat dir \<longleftrightarrow>
     (if \<not> stat (join_path [dir, ''.git'']) then False
      else if \<not> stat (join_path [dir, ''Makefile'']) then False
      else if \<not> stat (join_path [dir, ''scripts'', ''install.sh'']) then False else True)"

fun walk_up :: "(string \<Rightarrow> bool) \<Rightarrow> nat \<Rightarrow> string \<Rightarrow> string option" where
  "walk_up stat 0 dir = None"
| "walk_up stat (Suc n) dir =
     (if is_source_tree stat dir then Some dir
      else if path_dir dir = dir then None else walk_up stat n (path_dir dir))"

definition resolve_source_dir :: "update_env \<Rightarrow> string \<Rightarrow> string res" where
  "resolve_source_dir e flag_val =
     (if flag_val \<noteq> [] then
        (if is_abs flag_val then Inr (clean flag_val)
         else case ue_cwd e of None \<Rightarrow> Inl Plain | Some wd \<Rightarrow> Inr (abs_from wd flag_val))
      else case (case ue_record e of Some d \<Rightarrow> if d \<noteq> [] \<and> ue_stat e d then Some d else None | None \<Rightarrow> None) of
          Some d \<Rightarrow> Inr d
        | None \<Rightarrow>
            (case ue_exe e of
               None \<Rightarrow> Inl Plain
             | Some exe \<Rightarrow> (case walk_up (ue_stat e) 16 (path_dir exe) of None \<Rightarrow> Inl Plain | Some d \<Rightarrow> Inr d)))"

text \<open>The command lines that change something, as they are started; the two that only read are not in the list.\<close>

definition git_checkout :: "string \<Rightarrow> string list" where "git_checkout ref = [''git'', ''checkout'', ref]"
definition git_fetch :: "string list" where "git_fetch = [''git'', ''fetch'', ''--quiet'']"
definition git_pull :: "string list" where "git_pull = [''git'', ''pull'', ''--ff-only'']"
definition make_build :: "string list" where "make_build = [''make'', ''build'']"
definition run_install :: "string \<Rightarrow> string list" where
  "run_install pfx = (if pfx \<noteq> [] then [''PREFIX='' @ pfx] else []) @ [''./scripts/install.sh'', ''--skip-build'']"

text \<open>The upstream of the branch, as git writes it.\<close>

definition upstream_ref :: string where "upstream_ref = CHR 0x40 # ''{u}''"

definition rev_parse :: "string \<Rightarrow> string list" where "rev_parse what = [''git'', ''rev-parse'', ''--short'', what]"

text \<open>Runs the commands in order until one fails.\<close>

fun run_all :: "(string list \<Rightarrow> bool) \<Rightarrow> string list list \<Rightarrow> bool \<times> string list list" where
  "run_all runs [] = (True, [])"
| "run_all runs (c # cs) = (if runs c then (let (ok, tr) = run_all runs cs in (ok, c # tr)) else (False, [c]))"

definition update_note :: "update_env \<Rightarrow> string" where
  "update_note e =
     (if ue_dials e then line [] @ line ''note: hived is still running the previous version. To pick up the update:''
        @ line ''        sudo killall hived && sudo hived &'' else [])"

definition cmd_update :: "cli_env \<Rightarrow> update_env \<Rightarrow> string list \<Rightarrow> cmd_end \<times> string list list" where
  "cmd_update c e args =
     (if help_flag args then (\<lparr>ce_out = cl_help c ''update'', ce_exit = 0\<rparr>, [])
      else case parse_update_flags args no_update_flags of
          None \<Rightarrow> (\<lparr>ce_out = [], ce_exit = 2\<rparr>, [])
        | Some f \<Rightarrow>
            (case resolve_source_dir e (uf_source f) of
               Inl _ \<Rightarrow> (\<lparr>ce_out = [], ce_exit = 1\<rparr>, [])
             | Inr src \<Rightarrow>
                 if \<not> is_source_tree (ue_stat e) src then (\<lparr>ce_out = [], ce_exit = 1\<rparr>, [])
                 else (let out = line (''source: '' @ src) @ line (''currently installed: '' @ ue_version e) in
                   case run_all (ue_runs e) ((if uf_ref f \<noteq> [] then [git_checkout (uf_ref f)] else []) @ [git_fetch]) of
                     (False, tr) \<Rightarrow> (\<lparr>ce_out = out, ce_exit = 1\<rparr>, tr)
                   | (True, tr) \<Rightarrow>
                       (case (ue_captures e (rev_parse ''HEAD''), ue_captures e (rev_parse upstream_ref)) of
                          (Some local_sha, Some upstream_sha) \<Rightarrow>
                            (let out = out @ line (''local:    '' @ local_sha) @ line (''upstream: '' @ upstream_sha) in
                             if uf_check f then
                               (\<lparr>ce_out = out @ (if local_sha = upstream_sha then line ''up to date.''
                                   else line (''update available '' @ utf8_dash @ '' run `hive update` to apply.'')), ce_exit = 0\<rparr>, tr)
                             else if local_sha = upstream_sha \<and> \<not> uf_force f
                               then (\<lparr>ce_out = out @ line ''already up to date.'', ce_exit = 0\<rparr>, tr)
                             else if local_sha \<noteq> upstream_sha \<and> \<not> ue_runs e git_pull
                               then (\<lparr>ce_out = out, ce_exit = 1\<rparr>, tr @ [git_pull])
                             else (let tr = tr @ (if local_sha \<noteq> upstream_sha then [git_pull] else []);
                                       out = out @ line (''building'' @ [CHR 0xE2, CHR 0x80, CHR 0xA6]) in
                               if \<not> ue_runs e make_build then (\<lparr>ce_out = out, ce_exit = 1\<rparr>, tr @ [make_build])
                               else (let out = out @ line (''installing'' @ [CHR 0xE2, CHR 0x80, CHR 0xA6]);
                                         tr = tr @ [make_build, run_install (uf_prefix f)] in
                                 if \<not> ue_runs e (run_install (uf_prefix f)) then (\<lparr>ce_out = out, ce_exit = 1\<rparr>, tr)
                                 else (\<lparr>ce_out = out @ line [] @ line (''updated '' @ local_sha @ '' '' @ utf8_arrow @ '' '' @ ue_new_head e)
                                        @ update_note e, ce_exit = 0\<rparr>, tr))))
                        | _ \<Rightarrow> (\<lparr>ce_out = out, ce_exit = 1\<rparr>, tr)))))"

subsection \<open>hived\<close>

datatype boot_step = BootInit | BootVersion | BootState | BootNew | BootListen string | BootServe

text \<open>What the daemon's main does, until a step fails; \<open>ok\<close> says which succeed. The second start of a
  sandbox comes before the flags are looked at.\<close>

definition hived_main :: "bool \<Rightarrow> bool \<Rightarrow> string \<Rightarrow> path_env \<Rightarrow> (boot_step \<Rightarrow> bool) \<Rightarrow> boot_step list" where
  "hived_main init_mode show_version socket_flag e ok =
     (if init_mode then [BootInit]
      else if show_version then [BootVersion]
      else let sock = (if socket_flag \<noteq> [] then socket_flag else socket_path e) in
        if \<not> ok BootState then [BootState]
        else if \<not> ok BootNew then [BootState, BootNew]
        else if \<not> ok (BootListen sock) then [BootState, BootNew, BootListen sock]
        else [BootState, BootNew, BootListen sock, BootServe])"

subsection \<open>What the commands do\<close>

lemma run_all_trace:
  "run_all runs cs = (ok, tr) \<Longrightarrow> list_all runs (butlast tr) \<and> set tr \<subseteq> set cs \<and> (ok \<longrightarrow> tr = cs \<and> list_all runs cs)"
proof (induction cs arbitrary: tr)
  case (Cons c cs)
  show ?case
  proof (cases "runs c")
    case True
    obtain tr' where t: "run_all runs cs = (ok, tr')" "tr = c # tr'"
      using Cons.prems True by (auto split: prod.splits)
    from Cons.IH[OF t(1)] t(2) True show ?thesis by auto
  qed (use Cons.prems in auto)
qed simp

lemma update_commands [simp]:
  "git_fetch \<noteq> run_install p" "git_checkout r \<noteq> run_install p" "git_pull \<noteq> run_install p" "make_build \<noteq> run_install p"
  "git_pull \<noteq> git_fetch" "make_build \<noteq> git_fetch" "git_pull \<noteq> git_checkout r" "make_build \<noteq> git_checkout r" "git_pull \<noteq> make_build"
  by (auto simp: git_fetch_def git_checkout_def git_pull_def make_build_def run_install_def)

lemmas update_commands_sym [simp] = update_commands[THEN not_sym]

text \<open>What must have come before the installation: the branch is at its upstream, by a pull if it was not, and
  the build went through.\<close>

definition up_to_install :: "update_env \<Rightarrow> update_flags \<Rightarrow> string list list \<Rightarrow> bool" where
  "up_to_install e f tr \<longleftrightarrow>
     \<not> uf_check f \<and> git_fetch \<in> set (butlast tr) \<and> make_build \<in> set (butlast tr) \<and>
     (git_pull \<in> set (butlast tr) \<or> ue_captures e (rev_parse ''HEAD'') = ue_captures e (rev_parse upstream_ref))"

text \<open>An update stops at the first command that fails: every command before the last one went through, and
  all of them if it ends well. The installer runs only as the last command, in a source tree, without
  \<^verbatim>\<open>--check\<close>, after a fetch, a pull when the branch was behind, and a build that all went through.\<close>

theorem update_in_order:
  assumes "cmd_update c e args = (x, tr)" "\<not> help_flag args"
  shows "list_all (ue_runs e) (butlast tr) \<and> (ce_exit x = 0 \<longrightarrow> list_all (ue_runs e) tr) \<and>
    (\<forall>p. run_install p \<in> set tr \<longrightarrow>
       last tr = run_install p \<and>
       (\<exists>f src. parse_update_flags args no_update_flags = Some f \<and> resolve_source_dir e (uf_source f) = Inr src
          \<and> is_source_tree (ue_stat e) src \<and> up_to_install e f tr))"
proof (cases "parse_update_flags args no_update_flags")
  case None
  with assms show ?thesis by (auto simp: cmd_update_def)
next
  case (Some f)
  show ?thesis
  proof (cases "resolve_source_dir e (uf_source f)")
    case (Inl err)
    with Some assms show ?thesis by (auto simp: cmd_update_def)
  next
    case (Inr src)
    let ?start = "(if uf_ref f \<noteq> [] then [git_checkout (uf_ref f)] else []) @ [git_fetch]"
    obtain ok tr0 where r: "run_all (ue_runs e) ?start = (ok, tr0)" by fastforce
    from run_all_trace[OF r] have tr0: "list_all (ue_runs e) (butlast tr0)" "set tr0 \<subseteq> set ?start"
      "ok \<Longrightarrow> tr0 = ?start \<and> list_all (ue_runs e) ?start" by auto
    have n: "run_install p \<notin> set tr0" for p using tr0(2) by (auto split: if_splits)
    show ?thesis
    proof (cases "is_source_tree (ue_stat e) src \<and> ok")
      case False
      with Some Inr assms r tr0(1) n show ?thesis by (auto simp: cmd_update_def split: if_splits)
    next
      case True
      then have tree: "is_source_tree (ue_stat e) src" and ok by auto
      note start = tr0(3)[OF \<open>ok\<close>]
      then have ran: "list_all (ue_runs e) tr0" "git_fetch \<in> set tr0" by auto
      show ?thesis
        using assms Some Inr tree \<open>ok\<close> r ran tr0(1) n
        by (auto simp: cmd_update_def up_to_install_def Let_def butlast_append split: option.splits if_splits)
    qed
  qed
qed

text \<open>A tree that is one commit behind, without options.\<close>

definition update_env_a :: update_env where
  "update_env_a = \<lparr>ue_cwd = Some ''/'', ue_stat = (\<lambda>_. True), ue_record = Some ''/src'', ue_exe = None, ue_runs = (\<lambda>c. c \<noteq> make_build),
     ue_captures = (\<lambda>c. if c = rev_parse ''HEAD'' then Some ''a1'' else Some ''b2''), ue_new_head = ''b2'', ue_dials = False,
     ue_version = ''dev''\<rparr>"

theorem update_in_order_witness:
  "let (x, tr) = cmd_update cli_a update_env_a [] in
     ce_exit x = 1 \<and> tr = [git_fetch, git_pull, make_build] \<and> list_all (ue_runs update_env_a) (butlast tr)"
proof -
  obtain x tr where u: "cmd_update cli_a update_env_a [] = (x, tr)" by fastforce
  have "rev_parse ''HEAD'' \<noteq> rev_parse upstream_ref" by (simp add: rev_parse_def upstream_ref_def)
  then have "ce_exit x = 1 \<and> tr = [git_fetch, git_pull, make_build]"
    using u by (auto simp: cmd_update_def help_flag_def no_update_flags_def resolve_source_dir_def update_env_a_def is_source_tree_def Let_def)
  with update_in_order[OF u] u show ?thesis by (simp add: help_flag_def)
qed

text \<open>\<^verbatim>\<open>--check\<close> is to compare and do nothing; with \<^verbatim>\<open>--ref\<close> it still checks the other branch out.\<close>

lemma check_changes_branch:
  assumes "parse_update_flags args no_update_flags = Some f" "uf_check f" "uf_ref f \<noteq> []" "\<not> help_flag args"
    and "resolve_source_dir e (uf_source f) = Inr src" "is_source_tree (ue_stat e) src"
  shows "git_checkout (uf_ref f) \<in> set (snd (cmd_update c e args))"
  using assms by (auto simp: cmd_update_def Let_def split: option.splits prod.splits bool.splits)

text \<open>The page's address that is shown is the one the daemon listens on, when it listens at all, up to the host.\<close>

lemma port_colon: "port_from_addr (a @ CHR '':'' # t) = port_from_addr (CHR '':'' # t)"
proof (cases "CHR '':'' \<in> set t")
  case True
  then obtain u v where t: "t = u @ CHR '':'' # v" "CHR '':'' \<notin> set v" by (metis split_list_last)
  have "port_from_addr (x @ CHR '':'' # v) = (if v = [] then ''8910'' else v)" for x
    using last_index_append[OF t(2), of x] by (auto simp: port_from_addr_def)
  from this[of "a @ CHR '':'' # u"] this[of "CHR '':'' # u"] show ?thesis by (simp add: t(1))
next
  case False
  from last_index_append[OF this, of a] last_index_append[OF this, of "[]"] show ?thesis
    by (auto simp: port_from_addr_def)
qed

text \<open>What \<^verbatim>\<open>hive ui\<close> shows agrees with what the daemon does with the same environment: it says the page is
  off exactly when the daemon does not listen, and otherwise shows the port the daemon listens on.\<close>

theorem ui_shows_listener:
  "(http_addr_for_display addr disabled = [] \<longleftrightarrow> \<not> listens (listen_addr addr disabled)) \<and>
   port_from_addr (http_addr_for_display addr disabled) = port_from_addr (listen_addr addr disabled)"
proof -
  have z: "port_from_addr (''127.0.0.1:'' @ t) = port_from_addr (''0.0.0.0:'' @ t)" for t
    using port_colon[of "''127.0.0.1''" t] port_colon[of "''0.0.0.0''" t] by simp
  have c: "port_from_addr (''127.0.0.1'' @ CHR '':'' # t) = port_from_addr (CHR '':'' # t)" for t
    by (rule port_colon)
  show ?thesis
  proof (cases "addr = []")
    case True
    then show ?thesis by (simp add: http_addr_for_display_def listen_addr_def listens_def Let_def)
  next
    case False
    show ?thesis
    proof (cases "has_prefix addr '':''")
      case True
      then obtain t where "addr = CHR '':'' # t" by (auto simp: has_prefix_iff)
      with c show ?thesis by (simp add: http_addr_for_display_def listen_addr_def listens_def Let_def)
    next
      case noc: False
      show ?thesis
      proof (cases "has_prefix addr ''0.0.0.0:''")
        case True
        then obtain t where a: "addr = ''0.0.0.0:'' @ t" by (auto simp: has_prefix_iff)
        show ?thesis using z[of t] by (simp add: a http_addr_for_display_def listen_addr_def listens_def Let_def trim_prefix_def)
      qed (use False noc in \<open>simp add: http_addr_for_display_def listen_addr_def listens_def Let_def\<close>)
    qed
  qed
qed

text \<open>Every command the help lists is one \<open>main\<close> knows, and nothing else runs.\<close>

lemma commands_listed: "set cmd_order = set dispatched \<union> {''version'', ''ping'', ''help''}"
  by (auto simp: cmd_order_def dispatched_def)

lemma main_unknown:
  assumes "cmd \<notin> set cmd_order" "cmd \<notin> {''--help'', ''-h'', ''--version'', ''-v''}"
  shows "hive_main run reg (cmd # args) s = stop_with 2 s"
  using assms unfolding commands_listed by (auto simp: hive_main_def dispatch_cmd_def)

text \<open>An option without its value is taken for the task.\<close>

lemma target_without_value: "run_args [''--target''] [] None = ([], Some ''--target'')"
  by simp

text \<open>Two members of one image look the same in the team, whatever their names are.\<close>

lemma team_shows_images: "team_row (x\<lparr>wm_name := n\<rparr>) = team_row x"
  by (simp add: team_row_def)

text \<open>A million tokens left are shown with an exponent.\<close>

lemma million_shown: "format_quota [(''tokens:m'', 1000000)] = ''tokens:m=1e+06''"
proof -
  have d: "digit 0 = CHR ''0''" "digit (Suc 0) = CHR ''1''" "digit (Suc (Suc (Suc (Suc (Suc (Suc 0)))))) = CHR ''6''" by code_simp+
  have m: "show_nat 1000000 = ''1000000''" "show_nat (Suc (Suc (Suc (Suc (Suc (Suc 0)))))) = ''6''"
    by (simp_all add: show_nat.simps d)
  show ?thesis by (simp add: format_quota_def show_float_def m trim_right_def trim_left_def Let_def)
qed

end
