(* ===== verification/Conv_Bus.thy ===== *)
theory Conv_Bus
  imports Peer
begin

section \<open>The conversation event bus (internal/conversation/bus.go)\<close>

text \<open>
  The UI's event stream: each subscriber has a channel that holds \<open>bus_sub_buffer\<close> events; a publish
  copies the list of a Room's channels under the lock, releases it, and then sends to one channel
  after the other, dropping the event where the buffer is full. A cancel takes a channel off the map
  and closes it. A channel is its id: its buffer and whether it is closed are maps over ids. A send
  to a closed channel is a panic of the Go runtime, which nothing recovers: the value None.
\<close>

definition bus_sub_buffer :: nat where "bus_sub_buffer = 64"

record cbus =
  cb_subs :: "string \<Rightarrow> nat list"
  cb_next :: nat
  cb_chan :: "nat \<Rightarrow> conv_event list"
  cb_closed :: "nat \<Rightarrow> bool"

definition new_cbus :: cbus where
  "new_cbus = \<lparr>cb_subs = (\<lambda>_. []), cb_next = 0, cb_chan = (\<lambda>_. []), cb_closed = (\<lambda>_. False)\<rparr>"

definition cb_subscribe :: "string \<Rightarrow> cbus \<Rightarrow> nat \<times> cbus" where
  "cb_subscribe rid b =
     (cb_next b, b\<lparr>cb_subs := (cb_subs b)(rid := cb_subs b rid @ [cb_next b]), cb_next := cb_next b + 1,
                   cb_chan := (cb_chan b)(cb_next b := [])\<rparr>)"

text \<open>The cancel function of a subscription; the channel is closed exactly when it ran before.\<close>

definition cb_cancel :: "string \<Rightarrow> nat \<Rightarrow> cbus \<Rightarrow> cbus" where
  "cb_cancel rid i b =
     (if cb_closed b i then b
      else b\<lparr>cb_subs := (cb_subs b)(rid := removeAll i (cb_subs b rid)), cb_closed := (cb_closed b)(i := True)\<rparr>)"

definition cb_count :: "string \<Rightarrow> cbus \<Rightarrow> nat" where
  "cb_count rid b = length (cb_subs b rid)"

definition cb_send :: "conv_event \<Rightarrow> nat \<Rightarrow> cbus \<Rightarrow> cbus option" where
  "cb_send e i b =
     (if cb_closed b i then None
      else if length (cb_chan b i) < bus_sub_buffer then Some (b\<lparr>cb_chan := (cb_chan b)(i := cb_chan b i @ [e])\<rparr>)
      else Some b)"

fun cb_send_all :: "conv_event \<Rightarrow> nat list \<Rightarrow> cbus \<Rightarrow> cbus option" where
  "cb_send_all e [] b = Some b"
| "cb_send_all e (i # is) b = (case cb_send e i b of None \<Rightarrow> None | Some b \<Rightarrow> cb_send_all e is b)"

definition cb_publish :: "conv_event \<Rightarrow> cbus \<Rightarrow> cbus option" where
  "cb_publish e b = cb_send_all e (cb_subs b (ce_room e)) b"

text \<open>A receive of the subscriber; a closed channel still gives what is buffered.\<close>

definition cb_receive :: "nat \<Rightarrow> cbus \<Rightarrow> conv_event option \<times> cbus" where
  "cb_receive i b =
     (case cb_chan b i of [] \<Rightarrow> (None, b) | e # es \<Rightarrow> (Some e, b\<lparr>cb_chan := (cb_chan b)(i := es)\<rparr>))"

subsection \<open>A publish that nothing overlaps\<close>

definition cb_inv :: "cbus \<Rightarrow> bool" where
  "cb_inv b \<longleftrightarrow> (\<forall>rid. distinct (cb_subs b rid) \<and> (\<forall>i \<in> set (cb_subs b rid). i < cb_next b \<and> \<not> cb_closed b i))
     \<and> (\<forall>i \<ge> cb_next b. \<not> cb_closed b i)
     \<and> (\<forall>rid rid' i. i \<in> set (cb_subs b rid) \<longrightarrow> i \<in> set (cb_subs b rid') \<longrightarrow> rid = rid')"

lemma new_cbus_inv: "cb_inv new_cbus"
  by (simp add: cb_inv_def new_cbus_def)

lemma cb_subscribe_inv: "cb_inv b \<Longrightarrow> cb_inv (snd (cb_subscribe rid b))"
  by (fastforce simp: cb_inv_def cb_subscribe_def)

lemma cb_cancel_inv:
  assumes "cb_inv b" "i \<in> set (cb_subs b rid)"
  shows "cb_inv (cb_cancel rid i b)"
proof -
  have "i \<notin> set (cb_subs b r)" if "r \<noteq> rid" for r
    using assms that by (auto simp: cb_inv_def)
  moreover have "i < cb_next b" using assms by (auto simp: cb_inv_def)
  ultimately show ?thesis using assms by (auto simp: cb_inv_def cb_cancel_def distinct_removeAll dest: leD)
qed

lemma cb_receive_inv: "cb_inv b \<Longrightarrow> cb_inv (snd (cb_receive i b))"
  by (simp add: cb_inv_def cb_receive_def split: list.split)

lemma cb_send_open:
  "\<not> cb_closed b i \<Longrightarrow> cb_send e i b = Some (b\<lparr>cb_chan := (cb_chan b)
     (i := if length (cb_chan b i) < bus_sub_buffer then cb_chan b i @ [e] else cb_chan b i)\<rparr>)"
  by (cases b) (simp add: cb_send_def)

lemma cb_send_all_open:
  assumes "distinct is" "\<forall>i \<in> set is. \<not> cb_closed b i"
  shows "cb_send_all e is b = Some (b\<lparr>cb_chan := (\<lambda>i.
     if i \<in> set is \<and> length (cb_chan b i) < bus_sub_buffer then cb_chan b i @ [e] else cb_chan b i)\<rparr>)"
  using assms
proof (induction "is" arbitrary: b)
  case (Cons i "is")
  let ?b = "b\<lparr>cb_chan := (cb_chan b)(i := if length (cb_chan b i) < bus_sub_buffer then cb_chan b i @ [e] else cb_chan b i)\<rparr>"
  have "cb_send_all e (i # is) b = cb_send_all e is ?b" using Cons.prems by (simp add: cb_send_open)
  also have "\<dots> = Some (?b\<lparr>cb_chan := (\<lambda>i.
     if i \<in> set is \<and> length (cb_chan ?b i) < bus_sub_buffer then cb_chan ?b i @ [e] else cb_chan ?b i)\<rparr>)"
    using Cons.prems by (intro Cons.IH) auto
  finally show ?case using Cons.prems by (auto simp: fun_eq_iff)
qed simp

text \<open>A publish that no cancel overlaps never panics: it puts the event at the end of the buffer of
  each subscriber of its Room that has room for it, leaves every other buffer alone, and keeps
  the bus well-formed.\<close>

theorem conv_publish_fans_out:
  assumes "cb_inv b"
  shows "\<exists>b'. cb_publish e b = Some b' \<and> cb_inv b' \<and> cb_subs b' = cb_subs b
    \<and> (\<forall>i. cb_chan b' i = (if i \<in> set (cb_subs b (ce_room e)) \<and> length (cb_chan b i) < bus_sub_buffer
                            then cb_chan b i @ [e] else cb_chan b i))"
proof -
  from assms have "distinct (cb_subs b (ce_room e))" "\<forall>i \<in> set (cb_subs b (ce_room e)). \<not> cb_closed b i"
    by (auto simp: cb_inv_def)
  from cb_send_all_open[OF this] assms show ?thesis by (auto simp: cb_publish_def cb_inv_def)
qed

definition evt_a :: conv_event where
  "evt_a = \<lparr>ce_type = EventConvDeleted, ce_room = ''r1'', ce_conv = ''c1'', ce_payload = PlDeleted ''c1'' ''r1''\<rparr>"

lemma conv_publish_fans_out_witness:
  "\<exists>b'. cb_publish evt_a (snd (cb_subscribe ''r1'' new_cbus)) = Some b' \<and> cb_chan b' 0 = [evt_a]"
  using conv_publish_fans_out[OF cb_subscribe_inv[OF new_cbus_inv], of evt_a "''r1''"]
  by (auto simp: evt_a_def cb_subscribe_def new_cbus_def bus_sub_buffer_def)

subsection \<open>Publishes and cancels that overlap\<close>

text \<open>The bus and the publishes that copied their list and have not sent to all of it; after a panic
  there is no state left.\<close>

inductive cstep :: "(cbus \<times> (conv_event \<times> nat list) list) option \<Rightarrow> (cbus \<times> (conv_event \<times> nat list) list) option \<Rightarrow> bool" where
  copy: "cstep (Some (b, ps)) (Some (b, (e, cb_subs b (ce_room e)) # ps))"
| send: "cb_send e i b = Some b' \<Longrightarrow>
    cstep (Some (b, ps @ (e, i # is) # qs)) (Some (b', ps @ (e, is) # qs))"
| panic: "cb_send e i b = None \<Longrightarrow> cstep (Some (b, ps @ (e, i # is) # qs)) None"
| subscribe: "cstep (Some (b, ps)) (Some (snd (cb_subscribe rid b), ps))"
| cancel: "i \<in> set (cb_subs b rid) \<Longrightarrow> cstep (Some (b, ps)) (Some (cb_cancel rid i b, ps))"
| receive: "cstep (Some (b, ps)) (Some (snd (cb_receive i b), ps))"

inductive_simps cstep_None [simp]: "cstep None s"

abbreviation cstar :: "(cbus \<times> (conv_event \<times> nat list) list) option \<Rightarrow> (cbus \<times> (conv_event \<times> nat list) list) option \<Rightarrow> bool" where
  "cstar \<equiv> cstep\<^sup>*\<^sup>*"

text \<open>A cancel between the copy of the list and the send makes the publish send to a closed
  channel: the daemon can panic, from an empty bus, after one subscribe, one publish and one
  cancel.\<close>

theorem cancel_panics_publish:
  "cstar (Some (new_cbus, [])) None"
proof -
  let ?b = "snd (cb_subscribe ''r1'' new_cbus)"
  have subs: "cb_subs ?b (ce_room evt_a) = [0]" by (simp add: cb_subscribe_def new_cbus_def evt_a_def)
  have s1: "cstep (Some (new_cbus, [])) (Some (?b, []))" by (rule cstep.subscribe)
  have s2: "cstep (Some (?b, [])) (Some (?b, [(evt_a, [0])]))"
    using cstep.copy[of ?b "[]" evt_a] by (simp add: subs)
  have s3: "cstep (Some (?b, [(evt_a, [0])])) (Some (cb_cancel ''r1'' 0 ?b, [(evt_a, [0])]))"
    by (rule cstep.cancel) (simp add: cb_subscribe_def new_cbus_def)
  have s4: "cstep (Some (cb_cancel ''r1'' 0 ?b, [(evt_a, [0])])) None"
    using cstep.panic[of evt_a 0 "cb_cancel ''r1'' 0 ?b" "[]" "[]" "[]"]
    by (simp add: cb_send_def cb_cancel_def cb_subscribe_def new_cbus_def)
  show ?thesis
    by (rule converse_rtranclp_into_rtranclp, rule s1, rule converse_rtranclp_into_rtranclp, rule s2,
        rule converse_rtranclp_into_rtranclp, rule s3, rule r_into_rtranclp, rule s4)
qed

text \<open>Only a cancel does that: while every channel that a publish still has to send to is open, no
  step panics, and every step but a cancel keeps it so.\<close>

lemma open_pending_safe:
  assumes "cstep (Some (b, ps)) s" "\<forall>(e, is) \<in> set ps. \<forall>i \<in> set is. \<not> cb_closed b i" "cb_inv b"
    and "\<And>rid i. s \<noteq> Some (cb_cancel rid i b, ps)"
  shows "\<exists>b' ps'. s = Some (b', ps') \<and> (\<forall>(e, is) \<in> set ps'. \<forall>i \<in> set is. \<not> cb_closed b' i)"
  using assms(1)
proof cases
  case (send e i b' ps1 is2 qs)
  with assms(2) show ?thesis by (fastforce simp: cb_send_def split: if_splits)
qed (use assms in \<open>auto simp: cb_send_def cb_subscribe_def cb_receive_def cb_inv_def split: list.splits if_splits\<close>)

end
