(* ===== verification/Examples.thy ===== *)
theory Examples
  imports Sdk
begin

section \<open>The example agents (examples/)\<close>

text \<open>
  The agents written in Go: the Markdown converter with its renderer, and the small ones that echo, fetch,
  summarise and change to upper case. Parsing Markdown and writing a docx file are third-party code: the
  tree a parser gives is a \<open>mdnode\<close>, of the node kinds the renderer tells apart, and a document is what
  the renderer asks the writer for, paragraphs of runs. The parser and the writer are arguments.
\<close>

subsection \<open>The renderer\<close>

record doc_run =
  dr_text :: string
  dr_bold :: bool
  dr_italic :: bool
  dr_style :: string

record doc_para =
  pg_text :: string
  pg_style :: string
  pg_runs :: "doc_run list"

text \<open>A code block has its lines, an image its alternative text; the two breaks of a text are hard and soft.\<close>

datatype mdnode =
    MdDocument "mdnode list" | MdHeading int "mdnode list" | MdParagraph "mdnode list"
  | MdList bool "mdnode list" | MdItem "mdnode list" | MdCode "string list" | MdBreak
  | MdEmphasis int "mdnode list" | MdCodeSpan "mdnode list" | MdText string bool bool
  | MdAutoLink string | MdLink "mdnode list" | MdImage string | MdHtml | MdOther "mdnode list"

fun md_children :: "mdnode \<Rightarrow> mdnode list" where
  "md_children (MdDocument ns) = ns"
| "md_children (MdHeading l ns) = ns"
| "md_children (MdParagraph ns) = ns"
| "md_children (MdList b ns) = ns"
| "md_children (MdItem ns) = ns"
| "md_children (MdCode ls) = []"
| "md_children MdBreak = []"
| "md_children (MdEmphasis l ns) = ns"
| "md_children (MdCodeSpan ns) = ns"
| "md_children (MdText s h w) = []"
| "md_children (MdAutoLink u) = []"
| "md_children (MdLink ns) = ns"
| "md_children (MdImage a) = []"
| "md_children MdHtml = []"
| "md_children (MdOther ns) = ns"

lemma md_children_size: "n \<in> set (md_children m) \<Longrightarrow> size n < size m"
  by (cases m) (auto simp: less_Suc_eq_le trans_le_add1 elim: size_list_estimation' dest: size_list_estimation'[OF _ order_refl])

record renderer =
  rn_doc :: "doc_para list"
  rn_cur :: "nat option"
  rn_pending :: string
  rn_bold :: int
  rn_italic :: int
  rn_code :: int
  rn_ordered :: bool
  rn_in_list :: bool

definition plain_para :: "string \<Rightarrow> doc_para" where
  "plain_para t = \<lparr>pg_text = t, pg_style = [], pg_runs = []\<rparr>"

definition add_paragraph :: "doc_para \<Rightarrow> renderer \<Rightarrow> renderer" where
  "add_paragraph p r = r\<lparr>rn_doc := rn_doc r @ [p]\<rparr>"

definition open_paragraph :: "renderer \<Rightarrow> renderer" where
  "open_paragraph r =
     (let p = plain_para [];
          p = (if rn_pending r \<noteq> [] then p\<lparr>pg_style := rn_pending r\<rparr> else p)
      in (add_paragraph p r)\<lparr>rn_cur := Some (length (rn_doc r)), rn_pending := []\<rparr>)"

definition add_run :: "nat \<Rightarrow> doc_run \<Rightarrow> doc_para list \<Rightarrow> doc_para list" where
  "add_run i x ps = ps[i := (ps ! i)\<lparr>pg_runs := pg_runs (ps ! i) @ [x]\<rparr>]"

definition run_of :: "renderer \<Rightarrow> string \<Rightarrow> doc_run" where
  "run_of r s =
     \<lparr>dr_text = s, dr_bold = (rn_bold r > 0), dr_italic = (rn_italic r > 0), dr_style = (if rn_code r > 0 then ''Code'' else [])\<rparr>"

definition emit_text :: "string \<Rightarrow> renderer \<Rightarrow> renderer" where
  "emit_text s r =
     (if s = [] then r
      else let r = (if rn_cur r = None then open_paragraph r else r) in
        r\<lparr>rn_doc := add_run (the (rn_cur r)) (run_of r s) (rn_doc r)\<rparr>)"

definition code_para :: "string \<Rightarrow> doc_para" where
  "code_para l =
     \<lparr>pg_text = [], pg_style = ''Code'',
      pg_runs = [\<lparr>dr_text = trim_right l [CHR 0x0A], dr_bold = False, dr_italic = False, dr_style = ''Code''\<rparr>]\<rparr>"

definition em_dashes :: string where
  "em_dashes = concat (replicate 3 [CHR 0xE2, CHR 0x80, CHR 0x94])"

definition heading_style :: "int \<Rightarrow> string" where
  "heading_style level = ''Heading'' @ show_int (if level < 1 then 1 else if level > 6 then 6 else level)"

text \<open>The two visits of a node: entering it, with whether its children are skipped, and leaving it.\<close>

primrec enter :: "mdnode \<Rightarrow> renderer \<Rightarrow> renderer \<times> bool" where
  "enter (MdDocument ns) r = (r, False)"
| "enter (MdHeading l ns) r = (r\<lparr>rn_pending := heading_style l\<rparr>, False)"
| "enter (MdParagraph ns) r = ((if rn_cur r = None then open_paragraph r else r), False)"
| "enter (MdList ordered ns) r = (r\<lparr>rn_in_list := True, rn_ordered := ordered\<rparr>, False)"
| "enter (MdItem ns) r =
     (open_paragraph (r\<lparr>rn_pending := (if rn_ordered r then ''ListNumber'' else ''ListBullet'')\<rparr>), False)"
| "enter (MdCode ls) r = (fold (\<lambda>l. add_paragraph (code_para l)) ls r, True)"
| "enter MdBreak r = (add_paragraph (plain_para em_dashes) r, False)"
| "enter (MdEmphasis l ns) r =
     (if l \<ge> 2 then r\<lparr>rn_bold := rn_bold r + 1\<rparr> else r\<lparr>rn_italic := rn_italic r + 1\<rparr>, False)"
| "enter (MdCodeSpan ns) r = (r\<lparr>rn_code := rn_code r + 1\<rparr>, False)"
| "enter (MdText s hard soft) r = (let r = emit_text s r in (if hard \<or> soft then emit_text '' '' r else r, False))"
| "enter (MdAutoLink u) r = (emit_text u r, False)"
| "enter (MdLink ns) r = (r, False)"
| "enter (MdImage alt) r = (emit_text (''[image: '' @ alt @ '']'') r, True)"
| "enter MdHtml r = (r, True)"
| "enter (MdOther ns) r = (r, False)"

primrec leave :: "mdnode \<Rightarrow> renderer \<Rightarrow> renderer" where
  "leave (MdDocument ns) r = r"
| "leave (MdHeading l ns) r = r\<lparr>rn_cur := None\<rparr>"
| "leave (MdParagraph ns) r = r\<lparr>rn_cur := None\<rparr>"
| "leave (MdList ordered ns) r = r\<lparr>rn_in_list := False\<rparr>"
| "leave (MdItem ns) r = r\<lparr>rn_cur := None\<rparr>"
| "leave (MdCode ls) r = r"
| "leave MdBreak r = r"
| "leave (MdEmphasis l ns) r =
     (if l \<ge> 2 then r\<lparr>rn_bold := rn_bold r - 1\<rparr> else r\<lparr>rn_italic := rn_italic r - 1\<rparr>)"
| "leave (MdCodeSpan ns) r = r\<lparr>rn_code := rn_code r - 1\<rparr>"
| "leave (MdText s hard soft) r = r"
| "leave (MdAutoLink u) r = r"
| "leave (MdLink ns) r = r"
| "leave (MdImage alt) r = r"
| "leave MdHtml r = r"
| "leave (MdOther ns) r = r"

text \<open>The walk of the tree library: enter, the children unless they are skipped, leave.\<close>

function walk :: "mdnode \<Rightarrow> renderer \<Rightarrow> renderer" where
  "walk n r =
     (case enter n r of (r, skip) \<Rightarrow> leave n (if skip then r else fold walk (md_children n) r))"
  by pat_completeness auto
termination by (relation "measure (size \<circ> fst)") (auto dest: md_children_size)

declare walk.simps [simp del]

definition new_renderer :: "doc_para list \<Rightarrow> renderer" where
  "new_renderer doc =
     \<lparr>rn_doc = doc, rn_cur = None, rn_pending = [], rn_bold = 0, rn_italic = 0, rn_code = 0, rn_ordered = False, rn_in_list = False\<rparr>"

text \<open>The document starts with the paragraphs of the template's file, or with those of a new one.\<close>

definition render_markdown :: "(string \<Rightarrow> mdnode) \<Rightarrow> (string option \<Rightarrow> doc_para list option) \<Rightarrow> (doc_para list \<Rightarrow> string option)
    \<Rightarrow> string \<Rightarrow> string option \<Rightarrow> string res" where
  "render_markdown parse open_doc write src template =
     (case open_doc template of
        None \<Rightarrow> Inl Plain
      | Some doc \<Rightarrow>
          (case write (rn_doc (walk (parse src) (new_renderer doc))) of None \<Rightarrow> Inl Plain | Some out \<Rightarrow> Inr out))"

subsection \<open>What a document is rendered to\<close>

text \<open>The reference: the runs of inline text under the formats around it, and the paragraphs of a block. Lists are
  flat, with one paragraph or text block to an item, and a heading is not empty.\<close>

definition fmt_run :: "int \<Rightarrow> int \<Rightarrow> int \<Rightarrow> string \<Rightarrow> doc_run list" where
  "fmt_run b i c s =
     (if s = [] then []
      else [\<lparr>dr_text = s, dr_bold = (b > 0), dr_italic = (i > 0), dr_style = (if c > 0 then ''Code'' else [])\<rparr>])"

fun md_runs :: "int \<Rightarrow> int \<Rightarrow> int \<Rightarrow> mdnode \<Rightarrow> doc_run list" where
  "md_runs b i c (MdEmphasis l ns) =
     (if l \<ge> 2 then concat (map (md_runs (b + 1) i c) ns) else concat (map (md_runs b (i + 1) c) ns))"
| "md_runs b i c (MdCodeSpan ns) = concat (map (md_runs b i (c + 1)) ns)"
| "md_runs b i c (MdText s hard soft) = fmt_run b i c s @ (if hard \<or> soft then fmt_run b i c '' '' else [])"
| "md_runs b i c (MdAutoLink u) = fmt_run b i c u"
| "md_runs b i c (MdLink ns) = concat (map (md_runs b i c) ns)"
| "md_runs b i c (MdImage alt) = fmt_run b i c (''[image: '' @ alt @ '']'')"
| "md_runs b i c (MdOther ns) = concat (map (md_runs b i c) ns)"
| "md_runs b i c (MdDocument ns) = []"
| "md_runs b i c (MdHeading l ns) = []"
| "md_runs b i c (MdParagraph ns) = []"
| "md_runs b i c (MdList ordered ns) = []"
| "md_runs b i c (MdItem ns) = []"
| "md_runs b i c (MdCode ls) = []"
| "md_runs b i c MdBreak = []"
| "md_runs b i c MdHtml = []"

fun inline :: "mdnode \<Rightarrow> bool" where
  "inline (MdEmphasis l ns) = list_all inline ns"
| "inline (MdCodeSpan ns) = list_all inline ns"
| "inline (MdText s hard soft) = True"
| "inline (MdAutoLink u) = True"
| "inline (MdLink ns) = list_all inline ns"
| "inline (MdImage alt) = True"
| "inline MdHtml = True"
| "inline (MdOther ns) = list_all inline ns"
| "inline (MdDocument ns) = False"
| "inline (MdHeading l ns) = False"
| "inline (MdParagraph ns) = False"
| "inline (MdList ordered ns) = False"
| "inline (MdItem ns) = False"
| "inline (MdCode ls) = False"
| "inline MdBreak = False"

definition line_runs :: "mdnode list \<Rightarrow> doc_run list" where
  "line_runs ns = concat (map (md_runs 0 0 0) ns)"

definition styled :: "string \<Rightarrow> mdnode list \<Rightarrow> doc_para" where
  "styled style ns = \<lparr>pg_text = [], pg_style = style, pg_runs = line_runs ns\<rparr>"

definition item_lines :: "mdnode \<Rightarrow> mdnode list option" where
  "item_lines n =
     (case n of
        MdItem [] \<Rightarrow> Some []
      | MdItem [MdParagraph ns] \<Rightarrow> if list_all inline ns then Some ns else None
      | MdItem [MdOther ns] \<Rightarrow> if list_all inline ns then Some ns else None
      | _ \<Rightarrow> None)"

fun plain_block :: "mdnode \<Rightarrow> bool" where
  "plain_block (MdHeading l ns) = (list_all inline ns \<and> line_runs ns \<noteq> [])"
| "plain_block (MdParagraph ns) = list_all inline ns"
| "plain_block (MdList ordered ns) = list_all (\<lambda>n. item_lines n \<noteq> None) ns"
| "plain_block (MdCode ls) = True"
| "plain_block MdBreak = True"
| "plain_block MdHtml = True"
| "plain_block (MdOther ns) = list_all plain_block ns"
| "plain_block _ = False"

fun block_paras :: "mdnode \<Rightarrow> doc_para list" where
  "block_paras (MdHeading l ns) = [styled (heading_style l) ns]"
| "block_paras (MdParagraph ns) = [styled [] ns]"
| "block_paras (MdList ordered ns) =
     map (\<lambda>n. styled (if ordered then ''ListNumber'' else ''ListBullet'') (the (item_lines n))) ns"
| "block_paras (MdCode ls) = map code_para ls"
| "block_paras MdBreak = [plain_para em_dashes]"
| "block_paras (MdOther ns) = concat (map block_paras ns)"
| "block_paras _ = []"

definition add_runs :: "doc_run list \<Rightarrow> renderer \<Rightarrow> renderer" where
  "add_runs xs r =
     (if xs = [] then r
      else let r = (if rn_cur r = None then open_paragraph r else r); i = the (rn_cur r)
        in r\<lparr>rn_doc := (rn_doc r)[i := (rn_doc r ! i)\<lparr>pg_runs := pg_runs (rn_doc r ! i) @ xs\<rparr>]\<rparr>)"

lemma open_simps [simp]:
  "rn_cur (open_paragraph r) = Some (length (rn_doc r))" "rn_pending (open_paragraph r) = []"
  "rn_bold (open_paragraph r) = rn_bold r" "rn_italic (open_paragraph r) = rn_italic r" "rn_code (open_paragraph r) = rn_code r"
  "rn_doc (open_paragraph r) = rn_doc r @ [\<lparr>pg_text = [], pg_style = rn_pending r, pg_runs = []\<rparr>]"
  by (simp_all add: open_paragraph_def add_paragraph_def plain_para_def Let_def)

lemma add_runs_flags [simp]:
  "rn_bold (add_runs xs r) = rn_bold r" "rn_italic (add_runs xs r) = rn_italic r" "rn_code (add_runs xs r) = rn_code r"
  by (simp_all add: add_runs_def Let_def)

lemma open_update [simp]:
  "open_paragraph (r\<lparr>rn_bold := k\<rparr>) = (open_paragraph r)\<lparr>rn_bold := k\<rparr>"
  "open_paragraph (r\<lparr>rn_italic := k\<rparr>) = (open_paragraph r)\<lparr>rn_italic := k\<rparr>"
  "open_paragraph (r\<lparr>rn_code := k\<rparr>) = (open_paragraph r)\<lparr>rn_code := k\<rparr>"
  by (simp_all add: open_paragraph_def add_paragraph_def Let_def)

lemma add_runs_update [simp]:
  "add_runs xs (r\<lparr>rn_bold := k\<rparr>) = (add_runs xs r)\<lparr>rn_bold := k\<rparr>"
  "add_runs xs (r\<lparr>rn_italic := k\<rparr>) = (add_runs xs r)\<lparr>rn_italic := k\<rparr>"
  "add_runs xs (r\<lparr>rn_code := k\<rparr>) = (add_runs xs r)\<lparr>rn_code := k\<rparr>"
  by (simp_all add: add_runs_def Let_def)

lemma add_runs_Nil [simp]: "add_runs [] r = r"
  by (simp add: add_runs_def)

lemma update_twice:
  "list_update (list_update ps i (f (ps ! i))) i (g (list_update ps i (f (ps ! i)) ! i)) = list_update ps i (g (f (ps ! i)))"
  by (cases "i < length ps") (simp_all add: list_update_beyond)

definition append_runs :: "doc_run list \<Rightarrow> doc_para \<Rightarrow> doc_para" where
  "append_runs xs p = p\<lparr>pg_runs := pg_runs p @ xs\<rparr>"

lemma append_runs_simps: "append_runs [] p = p" "append_runs ys (append_runs xs p) = append_runs (xs @ ys) p"
  by (simp_all add: append_runs_def)

lemma add_runs_open:
  "rn_cur r = Some i \<Longrightarrow> add_runs xs r = r\<lparr>rn_doc := list_update (rn_doc r) i (append_runs xs (rn_doc r ! i))\<rparr>"
  by (simp add: add_runs_def append_runs_def Let_def)

lemma add_runs_closed: "rn_cur r = None \<Longrightarrow> xs \<noteq> [] \<Longrightarrow> add_runs xs r = add_runs xs (open_paragraph r)"
  by (simp add: add_runs_def Let_def)

lemma add_runs_append_open:
  assumes "rn_cur r = Some i"
  shows "add_runs (xs @ ys) r = add_runs ys (add_runs xs r)"
  using assms update_twice[of "rn_doc r" i "append_runs xs" "append_runs ys"]
  by (simp add: add_runs_open append_runs_simps)

lemma add_runs_append: "add_runs (xs @ ys) r = add_runs ys (add_runs xs r)"
proof (cases "rn_cur r")
  case None
  then show ?thesis
    using add_runs_append_open[of "open_paragraph r"] add_runs_closed[of r] by (cases "xs = []") simp_all
qed (rule add_runs_append_open)

lemma emit_runs: "emit_text s r = add_runs (fmt_run (rn_bold r) (rn_italic r) (rn_code r) s) r"
  by (simp add: emit_text_def add_runs_def fmt_run_def run_of_def add_run_def Let_def)

lemma fold_inline:
  assumes "\<And>n t. n \<in> set ns \<Longrightarrow> walk n t = add_runs (md_runs (rn_bold t) (rn_italic t) (rn_code t) n) t"
  shows "fold walk ns t = add_runs (concat (map (md_runs (rn_bold t) (rn_italic t) (rn_code t)) ns)) t"
  using assms by (induction ns arbitrary: t) (simp_all add: add_runs_append)

lemma walk_inline:
  "inline n \<Longrightarrow> walk n r = add_runs (md_runs (rn_bold r) (rn_italic r) (rn_code r) n) r"
proof (induction n arbitrary: r rule: inline.induct)
  case (1 l ns)
  then have "fold walk ns t = add_runs (concat (map (md_runs (rn_bold t) (rn_italic t) (rn_code t)) ns)) t" for t
    by (intro fold_inline) (auto simp: list_all_iff)
  then show ?case by (subst walk.simps) simp
next
  case (2 ns)
  then have "fold walk ns t = add_runs (concat (map (md_runs (rn_bold t) (rn_italic t) (rn_code t)) ns)) t" for t
    by (intro fold_inline) (auto simp: list_all_iff)
  then show ?case by (subst walk.simps) simp
next
  case (5 ns)
  then have "fold walk ns t = add_runs (concat (map (md_runs (rn_bold t) (rn_italic t) (rn_code t)) ns)) t" for t
    by (intro fold_inline) (auto simp: list_all_iff)
  then show ?case by (subst walk.simps) simp
next
  case (8 ns)
  then have "fold walk ns t = add_runs (concat (map (md_runs (rn_bold t) (rn_italic t) (rn_code t)) ns)) t" for t
    by (intro fold_inline) (auto simp: list_all_iff)
  then show ?case by (subst walk.simps) simp
qed (subst walk.simps, simp add: emit_runs add_runs_append Let_def)+

definition idle :: "renderer \<Rightarrow> bool" where
  "idle r \<longleftrightarrow> rn_cur r = None \<and> rn_pending r = [] \<and> rn_bold r = 0 \<and> rn_italic r = 0 \<and> rn_code r = 0"

text \<open>A line of inline text with no paragraph open, and into the paragraph that was just opened.\<close>

lemma line_walk:
  assumes "list_all inline ns" "rn_bold r = 0" "rn_italic r = 0" "rn_code r = 0"
  shows "fold walk ns r = add_runs (line_runs ns) r"
  using fold_inline[of ns r] walk_inline assms by (simp add: list_all_iff line_runs_def)

lemma line_into_open:
  "add_runs xs (open_paragraph r) =
     (open_paragraph r)\<lparr>rn_doc := rn_doc r @ [\<lparr>pg_text = [], pg_style = rn_pending r, pg_runs = xs\<rparr>]\<rparr>"
  by (simp add: add_runs_def Let_def)

lemma open_frame [simp]: "rn_pending (open_paragraph r) = []" "idle (r\<lparr>rn_in_list := x\<rparr>) = idle r" "idle (r\<lparr>rn_ordered := y\<rparr>) = idle r"
  by (simp_all add: idle_def)

lemma walk_item:
  assumes "item_lines n = Some ns" "idle r"
  shows "idle (walk n r) \<and> rn_ordered (walk n r) = rn_ordered r \<and>
    rn_doc (walk n r) = rn_doc r @ [styled (if rn_ordered r then ''ListNumber'' else ''ListBullet'') ns]"
proof -
  let ?r = "r\<lparr>rn_pending := (if rn_ordered r then ''ListNumber'' else ''ListBullet'')\<rparr>"
  have o: "rn_ordered (open_paragraph t) = rn_ordered t" for t
    by (simp add: open_paragraph_def add_paragraph_def Let_def)
  from assms(1) consider "n = MdItem []" "ns = []" | "n = MdItem [MdParagraph ns]" "list_all inline ns"
    | "n = MdItem [MdOther ns]" "list_all inline ns"
    by (auto simp: item_lines_def split: mdnode.splits list.splits if_splits)
  then show ?thesis
  proof cases
    case 1
    with assms(2) o[of ?r] show ?thesis by (subst (1 2 3) walk.simps) (simp add: idle_def styled_def line_runs_def)
  next
    case 2
    have "fold walk ns (open_paragraph ?r) = add_runs (line_runs ns) (open_paragraph ?r)"
      using 2(2) assms(2) by (intro line_walk) (simp_all add: idle_def)
    then have "walk (MdParagraph ns) (open_paragraph ?r) = (add_runs (line_runs ns) (open_paragraph ?r))\<lparr>rn_cur := None\<rparr>"
      by (subst walk.simps) simp
    then have "walk n r = (add_runs (line_runs ns) (open_paragraph ?r))\<lparr>rn_cur := None\<rparr>"
      by (subst walk.simps) (simp add: 2(1))
    with assms(2) o[of ?r] show ?thesis by (simp add: line_into_open idle_def styled_def)
  next
    case 3
    have "fold walk ns (open_paragraph ?r) = add_runs (line_runs ns) (open_paragraph ?r)"
      using 3(2) assms(2) by (intro line_walk) (simp_all add: idle_def)
    then have "walk (MdOther ns) (open_paragraph ?r) = add_runs (line_runs ns) (open_paragraph ?r)"
      by (subst walk.simps) simp
    then have "walk n r = (add_runs (line_runs ns) (open_paragraph ?r))\<lparr>rn_cur := None\<rparr>"
      by (subst walk.simps) (simp add: 3(1))
    with assms(2) o[of ?r] show ?thesis by (simp add: line_into_open idle_def styled_def)
  qed
qed

lemma walk_items:
  "list_all (\<lambda>n. item_lines n \<noteq> None) ns \<Longrightarrow> idle r \<Longrightarrow>
     idle (fold walk ns r) \<and> rn_doc (fold walk ns r) =
       rn_doc r @ map (\<lambda>n. styled (if rn_ordered r then ''ListNumber'' else ''ListBullet'') (the (item_lines n))) ns"
proof (induction ns arbitrary: r)
  case (Cons n ns)
  then obtain xs where "item_lines n = Some xs" by auto
  with walk_item[OF this Cons.prems(2)] Cons.IH[of "walk n r"] Cons.prems(1) show ?case by simp
qed simp

lemma code_lines: "fold (\<lambda>l. add_paragraph (code_para l)) ls r = r\<lparr>rn_doc := rn_doc r @ map code_para ls\<rparr>"
  by (induction ls arbitrary: r) (simp_all add: add_paragraph_def)

lemma walk_block:
  "plain_block n \<Longrightarrow> idle r \<Longrightarrow> idle (walk n r) \<and> rn_doc (walk n r) = rn_doc r @ block_paras n"
proof (induction n arbitrary: r rule: plain_block.induct)
  case (1 l ns)
  let ?r = "r\<lparr>rn_pending := heading_style l\<rparr>"
  have "fold walk ns ?r = add_runs (line_runs ns) (open_paragraph ?r)"
    using 1 line_walk[of ns ?r] add_runs_closed[of ?r "line_runs ns"] by (simp add: idle_def)
  then have "walk (MdHeading l ns) r = (add_runs (line_runs ns) (open_paragraph ?r))\<lparr>rn_cur := None\<rparr>"
    by (subst walk.simps) simp
  with 1(2) show ?case by (simp add: line_into_open idle_def styled_def)
next
  case (2 ns)
  have "fold walk ns (open_paragraph r) = add_runs (line_runs ns) (open_paragraph r)"
    using 2 by (intro line_walk) (simp_all add: idle_def)
  then have "walk (MdParagraph ns) r = (add_runs (line_runs ns) (open_paragraph r))\<lparr>rn_cur := None\<rparr>"
    using 2(2) by (subst walk.simps) (simp add: idle_def)
  with 2(2) show ?case by (simp add: line_into_open idle_def styled_def)
next
  case (3 ordered ns)
  from walk_items[of ns "r\<lparr>rn_in_list := True, rn_ordered := ordered\<rparr>"] 3
  show ?case by (subst (1 2) walk.simps) simp
next
  case (7 ns)
  have "list_all plain_block ns \<Longrightarrow> idle t \<Longrightarrow> idle (fold walk ns t) \<and> rn_doc (fold walk ns t) = rn_doc t @ concat (map block_paras ns)" for t
    using 7(1) by (induction ns arbitrary: t) auto
  with 7(2,3) show ?case by (subst (1 2) walk.simps) simp
qed (subst (1 2) walk.simps; simp add: code_lines add_paragraph_def idle_def)+

text \<open>On a document of paragraphs, headings that are not empty, flat lists, code blocks, rules and blocks around
  them, the renderer, which keeps the open paragraph, the style to come and the nesting of formats as it
  walks, appends exactly the paragraphs the structure says, in order, to what the template has: each
  block its own paragraph with its style, each text once, under the formats around it and no others.\<close>

theorem render_plain:
  assumes "list_all plain_block bs"
  shows "rn_doc (walk (MdDocument bs) (new_renderer doc)) = doc @ concat (map block_paras bs)"
proof -
  have "idle (new_renderer doc)" "rn_doc (new_renderer doc) = doc" by (simp_all add: idle_def new_renderer_def)
  moreover have "plain_block (MdOther bs)" using assms by simp
  moreover have "walk (MdDocument bs) r = walk (MdOther bs) r" for r by (subst (1 2) walk.simps) simp
  ultimately show ?thesis using walk_block[of "MdOther bs" "new_renderer doc"] by simp
qed

theorem render_plain_witness:
  "map pg_style (rn_doc (walk (MdDocument
      [MdHeading 9 [MdText ''A'' False False], MdList True [MdItem [MdOther [MdEmphasis 2 [MdText ''b'' False False]]]]])
      (new_renderer []))) = [heading_style 6, ''ListNumber'']"
proof -
  have "list_all plain_block [MdHeading 9 [MdText ''A'' False False], MdList True [MdItem [MdOther [MdEmphasis 2 [MdText ''b'' False False]]]]]"
    by (simp add: item_lines_def line_runs_def fmt_run_def)
  from render_plain[OF this, of "[]"] show ?thesis by (simp add: styled_def heading_style_def)
qed

text \<open>An empty heading opens no paragraph, so its style goes to the paragraph after it.\<close>

lemma empty_heading_leaks:
  "rn_doc (walk (MdDocument [MdHeading 1 [], MdParagraph [MdText t False False]]) (new_renderer [])) =
     [styled (heading_style 1) [MdText t False False]]"
  by (simp add: walk.simps new_renderer_def emit_runs line_into_open line_runs_def styled_def heading_style_def add_runs_def)

text \<open>A bullet list inside the first item of a numbered list: the second item is a bullet too.\<close>

lemma nested_list_renumbers:
  "map pg_style (rn_doc (walk (MdDocument [MdList True [MdItem [MdList False [MdItem []]], MdItem []]]) (new_renderer []))) =
     [''ListNumber'', ''ListBullet'', ''ListBullet'']"
  by (simp add: walk.simps new_renderer_def open_paragraph_def add_paragraph_def plain_para_def)

subsection \<open>The converter's task\<close>

record doc_input =
  di_markdown :: string
  di_files :: "(string \<times> string) list"
  di_volume :: string
  di_subdir :: string
  di_filename :: string
  di_template :: "(string \<times> string) option"

text \<open>How a task is answered: an error code, whose message is left out, or a result.\<close>

datatype 'r task_end = TaskFail int | TaskReply 'r

definition memory_file :: "'w agent \<Rightarrow> string \<times> string \<Rightarrow> 'w \<Rightarrow> (int + string) \<times> 'w" where
  "memory_file agent ref s =
     (case agent (MemoryGet (fst ref) (trim_prefix (snd ref) ''memory/'')) s of
        (Inl _, s) \<Rightarrow> (Inl 500, s)
      | (Inr r, s) \<Rightarrow> if \<not> rp_exists r then (Inl 404, s) else (Inr (rp_value r), s))"

definition source_text :: "'w agent \<Rightarrow> doc_input \<Rightarrow> 'w \<Rightarrow> (int + string) \<times> 'w" where
  "source_text agent i s =
     (if di_markdown i \<noteq> [] then (Inr (di_markdown i), s)
      else case di_files i of [] \<Rightarrow> (Inl 400, s) | ref # _ \<Rightarrow> memory_file agent ref s)"

text \<open>\<open>tmp_ok\<close> says whether the temporary file for the template could be made.\<close>

definition template_file :: "'w agent \<Rightarrow> bool \<Rightarrow> doc_input \<Rightarrow> 'w \<Rightarrow> (int + string option) \<times> 'w" where
  "template_file agent tmp_ok i s =
     (case di_template i of
        None \<Rightarrow> (Inr None, s)
      | Some ref \<Rightarrow>
          (case memory_file agent ref s of
             (Inl code, s) \<Rightarrow> (Inl code, s)
           | (Inr bytes, s) \<Rightarrow> if tmp_ok then (Inr (Some bytes), s) else (Inl 500, s)))"

definition output_key :: "int \<Rightarrow> doc_input \<Rightarrow> string" where
  "output_key now i =
     (let f = (if di_filename i = [] then ''doc-'' @ show_int now @ ''.docx'' else di_filename i);
          f = (if \<not> has_suffix f ''.docx'' then f @ ''.docx'' else f)
      in if di_subdir i \<noteq> [] then join_path [di_subdir i, f] else f)"

definition md_to_doc :: "(string \<Rightarrow> doc_input option) \<Rightarrow> (string \<Rightarrow> string option \<Rightarrow> string res) \<Rightarrow> bool \<Rightarrow> int \<Rightarrow> 'w agent
    \<Rightarrow> string \<Rightarrow> 'w \<Rightarrow> (string \<times> int) task_end \<times> 'w" where
  "md_to_doc decode render tmp_ok now agent input s =
     (case decode input of
        None \<Rightarrow> (TaskFail 400, s)
      | Some i \<Rightarrow>
          if di_volume i = [] then (TaskFail 400, s)
          else case source_text agent i s of
              (Inl code, s) \<Rightarrow> (TaskFail code, s)
            | (Inr src, s) \<Rightarrow>
                (case template_file agent tmp_ok i s of
                   (Inl code, s) \<Rightarrow> (TaskFail code, s)
                 | (Inr template, s) \<Rightarrow>
                     (case render src template of
                        Inl _ \<Rightarrow> (TaskFail 500, s)
                      | Inr out \<Rightarrow>
                          (case agent (MemoryPut (di_volume i) (output_key now i) out) s of
                             (Inl _, s) \<Rightarrow> (TaskFail 500, s)
                           | (Inr _, s) \<Rightarrow>
                               (TaskReply (di_volume i @ '':memory/'' @ output_key now i, int (length out)), s)))))"

subsection \<open>The small agents\<close>

text \<open>fetch: the status, the size and the first 200 bytes of a page.\<close>

definition fetch_task :: "(string \<Rightarrow> string option) \<Rightarrow> 'w agent \<Rightarrow> string \<Rightarrow> 'w \<Rightarrow> (int \<times> int \<times> string) task_end \<times> 'w" where
  "fetch_task decode agent input s =
     (case decode input of
        None \<Rightarrow> (TaskFail 1, s)
      | Some url \<Rightarrow>
          (case agent (NetFetch ''GET'' url [] []) s of
             (Inl _, s) \<Rightarrow> (TaskFail 2, s)
           | (Inr r, s) \<Rightarrow>
               (let head = (if length (rp_body r) > 200 then take 200 (rp_body r) else rp_body r)
                in (TaskReply (rp_status r, int (length (rp_body r)), head), s))))"

definition summarize_task :: "(string \<Rightarrow> string option) \<Rightarrow> 'w agent \<Rightarrow> string \<Rightarrow> 'w \<Rightarrow> (string \<times> int \<times> int \<times> int) task_end \<times> 'w" where
  "summarize_task decode agent input s =
     (case decode input of
        None \<Rightarrow> (TaskFail 1, s)
      | Some t \<Rightarrow>
          if t = [] then (TaskFail 1, s)
          else case agent (LlmComplete [] ''gpt-4o-mini''
                 [\<lparr>mg_role = ''system'', mg_content = ''Summarise the user'' @ [CHR 0x27] @ ''s text in one sentence.''\<rparr>,
                  \<lparr>mg_role = ''user'', mg_content = t\<rparr>] 128) s of
              (Inl _, s) \<Rightarrow> (TaskFail 2, s)
            | (Inr r, s) \<Rightarrow> (TaskReply (rp_text r, rp_prompt_tokens r, rp_completion_tokens r, rp_total_tokens r), s))"

text \<open>upper: \<open>str\<close> and \<open>obj\<close> are the two readings of the input, as a JSON string and as an object's text.\<close>

definition extract_text :: "(string \<Rightarrow> string option) \<Rightarrow> (string \<Rightarrow> string option) \<Rightarrow> string \<Rightarrow> string" where
  "extract_text str obj raw = (case str raw of Some t \<Rightarrow> t | None \<Rightarrow> (case obj raw of Some t \<Rightarrow> t | None \<Rightarrow> raw))"

definition ascii_upper :: "string \<Rightarrow> string" where
  "ascii_upper s = map (\<lambda>c. if CHR ''a'' \<le> c \<and> c \<le> CHR ''z'' then char_of (of_char c - 32 :: nat) else c) s"

definition upper_task :: "(string \<Rightarrow> string option) \<Rightarrow> (string \<Rightarrow> string option) \<Rightarrow> string \<Rightarrow> string task_end" where
  "upper_task str obj input = TaskReply (ascii_upper (extract_text str obj input))"

text \<open>A message of a peer is answered to that peer, outside any conversation.\<close>

definition upper_peer :: "(string \<Rightarrow> string option) \<Rightarrow> (string \<Rightarrow> string option) \<Rightarrow> 'w agent \<Rightarrow> string \<times> string \<times> string \<Rightarrow> 'w \<Rightarrow> 'w" where
  "upper_peer str obj agent m s =
     (case m of (from, conv, payload) \<Rightarrow>
        snd (agent (PeerSend from (WObj [(''text'', WStr (ascii_upper (extract_text str obj payload)))]) []) s))"

text \<open>echo, without the SDK: what it writes for each line. \<open>parse\<close> reads the id, the method and the parameters,
  \<open>run\<close> the task's id and input of the parameters, empty when they do not decode.\<close>

datatype echo_out = EchoAck string | EchoLog | EchoDone string string | EchoNoMethod string string

fun echo_main :: "(string \<Rightarrow> (string \<times> string \<times> string) option) \<Rightarrow> (string \<Rightarrow> string \<times> string) \<Rightarrow> string list \<Rightarrow> echo_out list" where
  "echo_main parse run [] = []"
| "echo_main parse run (l # ls) =
     (case parse l of
        None \<Rightarrow> echo_main parse run ls
      | Some (i, meth, params) \<Rightarrow>
          if meth = ''task/run'' then
            [EchoAck i, EchoLog, EchoDone (fst (run params)) (snd (run params))] @ echo_main parse run ls
          else if meth = ''shutdown'' then []
          else if i \<noteq> [] then EchoNoMethod i meth # echo_main parse run ls
          else echo_main parse run ls)"

text \<open>What the converter replies is what it stored: the document of the source, under the key it names, of the
  size it gives, and nothing is stored when it fails before that.\<close>

lemma md_to_doc_reply:
  assumes "md_to_doc decode render tmp_ok now agent input s = (TaskReply (saved, n), s')"
  shows "\<exists>i src template out t r. decode input = Some i \<and> render src template = Inr out \<and> n = int (length out)
    \<and> saved = di_volume i @ '':memory/'' @ output_key now i \<and> agent (MemoryPut (di_volume i) (output_key now i) out) t = (Inr r, s')"
  using assms by (fastforce simp: md_to_doc_def split: option.splits if_splits prod.splits sum.splits)

text \<open>The answer of upper to a peer is never part of the conversation the question came in.\<close>

lemma upper_leaves_conversation:
  "\<exists>p. upper_peer str obj agent (from, conv, payload) s = snd (agent (PeerSend from p []) s)"
  by (auto simp: upper_peer_def)

end
