(* ===== verification/Isolation.thy ===== *)
theory Isolation
  imports Agent_Server
begin

section \<open>Rooms are kept apart\<close>

text \<open>
  What agents of other Rooms can do to a Room and what they can learn of it, over \<open>serve_agent\<close>. A Room's own
  part is its members and bindings, its state file, the counters and limits of its agents, and its directory:
  its root file system, workspace, memory and logs. Volumes, images, events and conversations are shared by
  design and are outside of it. Two relations on states carry the proofs: \<open>same_room\<close>, that the own part of a
  Room is the same, and \<open>same_but\<close>, that two states differ in nothing but the own part of a Room. Every handler
  respects both, and the locale \<open>unwinding\<close> makes runs of requests of that.
\<close>

subsection \<open>Runs of steps that respect a view\<close>

locale unwinding =
  fixes step :: "'a \<Rightarrow> 's \<Rightarrow> 'r \<times> 's"
    and who :: "'a \<Rightarrow> 'd"
    and fair :: "'a \<Rightarrow> bool"
    and inv :: "'s \<Rightarrow> bool"
    and proper :: "'d \<Rightarrow> bool"
    and same :: "'d \<Rightarrow> 's \<Rightarrow> 's \<Rightarrow> bool"
    and but :: "'d \<Rightarrow> 's \<Rightarrow> 's \<Rightarrow> bool"
  assumes keeps: "inv s \<Longrightarrow> fair a \<Longrightarrow> inv (snd (step a s))"
    and respects: "inv s \<Longrightarrow> fair a \<Longrightarrow> proper q \<Longrightarrow> who a \<noteq> q \<Longrightarrow> same q s (snd (step a s))"
    and same_refl: "same q s s"
    and same_trans: "same q s t \<Longrightarrow> same q t u \<Longrightarrow> same q s u"
    and consistent: "inv s \<Longrightarrow> inv t \<Longrightarrow> fair a \<Longrightarrow> proper q \<Longrightarrow> who a \<noteq> q \<Longrightarrow> but q s t \<Longrightarrow>
      fst (step a s) = fst (step a t) \<and> but q (snd (step a s)) (snd (step a t))"
begin

fun runs :: "'a list \<Rightarrow> 's \<Rightarrow> 'r list \<times> 's" where
  "runs [] s = ([], s)"
| "runs (a # acts) s = (fst (step a s) # fst (runs acts (snd (step a s))), snd (runs acts (snd (step a s))))"

lemma undisturbed:
  "inv s \<Longrightarrow> \<forall>a \<in> set acts. fair a \<and> who a \<noteq> q \<Longrightarrow> proper q \<Longrightarrow> inv (snd (runs acts s)) \<and> same q s (snd (runs acts s))"
proof (induction acts arbitrary: s)
  case (Cons a acts)
  with keeps[of s a] have "inv (snd (runs acts (snd (step a s)))) \<and> same q (snd (step a s)) (snd (runs acts (snd (step a s))))"
    by simp
  with Cons.prems respects[of s a q] same_trans show ?case by auto
qed (simp add: same_refl)

lemma unaware:
  "inv s \<Longrightarrow> inv t \<Longrightarrow> but q s t \<Longrightarrow> \<forall>a \<in> set acts. fair a \<and> who a \<noteq> q \<Longrightarrow> proper q \<Longrightarrow>
     fst (runs acts s) = fst (runs acts t)"
proof (induction acts arbitrary: s t)
  case (Cons a acts)
  with consistent[of s t a q] keeps[of s a] keeps[of t a] Cons.IH[of "snd (step a s)" "snd (step a t)"] show ?case by simp
qed simp

end

subsection \<open>Counters\<close>

text \<open>Two actors agree on the keys of the Rooms in \<open>P\<close>.\<close>

definition same_quota :: "(string \<Rightarrow> bool) \<Rightarrow> actor \<Rightarrow> actor \<Rightarrow> bool" where
  "same_quota P a b \<longleftrightarrow> stopped a = stopped b \<and> (\<forall>k. P (k_room k) \<longrightarrow> agree k a b)"

text \<open>An operation on the counters of one Room: the others stay, and it sees no others.\<close>

definition room_local :: "string \<Rightarrow> (actor \<Rightarrow> 'r \<times> actor) \<Rightarrow> bool" where
  "room_local rid f \<longleftrightarrow> (\<forall>a. same_quota (\<lambda>r. r \<noteq> rid) a (snd (f a)))
     \<and> (\<forall>a b. same_quota ((=) rid) a b \<longrightarrow> fst (f a) = fst (f b) \<and> same_quota ((=) rid) (snd (f a)) (snd (f b)))"

lemma same_quota_refl [simp]: "same_quota P a a"
  by (simp add: same_quota_def agree_def)

lemma same_quota_sym: "same_quota P a b \<Longrightarrow> same_quota P b a"
  by (simp add: same_quota_def agree_def)

lemma same_quota_trans: "same_quota P a b \<Longrightarrow> same_quota P b c \<Longrightarrow> same_quota P a c"
  by (simp add: same_quota_def agree_def)

lemma room_localD:
  assumes "room_local rid f"
  shows "same_quota (\<lambda>r. r \<noteq> rid) a (snd (f a))"
    and "same_quota ((=) rid) a b \<Longrightarrow> fst (f a) = fst (f b) \<and> same_quota ((=) rid) (snd (f a)) (snd (f b))"
  using assms unfolding room_local_def by blast+

lemma room_local_return [intro]: "room_local rid (Pair x)"
  by (simp add: room_local_def)

lemma room_local_bind [intro]:
  assumes f: "room_local rid f" and g: "\<And>x. room_local rid (g x)"
  shows "room_local rid (\<lambda>a. case f a of (x, a) \<Rightarrow> g x a)"
  unfolding room_local_def
proof (intro conjI allI impI)
  fix a
  show "same_quota (\<lambda>r. r \<noteq> rid) a (snd (case f a of (x, a) \<Rightarrow> g x a))"
    using room_localD(1)[OF f, of a] room_localD(1)[OF g, of "snd (f a)" "fst (f a)"]
    by (auto simp: split_beta intro: same_quota_trans)
next
  fix a b
  assume "same_quota ((=) rid) a b"
  with room_localD(2)[OF f, of a b] room_localD(2)[OF g, of "snd (f a)" "snd (f b)" "fst (f a)"]
  show "fst (case f a of (x, a) \<Rightarrow> g x a) = fst (case f b of (x, a) \<Rightarrow> g x a)"
    and "same_quota ((=) rid) (snd (case f a of (x, a) \<Rightarrow> g x a)) (snd (case f b of (x, a) \<Rightarrow> g x a))"
    by (auto simp: split_beta)
qed

lemma room_local_map: "room_local rid f \<Longrightarrow> room_local rid (\<lambda>a. case f a of (x, a) \<Rightarrow> (h x, a))"
  by (rule room_local_bind) auto

lemma call_agree:
  assumes "stopped a = stopped b" "agree (rq_key r) a b"
  shows "fst (call a r) = fst (call b r)" "agree (rq_key r) (snd (call a r)) (snd (call b r))"
  using assms serve_agree[OF assms(2)] by (simp_all add: call_def split_beta Let_def)

lemma call_others: "stopped (snd (call a r)) = stopped a" "k \<noteq> rq_key r \<Longrightarrow> agree k a (snd (call a r))"
  by (simp_all add: call_def split_beta Let_def serve_stopped serve_other agree_def)

lemma room_local_call:
  assumes "k_room (rq_key r) = rid"
  shows "room_local rid (\<lambda>a. call a r)"
  unfolding room_local_def
proof (intro conjI allI impI)
  fix a
  have "k \<noteq> rq_key r" if "k_room k \<noteq> rid" for k using assms that by auto
  then show "same_quota (\<lambda>r. r \<noteq> rid) a (snd (call a r))" by (simp add: same_quota_def call_others)
next
  fix a b
  assume ab: "same_quota ((=) rid) a b"
  then have r: "stopped a = stopped b" "agree (rq_key r) a b" using assms by (simp_all add: same_quota_def)
  show "fst (call a r) = fst (call b r)" by (rule call_agree(1)[OF r])
  have "agree k (snd (call a r)) (snd (call b r))" if "rid = k_room k" for k
  proof (cases "k = rq_key r")
    case False
    with that ab call_others(2)[of k r a] call_others(2)[of k r b] show ?thesis by (simp add: same_quota_def agree_def)
  qed (use call_agree(2)[OF r] in simp)
  with r(1) show "same_quota ((=) rid) (snd (call a r)) (snd (call b r))" by (simp add: same_quota_def call_others)
qed

lemma room_local_consume: "k_room k = rid \<Longrightarrow> room_local rid (\<lambda>a. consume a k n)"
  using room_local_return[of rid "Inl Plain"] room_local_call[of "req OpConsume k n" rid]
  by (cases "n < 0") (simp_all add: consume_def req_def)

lemma room_local_set_limit: "k_room k = rid \<Longrightarrow> room_local rid (\<lambda>a. set_limit a k n)"
  using room_local_call[of "req OpSetLimit k n" rid] by (simp add: set_limit_def req_def)

subsection \<open>The metered handlers and the carve, on the counters\<close>

definition paired :: "('a \<Rightarrow> 'x \<times> 'y \<times> 'a) \<Rightarrow> 'a \<Rightarrow> ('x \<times> 'y) \<times> 'a" where
  "paired f a = (case f a of (x, y, b) \<Rightarrow> ((x, y), b))"

lemma meter_key_room [simp]: "k_room (meter_key p r) = mt_room p"
  by (simp add: meter_key_def)

lemma room_local_cong: "room_local rid g \<Longrightarrow> (\<And>a. f a = g a) \<Longrightarrow> room_local rid f"
  by (simp add: room_local_def)

text \<open>A handler that makes one charge and does not look at the counters otherwise, and one that makes none.\<close>

lemma room_local_charge:
  assumes k: "k_room k = rid"
    and f: "\<And>a a1 x b b1. consume a k n = (x, a1) \<Longrightarrow> consume b k n = (x, b1) \<Longrightarrow> fst (f a) = fst (f b) \<and> snd (f a) = a1"
  shows "room_local rid f"
  unfolding room_local_def
proof (intro conjI allI impI)
  fix a
  show "same_quota (\<lambda>r. r \<noteq> rid) a (snd (f a))"
    using room_localD(1)[OF room_local_consume[OF k], of a n] f[of a "fst (consume a k n)" "snd (consume a k n)" a "snd (consume a k n)"] by simp
next
  fix a b
  assume "same_quota ((=) rid) a b"
  from room_localD(2)[OF room_local_consume[OF k] this, of n]
  obtain x a1 b1 where "consume a k n = (x, a1)" "consume b k n = (x, b1)" "same_quota ((=) rid) a1 b1"
    by (metis prod.collapse)
  with f[of a x a1 b b1] f[of b x b1 a a1]
  show "fst (f a) = fst (f b)" and "same_quota ((=) rid) (snd (f a)) (snd (f b))" by simp_all
qed

lemma room_local_free: "(\<And>a. f a = (y, a)) \<Longrightarrow> room_local rid f"
  using room_local_return[of rid y] by (simp add: room_local_def)

lemma net_fetch_local: "room_local (mt_room p) (paired (net_fetch w p ps))"
proof (cases "\<exists>r. ps = Some r \<and> net_allowed (mt_rank p)")
  case True
  then show ?thesis
    by (intro room_local_charge[of "meter_key p ''http''" _ 1])
       (auto simp: paired_def net_fetch_def Let_def split: sum.split option.split)
next
  case False
  then show ?thesis
    by (intro room_local_free[where y = "(Inl (if ps = None then InvalidParams else PermissionDenied), [])"])
       (auto simp: paired_def net_fetch_def split: option.split)
qed

lemma ai_tool_local: "room_local (mt_room p) (paired (ai_tool_invoke ap ws p ps))"
proof (cases "\<exists>ip pv. ps = Some ip \<and> ap = Some pv \<and> ai_tool_allowed (mt_rank p) \<and> (ap_tool ip = [] \<or> ap_tool ip = ai_name pv)")
  case True
  then obtain ip pv where "ps = Some ip" "ap = Some pv" "ai_tool_allowed (mt_rank p)" "ap_tool ip = [] \<or> ap_tool ip = ai_name pv"
    by blast
  then show ?thesis
    by (intro room_local_charge[of "meter_key p (''ai_tool:'' @ ai_name pv)" _ 1])
       (auto simp: paired_def ai_tool_invoke_def Let_def split: sum.split option.split)
next
  case False
  then show ?thesis
    by (intro room_local_free[where y = "fst (paired (ai_tool_invoke ap ws p ps) new_actor)"])
       (auto simp: paired_def ai_tool_invoke_def split: option.split)
qed

lemma llm_local: "room_local (mt_room p) (paired (llm_complete pv p ps))"
proof (cases "\<exists>cp v. ps = Some cp \<and> pv = Some v \<and> llm_allowed (mt_rank p)")
  case True
  then obtain cp v where c: "ps = Some cp" "pv = Some v" "llm_allowed (mt_rank p)" by blast
  define cp1 where "cp1 = (if lp_provider cp = [] then cp\<lparr>lp_provider := pv_name v\<rparr> else cp)"
  define cp2 where "cp2 = (if lp_model cp1 = [] then cp1\<lparr>lp_model := ''gpt-4o-mini''\<rparr> else cp1)"
  have run: "paired (llm_complete pv p ps) a = (case pv_complete v cp2 of
      None \<Rightarrow> ((Inl Plain, [cp2]), a)
    | Some r \<Rightarrow> (case consume a (meter_key p (''tokens:'' @ lp_model cp2)) (lr_total_tokens r) of
        (x, a) \<Rightarrow> ((case x of Inl e \<Rightarrow> Inl e | Inr x \<Rightarrow> if r_allowed x then Inr r else Inl QuotaExceeded, [cp2]), a)))" for a
    unfolding cp2_def cp1_def using c by (simp add: paired_def llm_complete_def Let_def split: option.split prod.split sum.split)
  show ?thesis
  proof (cases "pv_complete v cp2")
    case (Some r)
    then show ?thesis
      by (intro room_local_charge[of "meter_key p (''tokens:'' @ lp_model cp2)" _ "lr_total_tokens r"]) (simp_all add: run)
  qed (auto simp: run intro: room_local_free)
next
  case False
  then show ?thesis
    by (intro room_local_free[where y = "fst (paired (llm_complete pv p ps) new_actor)"])
       (auto simp: paired_def llm_complete_def split: option.split)
qed

lemma carve_local: "room_local rid (carve_buckets rid nm bs)"
proof (induction bs)
  case Nil
  show ?case by (rule room_local_free) simp
next
  case (Cons b bs)
  obtain r n where b: "b = (r, n)" by (cases b)
  define g where "g x = (case x of Inl _ \<Rightarrow> Pair (Inl Internal)
      | Inr x \<Rightarrow> if r_unlimited x then carve_buckets rid nm bs
          else if \<not> r_allowed x then Pair (Inl QuotaExceeded) else carve_buckets rid nm bs)" for x :: "qresult res"
  have g: "room_local rid (g x)" for x using Cons.IH by (cases x) (auto simp: g_def)
  have run: "carve_buckets rid nm (b # bs) =
      (if n \<le> 0 then carve_buckets rid nm bs else (\<lambda>a. case consume a (bucket_key rid nm r) n of (x, a) \<Rightarrow> g x a))"
    by (auto simp: b g_def fun_eq_iff split: prod.split sum.split)
  have "room_local rid (\<lambda>a. case consume a (bucket_key rid nm r) n of (x, a) \<Rightarrow> g x a)"
    by (rule room_local_bind[OF room_local_consume g]) (simp add: bucket_key_def)
  with Cons.IH run show ?case by simp
qed

lemma install_local: "room_local rid (\<lambda>a. ((), install_quota rid m a))"
proof -
  have "room_local rid (\<lambda>a. ((), foldl (\<lambda>a (r, v). snd (set_limit a (bucket_key rid nm r) v)) a bs))" for nm bs
  proof (induction bs)
    case (Cons b bs)
    obtain r v where b: "b = (r, v)" by (cases b)
    have "room_local rid (\<lambda>a. case set_limit a (bucket_key rid nm r) v of
        (x, a) \<Rightarrow> ((), foldl (\<lambda>a (r, v). snd (set_limit a (bucket_key rid nm r) v)) a bs))"
      by (rule room_local_bind[OF room_local_set_limit Cons.IH]) (simp add: bucket_key_def)
    moreover have "(\<lambda>a. ((), foldl (\<lambda>a (r, v). snd (set_limit a (bucket_key rid nm r) v)) a (b # bs))) =
        (\<lambda>a. case set_limit a (bucket_key rid nm r) v of
          (x, a) \<Rightarrow> ((), foldl (\<lambda>a (r, v). snd (set_limit a (bucket_key rid nm r) v)) a bs))"
      by (simp add: b fun_eq_iff split_beta)
    ultimately show ?case by simp
  qed (auto intro: room_local_free)
  then show ?thesis by (simp add: install_quota_def)
qed

subsection \<open>Where agents' paths lead\<close>

definition room_dir :: "hdaemon \<Rightarrow> string \<Rightarrow> string" where
  "room_dir d rid = join_path [hd_rooms_dir d, rid]"

definition disjoint_dirs :: "string \<Rightarrow> string \<Rightarrow> bool" where
  "disjoint_dirs a b \<longleftrightarrow> \<not> under_dir a b \<and> \<not> under_dir b a"

text \<open>The daemon's directories are disjoint, Room ids are names, and what is mounted into an agent is its Room's
  workspace or a volume.\<close>

definition laid_mount :: "rdaemon \<Rightarrow> string \<Rightarrow> string \<Rightarrow> bool" where
  "laid_mount s rid src \<longleftrightarrow> src = workspace_dir (rd_core s) rid \<or> (\<exists>n. volume_dir (rd_vol_root s) n = Inr src)"

definition laid_members :: "rdaemon \<Rightarrow> string \<Rightarrow> hroom \<Rightarrow> bool" where
  "laid_members s rid r \<longleftrightarrow>
     (\<forall>x \<in> set (hr_members r). \<forall>t \<in> set (hm_mounts (snd x)). laid_mount s rid (mnt_source t))"

definition laid_dirs :: "rdaemon \<Rightarrow> bool" where
  "laid_dirs s \<longleftrightarrow> proper_dir (hd_rooms_dir (rd_core s)) \<and> proper_dir (rd_vol_root s) \<and> proper_dir (rd_img_root s)
     \<and> disjoint_dirs (hd_rooms_dir (rd_core s)) (rd_vol_root s) \<and> disjoint_dirs (hd_rooms_dir (rd_core s)) (rd_img_root s)
     \<and> hd_volumes (rd_core s) = (\<lambda>n. volume_get (rd_vol_root s) n (rd_vols s))"

definition laid_out :: "rdaemon \<Rightarrow> bool" where
  "laid_out s \<longleftrightarrow> laid_dirs s
     \<and> (\<forall>rid r. hd_rooms (rd_core s) rid = Some r \<longrightarrow> is_name rid \<and> laid_members s rid r)"

text \<open>The paths that an agent of a Room may reach.\<close>

definition reach :: "rdaemon \<Rightarrow> string \<Rightarrow> string \<Rightarrow> bool" where
  "reach s rid p \<longleftrightarrow> under_dir (room_dir (rd_core s) rid) p \<or> under_dir (rd_vol_root s) p"

lemma room_dir_form:
  assumes "proper_dir (hd_rooms_dir d)"
  obtains rs where "names rs" "rs \<noteq> []" "hd_rooms_dir d = abs_path rs" "\<And>rid. is_name rid \<Longrightarrow> room_dir d rid = abs_path (rs @ [rid])"
    "\<And>rid x. is_name rid \<Longrightarrow> is_name x \<Longrightarrow> join_path [hd_rooms_dir d, rid, x] = abs_path (rs @ [rid, x])"
proof -
  from assms obtain rs where "names rs" "rs \<noteq> []" "hd_rooms_dir d = abs_path rs" by (rule proper_dir_form)
  with that[of rs] show thesis by (simp add: room_dir_def join_path_name join3_names)
qed

lemma under_apart: "disjoint_dirs a b \<Longrightarrow> under_dir a p \<Longrightarrow> \<not> under_dir b p"
  using under_dir_disjoint[of a p b] by (auto simp: disjoint_dirs_def)

lemma apart_sub: "disjoint_dirs a b \<Longrightarrow> under_dir a c \<Longrightarrow> disjoint_dirs c b"
  using under_dir_disjoint[of a c b] by (auto simp: disjoint_dirs_def dest: under_dir_trans)

lemma room_dir_apart:
  assumes "proper_dir (hd_rooms_dir d)" "disjoint_dirs (hd_rooms_dir d) b" "is_name q"
  shows "disjoint_dirs (room_dir d q) b"
proof -
  from assms(1) obtain rs where "rs \<noteq> []" "hd_rooms_dir d = abs_path rs" "room_dir d q = abs_path (rs @ [q])"
    using assms(3) by (auto elim: room_dir_form)
  with under_dir_app[of rs "[q]"] have "under_dir (hd_rooms_dir d) (room_dir d q)" by simp
  with assms(2) show ?thesis by (rule apart_sub)
qed

lemma rooms_apart:
  assumes "laid_dirs s" "is_name rid" "is_name q" "rid \<noteq> q" "reach s rid p"
  shows "\<not> under_dir (room_dir (rd_core s) q) p"
proof -
  from assms(1) obtain rs where rs: "names rs" "rs \<noteq> []" "hd_rooms_dir (rd_core s) = abs_path rs"
      "\<And>rid. is_name rid \<Longrightarrow> room_dir (rd_core s) rid = abs_path (rs @ [rid])"
    by (auto simp: laid_dirs_def elim: room_dir_form)
  have "disjoint_dirs (room_dir (rd_core s) rid) (room_dir (rd_core s) q)"
    using assms(2-4) rs by (auto simp: disjoint_dirs_def under_dir_abs_iff)
  moreover have "disjoint_dirs (room_dir (rd_core s) q) (rd_vol_root s)"
    using assms(1,3) by (intro room_dir_apart) (simp_all add: laid_dirs_def)
  ultimately show ?thesis using assms(5) under_apart by (fastforce simp: reach_def)
qed

lemma images_apart:
  assumes "laid_dirs s" "is_name q" "under_dir (rd_img_root s) p"
  shows "\<not> under_dir (room_dir (rd_core s) q) p"
proof -
  have "disjoint_dirs (room_dir (rd_core s) q) (rd_img_root s)"
    using assms(1,2) by (intro room_dir_apart) (simp_all add: laid_dirs_def)
  with assms(3) under_apart show ?thesis by blast
qed

lemma is_names: "is_name ''rootfs''" "is_name ''workspace''" "is_name ''memory''"
  by (simp_all add: is_name_def dot_def dotdot_def)

text \<open>The file proxy.\<close>

lemma mount_reach:
  assumes "laid_dirs s" "is_name rid" "laid_mount s rid src"
  shows "proper_dir src \<and> (under_dir src p \<longrightarrow> reach s rid p)"
proof -
  from assms(1) obtain rs where rs: "names rs" "rs \<noteq> []" "hd_rooms_dir (rd_core s) = abs_path rs"
      "\<And>rid. is_name rid \<Longrightarrow> room_dir (rd_core s) rid = abs_path (rs @ [rid])"
      "\<And>rid x. is_name rid \<Longrightarrow> is_name x \<Longrightarrow> join_path [hd_rooms_dir (rd_core s), rid, x] = abs_path (rs @ [rid, x])"
    by (auto simp: laid_dirs_def elim: room_dir_form)
  from assms(3) show ?thesis unfolding laid_mount_def
  proof
    assume src: "src = workspace_dir (rd_core s) rid"
    then have "src = abs_path ((rs @ [rid]) @ [''workspace''])"
      using rs(5)[OF assms(2) is_names(2)] by (simp add: workspace_dir_def)
    with rs assms(2) under_dir_app[of "rs @ [rid]" "[''workspace'']"] is_names(2) show ?thesis
      by (auto simp: reach_def intro: under_dir_trans proper_dir_abs_path)
  next
    assume "\<exists>n. volume_dir (rd_vol_root s) n = Inr src"
    then obtain n where n: "volume_dir (rd_vol_root s) n = Inr src" ..
    with assms(1) have "proper_dir src"
      by (auto simp: laid_dirs_def volume_dir_def join_path_name valid_volume_is_name proper_dir_abs_path
          elim!: proper_dir_form split: if_splits)
    with n volume_jail.confined[of "rd_vol_root s" n src] assms(1) show ?thesis
      by (auto simp: laid_dirs_def reach_def intro: under_dir_trans)
  qed
qed

lemma resolve_inside:
  assumes "wf_proxy p" "resolve p path = Inr h"
  shows "under_dir (room_rootfs p) h \<or> (\<exists>m \<in> set (fp_mounts p). under_dir (host_path m) h)"
proof -
  from assms(2) have "is_abs path" by (auto simp: resolve_def split: if_splits)
  from resolve_cases[OF assms(1) this] assms(2) show ?thesis by auto
qed

lemma fs_reach:
  assumes "laid_dirs s" "is_name rid" "\<forall>t \<in> set (hm_mounts m). laid_mount s rid (mnt_source t)"
    and "resolve (agent_fs (rd_core s) rid m) path = Inr h"
  shows "reach s rid h"
proof -
  from assms(1) obtain rs where rs: "names rs" "rs \<noteq> []"
      "\<And>rid. is_name rid \<Longrightarrow> room_dir (rd_core s) rid = abs_path (rs @ [rid])"
      "\<And>rid x. is_name rid \<Longrightarrow> is_name x \<Longrightarrow> join_path [hd_rooms_dir (rd_core s), rid, x] = abs_path (rs @ [rid, x])"
    by (auto simp: laid_dirs_def elim: room_dir_form)
  then have root: "rootfs_dir (rd_core s) rid = abs_path ((rs @ [rid]) @ [''rootfs''])"
    using assms(2) is_names(1) by (simp add: rootfs_dir_def)
  then have "proper_dir (rootfs_dir (rd_core s) rid)"
    using rs assms(2) is_names(1) by (auto intro: proper_dir_abs_path)
  moreover have src: "proper_dir (mnt_source t)" "under_dir (mnt_source t) p \<Longrightarrow> reach s rid p" if "t \<in> set (hm_mounts m)" for t p
    using mount_reach[OF assms(1,2), of "mnt_source t" p] assms(3) that by auto
  ultimately have "wf_proxy (agent_fs (rd_core s) rid m)" by (auto simp: agent_fs_def intro: wf_proxy_of)
  then have "under_dir (rootfs_dir (rd_core s) rid) h \<or> (\<exists>t \<in> set (hm_mounts m). under_dir (mnt_source t) h)"
    using resolve_inside[of "agent_fs (rd_core s) rid m" path h] assms(4) set_redirects(1)[of "hm_mounts m"]
    by (auto simp: agent_fs_def fs_proxy_of_def) (metis imageE imageI)
  with src(2) root rs(3)[OF assms(2)] under_dir_app[of "rs @ [rid]" "[''rootfs'']"] show ?thesis
    by (auto simp: reach_def intro: under_dir_trans)
qed

text \<open>The memory proxy: a key without a slash names a file of the directory, or the directory or its parent.\<close>

lemma join_flat:
  assumes "names ds" "ds \<noteq> []" "is_name x" "CHR ''/'' \<notin> set k"
  shows "under_dir (abs_path ds) (join_path [abs_path (ds @ [x]), k])"
proof -
  have "split_on CHR ''/'' k = [k]" using assms(4) by (rule split_on_id)
  moreover have "x \<noteq> dotdot" using assms(3) by (simp add: is_name_def)
  moreover have "names (ds @ [x])" using assms(1,3) by simp
  ultimately have "join_path [abs_path (ds @ [x]), k] \<in> {abs_path (ds @ [x]), abs_path ds, abs_path (ds @ [x, k])}"
    by (cases "k = []") (auto simp: join_path_abs join_path_abs_Nil push_comp_def)
  moreover have "under_dir (abs_path ds) (abs_path (ds @ us))" for us using assms(2) by (rule under_dir_app)
  from this[of "[]"] this[of "[x]"] this[of "[x, k]"] show ?thesis using calculation by auto
qed

lemma mem_reach:
  assumes "laid_dirs s" "is_name rid" "resolve_dir (agent_mem (rd_core s) rid m) scope = Inr dir" "CHR ''/'' \<notin> set k"
  shows "reach s rid (join_path [dir, k])"
proof -
  from assms(1) obtain rs where rs: "names rs" "rs \<noteq> []"
      "\<And>rid. is_name rid \<Longrightarrow> room_dir (rd_core s) rid = abs_path (rs @ [rid])"
      "\<And>rid x. is_name rid \<Longrightarrow> is_name x \<Longrightarrow> join_path [hd_rooms_dir (rd_core s), rid, x] = abs_path (rs @ [rid, x])"
    by (auto simp: laid_dirs_def elim: room_dir_form)
  show ?thesis
  proof (cases "scope = []")
    case True
    then have "dir = abs_path ((rs @ [rid]) @ [''memory''])"
      using assms(2,3) rs(4) is_names(3) by (simp add: resolve_dir_def agent_mem_def)
    with join_flat[of "rs @ [rid]" "''memory''" k] rs assms(2,4) is_names(3) show ?thesis by (simp add: reach_def)
  next
    case False
    with assms(1,3) obtain v where v: "volume_get (rd_vol_root s) scope (rd_vols s) = Inr v" "dir = memory_dir v"
      by (auto simp: resolve_dir_def agent_mem_def laid_dirs_def split: sum.splits)
    then have "volume_dir (rd_vol_root s) scope = Inr (vol_path v)" by (intro volume_get_dir)
    with assms(1,2) have p: "proper_dir (vol_path v)" and u: "under_dir (vol_path v) p \<Longrightarrow> reach s rid p" for p
      using mount_reach[of s rid "vol_path v"] by (auto simp: laid_mount_def)
    from p obtain ds where "names ds" "ds \<noteq> []" "vol_path v = abs_path ds" by (rule proper_dir_form)
    with join_flat[of ds "''memory''" k] assms(4) is_names(3) v(2) u show ?thesis
      by (simp add: memory_dir_def join_path_name)
  qed
qed

subsection \<open>What a Room owns, and states that differ in nothing else\<close>

definition own_part :: "string \<Rightarrow> hserver \<Rightarrow> hserver \<Rightarrow> bool" where
  "own_part q s t \<longleftrightarrow>
     (let c = rd_core (hv_rooms s); d = rd_core (hv_rooms t) in
      hd_rooms_dir d = hd_rooms_dir c \<and> hd_rooms d q = hd_rooms c q \<and> hd_state d q = hd_state c q
      \<and> same_quota ((=) q) (hd_quota c) (hd_quota d)
      \<and> (\<forall>p. under_dir (room_dir c q) p \<longrightarrow> rd_disk (hv_rooms t) p = rd_disk (hv_rooms s) p))"

text \<open>An image reference whose name and version are names: the store keeps it below its root.\<close>

definition plain_ref :: "image_ref \<Rightarrow> bool" where
  "plain_ref r \<longleftrightarrow> is_name (ref_name r) \<and> is_name (ref_version r)"

definition core_but :: "string \<Rightarrow> hdaemon \<Rightarrow> hdaemon \<Rightarrow> bool" where
  "core_but q c d \<longleftrightarrow> hd_rooms_dir d = hd_rooms_dir c \<and> hd_ranks d = hd_ranks c \<and> hd_volumes d = hd_volumes c
     \<and> hd_shutting d = hd_shutting c \<and> (\<forall>r. plain_ref r \<longrightarrow> hd_images d r = hd_images c r)
     \<and> (\<forall>r. r \<noteq> q \<longrightarrow> hd_rooms d r = hd_rooms c r \<and> hd_state d r = hd_state c r)
     \<and> same_quota (\<lambda>r. r \<noteq> q) (hd_quota c) (hd_quota d)"

definition same_but :: "string \<Rightarrow> hserver \<Rightarrow> hserver \<Rightarrow> bool" where
  "same_but q s t \<longleftrightarrow>
     (let r = hv_rooms s; r' = hv_rooms t in
      core_but q (rd_core r) (rd_core r') \<and> hv_convs t = hv_convs s \<and> rd_bus r' = rd_bus r
      \<and> rd_vol_root r' = rd_vol_root r \<and> rd_vols r' = rd_vols r \<and> rd_img_root r' = rd_img_root r
      \<and> rd_notify r' = rd_notify r
      \<and> (\<forall>p. \<not> under_dir (room_dir (rd_core r) q) p \<longrightarrow> rd_disk r' p = rd_disk r p))"

lemma own_part_refl [simp]: "own_part q s s"
  by (simp add: own_part_def Let_def)

lemma own_part_trans: "own_part q s t \<Longrightarrow> own_part q t u \<Longrightarrow> own_part q s u"
  by (auto simp: own_part_def Let_def room_dir_def intro: same_quota_trans)

text \<open>The parts of the state a handler may change, each as an update.\<close>

lemmas set_defs = set_core_def set_quota_def set_bus_def set_files_def sync_lookups_def

lemma own_set_quota: "same_quota ((=) q) (hd_quota (rd_core (hv_rooms s))) a \<Longrightarrow> own_part q s (set_quota a s)"
  by (simp add: own_part_def set_defs)

lemma own_set_bus: "own_part q s (set_bus b s)"
  by (simp add: own_part_def set_defs)

lemma own_set_convs: "own_part q s (s\<lparr>hv_convs := c\<rparr>)"
  by (simp add: own_part_def)

lemma own_set_files:
  "(\<And>p. under_dir (room_dir (rd_core (hv_rooms s)) q) p \<Longrightarrow> d p = rd_disk (hv_rooms s) p) \<Longrightarrow> own_part q s (set_files yaml d s)"
  by (simp add: own_part_def set_defs)

lemma but_set_quota:
  "same_but q s t \<Longrightarrow> same_quota (\<lambda>r. r \<noteq> q) a b \<Longrightarrow> same_but q (set_quota a s) (set_quota b t)"
  by (simp add: same_but_def core_but_def set_defs Let_def room_dir_def)

lemma but_set_core:
  "same_but q s t \<Longrightarrow> core_but q c d \<Longrightarrow> hd_rooms_dir c = hd_rooms_dir (rd_core (hv_rooms s)) \<Longrightarrow> same_but q (set_core c s) (set_core d t)"
  by (simp add: same_but_def set_core_def Let_def room_dir_def)

lemma but_set_bus: "same_but q s t \<Longrightarrow> same_but q (set_bus b s) (set_bus b t)"
  by (simp add: same_but_def set_defs Let_def)

lemma but_set_convs: "same_but q s t \<Longrightarrow> same_but q (s\<lparr>hv_convs := c\<rparr>) (t\<lparr>hv_convs := c\<rparr>)"
  by (simp add: same_but_def Let_def)

lemma plain_path:
  assumes "proper_dir base" "plain_ref r"
  shows "under_dir base (join_path [path_of base r, manifest_filename])"
proof -
  from assms(1) obtain bs where i: "names bs" "bs \<noteq> []" "base = abs_path bs" by (rule proper_dir_form)
  have m: "is_name manifest_filename" by (simp add: is_name_def manifest_filename_def dot_def dotdot_def)
  with i assms(2) have "join_path [path_of base r, manifest_filename] = abs_path (bs @ [ref_name r, ref_version r, manifest_filename])"
    by (simp add: plain_ref_def path_of_def join3_names join_path_name)
  with i under_dir_app show ?thesis by simp
qed

lemma store_get_local:
  assumes "laid_dirs s" "is_name q" "plain_ref r"
    and "\<And>p. \<not> under_dir (room_dir (rd_core s) q) p \<Longrightarrow> d p = e p"
  shows "store_get yaml (rd_img_root s) r d = store_get yaml (rd_img_root s) r e"
proof -
  let ?p = "join_path [path_of (rd_img_root s) r, manifest_filename]"
  have "under_dir (rd_img_root s) ?p" using assms(1,3) by (intro plain_path) (simp_all add: laid_dirs_def)
  with assms images_apart have "d ?p = e ?p" by blast
  then show ?thesis by (simp add: store_get_def load_image_def load_manifest_def)
qed

lemma but_set_files:
  assumes "laid_dirs (hv_rooms s)" "is_name q" "same_but q s t"
    and "\<And>p. \<not> under_dir (room_dir (rd_core (hv_rooms s)) q) p \<Longrightarrow> e p = d p"
  shows "same_but q (set_files yaml d s) (set_files yaml e t)"
proof -
  have "store_get yaml (rd_img_root (hv_rooms s)) r e = store_get yaml (rd_img_root (hv_rooms s)) r d" if "plain_ref r" for r
    using assms(4) by (rule store_get_local[OF assms(1,2) that])
  with assms(3,4) show ?thesis by (simp add: same_but_def core_but_def set_defs Let_def room_dir_def)
qed

lemma but_quota:
  assumes "room_local rid f" "rid \<noteq> q" "same_quota (\<lambda>r. r \<noteq> q) a b"
  shows "fst (f a) = fst (f b) \<and> same_quota (\<lambda>r. r \<noteq> q) (snd (f a)) (snd (f b))"
proof -
  from assms(2,3) have "same_quota ((=) rid) a b" by (simp add: same_quota_def)
  with room_localD(1)[OF assms(1), of a] room_localD(2)[OF assms(1), of a b] room_localD(1)[OF assms(1), of b] assms(3)
  have f: "fst (f a) = fst (f b)" "same_quota ((=) rid) (snd (f a)) (snd (f b))"
    "same_quota (\<lambda>r. r \<noteq> rid) a (snd (f a))" "same_quota (\<lambda>r. r \<noteq> rid) b (snd (f b))" by simp_all
  have "agree k (snd (f a)) (snd (f b))" if "k_room k \<noteq> q" for k
    using f(2-4) assms(3) that by (cases "k_room k = rid") (auto simp: same_quota_def agree_def)
  with f show ?thesis by (simp add: same_quota_def)
qed

subsection \<open>Requests of agents as steps\<close>

text \<open>A request by the member of a name; without such a Room or member there is no connection to send it on.\<close>

type_synonym act = "aenv \<times> string \<times> string \<times> agent_request"

definition member_of :: "hserver \<Rightarrow> string \<Rightarrow> string \<Rightarrow> hmember option" where
  "member_of s rid nm =
     (case hd_rooms (rd_core (hv_rooms s)) rid of None \<Rightarrow> None | Some r \<Rightarrow> map_of (hr_members r) nm)"

definition agent_act :: "act \<Rightarrow> hserver \<Rightarrow> (agent_value res \<times> outside list) option \<times> hserver" where
  "agent_act x s =
     (case x of (e, rid, nm, r) \<Rightarrow>
        (case member_of s rid nm of
           None \<Rightarrow> (None, s)
         | Some m \<Rightarrow> (case serve_agent e rid m r s of (a, s) \<Rightarrow> (Some a, s))))"

definition act_room :: "act \<Rightarrow> string" where
  "act_room x = fst (snd x)"

text \<open>What is asked of the requests: a key read or deleted has no slash (with one it leaves the memory's
  directory, see \<open>memory_key_escapes\<close>) and a junior's image is named by names (with a slash the reference leaves
  the store). Of the outside: a temp file's name has no slash, and a listing shows only what is below the
  directory.\<close>

definition fair_call :: "agent_call \<Rightarrow> bool" where
  "fair_call c \<longleftrightarrow>
     (case c of
        MemoryGet _ k \<Rightarrow> CHR ''/'' \<notin> set k
      | MemoryDelete _ k \<Rightarrow> CHR ''/'' \<notin> set k
      | HireJunior ref _ _ \<Rightarrow> (\<forall>r. parse_image_ref ref = Inr r \<longrightarrow> plain_ref r)
      | _ \<Rightarrow> True)"

definition fair_env :: "aenv \<Rightarrow> bool" where
  "fair_env e \<longleftrightarrow> CHR ''/'' \<notin> set (mi_tmp (av_mem e))
     \<and> (\<forall>d d' h. (\<forall>p. under_dir h p \<longrightarrow> d p = d' p) \<longrightarrow> av_read_dir e d h = av_read_dir e d' h)"

definition fair_act :: "act \<Rightarrow> bool" where
  "fair_act x \<longleftrightarrow> fair_env (fst x) \<and> (case snd (snd (snd x)) of Ask c \<Rightarrow> fair_call c | _ \<Rightarrow> True)"

subsection \<open>Files and memory\<close>

text \<open>Where an agent writes is within its reach, and what it reads too.\<close>

lemma fs_write_reach:
  assumes "laid_dirs s" "is_name rid" "\<forall>t \<in> set (hm_mounts m). laid_mount s rid (mnt_source t)" "\<not> reach s rid p"
  shows "snd (fs_write_file (agent_fs (rd_core s) rid m) w ps d) p = d p"
  using assms fs_reach[OF assms(1-3)] by (auto simp: fs_write_file_def split: option.split sum.split)

lemma fs_write_pointwise:
  "fst (fs_write_file pr w ps e) = fst (fs_write_file pr w ps d)"
  "e p = d p \<Longrightarrow> snd (fs_write_file pr w ps e) p = snd (fs_write_file pr w ps d) p"
  by (auto simp: fs_write_file_def split: option.split sum.split)

lemma fs_read_reach:
  assumes "laid_dirs s" "is_name rid" "\<forall>t \<in> set (hm_mounts m). laid_mount s rid (mnt_source t)"
    and "\<And>p. reach s rid p \<Longrightarrow> e p = d p"
  shows "fs_read_file (agent_fs (rd_core s) rid m) e ps = fs_read_file (agent_fs (rd_core s) rid m) d ps"
  using fs_reach[OF assms(1-3)] assms(4) by (auto simp: fs_read_file_def split: option.split sum.split)

lemma reach_below: "reach s rid h \<Longrightarrow> under_dir h p \<Longrightarrow> reach s rid p"
  by (auto simp: reach_def dest: under_dir_trans)

lemma fs_list_reach:
  assumes "laid_dirs s" "is_name rid" "\<forall>t \<in> set (hm_mounts m). laid_mount s rid (mnt_source t)"
    and "\<And>p. reach s rid p \<Longrightarrow> e p = d p"
    and "\<And>d d' h. (\<And>p. under_dir h p \<Longrightarrow> d p = d' p) \<Longrightarrow> rdir d h = rdir d' h"
  shows "fs_list_dir (agent_fs (rd_core s) rid m) rdir e ps = fs_list_dir (agent_fs (rd_core s) rid m) rdir d ps"
proof -
  have "rdir e h = rdir d h" if "resolve (agent_fs (rd_core s) rid m) path = Inr h" for path h
    using fs_reach[OF assms(1-3) that] assms(4) by (intro assms(5)) (auto dest: reach_below)
  then show ?thesis by (auto simp: fs_list_dir_def split: option.split sum.split)
qed

lemma mem_open_dir: "mem_open p scope k = Inr dir \<Longrightarrow> resolve_dir p scope = Inr dir"
  by (simp add: mem_open_def split: sum.splits)

lemma mem_put_reach:
  assumes "laid_dirs s" "is_name rid" "CHR ''/'' \<notin> set (mi_tmp w)" "\<not> reach s rid p"
  shows "snd (mem_put (agent_mem (rd_core s) rid m) w ps d) p = d p"
proof -
  have "p \<noteq> join_path [dir, encode_key k]" "p \<noteq> join_path [dir, ''.put-'' @ mi_tmp w]"
    if "mem_open (agent_mem (rd_core s) rid m) scope k = Inr dir" for scope k dir
    using mem_reach[OF assms(1,2) mem_open_dir[OF that], of "encode_key k"] encode_no_slash[of k]
      mem_reach[OF assms(1,2) mem_open_dir[OF that], of "''.put-'' @ mi_tmp w"] assms(3,4) by auto
  then show ?thesis by (auto simp: mem_put_def Let_def atomic_replace_other split: option.split sum.split prod.split)
     (metis atomic_replace_other snd_conv)+
qed

lemma mem_put_pointwise:
  "fst (mem_put pr w ps e) = fst (mem_put pr w ps d)"
  "e p = d p \<Longrightarrow> snd (mem_put pr w ps e) p = snd (mem_put pr w ps d) p"
  by (auto simp: mem_put_def Let_def atomic_replace_def split: option.split sum.split)

lemma remove_each_other: "p \<notin> set cs \<Longrightarrow> snd (remove_each bad cs d) p = d p"
  by (induction cs arbitrary: d) auto

lemma remove_each_result: "fst (remove_each bad cs e) = (if list_ex bad cs then Inl Plain else Inr ())"
  by (induction cs arbitrary: e) auto

lemma remove_each_pointwise:
  assumes "e p = d p"
  shows "snd (remove_each bad cs e) p = snd (remove_each bad cs d) p"
  using assms
proof (induction cs arbitrary: e d)
  case (Cons c cs)
  have "snd (remove_each bad cs (e(c := None))) p = snd (remove_each bad cs (d(c := None))) p"
    by (rule Cons.IH) (simp add: Cons.prems)
  then show ?case by (cases "bad c") (simp_all only: remove_each.simps if_True if_False snd_conv Cons.prems)
qed simp

lemma mem_delete_reach:
  assumes "laid_dirs s" "is_name rid" "\<forall>scope k. ps = Some (scope, k) \<longrightarrow> CHR ''/'' \<notin> set k" "\<not> reach s rid p"
  shows "snd (mem_delete (agent_mem (rd_core s) rid m) w ps d) p = d p"
proof -
  have "p \<notin> set [join_path [dir, encode_key k], join_path [dir, k]]"
    if "mem_open (agent_mem (rd_core s) rid m) scope k = Inr dir" "ps = Some (scope, k)" for scope k dir
    using mem_reach[OF assms(1,2) mem_open_dir[OF that(1)], of "encode_key k"] encode_no_slash[of k]
      mem_reach[OF assms(1,2) mem_open_dir[OF that(1)], of k] assms(3,4) that(2) by auto
  then show ?thesis
    by (simp add: mem_delete_def remove_each_other del: remove_each.simps split: option.split sum.split)
qed

lemma mem_delete_pointwise:
  "fst (mem_delete pr w ps e) = fst (mem_delete pr w ps d)"
  "e p = d p \<Longrightarrow> snd (mem_delete pr w ps e) p = snd (mem_delete pr w ps d) p"
  using remove_each_pointwise[of e p d]
  by (auto simp: mem_delete_def remove_each_result simp del: remove_each.simps split: option.split sum.split)

lemma mem_get_reach:
  assumes "laid_dirs s" "is_name rid" "\<forall>scope k. ps = Some (scope, k) \<longrightarrow> CHR ''/'' \<notin> set k"
    and "\<And>p. reach s rid p \<Longrightarrow> e p = d p"
  shows "mem_get (agent_mem (rd_core s) rid m) w ps e = mem_get (agent_mem (rd_core s) rid m) w ps d"
proof -
  have "e (join_path [dir, encode_key k]) = d (join_path [dir, encode_key k]) \<and> e (join_path [dir, k]) = d (join_path [dir, k])"
    if "mem_open (agent_mem (rd_core s) rid m) scope k = Inr dir" "ps = Some (scope, k)" for scope k dir
    using mem_reach[OF assms(1,2) mem_open_dir[OF that(1)], of "encode_key k"] encode_no_slash[of k]
      mem_reach[OF assms(1,2) mem_open_dir[OF that(1)], of k] assms(3,4) that(2) by simp
  then show ?thesis by (auto simp: mem_get_def split: option.split sum.split)
qed

subsection \<open>Hiring\<close>

text \<open>What a hire of the Room \<open>rid\<close> changes of the daemon: that Room, its state file and its counters.\<close>

definition moved :: "string \<Rightarrow> hdaemon \<Rightarrow> hdaemon \<Rightarrow> bool" where
  "moved rid c d \<longleftrightarrow> hd_rooms_dir d = hd_rooms_dir c \<and> hd_ranks d = hd_ranks c \<and> hd_volumes d = hd_volumes c
     \<and> hd_shutting d = hd_shutting c \<and> hd_images d = hd_images c
     \<and> (\<forall>r. r \<noteq> rid \<longrightarrow> hd_rooms d r = hd_rooms c r \<and> hd_state d r = hd_state c r)
     \<and> same_quota (\<lambda>r. r \<noteq> rid) (hd_quota c) (hd_quota d)"

lemma moved_refl [simp]: "moved rid c c"
  by (simp add: moved_def)

lemma moved_trans: "moved rid c d \<Longrightarrow> moved rid d e \<Longrightarrow> moved rid c e"
  by (auto simp: moved_def intro: same_quota_trans)

lemma moved_quota: "same_quota (\<lambda>r. r \<noteq> rid) (hd_quota c) a \<Longrightarrow> moved rid c (c\<lparr>hd_quota := a\<rparr>)"
  by (simp add: moved_def)

lemma moved_persist: "moved rid c (persist_room sp rid c)"
  by (simp add: moved_def persist_room_def split: option.split)

lemma moved_room_hire: "moved rid c (snd (room_hire sp rid r m c))"
  using room_localD(1)[OF install_local, of rid "hd_quota c" m]
  by (simp add: moved_def room_hire_def Let_def)

lemma moved_hire: "moved rid c (snd (hire_from_config sp rid cfg c))"
  by (simp add: hire_from_config_def moved_room_hire split: sum.split option.split)

lemma carve_for_local: "room_local rid (carve_for rid m p)"
proof (cases "jp_quota p")
  case None
  then show ?thesis by (intro room_local_free) (simp add: carve_for_def)
next
  case (Some q)
  then have "carve_for rid m p = carve_buckets rid (hm_name m) (quota_buckets q)"
    by (simp add: carve_for_def carve_quota_from_parent_def fun_eq_iff)
  then show ?thesis by (simp add: carve_local)
qed

lemma moved_hire_junior: "moved rid c (snd (handle_hire_junior sp rid m ps c))"
proof (cases ps)
  case None
  then show ?thesis by (simp add: handle_hire_junior_def)
next
  case (Some p)
  have q: "moved rid c (c\<lparr>hd_quota := a\<rparr>)" if "carve_for rid m p (hd_quota c) = (x, a)" for x a
    using room_localD(1)[OF carve_for_local, of rid "hd_quota c" m p] that by (intro moved_quota) simp
  have h: "moved rid c d" if "carve_for rid m p (hd_quota c) = (x, a)" "hire_from_config sp rid cfg (c\<lparr>hd_quota := a\<rparr>) = (y, d)" for x a cfg y d
    using q[OF that(1)] moved_hire[of rid "c\<lparr>hd_quota := a\<rparr>" sp cfg] that(2) by (auto intro: moved_trans)
  have "moved rid c (persist_room sp rid d)" if "moved rid c d" for d
    using that moved_persist by (rule moved_trans)
  with q h show ?thesis unfolding Some handle_hire_junior_steps
    by (auto split: sum.split prod.split)
qed

text \<open>The same hire in daemons that differ in nothing but another Room.\<close>

lemma core_but_room: "core_but q c d \<Longrightarrow> rid \<noteq> q \<Longrightarrow> hd_rooms d rid = hd_rooms c rid"
  by (simp add: core_but_def)

lemma core_but_quota:
  "core_but q c d \<Longrightarrow> same_quota (\<lambda>r. r \<noteq> q) a b \<Longrightarrow> core_but q (c\<lparr>hd_quota := a\<rparr>) (d\<lparr>hd_quota := b\<rparr>)"
  by (simp add: core_but_def)

lemma core_but_put:
  "core_but q c d \<Longrightarrow> core_but q (c\<lparr>hd_rooms := (hd_rooms c)(rid \<mapsto> r)\<rparr>) (d\<lparr>hd_rooms := (hd_rooms d)(rid \<mapsto> r)\<rparr>)"
  by (simp add: core_but_def)

lemma core_but_persist: "core_but q c d \<Longrightarrow> rid \<noteq> q \<Longrightarrow> core_but q (persist_room sp rid c) (persist_room sp rid d)"
  by (simp add: core_but_def persist_room_def split: option.split)

lemma member_for_but:
  assumes "core_but q c d" "plain_ref (hc_image cfg)"
  shows "member_for sp rid cfg d = member_for sp rid cfg c"
proof -
  from assms have e: "hd_images d (hc_image cfg) = hd_images c (hc_image cfg)" "hd_ranks d = hd_ranks c"
      "hd_volumes d = hd_volumes c" "workspace_dir d rid = workspace_dir c rid"
    by (simp_all add: core_but_def workspace_dir_def)
  show ?thesis unfolding member_for_def e ..
qed

lemma install_but:
  assumes "core_but q c d" "rid \<noteq> q"
  shows "core_but q (c\<lparr>hd_quota := install_quota rid m (hd_quota c)\<rparr>) (d\<lparr>hd_quota := install_quota rid m (hd_quota d)\<rparr>)"
proof (rule core_but_quota[OF assms(1)])
  from assms(1) have "same_quota (\<lambda>r. r \<noteq> q) (hd_quota c) (hd_quota d)" by (simp add: core_but_def)
  from but_quota[OF install_local assms(2) this, of m]
  show "same_quota (\<lambda>r. r \<noteq> q) (install_quota rid m (hd_quota c)) (install_quota rid m (hd_quota d))" by simp
qed

lemma room_hire_but:
  assumes "core_but q c d" "rid \<noteq> q"
  shows "fst (room_hire sp rid r m c) = fst (room_hire sp rid r m d) \<and> core_but q (snd (room_hire sp rid r m c)) (snd (room_hire sp rid r m d))"
  using assms(1) install_but[OF assms, of m] core_but_put[OF install_but[OF assms, of m], of rid]
  by (simp add: room_hire_def Let_def)

lemma hire_from_config_but:
  assumes "core_but q c d" "rid \<noteq> q" "plain_ref (hc_image cfg)"
  shows "fst (hire_from_config sp rid cfg c) = fst (hire_from_config sp rid cfg d)
    \<and> core_but q (snd (hire_from_config sp rid cfg c)) (snd (hire_from_config sp rid cfg d))"
  using assms(1) room_hire_but[OF assms(1,2)] member_for_but[OF assms(1,3)] core_but_room[OF assms(1,2)]
  by (simp add: hire_from_config_def split: sum.split option.split)

lemma hire_junior_but:
  assumes "core_but q c d" "rid \<noteq> q" "\<forall>p r. ps = Some p \<longrightarrow> parse_image_ref (jp_ref p) = Inr r \<longrightarrow> plain_ref r"
  shows "fst (handle_hire_junior sp rid m ps c) = fst (handle_hire_junior sp rid m ps d)
    \<and> core_but q (snd (handle_hire_junior sp rid m ps c)) (snd (handle_hire_junior sp rid m ps d))"
proof (cases ps)
  case None
  then show ?thesis using assms(1) by (simp add: handle_hire_junior_def)
next
  case (Some p)
  from assms(1) have c: "hd_ranks d = hd_ranks c" "same_quota (\<lambda>r. r \<noteq> q) (hd_quota c) (hd_quota d)"
    by (simp_all add: core_but_def)
  from but_quota[OF carve_for_local assms(2) c(2), of m p]
  obtain x a b where carve: "carve_for rid m p (hd_quota c) = (x, a)" "carve_for rid m p (hd_quota d) = (x, b)"
    and ab: "same_quota (\<lambda>r. r \<noteq> q) a b"
    by (metis prod.collapse)
  note but = core_but_quota[OF assms(1) ab]
  show ?thesis
  proof (cases "parse_image_ref (jp_ref p)")
    case (Inr ref)
    then have "plain_ref ref" using assms(3) Some by simp
    then have "plain_ref (hc_image (junior_config m p ref rk))" for rk by (simp add: junior_config_def)
    from hire_from_config_but[OF but assms(2) this, of sp] core_but_persist[OF _ assms(2), of _ _ sp]
    show ?thesis using assms(1) but c carve Inr
      unfolding Some handle_hire_junior_steps by (simp add: split_beta split: sum.split)
  qed (use Some assms(1) in \<open>simp add: handle_hire_junior_steps\<close>)
qed

subsection \<open>Every hire keeps the daemon laid out\<close>

lemma resolved_laid:
  assumes "resolve_volumes (\<lambda>n. volume_get root_dir n vs) refs = Inr ms" "t \<in> set ms"
  shows "\<exists>n. volume_dir root_dir n = Inr (mnt_source t)"
  using assms
proof (induction refs arbitrary: ms)
  case (Cons v refs)
  then obtain vol ms' where v: "volume_get root_dir (vr_name v) vs = Inr vol"
    "resolve_volumes (\<lambda>n. volume_get root_dir n vs) refs = Inr ms'" "ms = mount_of v vol # ms'"
    by (auto split: sum.splits)
  with Cons volume_get_dir[OF v(1)] show ?case by (auto simp: mount_of_def Let_def)
qed simp

lemma member_for_mounts:
  assumes "member_for sp rid cfg d = Inr m"
  obtains vols where "resolve_volumes (hd_volumes d) (hc_volumes cfg) = Inr vols"
    "hm_mounts m = \<lparr>mnt_source = workspace_dir d rid, mnt_target = ''/workspace'', mnt_read_only = False\<rparr> # vols"
  using assms by (auto simp: member_for_def Let_def split: sum.splits if_splits)

lemma member_laid:
  assumes "laid_dirs s" "member_for sp rid cfg (rd_core s) = Inr m" "t \<in> set (hm_mounts m)"
  shows "laid_mount s rid (mnt_source t)"
  using assms(2)
proof (rule member_for_mounts)
  fix vols
  assume "resolve_volumes (hd_volumes (rd_core s)) (hc_volumes cfg) = Inr vols"
    and "hm_mounts m = \<lparr>mnt_source = workspace_dir (rd_core s) rid, mnt_target = ''/workspace'', mnt_read_only = False\<rparr> # vols"
  then show ?thesis
    using assms(1,3) resolved_laid[of "rd_vol_root s" "rd_vols s" "hc_volumes cfg" vols t]
    by (auto simp: laid_dirs_def laid_mount_def)
qed

lemma laid_core_upd [simp]:
  "laid_dirs (s\<lparr>rd_core := d\<lparr>hd_quota := a\<rparr>\<rparr>) = laid_dirs (s\<lparr>rd_core := d\<rparr>)"
  "laid_dirs (s\<lparr>rd_core := d\<lparr>hd_rooms := rs\<rparr>\<rparr>) = laid_dirs (s\<lparr>rd_core := d\<rparr>)"
  "laid_dirs (s\<lparr>rd_core := d\<lparr>hd_quota := a, hd_rooms := rs\<rparr>\<rparr>) = laid_dirs (s\<lparr>rd_core := d\<rparr>)"
  "laid_members (s\<lparr>rd_core := d\<lparr>hd_quota := a\<rparr>\<rparr>) = laid_members (s\<lparr>rd_core := d\<rparr>)"
  "laid_members (s\<lparr>rd_core := d\<lparr>hd_rooms := rs\<rparr>\<rparr>) = laid_members (s\<lparr>rd_core := d\<rparr>)"
  "laid_members (s\<lparr>rd_core := d\<lparr>hd_quota := a, hd_rooms := rs\<rparr>\<rparr>) = laid_members (s\<lparr>rd_core := d\<rparr>)"
  by (simp_all add: laid_dirs_def laid_members_def laid_mount_def workspace_dir_def fun_eq_iff)

lemma laid_quota [simp]: "laid_out (s\<lparr>rd_core := d\<lparr>hd_quota := a\<rparr>\<rparr>) = laid_out (s\<lparr>rd_core := d\<rparr>)"
  by (simp add: laid_out_def)

lemma laid_persist [simp]: "laid_out (s\<lparr>rd_core := persist_room sp rid d\<rparr>) = laid_out (s\<lparr>rd_core := d\<rparr>)"
  by (simp add: persist_room_def laid_out_def laid_dirs_def laid_members_def laid_mount_def workspace_dir_def split: option.split)

lemma laid_hire:
  assumes "laid_out (s\<lparr>rd_core := d\<rparr>)"
  shows "laid_out (s\<lparr>rd_core := snd (hire_from_config sp rid cfg d)\<rparr>)"
proof -
  have "laid_out (s\<lparr>rd_core := snd (room_hire sp rid r m d)\<rparr>)"
    if "member_for sp rid cfg d = Inr m" "hd_rooms d rid = Some r" for m r
  proof -
    have "laid_mount (s\<lparr>rd_core := d\<rparr>) rid (mnt_source t)" if "t \<in> set (hm_mounts m)" for t
      using assms \<open>member_for sp rid cfg d = Inr m\<close> that
      by (intro member_laid[of "s\<lparr>rd_core := d\<rparr>" sp rid cfg m]) (simp_all add: laid_out_def)
    moreover have "laid_members (s\<lparr>rd_core := d\<rparr>) rid r" "is_name rid" using assms that(2) by (simp_all add: laid_out_def)
    ultimately have "laid_members (s\<lparr>rd_core := d\<rparr>) rid (r\<lparr>hr_members := hr_members r @ [(hm_name m, m)]\<rparr>)"
      by (auto simp: laid_members_def)
    with assms \<open>is_name rid\<close> show ?thesis by (simp add: room_hire_def Let_def laid_out_def)
  qed
  with assms show ?thesis by (simp add: hire_from_config_def split: sum.split option.split)
qed

lemma laid_hire_junior:
  assumes "laid_out (s\<lparr>rd_core := d\<rparr>)"
  shows "laid_out (s\<lparr>rd_core := snd (handle_hire_junior sp rid m ps d)\<rparr>)"
proof (cases ps)
  case (Some p)
  have "laid_out (s\<lparr>rd_core := d'\<rparr>)" if "hire_from_config sp rid cfg (d\<lparr>hd_quota := a\<rparr>) = (x, d')" for cfg a x d'
    using laid_hire[where s = s and d = "d\<lparr>hd_quota := a\<rparr>" and sp = sp and rid = rid and cfg = cfg] assms that by simp
  with assms show ?thesis unfolding Some handle_hire_junior_steps
    by (auto split: sum.split prod.split)
qed (use assms in \<open>simp add: handle_hire_junior_def\<close>)

lemma laid_set:
  "laid_out (hv_rooms (set_quota a s)) = laid_out (hv_rooms s)" "laid_out (hv_rooms (set_bus b s)) = laid_out (hv_rooms s)"
  "laid_out (hv_rooms (s\<lparr>hv_convs := c\<rparr>)) = laid_out (hv_rooms s)"
  "laid_out (hv_rooms s) \<Longrightarrow> laid_out (hv_rooms (set_files yaml d s))"
  by (auto simp: set_defs laid_out_def laid_dirs_def laid_members_def laid_mount_def workspace_dir_def)

subsection \<open>Every request is harmless\<close>

text \<open>A handler for the member \<open>m\<close> of the Room \<open>rid\<close> that leaves every other Room's own part as it is, and
  whose answer and effect do not depend on it.\<close>

definition lives_in :: "hserver \<Rightarrow> string \<Rightarrow> hmember \<Rightarrow> bool" where
  "lives_in s rid m \<longleftrightarrow> laid_out (hv_rooms s) \<and> is_name rid
     \<and> (\<forall>t \<in> set (hm_mounts m). laid_mount (hv_rooms s) rid (mnt_source t))"

definition harmless :: "string \<Rightarrow> hmember \<Rightarrow> agent_step \<Rightarrow> bool" where
  "harmless rid m g \<longleftrightarrow>
     (\<forall>q s. is_name q \<longrightarrow> rid \<noteq> q \<longrightarrow> lives_in s rid m \<longrightarrow>
        own_part q s (snd (g s)) \<and> laid_out (hv_rooms (snd (g s)))
        \<and> (\<forall>t. same_but q s t \<longrightarrow> fst (g t) = fst (g s) \<and> same_but q (snd (g s)) (snd (g t))))"

lemma harmlessI:
  assumes "\<And>q s. is_name q \<Longrightarrow> rid \<noteq> q \<Longrightarrow> lives_in s rid m \<Longrightarrow> own_part q s (snd (g s)) \<and> laid_out (hv_rooms (snd (g s)))"
    and "\<And>q s t. is_name q \<Longrightarrow> rid \<noteq> q \<Longrightarrow> lives_in s rid m \<Longrightarrow> same_but q s t \<Longrightarrow>
      fst (g t) = fst (g s) \<and> same_but q (snd (g s)) (snd (g t))"
  shows "harmless rid m g"
  using assms by (simp add: harmless_def)

abbreviation core_of :: "hserver \<Rightarrow> hdaemon" where
  "core_of s \<equiv> rd_core (hv_rooms s)"

lemma same_butD:
  assumes "same_but q s t"
  shows "core_but q (core_of s) (core_of t)" "hd_rooms_dir (core_of t) = hd_rooms_dir (core_of s)"
    "hd_volumes (core_of t) = hd_volumes (core_of s)" "hv_convs t = hv_convs s"
    "rd_bus (hv_rooms t) = rd_bus (hv_rooms s)" "same_quota (\<lambda>r. r \<noteq> q) (hd_quota (core_of s)) (hd_quota (core_of t))"
    "\<not> under_dir (room_dir (core_of s) q) p \<Longrightarrow> rd_disk (hv_rooms t) p = rd_disk (hv_rooms s) p"
  using assms by (simp_all add: same_but_def core_but_def Let_def)

text \<open>Four ways to be harmless: to work on the Room's counters, on the buses, on the hub, or on files.\<close>

lemma harmless_metered:
  assumes f: "\<And>w. room_local rid (F w)"
    and g: "\<And>s. g s = (h (fst (F (hd_rooms_dir (core_of s)) (hd_quota (core_of s)))),
      set_quota (snd (F (hd_rooms_dir (core_of s)) (hd_quota (core_of s)))) s)"
  shows "harmless rid m g"
proof (rule harmlessI)
  fix q s assume "is_name q" "rid \<noteq> q" "lives_in s rid m"
  with room_localD(1)[OF f, of "hd_quota (core_of s)"] show "own_part q s (snd (g s)) \<and> laid_out (hv_rooms (snd (g s)))"
    by (auto simp: g laid_set lives_in_def same_quota_def intro!: own_set_quota)
next
  fix q s t assume q: "rid \<noteq> q" "same_but q s t"
  from but_quota[OF f q(1) same_butD(6)[OF q(2)]] same_butD(2)[OF q(2)]
  show "fst (g t) = fst (g s) \<and> same_but q (snd (g s)) (snd (g t))"
    by (simp add: g but_set_quota[OF q(2)])
qed

lemma harmless_bus:
  assumes g: "\<And>s. g s = (fst (F (hd_volumes (core_of s)) (rd_bus (hv_rooms s))), set_bus (snd (F (hd_volumes (core_of s)) (rd_bus (hv_rooms s)))) s)"
  shows "harmless rid m g"
  by (rule harmlessI) (auto simp: g own_set_bus laid_set lives_in_def same_butD but_set_bus)

lemma harmless_hub:
  assumes g: "\<And>s. g s = (fst (F (hv_convs s)), s\<lparr>hv_convs := snd (F (hv_convs s))\<rparr>)"
  shows "harmless rid m g"
  by (rule harmlessI) (auto simp: g own_set_convs laid_set lives_in_def same_butD but_set_convs)

lemma harmless_quiet:
  assumes "\<And>q s t. is_name q \<Longrightarrow> rid \<noteq> q \<Longrightarrow> lives_in s rid m \<Longrightarrow> same_but q s t \<Longrightarrow> R t = R s"
  shows "harmless rid m (\<lambda>s. quietly f (R s) s)"
  by (rule harmlessI) (auto simp: quietly_def lives_in_def dest: assms)

lemma harmless_files:
  assumes out: "\<And>s p. lives_in s rid m \<Longrightarrow> \<not> reach (hv_rooms s) rid p \<Longrightarrow>
      snd (F (core_of s) (rd_disk (hv_rooms s))) p = rd_disk (hv_rooms s) p"
    and res: "\<And>c d e. fst (F c e) = fst (F c d)" and point: "\<And>c d e p. e p = d p \<Longrightarrow> snd (F c e) p = snd (F c d) p"
    and core: "\<And>q c d. core_but q c d \<Longrightarrow> rid \<noteq> q \<Longrightarrow> F d = F c"
  shows "harmless rid m (\<lambda>s. case F (core_of s) (rd_disk (hv_rooms s)) of (r, disk) \<Rightarrow> quietly f r (set_files y disk s))"
proof (rule harmlessI)
  fix q s assume q: "is_name q" "rid \<noteq> q" "lives_in s rid m"
  then have "snd (F (core_of s) (rd_disk (hv_rooms s))) p = rd_disk (hv_rooms s) p" if "under_dir (room_dir (core_of s) q) p" for p
    using rooms_apart[of "hv_rooms s" rid q p] out[of s p] that by (auto simp: lives_in_def laid_out_def)
  then show "own_part q s (snd (case F (core_of s) (rd_disk (hv_rooms s)) of (r, disk) \<Rightarrow> quietly f r (set_files y disk s)))
      \<and> laid_out (hv_rooms (snd (case F (core_of s) (rd_disk (hv_rooms s)) of (r, disk) \<Rightarrow> quietly f r (set_files y disk s))))"
    using q(3) by (auto simp: split_beta quietly_def lives_in_def laid_set(4) intro!: own_set_files)
next
  fix q s t assume q: "is_name q" "rid \<noteq> q" "lives_in s rid m" "same_but q s t"
  have "F (core_of t) = F (core_of s)" using core[OF same_butD(1)[OF q(4)] q(2)] .
  moreover have "same_but q (set_files y (snd (F (core_of s) (rd_disk (hv_rooms s)))) s)
      (set_files y (snd (F (core_of s) (rd_disk (hv_rooms t)))) t)"
    using q by (intro but_set_files point same_butD(7)[OF q(4)]) (simp_all add: lives_in_def laid_out_def)
  ultimately show "fst (case F (core_of t) (rd_disk (hv_rooms t)) of (r, disk) \<Rightarrow> quietly f r (set_files y disk t))
        = fst (case F (core_of s) (rd_disk (hv_rooms s)) of (r, disk) \<Rightarrow> quietly f r (set_files y disk s))
      \<and> same_but q (snd (case F (core_of s) (rd_disk (hv_rooms s)) of (r, disk) \<Rightarrow> quietly f r (set_files y disk s)))
          (snd (case F (core_of t) (rd_disk (hv_rooms t)) of (r, disk) \<Rightarrow> quietly f r (set_files y disk t)))"
    using res[of "core_of s" "rd_disk (hv_rooms t)" "rd_disk (hv_rooms s)"] by (simp add: split_beta quietly_def)
qed

lemma agent_parts:
  assumes "core_but q c d"
  shows "agent_fs d = agent_fs c" "agent_mem d = agent_mem c" "workspace_dir d = workspace_dir c"
  using assms by (simp_all add: fun_eq_iff core_but_def agent_fs_def agent_mem_def rootfs_dir_def workspace_dir_def)

lemma reach_same:
  assumes "is_name q" "rid \<noteq> q" "lives_in s rid m" "same_but q s t" "reach (hv_rooms s) rid p"
  shows "rd_disk (hv_rooms t) p = rd_disk (hv_rooms s) p"
  using rooms_apart[of "hv_rooms s" rid q p] assms by (intro same_butD(7)) (auto simp: lives_in_def laid_out_def)

lemma lives_inD:
  "lives_in s rid m \<Longrightarrow> laid_dirs (hv_rooms s)" "lives_in s rid m \<Longrightarrow> is_name rid"
  "lives_in s rid m \<Longrightarrow> \<forall>t \<in> set (hm_mounts m). laid_mount (hv_rooms s) rid (mnt_source t)"
  by (simp_all add: lives_in_def laid_out_def)

lemma harmless_cong: "(\<And>s. g s = h s) \<Longrightarrow> harmless rid m h \<Longrightarrow> harmless rid m g"
  by (simp add: harmless_def)

lemma harmless_fs_read: "harmless rid m (serve_call e rid m (FsRead p))"
proof -
  have "harmless rid m (\<lambda>s. quietly FsData (fs_read_file (agent_fs (core_of s) rid m) (rd_disk (hv_rooms s)) (Some p)) s)"
  proof (rule harmless_quiet)
    fix q s t assume q: "is_name q" "rid \<noteq> q" "lives_in s rid m" "same_but q s t"
    show "fs_read_file (agent_fs (core_of t) rid m) (rd_disk (hv_rooms t)) (Some p)
        = fs_read_file (agent_fs (core_of s) rid m) (rd_disk (hv_rooms s)) (Some p)"
      unfolding agent_parts(1)[OF same_butD(1)[OF q(4)]]
      by (rule fs_read_reach[OF lives_inD[OF q(3)] reach_same[OF q]])
  qed
  then show ?thesis by (rule harmless_cong[rotated]) simp
qed

lemma harmless_fs_list:
  assumes "fair_env e"
  shows "harmless rid m (serve_call e rid m (FsList p))"
proof -
  have "harmless rid m (\<lambda>s. quietly (\<lambda>es. FsEntries (map (\<lambda>x. (fe_name x, fe_is_dir x, fe_size x)) es))
      (fs_list_dir (agent_fs (core_of s) rid m) (av_read_dir e) (rd_disk (hv_rooms s)) (Some p)) s)"
  proof (rule harmless_quiet)
    fix q s t assume q: "is_name q" "rid \<noteq> q" "lives_in s rid m" "same_but q s t"
    show "fs_list_dir (agent_fs (core_of t) rid m) (av_read_dir e) (rd_disk (hv_rooms t)) (Some p)
        = fs_list_dir (agent_fs (core_of s) rid m) (av_read_dir e) (rd_disk (hv_rooms s)) (Some p)"
      unfolding agent_parts(1)[OF same_butD(1)[OF q(4)]]
      using assms by (intro fs_list_reach[OF lives_inD[OF q(3)] reach_same[OF q]]) (simp_all add: fair_env_def)
  qed
  then show ?thesis by (rule harmless_cong[rotated]) simp
qed

lemma harmless_fs_write: "harmless rid m (serve_call e rid m (FsWrite p d))"
proof -
  have "harmless rid m (\<lambda>s. case fs_write_file (agent_fs (core_of s) rid m) (av_io e) (Some (p, d)) (rd_disk (hv_rooms s)) of
      (r, disk) \<Rightarrow> quietly (\<lambda>_. Done) r (set_files (av_yaml e) disk s))"
  proof (rule harmless_files[of rid m "\<lambda>c. fs_write_file (agent_fs c rid m) (av_io e) (Some (p, d))"])
    fix s h assume "lives_in s rid m" "\<not> reach (hv_rooms s) rid h"
    then show "snd (fs_write_file (agent_fs (core_of s) rid m) (av_io e) (Some (p, d)) (rd_disk (hv_rooms s))) h = rd_disk (hv_rooms s) h"
      by (intro fs_write_reach lives_inD)
  qed (simp_all only: agent_parts(1) fs_write_pointwise(1), erule fs_write_pointwise(2))
  then show ?thesis by (rule harmless_cong[rotated]) simp
qed

lemma harmless_mem_put:
  assumes "fair_env e"
  shows "harmless rid m (serve_call e rid m (MemoryPut sc k v))"
proof -
  have tmp: "CHR ''/'' \<notin> set (mi_tmp (av_mem e))" using assms by (simp add: fair_env_def)
  have "harmless rid m (\<lambda>s. case mem_put (agent_mem (core_of s) rid m) (av_mem e) (Some (sc, k, v)) (rd_disk (hv_rooms s)) of
      (r, disk) \<Rightarrow> quietly (\<lambda>_. Done) r (set_files (av_yaml e) disk s))"
  proof (rule harmless_files[of rid m "\<lambda>c. mem_put (agent_mem c rid m) (av_mem e) (Some (sc, k, v))"])
    fix s h assume "lives_in s rid m" "\<not> reach (hv_rooms s) rid h"
    then show "snd (mem_put (agent_mem (core_of s) rid m) (av_mem e) (Some (sc, k, v)) (rd_disk (hv_rooms s))) h = rd_disk (hv_rooms s) h"
      by (intro mem_put_reach lives_inD tmp)
  qed (simp_all only: agent_parts(2) mem_put_pointwise(1), erule mem_put_pointwise(2))
  then show ?thesis by (rule harmless_cong[rotated]) simp
qed

lemma harmless_mem_delete:
  assumes "CHR ''/'' \<notin> set k"
  shows "harmless rid m (serve_call e rid m (MemoryDelete sc k))"
proof -
  have "harmless rid m (\<lambda>s. case mem_delete (agent_mem (core_of s) rid m) (av_mem e) (Some (sc, k)) (rd_disk (hv_rooms s)) of
      (r, disk) \<Rightarrow> quietly (\<lambda>_. Done) r (set_files (av_yaml e) disk s))"
  proof (rule harmless_files[of rid m "\<lambda>c. mem_delete (agent_mem c rid m) (av_mem e) (Some (sc, k))"])
    fix s h assume "lives_in s rid m" "\<not> reach (hv_rooms s) rid h"
    with assms show "snd (mem_delete (agent_mem (core_of s) rid m) (av_mem e) (Some (sc, k)) (rd_disk (hv_rooms s))) h = rd_disk (hv_rooms s) h"
      by (intro mem_delete_reach lives_inD(1,2)) simp_all
  qed (simp_all only: agent_parts(2) mem_delete_pointwise(1), erule mem_delete_pointwise(2))
  then show ?thesis by (rule harmless_cong[rotated]) simp
qed

lemma harmless_mem_get:
  assumes "CHR ''/'' \<notin> set k"
  shows "harmless rid m (serve_call e rid m (MemoryGet sc k))"
proof -
  have "harmless rid m (\<lambda>s. quietly (\<lambda>x. case x of None \<Rightarrow> MemFound [] False | Some v \<Rightarrow> MemFound v True)
      (mem_get (agent_mem (core_of s) rid m) (av_mem e) (Some (sc, k)) (rd_disk (hv_rooms s))) s)"
  proof (rule harmless_quiet)
    fix q s t assume q: "is_name q" "rid \<noteq> q" "lives_in s rid m" "same_but q s t"
    show "mem_get (agent_mem (core_of t) rid m) (av_mem e) (Some (sc, k)) (rd_disk (hv_rooms t))
        = mem_get (agent_mem (core_of s) rid m) (av_mem e) (Some (sc, k)) (rd_disk (hv_rooms s))"
      unfolding agent_parts(2)[OF same_butD(1)[OF q(4)]]
      using assms by (intro mem_get_reach[OF lives_inD(1,2)[OF q(3)] _ reach_same[OF q]]) auto
  qed
  then show ?thesis by (rule harmless_cong[rotated]) simp
qed

lemma harmless_mem_list: "harmless rid m (serve_call e rid m (MemoryList sc k))"
proof -
  have "harmless rid m (\<lambda>s. quietly MemKeys (mem_list (agent_mem (core_of s) rid m) (av_mem_dir e) (Some (sc, k))) s)"
    using agent_parts(2)[OF same_butD(1)] by (intro harmless_quiet) simp
  then show ?thesis by (rule harmless_cong[rotated]) simp
qed

lemma harmless_net: "harmless rid m (serve_call e rid m (NetFetch meth url hs body))"
proof -
  let ?p = "Some \<lparr>nr_method = meth, nr_url = url, nr_headers = hs, nr_body = body\<rparr>"
  have "room_local rid (paired (net_fetch (av_net e) (agent_meter rid m) ?p))"
    using net_fetch_local[of "agent_meter rid m"] by (simp add: agent_meter_def)
  then show ?thesis
    by (rule harmless_metered[where F = "\<lambda>_. paired (net_fetch (av_net e) (agent_meter rid m) ?p)"
          and h = "\<lambda>(r, out). (map_sum id (\<lambda>x. Value (Fetched (nt_status x) (nt_headers x) (nt_body x))) r, map HttpOut out)"])
       (simp add: paired_def split: prod.split)
qed

lemma harmless_llm: "harmless rid m (serve_call e rid m (LlmComplete prov model ms n))"
proof -
  let ?p = "Some \<lparr>lp_provider = prov, lp_model = model,
      lp_messages = map (\<lambda>x. \<lparr>lm_role = mg_role x, lm_content = mg_content x\<rparr>) ms, lp_max_tokens = n\<rparr>"
  have "room_local rid (paired (llm_complete (av_llm e) (agent_meter rid m) ?p))"
    using llm_local[of "agent_meter rid m"] by (simp add: agent_meter_def)
  then show ?thesis
    by (rule harmless_metered[where F = "\<lambda>_. paired (llm_complete (av_llm e) (agent_meter rid m) ?p)"
          and h = "\<lambda>(r, out). (map_sum id (\<lambda>x. Value (Completed (lr_text x) (lr_prompt_tokens x) (lr_completion_tokens x)
            (lr_total_tokens x))) r, map LlmOut out)"])
       (simp add: paired_def split: prod.split)
qed

lemma harmless_tool: "harmless rid m (serve_tool e rid m tool prompt timeout)"
proof -
  let ?p = "Some \<lparr>ap_tool = tool, ap_prompt = prompt, ap_timeout = timeout\<rparr>"
  have "room_local rid (paired (ai_tool_invoke (av_ai e) w (agent_meter rid m) ?p))" for w
    using ai_tool_local[of "agent_meter rid m"] by (simp add: agent_meter_def)
  then show ?thesis
    by (rule harmless_metered[where F = "\<lambda>w. paired (ai_tool_invoke (av_ai e) (join_path [w, rid, ''workspace'']) (agent_meter rid m) ?p)"
          and h = "\<lambda>(r, out). (map_sum id (\<lambda>x. Value (AiDone (ar_output x) (ar_stderr x) (ar_exit x))) r, map ToolOut out)"])
       (simp add: serve_tool_def workspace_dir_def paired_def Let_def split: prod.split)
qed

lemma harmless_hire_junior:
  assumes "fair_call (HireJunior ref rk jo)"
  shows "harmless rid m (serve_call e rid m (HireJunior ref rk jo))"
proof (rule harmlessI)
  let ?h = "handle_hire_junior (av_spawn e) rid m (Some (junior_of_call ref rk jo))"
  have run: "serve_call e rid m (HireJunior ref rk jo) s = quietly (\<lambda>c. Hired (hm_name c) (ref_name (hm_image c))
      (rk_name (hm_rank c)) (hm_name m)) (fst (?h (core_of s))) (set_core (snd (?h (core_of s))) s)" for s
    by (simp add: split_beta)
  {
    fix q s assume q: "rid \<noteq> q" "lives_in s rid m"
    have "moved rid (core_of s) (snd (?h (core_of s)))" by (rule moved_hire_junior)
    with q(1) have "own_part q s (set_core (snd (?h (core_of s))) s)"
      by (auto simp: own_part_def set_defs moved_def same_quota_def)
    moreover have "laid_out (hv_rooms (set_core (snd (?h (core_of s))) s))"
      using laid_hire_junior[of "core_of s" "hv_rooms s"] q(2) by (simp add: set_core_def lives_in_def)
    ultimately show "own_part q s (snd (serve_call e rid m (HireJunior ref rk jo) s))
        \<and> laid_out (hv_rooms (snd (serve_call e rid m (HireJunior ref rk jo) s)))"
      unfolding run by (simp add: quietly_def)
  next
    fix q s t assume q: "rid \<noteq> q" "same_but q s t"
    have "\<forall>p r. Some (junior_of_call ref rk jo) = Some p \<longrightarrow> parse_image_ref (jp_ref p) = Inr r \<longrightarrow> plain_ref r"
      using assms by (simp add: fair_call_def junior_of_call_def)
    from hire_junior_but[OF same_butD(1)[OF q(2)] q(1) this, of "av_spawn e" m]
    show "fst (serve_call e rid m (HireJunior ref rk jo) t) = fst (serve_call e rid m (HireJunior ref rk jo) s)
        \<and> same_but q (snd (serve_call e rid m (HireJunior ref rk jo) s)) (snd (serve_call e rid m (HireJunior ref rk jo) t))"
      using but_set_core[OF q(2)] moved_hire_junior[of rid "core_of s" "av_spawn e" m]
      unfolding run by (simp add: quietly_def moved_def)
  }
qed

lemma harmless_peer: "harmless rid m (serve_call e rid m (PeerSend to payload conv))"
proof (rule harmless_hub)
  let ?p = "Some \<lparr>pc_room = rid, pc_from = hm_name m, pc_to = to, pc_conv = conv, pc_payload = av_raw e payload\<rparr>"
  let ?F = "\<lambda>cv. case handle_peer_send (av_peer e) ?p (cd_hub cv) of (r, h) \<Rightarrow> ((map_sum id (\<lambda>_. Value Done) r, [] :: outside list), cv\<lparr>cd_hub := h\<rparr>)"
  show "serve_call e rid m (PeerSend to payload conv) s = (fst (?F (hv_convs s)), s\<lparr>hv_convs := snd (?F (hv_convs s))\<rparr>)" for s
    by (simp add: quietly_def comp_def split: prod.split)
qed

lemma harmless_subscribe: "harmless rid m (serve_agent e rid m (AskSubscribe sc))"
proof (rule harmless_bus)
  let ?p = "\<lambda>v. \<lparr>ep_room = rid, ep_agent = hm_name m, ep_rank = hm_rank m, ep_volumes = v, ep_conn = av_conn e\<rparr>"
  let ?F = "\<lambda>v b. case ep_subscribe (?p v) (av_sub_id e) (Some sc) b of (r, b) \<Rightarrow> ((map_sum id SubId r, [] :: outside list), b)"
  show "serve_agent e rid m (AskSubscribe sc) s = (fst (?F (hd_volumes (core_of s)) (rd_bus (hv_rooms s))),
      set_bus (snd (?F (hd_volumes (core_of s)) (rd_bus (hv_rooms s)))) s)" for s
    by (simp add: agent_events_def split: prod.split)
qed

lemma harmless_unsubscribe: "harmless rid m (serve_agent e rid m (AskUnsubscribe i))"
proof (rule harmless_bus)
  let ?p = "\<lambda>v. \<lparr>ep_room = rid, ep_agent = hm_name m, ep_rank = hm_rank m, ep_volumes = v, ep_conn = av_conn e\<rparr>"
  let ?F = "\<lambda>v b. case ep_unsubscribe (?p v) (Some i) b of (r, b) \<Rightarrow> ((map_sum id (\<lambda>_. Value Done) r, [] :: outside list), b)"
  show "serve_agent e rid m (AskUnsubscribe i) s = (fst (?F (hd_volumes (core_of s)) (rd_bus (hv_rooms s))),
      set_bus (snd (?F (hd_volumes (core_of s)) (rd_bus (hv_rooms s)))) s)" for s
    by (simp add: agent_events_def quietly_def comp_def split: prod.split)
qed

lemma harmless_publish: "harmless rid m (serve_publish e rid m sc payload)"
proof (rule harmless_bus)
  let ?p = "\<lambda>v. \<lparr>ep_room = rid, ep_agent = hm_name m, ep_rank = hm_rank m, ep_volumes = v, ep_conn = av_conn e\<rparr>"
  let ?F = "\<lambda>v b. case ep_publish (?p v) (Some (sc, av_raw e payload)) b of
        (Inl x, bus) \<Rightarrow> ((Inl x, []), bus)
      | (Inr (a, env), bus) \<Rightarrow>
          if em_down bus then ((Inl Internal, []), bus)
          else case deliver (pe_notify (av_peer e)) env (em_heap bus a) of
              (r, sent, b) \<Rightarrow> ((map_sum as_protocol_error (\<lambda>_. Value Done) r, map EventOut sent), on_bus a (\<lambda>_. b) bus)"
  show "serve_publish e rid m sc payload s = (fst (?F (hd_volumes (core_of s)) (rd_bus (hv_rooms s))),
      set_bus (snd (?F (hd_volumes (core_of s)) (rd_bus (hv_rooms s)))) s)" for s
    by (simp add: serve_publish_def agent_events_def split: prod.split sum.split)
qed

lemma harmless_call: "fair_env e \<Longrightarrow> fair_call c \<Longrightarrow> harmless rid m (serve_call e rid m c)"
proof (cases c)
  case (AiInvoke tool prompt)
  have "harmless rid m (serve_call e rid m (AiInvoke tool prompt))"
    by (rule harmless_cong[OF _ harmless_tool]) simp
  then show ?thesis by (simp only: AiInvoke)
qed (simp_all only: harmless_fs_read harmless_fs_write harmless_fs_list harmless_net harmless_llm harmless_mem_put
    harmless_mem_list harmless_peer harmless_hire_junior, simp_all add: harmless_mem_get harmless_mem_delete fair_call_def)

lemma harmless_request:
  assumes "fair_env e" "case r of Ask c \<Rightarrow> fair_call c | _ \<Rightarrow> True"
  shows "harmless rid m (serve_agent e rid m r)"
proof (cases r)
  case (AskTool tool prompt timeout)
  have "harmless rid m (serve_agent e rid m (AskTool tool prompt timeout))"
    by (rule harmless_cong[OF _ harmless_tool]) simp
  then show ?thesis by (simp only: AskTool)
next
  case (AskPublish sc payload)
  have "harmless rid m (serve_agent e rid m (AskPublish sc payload))"
    by (rule harmless_cong[OF _ harmless_publish]) simp
  then show ?thesis by (simp only: AskPublish)
qed (use assms harmless_call harmless_subscribe harmless_unsubscribe in \<open>simp_all add: serve_agent_Ask del: serve_agent.simps\<close>)

subsection \<open>Runs of requests\<close>

lemma member_lives: "laid_out (hv_rooms s) \<Longrightarrow> member_of s rid nm = Some m \<Longrightarrow> lives_in s rid m"
  by (fastforce simp: member_of_def lives_in_def laid_out_def laid_members_def split: option.splits dest: map_of_SomeD)

lemma same_but_member: "same_but q s t \<Longrightarrow> rid \<noteq> q \<Longrightarrow> member_of t rid nm = member_of s rid nm"
  by (simp add: member_of_def core_but_room[OF same_butD(1)])

interpretation agents: unwinding agent_act act_room fair_act "\<lambda>s :: hserver. laid_out (hv_rooms s)" is_name own_part same_but
proof unfold_locales
  fix s :: hserver and x q
  assume x: "laid_out (hv_rooms s)" "fair_act x"
  obtain e rid nm r where e: "x = (e, rid, nm, r)" by (cases x)
  have h: "harmless rid m (serve_agent e rid m r)" for m
    using x(2) by (intro harmless_request) (simp_all add: e fair_act_def)
  show "laid_out (hv_rooms (snd (agent_act x s)))"
  proof (cases "member_of s rid nm")
    case (Some m)
    have "\<exists>q. is_name q \<and> rid \<noteq> q"
      by (intro exI[of _ "if rid = ''a'' then ''b'' else ''a''"]) (auto simp: is_name_def dot_def dotdot_def)
    with h[of m] member_lives[OF x(1) Some] show ?thesis by (auto simp: harmless_def agent_act_def e Some split_beta)
  qed (simp add: agent_act_def e x(1))
  show "own_part q s (snd (agent_act x s))" if "is_name q" "act_room x \<noteq> q"
    using h member_lives[OF x(1)] that
    by (auto simp: harmless_def agent_act_def e act_room_def split_beta split: option.split)
next
  fix s t :: hserver and x q
  assume x: "laid_out (hv_rooms s)" "fair_act x" "is_name q" "act_room x \<noteq> q" "same_but q s t"
  obtain e rid nm r where e: "x = (e, rid, nm, r)" by (cases x)
  have h: "harmless rid m (serve_agent e rid m r)" for m
    using x(2) by (intro harmless_request) (simp_all add: e fair_act_def)
  have rid: "rid \<noteq> q" using x(4) by (simp add: e act_room_def)
  show "fst (agent_act x s) = fst (agent_act x t) \<and> same_but q (snd (agent_act x s)) (snd (agent_act x t))"
  proof (cases "member_of s rid nm")
    case (Some m)
    have "fst (serve_agent e rid m r t) = fst (serve_agent e rid m r s)
        \<and> same_but q (snd (serve_agent e rid m r s)) (snd (serve_agent e rid m r t))"
      using h[of m] member_lives[OF x(1) Some] x(3,5) rid by (simp add: harmless_def)
    with Some same_but_member[OF x(5) rid, of nm] show ?thesis by (simp add: agent_act_def e split_beta)
  qed (use same_but_member[OF x(5) rid, of nm] x(5) in \<open>simp add: agent_act_def e\<close>)
qed (auto intro: own_part_trans)

fun run_acts :: "act list \<Rightarrow> hserver \<Rightarrow> (agent_value res \<times> outside list) option list \<times> hserver" where
  "run_acts [] s = ([], s)"
| "run_acts (x # xs) s = (case agent_act x s of (a, s) \<Rightarrow> (case run_acts xs s of (as', s) \<Rightarrow> (a # as', s)))"

lemma runs_are: "agents.runs acts s = run_acts acts s"
  by (induction acts arbitrary: s) (simp_all add: split_beta)



subsection \<open>An example\<close>

text \<open>Two Rooms; an agent of the first, which has no mounts, tries to read and write a file of the second.\<close>

definition spy :: hmember where
  "spy = boss\<lparr>hm_rank := staff, hm_mounts := []\<rparr>"

definition two_rooms :: "string \<Rightarrow> hserver" where
  "two_rooms secret = \<lparr>hv_rooms = \<lparr>rd_core = (boss_daemon 0)\<lparr>hd_rooms :=
        [''r1'' \<mapsto> \<lparr>hr_name = ''one'', hr_members = [(''boss'', spy)], hr_bindings = []\<rparr>,
         ''r2'' \<mapsto> \<lparr>hr_name = ''two'', hr_members = [], hr_bindings = []\<rparr>],
        hd_volumes := (\<lambda>n. volume_get ''/vols'' n [])\<rparr>, rd_bus = new_manager, rd_vol_root = ''/vols'', rd_vols = [],
      rd_img_root = ''/images'', rd_disk = [''/rooms/r2/rootfs/tmp/x'' \<mapsto> secret], rd_notify = Map.empty\<rparr>, hv_convs = cdaemon_p\<rparr>"

definition intrusion :: "act list" where
  "intrusion = [(aenv_a, ''r1'', ''boss'', Ask (FsWrite ''/tmp/../../r2/rootfs/tmp/x'' ''mine'')),
     (aenv_a, ''r1'', ''boss'', Ask (FsRead ''/../../r2/rootfs/tmp/x''))]"

lemma two_rooms_laid: "laid_out (hv_rooms (two_rooms secret))"
  by (auto simp: laid_out_def laid_dirs_def laid_members_def two_rooms_def boss_daemon_def spy_def disjoint_dirs_def under_dir_def
      proper_dir_def path_eval is_name_def dot_def dotdot_def has_prefix_def split: if_splits)

lemma intrusion_fair: "\<forall>x \<in> set intrusion. fair_act x \<and> act_room x \<noteq> ''r2''"
  by (simp add: intrusion_def fair_act_def fair_env_def fair_call_def act_room_def aenv_a_def mem_io_a_def)

lemma r2_name: "is_name ''r2''"
  by (simp add: is_name_def dot_def dotdot_def)


lemma two_rooms_but: "same_but ''r2'' (two_rooms a) (two_rooms b)"
  by (simp add: same_but_def core_but_def two_rooms_def boss_daemon_def Let_def room_dir_def path_eval under_dir_def has_prefix_def)


end
