(* ===== verification/Hived.thy ===== *)
theory Hived
  imports Isolation Cmd_Line
begin

section \<open>The daemon from its start to its end (daemon.go New and Shutdown, cmd/hived/main.go)\<close>

text \<open>
  The daemon's life as a whole: \<open>new_daemon\<close> builds the state from what the disk keeps, \<open>hived_step\<close> serves one
  input on the joined state of Rooms and conversations, be it a call of the command line, a request of the web
  page, a request of an agent, an agent's exit or the end of a conversation's run. The invariants of the parts
  hold together along every sequence of inputs, and a daemon that dies at any point of it and starts again has the
  Rooms it had.
\<close>

subsection \<open>Requests on Rooms keep the daemon laid out\<close>

lemma show_nat_digits: "c \<in> set (show_nat n) \<Longrightarrow> \<exists>k < 10. c = digit k"
proof (induction n rule: show_nat.induct)
  case (1 n)
  have "n mod 10 < 10" by simp
  with 1 show ?case by (cases "n < 10") (auto simp: show_nat.simps[of n] intro: exI[of _ "n mod 10"])
qed

lemma digit_no_slash: "k < 10 \<Longrightarrow> digit k \<noteq> CHR ''/''"
proof -
  have "list_all (\<lambda>k. digit k \<noteq> CHR ''/'') [0 ..< 10]" by code_simp
  then show "k < 10 \<Longrightarrow> digit k \<noteq> CHR ''/''" by (simp add: list_all_iff)
qed

lemma room_id_name:
  assumes "CHR ''/'' \<notin> set nm"
  shows "is_name (room_id nm now)"
proof -
  have "CHR ''/'' \<notin> set (show_int now)"
    using show_nat_digits digit_no_slash by (auto simp: show_int_def) metis+
  moreover have "CHR ''-'' \<in> set (room_id nm now)" by (simp add: room_id_def)
  then have "room_id nm now \<noteq> []" "room_id nm now \<noteq> dot" "room_id nm now \<noteq> dotdot" by (auto simp: dot_def dotdot_def)
  ultimately show ?thesis using assms by (simp add: is_name_def room_id_def)
qed

lemma laid_frame [simp]:
  "laid_dirs (s\<lparr>rd_bus := b\<rparr>) = laid_dirs s" "laid_members (s\<lparr>rd_bus := b\<rparr>) = laid_members s"
  "laid_dirs (s\<lparr>rd_core := c\<lparr>hd_state := st\<rparr>\<rparr>) = laid_dirs (s\<lparr>rd_core := c\<rparr>)"
  "laid_members (s\<lparr>rd_core := c\<lparr>hd_state := st\<rparr>\<rparr>) = laid_members (s\<lparr>rd_core := c\<rparr>)"
  "laid_out (s\<lparr>rd_bus := b\<rparr>) = laid_out s" "laid_out (s\<lparr>rd_bus := b, rd_core := c\<rparr>) = laid_out (s\<lparr>rd_core := c\<rparr>)"
  "laid_out (s\<lparr>rd_core := c\<lparr>hd_state := st\<rparr>\<rparr>) = laid_out (s\<lparr>rd_core := c\<rparr>)"
  by (simp_all add: laid_out_def laid_dirs_def laid_members_def laid_mount_def workspace_dir_def fun_eq_iff)

lemma laid_sync: "laid_out s \<Longrightarrow> laid_out (sync_lookups yaml (s\<lparr>rd_disk := d\<rparr>))"
  "laid_out s \<Longrightarrow> laid_out (sync_lookups yaml (s\<lparr>rd_vols := vs\<rparr>))"
  "laid_out s \<Longrightarrow> laid_out (sync_lookups yaml (s\<lparr>rd_vols := vs, rd_bus := b\<rparr>))"
  by (auto simp: sync_lookups_def laid_out_def laid_dirs_def laid_members_def laid_mount_def workspace_dir_def)

lemma laid_put:
  assumes "laid_out s" "is_name rid" "laid_members s rid r"
  shows "laid_out (s\<lparr>rd_core := (rd_core s)\<lparr>hd_rooms := (hd_rooms (rd_core s))(rid \<mapsto> r)\<rparr>\<rparr>)"
  using assms by (simp add: laid_out_def)

lemma laid_drop: "laid_out s \<Longrightarrow> laid_out (s\<lparr>rd_core := (rd_core s)\<lparr>hd_rooms := (hd_rooms (rd_core s))(rid := None)\<rparr>\<rparr>)"
  by (simp add: laid_out_def)

lemma laid_put_room:
  assumes "laid_out s" "hd_rooms (rd_core s) rid = Some r" "set (hr_members r') \<subseteq> set (hr_members r)"
  shows "laid_out (put_room sp rid r' s)"
proof -
  from assms have "is_name rid" "laid_members s rid r'" by (auto simp: laid_out_def laid_members_def)
  from laid_put[OF assms(1) this] show ?thesis by (simp add: put_room_def)
qed

lemma laid_stop:
  "laid_out s \<Longrightarrow> laid_out (fold (stop_member conn rid) ms s)"
  by (induction ms arbitrary: s) (simp_all add: stop_member_def)

lemma laid_exit: "laid_out s \<Longrightarrow> laid_out (room_exit conn sp rid nm s)"
proof -
  assume s: "laid_out s"
  have "laid_out (s\<lparr>rd_core := agent_exit sp rid nm (rd_core s)\<rparr>)"
  proof (cases "hd_rooms (rd_core s) rid")
    case (Some r)
    let ?r = "r\<lparr>hr_members := filter (\<lambda>x. fst x \<noteq> nm) (hr_members r)\<rparr>"
    from s Some have "is_name rid" "laid_members s rid ?r" by (auto simp: laid_out_def laid_members_def)
    from laid_put[OF s this] s Some show ?thesis by (auto simp: agent_exit_def Let_def split: option.split)
  qed (use s in \<open>simp add: agent_exit_def\<close>)
  then show ?thesis by (simp add: room_exit_def)
qed

text \<open>A Room's name has no slash: \<^verbatim>\<open>room/init\<close> does not check that.\<close>

definition named_op :: "rop \<Rightarrow> bool" where
  "named_op x \<longleftrightarrow> (case x of OpInit _ (Some nm) \<Rightarrow> CHR ''/'' \<notin> set nm | _ \<Rightarrow> True)"

lemma rexec_laid:
  assumes "laid_out s" "named_op x"
  shows "laid_out (rexec yaml conn (sp, x) s)"
proof (cases x)
  case (OpInit mk p)
  have "laid_members s rid (fresh_room nm)" for rid nm by (simp add: laid_members_def fresh_room_def)
  with assms laid_put[OF assms(1) room_id_name] OpInit show ?thesis
    by (auto simp: handle_room_init_def create_room_def Let_def named_op_def split: option.split)
next
  case (OpStop del p)
  with assms(1) show ?thesis
    by (auto simp: handle_room_stop_def Let_def intro!: laid_stop laid_drop split: option.split)
next
  case (OpHire p)
  have "laid_out (s\<lparr>rd_core := rd_core s\<rparr>)" using assms(1) by simp
  from laid_hire[OF this] OpHire assms(1) show ?thesis
    by (auto simp: handle_agent_hire_def split_beta split: option.split sum.split)
next
  case (OpJunior rid parent p)
  have "laid_out (s\<lparr>rd_core := rd_core s\<rparr>)" using assms(1) by simp
  from laid_hire_junior[OF this] OpJunior assms(1) show ?thesis by (auto simp: junior_of_def split: option.split)
next
  case (OpRename p)
  with assms(1) laid_put_room[OF assms(1)] show ?thesis by (auto simp: handle_room_rename_def Let_def split: option.split)
next
  case (OpBindings p)
  with assms(1) laid_put_room[OF assms(1)] show ?thesis
    by (auto simp: handle_room_set_bindings_def Let_def split: option.split sum.split)
qed (use assms(1) laid_sync laid_exit in \<open>auto simp: handle_image_build_def handle_image_pull_def handle_volume_create_def
    handle_volume_remove_def split: option.split sum.split prod.split\<close>)

subsection \<open>Inputs\<close>

datatype input =
    FromCli ienv ipc_call
  | FromPage ienv meth string rbody
  | FromAgent act
  | AgentGone "string \<Rightarrow> string \<Rightarrow> nat" spawn string string
  | RunEnds env nat "string + string"

primrec hived_step :: "input \<Rightarrow> hserver \<Rightarrow> hserver" where
  "hived_step (FromCli e c) s = snd (call_daemon e c s)"
| "hived_step (FromPage e m url b) s = snd (serve (ie_base e) m url b s)"
| "hived_step (FromAgent x) s = snd (agent_act x s)"
| "hived_step (AgentGone conn sp rid nm) s = s\<lparr>hv_rooms := room_exit conn sp rid nm (hv_rooms s)\<rparr>"
| "hived_step (RunEnds e i res) s = s\<lparr>hv_convs := exec (EndC e i res) (hv_convs s)\<rparr>"

definition hived :: "input list \<Rightarrow> hserver \<Rightarrow> hserver" where
  "hived = fold hived_step"

text \<open>The invariants of the parts, and the inputs they are kept by: writes of state files succeed, no Room is
  named with a slash, and no conversation is deleted (which ends its life off the diagram).\<close>

definition hived_ok :: "hserver \<Rightarrow> bool" where
  "hived_ok s \<longleftrightarrow> daemon_typed (hv_rooms s) \<and> mirrored (core_of s) \<and> \<not> hd_shutting (core_of s)
     \<and> laid_out (hv_rooms s) \<and> life_inv (hv_convs s)"

definition careful_call :: "ienv \<Rightarrow> ipc_call \<Rightarrow> bool" where
  "careful_call e c \<longleftrightarrow> re_del (ie_base e) \<and> sp_save (re_spawn (ie_base e)) \<and> (\<forall>r i. c \<noteq> MethodConversationDelete r i)
     \<and> (\<forall>n. c = MethodRoomInit n \<longrightarrow> CHR ''/'' \<notin> set n)"

definition careful :: "input \<Rightarrow> bool" where
  "careful x \<longleftrightarrow>
     (case x of
        FromCli e c \<Rightarrow> careful_call e c
      | FromPage e m url b \<Rightarrow> (case route_room m url of Inl _ \<Rightarrow> True | Inr r \<Rightarrow> (case call_of b r of None \<Rightarrow> True | Some c \<Rightarrow> careful_call e c))
      | FromAgent y \<Rightarrow> sp_save (av_spawn (fst y))
      | AgentGone conn sp rid nm \<Rightarrow> sp_save sp
      | RunEnds e i res \<Rightarrow> True)"

lemma hived_okI:
  assumes "hived_ok s" "daemon_typed (hv_rooms t)" "mirrored (core_of t) \<and> \<not> hd_shutting (core_of t)" "laid_out (hv_rooms t)"
    and "hv_convs t = hv_convs s \<or> (\<exists>c. hv_convs t = exec c (hv_convs s))"
  shows "hived_ok t \<and> moves (store_of (hv_convs s)) (store_of (hv_convs t))"
  using assms exec_step[of "hv_convs s"] by (auto simp: hived_ok_def)

text \<open>What a request of an agent changes.\<close>

lemma call_shape:
  assumes t_def: "t = snd (serve_call e rid m c s)"
  shows "t = s \<or> (\<exists>a. t = set_quota a s) \<or> (\<exists>d. t = set_files (av_yaml e) d s)
    \<or> (\<exists>p. t = set_core (snd (handle_hire_junior (av_spawn e) rid m p (core_of s))) s)
    \<or> (\<exists>p. t = s\<lparr>hv_convs := exec (SendC (av_peer e) p) (hv_convs s)\<rparr>)"
proof (cases c)
  case (HireJunior ref rk jo)
  have "t = set_core (snd (handle_hire_junior (av_spawn e) rid m (Some (junior_of_call ref rk jo)) (core_of s))) s"
    by (simp add: t_def HireJunior quietly_def split_beta)
  then show ?thesis by blast
next
  case (PeerSend to payload conv)
  have "t = s\<lparr>hv_convs := exec (SendC (av_peer e) (Some \<lparr>pc_room = rid, pc_from = hm_name m, pc_to = to, pc_conv = conv,
      pc_payload = av_raw e payload\<rparr>)) (hv_convs s)\<rparr>"
    by (simp add: t_def PeerSend quietly_def split_beta)
  then show ?thesis by blast
qed (auto simp: t_def quietly_def serve_tool_def Let_def split_beta)

lemma serve_shape:
  assumes t_def: "t = snd (serve_agent e rid m r s)"
  shows "t = s \<or> (\<exists>a. t = set_quota a s) \<or> (\<exists>b. t = set_bus b s) \<or> (\<exists>d. t = set_files (av_yaml e) d s)
    \<or> (\<exists>p. t = set_core (snd (handle_hire_junior (av_spawn e) rid m p (core_of s))) s)
    \<or> (\<exists>p. t = s\<lparr>hv_convs := exec (SendC (av_peer e) p) (hv_convs s)\<rparr>)"
proof (cases r)
  case (Ask c)
  with call_shape[of t e rid m c s] show ?thesis by (auto simp: t_def simp del: exec.simps)
next
  case (AskPublish sc p)
  then show ?thesis by (auto simp: t_def serve_publish_def split: prod.split sum.split)
qed (auto simp: t_def quietly_def serve_tool_def Let_def split_beta)

lemma agent_keeps:
  assumes "hived_ok s" "sp_save (av_spawn e)"
  shows "hived_ok (snd (serve_agent e rid m r s)) \<and> moves (store_of (hv_convs s)) (store_of (hv_convs (snd (serve_agent e rid m r s))))"
proof -
  let ?t = "snd (serve_agent e rid m r s)"
  from serve_shape[of ?t e rid m r s, OF HOL.refl]
  consider (same) "?t = s" | (quota) a where "?t = set_quota a s" | (bus) b where "?t = set_bus b s"
    | (files) d where "?t = set_files (av_yaml e) d s"
    | (junior) p where "?t = set_core (snd (handle_hire_junior (av_spawn e) rid m p (core_of s))) s"
    | (peer) p where "?t = s\<lparr>hv_convs := exec (SendC (av_peer e) p) (hv_convs s)\<rparr>"
    by blast
  then show ?thesis
  proof cases
  case same
  then show ?thesis using assms(1) by simp
next
  case (quota a)
  then show ?thesis unfolding quota using assms(1)
    by (intro hived_okI) (auto simp: hived_ok_def laid_set(1), simp_all add: set_defs daemon_typed_def)
next
  case (bus b)
  then show ?thesis unfolding bus using assms(1)
    by (intro hived_okI) (auto simp: hived_ok_def laid_set(2), simp_all add: set_defs daemon_typed_def)
next
  case (files d)
  then show ?thesis unfolding files using assms(1) sync_typed[of "(hv_rooms s)\<lparr>rd_disk := d\<rparr>" "av_yaml e"]
    by (intro hived_okI) (auto simp: hived_ok_def laid_set(4), simp_all add: set_defs daemon_typed_def)
next
  case (junior p)
  have l: "laid_out ((hv_rooms s)\<lparr>rd_core := core_of s\<rparr>)" using assms(1) by (simp add: hived_ok_def)
  show ?thesis unfolding junior using assms junior_typed[of "core_of s" "av_spawn e" rid m p] laid_hire_junior[OF l, of "av_spawn e" rid m p]
    by (intro hived_okI) (auto simp: hived_ok_def set_core_def daemon_typed_def junior_mirrored junior_shutting)
next
  case (peer p)
  then show ?thesis unfolding peer using assms(1) by (intro hived_okI) (auto simp: hived_ok_def simp del: exec.simps)
  qed
qed

lemma call_keeps:
  assumes "hived_ok s" "careful_call e c"
  shows "hived_ok (snd (serve_ipc e c s)) \<and> moves (store_of (hv_convs s)) (store_of (hv_convs (snd (serve_ipc e c s))))"
proof (rule hived_okI[OF assms(1)])
  let ?t = "snd (serve_ipc e c s)"
  have "daemon_typed (hv_rooms ?t) \<and> mirrored (core_of ?t) \<and> \<not> hd_shutting (core_of ?t) \<and> laid_out (hv_rooms ?t)"
  proof (cases "ipc_room_op e c")
    case None
    with serve_ipc_rooms[where e = e and c = c and s = s] have "same_rooms (hv_rooms s) (hv_rooms ?t)" by simp
    moreover have "laid_out t = laid_out s'" if "same_rooms s' t" for s' t
      using that by (cases s'; cases t)
        (auto simp: same_rooms_def laid_out_def laid_dirs_def laid_members_def laid_mount_def)
    ultimately show ?thesis using assms(1) same_rooms_keep by (auto simp: hived_ok_def)
  next
    case (Some op)
    have "saves (re_spawn (ie_base e), op)" "named_op op"
      using Some assms(2) by (cases c; auto simp: ipc_room_op_def careful_call_def named_op_def)+
    with Some serve_ipc_rooms[where e = e and c = c and s = s] assms(1) show ?thesis
      by (simp add: hived_ok_def rexec_typed rexec_mirrored rexec_laid)
  qed
  then show "daemon_typed (hv_rooms ?t)" "mirrored (core_of ?t) \<and> \<not> hd_shutting (core_of ?t)" "laid_out (hv_rooms ?t)" by simp_all
  show "hv_convs ?t = hv_convs s \<or> (\<exists>x. hv_convs ?t = exec x (hv_convs s))"
    using serve_ipc_convs[of c e s] assms(2) by (auto simp: careful_call_def split: option.splits)
qed

lemma page_effect:
  "snd (serve (ie_base e) m url b s) =
     (case route_room m url of
        Inl _ \<Rightarrow> s
      | Inr r \<Rightarrow> (case call_of b r of None \<Rightarrow> s | Some c \<Rightarrow> snd (serve_ipc e c s)))"
proof (cases "route_room m url")
  case (Inr r)
  then show ?thesis
    by (cases r) (simp_all add: serve_def call_of_def rename_room_def bind_room_def delete_room_def create_conversation_def
        delete_conversation_def start_conversation_def cancel_conversation_def http_rename_def http_bindings_def http_stop_def
        http_create_def http_start_def http_cancel_def http_delete_def on_parts split: option.split)
qed (simp add: serve_def)

lemma step_keeps:
  assumes "hived_ok s" "careful x"
  shows "hived_ok (hived_step x s) \<and> moves (store_of (hv_convs s)) (store_of (hv_convs (hived_step x s)))"
proof (cases x)
  case (FromCli e c)
  have "careful_call e (sent_as c)"
    using assms(2) by (cases c) (simp_all add: FromCli careful_def careful_call_def sent_as_def)
  from call_keeps[OF assms(1) this] show ?thesis by (simp add: FromCli call_parts(2))
next
  case (FromPage e m url b)
  have "careful_call e c" if "route_room m url = Inr r" "call_of b r = Some c" for r c
    using assms(2) that by (simp add: FromPage careful_def)
  with call_keeps[OF assms(1)] assms(1) show ?thesis by (auto simp: FromPage page_effect split: sum.split option.split)
next
  case (FromAgent y)
  obtain e rid nm r where y: "y = (e, rid, nm, r)" by (cases y)
  from assms(2) have "sp_save (av_spawn e)" by (simp add: FromAgent careful_def y)
  from agent_keeps[OF assms(1) this] assms(1) show ?thesis by (auto simp: FromAgent y agent_act_def split_beta split: option.split)
next
  case (AgentGone conn sp rid nm)
  have "saves (sp, OpExit rid nm)" using assms(2) by (simp add: AgentGone careful_def)
  with assms(1) rexec_typed[of "hv_rooms s" "\<lambda>_. None" conn sp "OpExit rid nm"]
    rexec_mirrored[of "hv_rooms s" sp "OpExit rid nm" "\<lambda>_. None" conn] laid_exit[of "hv_rooms s" conn sp rid nm]
  show ?thesis unfolding AgentGone by (intro hived_okI) (simp_all add: hived_ok_def)
next
  case (RunEnds e i res)
  with assms(1) show ?thesis by (intro hived_okI) (auto simp: hived_ok_def simp del: exec.simps)
qed


subsection \<open>The start\<close>

text \<open>What the disk keeps of a daemon, and what a start meets: the paths of the environment, whether directories
  can be made, the listings of the Rooms and of the conversations (none when they cannot be read), and the
  connections of the agents it hires again.\<close>

record saved =
  sv_state :: "string \<rightharpoonup> snapshot"
  sv_files :: "string disk"
  sv_vols :: vol_dirs
  sv_convs :: conv_store

record boot_env =
  bt_paths :: path_env
  bt_mk :: "string \<Rightarrow> bool"
  bt_yaml :: yaml
  bt_listing :: "string list option"
  bt_spawn :: spawn
  bt_env :: env
  bt_sweep :: "(conv_key list \<times> string list) option"
  bt_index :: "conv_key list option"
  bt_conn :: "string \<Rightarrow> string \<Rightarrow> nat"
  bt_trees :: "string \<rightharpoonup> (string \<times> fnode) list"

definition saved_of :: "hserver \<Rightarrow> saved" where
  "saved_of s = \<lparr>sv_state = hd_state (core_of s), sv_files = rd_disk (hv_rooms s), sv_vols = rd_vols (hv_rooms s),
     sv_convs = store_of (hv_convs s)\<rparr>"

definition fresh_core :: "boot_env \<Rightarrow> saved \<Rightarrow> hdaemon" where
  "fresh_core b d =
     \<lparr>hd_rooms = Map.empty, hd_quota = new_actor, hd_ranks = default_registry,
      hd_images = (\<lambda>r. store_get (bt_yaml b) (images_dir (bt_paths b)) r (sv_files d)),
      hd_volumes = (\<lambda>n. volume_get (volumes_dir (bt_paths b)) n (sv_vols d)),
      hd_rooms_dir = rooms_dir (bt_paths b), hd_state = sv_state d, hd_shutting = False\<rparr>"

definition recovered :: "boot_env \<Rightarrow> saved \<Rightarrow> hdaemon" where
  "recovered b d =
     (case bt_listing b of None \<Rightarrow> fresh_core b d | Some ls \<Rightarrow> recover_rooms (bt_spawn b) ls (fresh_core b d))"

text \<open>The members of the Rooms as the conversations see them: names with their volumes, and routers.\<close>

definition members_of :: "hdaemon \<Rightarrow> string \<Rightarrow> (string \<times> hmember) list" where
  "members_of d rid = (case hd_rooms d rid of None \<Rightarrow> [] | Some r \<Rightarrow> hr_members r)"

definition boot_convs :: "boot_env \<Rightarrow> hdaemon \<Rightarrow> conv_store \<Rightarrow> cdaemon" where
  "boot_convs b d st =
     \<lparr>cd_hub = \<lparr>hb_store = (case bt_sweep b of None \<Rightarrow> st | Some (ks, rs) \<Rightarrow> snd (mark_active_as_interrupted (bt_env b) ks rs st)),
        hb_index = (case bt_index b of None \<Rightarrow> Map.empty | Some ks \<Rightarrow> index_by_id ks),
        hb_routers = (\<lambda>rid nm. if nm \<in> fst ` set (members_of d rid) then Some (bt_conn b rid nm) else None),
        hb_active = (case bt_listing b of None \<Rightarrow> [] | Some ls \<Rightarrow> filter (\<lambda>rid. hd_rooms d rid \<noteq> None) ls),
        hb_sent = [], hb_events = []\<rparr>,
      cd_members = (\<lambda>rid. map (\<lambda>(nm, m). (nm, map vr_name (hm_volumes m))) (members_of d rid)),
      cd_volumes = bt_trees b, cd_runs = [], cd_shutting = False\<rparr>"

definition new_daemon :: "boot_env \<Rightarrow> saved \<Rightarrow> hserver option" where
  "new_daemon b d =
     (if \<not> bt_mk b (images_dir (bt_paths b)) then None
      else if \<not> bt_mk b (rooms_dir (bt_paths b)) then None
      else if \<not> bt_mk b (volumes_dir (bt_paths b)) then None
      else Some \<lparr>hv_rooms = \<lparr>rd_core = recovered b d, rd_bus = new_manager, rd_vol_root = volumes_dir (bt_paths b),
                            rd_vols = sv_vols d, rd_img_root = images_dir (bt_paths b), rd_disk = sv_files d,
                            rd_notify = Map.empty\<rparr>,
                 hv_convs = boot_convs b (recovered b d) (sv_convs d)\<rparr>)"

subsection \<open>Rooms come back\<close>

lemma moved_rehire: "moved rid d (rehire_all sp rid ms d) \<and> hd_state (rehire_all sp rid ms d) = hd_state d"
proof (induction ms arbitrary: d)
  case (Cons m ms)
  obtain x e where h: "hire_from_config sp rid (config_of m) d = (x, e)" by fastforce
  with moved_hire[of rid d sp "config_of m"] hire_frame[OF h] Cons.IH[of e] show ?case by (auto intro: moved_trans)
qed simp

lemma moved_recover: "moved rid d (recover_one sp rid sn d) \<and> hd_state (recover_one sp rid sn d) = hd_state d"
proof -
  have "moved rid d (d\<lparr>hd_rooms := (hd_rooms d)(rid \<mapsto> r)\<rparr>)" for r by (simp add: moved_def)
  then show ?thesis using moved_rehire by (fastforce simp: recover_one_def Let_def intro: moved_trans)
qed

text \<open>A Room that can be hired again with what a daemon finds.\<close>

definition restorable :: "spawn \<Rightarrow> hdaemon \<Rightarrow> string \<Rightarrow> hroom \<Rightarrow> bool" where
  "restorable sp d rid r \<longleftrightarrow> distinct (map fst (hr_members r))
     \<and> (\<forall>(nm, m) \<in> set (hr_members r). nm = hm_name m \<and> replayable sp rid d m)
     \<and> (\<forall>b \<in> set (hr_bindings r). is_ok (hd_volumes d (bd_volume b)))"

definition restored :: "spawn \<Rightarrow> hroom \<Rightarrow> hroom" where
  "restored sp r = r\<lparr>hr_members := map (rehired sp) (sort_key hm_name (map snd (hr_members r)))\<rparr>"

lemma restorable_moved: "moved q c d \<Longrightarrow> restorable sp d rid r = restorable sp c rid r"
  by (simp add: restorable_def replayable_def moved_def workspace_dir_def)

lemma recover_each:
  assumes "spawn_ok sp" "distinct (map fst xs)" "\<forall>(rid, sn) \<in> set xs. sn = snapshot_for (R rid) \<and> restorable sp d rid (R rid)"
  shows "hd_rooms (foldl (\<lambda>d (rid, sn). recover_one sp rid sn d) d xs) rid =
      (if rid \<in> fst ` set xs then Some (restored sp (R rid)) else hd_rooms d rid)
    \<and> hd_state (foldl (\<lambda>d (rid, sn). recover_one sp rid sn d) d xs) = hd_state d"
  using assms(2,3)
proof (induction xs arbitrary: d)
  case (Cons x xs)
  obtain q sn where x: "x = (q, sn)" by (cases x)
  let ?d = "recover_one sp q sn d"
  have r: "restorable sp d q (R q)" "sn = snapshot_for (R q)" using Cons.prems(2) x by auto
  then have here: "hd_rooms ?d q = Some (restored sp (R q))"
    using restart_restores_members[OF assms(1), of "R q" q d] by (simp add: restorable_def restored_def)
  have m: "moved q d ?d" "hd_state ?d = hd_state d" using moved_recover by auto
  have "\<forall>(rid, sn) \<in> set xs. sn = snapshot_for (R rid) \<and> restorable sp ?d rid (R rid)"
    using Cons.prems(2) by (auto simp: restorable_moved[OF m(1)])
  from Cons.IH[OF _ this] Cons.prems(1) here m show ?case
    by (auto simp: x moved_def)
qed simp

lemma load_all_fsts: "map fst (load_all ls st) = filter (\<lambda>rid. \<exists>sn. st rid = Some sn \<and> \<not> sn_version sn > 1) ls"
  by (induction ls) (auto simp: load_all_def split: option.splits)

lemma load_all_set: "set (load_all ls st) = {(rid, sn). rid \<in> set ls \<and> st rid = Some sn \<and> \<not> sn_version sn > 1}"
  by (induction ls) (auto simp: load_all_def split: option.splits if_splits)

lemma recover_rooms_restores:
  assumes "spawn_ok sp" "distinct ls" "dom R \<subseteq> set ls" "hd_state d = map_option snapshot_for \<circ> R" "hd_rooms d = Map.empty"
    and "\<And>rid r. R rid = Some r \<Longrightarrow> restorable sp d rid r"
  shows "hd_rooms (recover_rooms sp ls d) rid = map_option (restored sp) (R rid) \<and> hd_state (recover_rooms sp ls d) = hd_state d"
proof -
  let ?xs = "sort_key fst (load_all ls (hd_state d))"
  have set: "set ?xs = {(rid, snapshot_for r) | rid r. R rid = Some r}"
    using assms(3) by (auto simp: load_all_set assms(4) snapshot_for_def)
  have fsts: "fst ` set ?xs = dom R" unfolding set by force
  have "distinct (map fst (load_all ls (hd_state d)))" using assms(2) by (simp add: load_all_fsts)
  then have d: "distinct (map fst ?xs)" by (simp add: distinct_map)
  have "\<forall>(rid, sn) \<in> set ?xs. sn = snapshot_for (the (R rid)) \<and> restorable sp d rid (the (R rid))"
    unfolding set using assms(6) by auto
  from recover_each[OF assms(1) d this, of rid] fsts assms(5) show ?thesis
    by (cases "R rid") (auto simp: recover_rooms_def)
qed


subsection \<open>A Room and a conversation over a restart\<close>

definition demo_room :: hroom where
  "demo_room = \<lparr>hr_name = ''demo'', hr_members = [(''critic'', critic None)], hr_bindings = []\<rparr>"

definition yaml_critic :: yaml where
  "yaml_critic = (\<lambda>_. Some (img_manifest critic_image))"

definition boot_a :: boot_env where
  "boot_a = \<lparr>bt_paths = \<lparr>pe_socket = [], pe_xdg = [], pe_home = None, pe_state = ''/''\<rparr>, bt_mk = (\<lambda>_. True), bt_yaml = yaml_critic,
     bt_listing = Some [''r1''], bt_spawn = spawn_a, bt_env = env_a, bt_sweep = Some ([key_c1], [''r1'']),
     bt_index = Some [key_c1], bt_conn = (\<lambda>_ _. 0), bt_trees = Map.empty\<rparr>"

definition ready :: hserver where
  "ready = \<lparr>hv_rooms = \<lparr>rd_core = (boss_daemon 0)\<lparr>hd_rooms := [''r1'' \<mapsto> demo_room], hd_state := [''r1'' \<mapsto> snapshot_for demo_room],
        hd_volumes := (\<lambda>n. volume_get ''/volumes'' n [])\<rparr>, rd_bus = new_manager, rd_vol_root = ''/volumes'', rd_vols = [],
      rd_img_root = ''/images'', rd_disk = [''/images/critic/1/agent.yaml'' \<mapsto> []], rd_notify = Map.empty\<rparr>, hv_convs = cdaemon_p\<rparr>"

definition start_c1 :: input where
  "start_c1 = FromCli ienv_a (MethodConversationStart ''r1'' ''c1'')"

lemma ready_rooms [simp]: "hd_rooms (core_of ready) = [''r1'' \<mapsto> demo_room]" "hv_convs ready = cdaemon_p"
  by (simp_all add: ready_def)

lemma ready_ok: "hived_ok ready"
proof -
  have "laid_out (hv_rooms ready)"
    by (auto simp: laid_out_def laid_dirs_def laid_members_def ready_def boss_daemon_def disjoint_dirs_def under_dir_def
        proper_dir_def path_eval is_name_def dot_def dotdot_def has_prefix_def demo_room_def critic_def laid_mount_def
        workspace_dir_def split: if_splits)
  moreover have "daemon_typed (hv_rooms ready)"
    by (auto simp: daemon_typed_def rooms_typed_def room_typed_def demo_room_def ready_def volume_get_def split: if_splits)
  ultimately show ?thesis
    by (auto simp: hived_ok_def mirrored_def life_inv_def placed_p) (simp_all add: ready_def boss_daemon_def)
qed

lemma start_careful: "careful start_c1"
  by (simp add: start_c1_def careful_def careful_call_def ienv_a_def renv_a_def spawn_a_def)

lemma started: "hived [start_c1] ready = ready\<lparr>hv_convs := started_p\<rparr>"
proof -
  have "sent_as (MethodConversationStart ''r1'' ''c1'') = MethodConversationStart ''r1'' ''c1''" by (simp add: sent_as_def)
  moreover have "re_env (ie_base ienv_a) = env_a" "re_env2 (ie_base ienv_a) = env_a" by (simp_all add: ienv_a_def renv_a_def)
  ultimately show ?thesis by (simp add: hived_def start_c1_def call_parts start_p(1) on_convs_def)
qed

lemma critic_restorable: "restorable spawn_a (fresh_core boot_a (saved_of (ready\<lparr>hv_convs := started_p\<rparr>))) ''r1'' demo_room"
proof -
  let ?d = "fresh_core boot_a (saved_of (ready\<lparr>hv_convs := started_p\<rparr>))"
  have "hd_images ?d critic_ref = Inr critic_image"
    by (simp add: fresh_core_def saved_of_def boot_a_def ready_def store_get_def path_of_def images_dir_def state_root_def
        path_eval load_image_def load_manifest_def manifest_filename_def critic_ref_def yaml_critic_def critic_image_def
        validate_manifest_def with_rank_def dotdot_in_def)
  moreover have "prepare_image_by_kind spawn_a critic_image [] = Inr (critic_image, [])"
    by (simp add: prepare_image_by_kind_def critic_image_def)
  moreover have "has_capability staff ''llm''" by (simp add: has_capability_def capabilities_def staff_def)
  moreover have "workspace_dir ?d ''r1'' = ''/rooms/r1/workspace''"
    by (simp add: workspace_dir_def fresh_core_def boot_a_def rooms_dir_def state_root_def path_eval)
  moreover have "hd_ranks ?d = default_registry" by (simp add: fresh_core_def)
  ultimately have "replayable spawn_a ''r1'' ?d (critic None)"
    unfolding replayable_def
    by (intro exI[of _ critic_image] exI[of _ "[]"])
       (simp add: critic_def staff_rank, simp add: critic_image_def critic_ref_def image_ref_of_def)
  then show ?thesis by (simp add: restorable_def demo_room_def)
qed



subsection \<open>Names that leave their directory\<close>

text \<open>The store joins a reference to its root as it is, so an agent can have an image hired that it wrote into its own
  workspace. And the name given to \<^verbatim>\<open>room/init\<close> is not checked: with dots it puts the Room's directory beside the
  Rooms', where the next start does not look.\<close>

lemma own_image_hired:
  "\<exists>r. parse_image_ref ''../rooms/r1/workspace/evil:1'' = Inr r
     \<and> store_get yaml ''/images'' r d = load_image yaml ''/rooms/r1/workspace/evil/1'' d"
proof -
  let ?r = "\<lparr>ref_name = ''../rooms/r1/workspace/evil'', ref_version = ''1''\<rparr>"
  have "ref_string ?r = ''../rooms/r1/workspace/evil:1''" by (simp add: ref_string_def)
  with parse_image_ref_string[of ?r] have "parse_image_ref ''../rooms/r1/workspace/evil:1'' = Inr ?r" by simp
  moreover have "path_of ''/images'' ?r = ''/rooms/r1/workspace/evil/1''" by (simp add: path_of_def path_eval)
  ultimately show ?thesis by (simp add: store_get_def)
qed

lemma room_beside_rooms:
  "\<exists>x s'. handle_room_init spawn_a True (Some ''../x'') (hv_rooms ready) = (Inr (''../x-9'', x), s')
     \<and> hd_rooms (rd_core s') ''../x-9'' = Some (fresh_room ''../x'')
     \<and> room_dir (rd_core s') ''../x-9'' = ''/x-9'' \<and> \<not> under_dir (hd_rooms_dir (rd_core s')) ''/x-9''"
  by (simp add: handle_room_init_def create_room_def room_id_def show_int_def show_nat.simps digit_9 spawn_a_def Let_def
      persist_room_def room_dir_def under_dir_def has_prefix_def)
     (simp add: ready_def boss_daemon_def path_eval)

end
