(* ===== verification/Ipc.thy ===== *)
theory Ipc
  imports Conn "HOL-Library.Multiset"
begin

section \<open>The command line's connection to the daemon (internal/ipc/server.go, client.go)\<close>

text \<open>
  The server answers the requests of each connection by its handlers, a goroutine for each; a handler
  may push notifications before its response. The client's table of calls is that of \<open>Conn\<close>
  with one difference: when the connection ends only the flag \<open>closed\<close> is set, and the channels and the
  table stay.
\<close>

subsection \<open>Server\<close>

text \<open>A handler gives the notifications it pushes, those without JSON among them, and its outcome.\<close>

type_synonym ipc_handler = "string \<Rightarrow> (string \<times> string option) list \<times> string option res"

definition ipc_notify :: "string \<times> string option \<Rightarrow> rpc_message list" where
  "ipc_notify x = (case new_notification (fst x) (snd x) of Inl _ \<Rightarrow> [] | Inr n \<Rightarrow> [n])"

definition ipc_dispatch :: "(string \<rightharpoonup> ipc_handler) \<Rightarrow> rpc_message \<Rightarrow> rpc_message list" where
  "ipc_dispatch handlers m =
     (case handlers (rm_method m) of
        None \<Rightarrow> [new_error_response (rm_id m) (err_of MethodNotFound)]
      | Some h \<Rightarrow>
          (case h (rm_params m) of
             (ns, r) \<Rightarrow>
               concat (map ipc_notify ns) @
               [case r of
                  Inl e \<Rightarrow> new_error_response (rm_id m) (err_of e)
                | Inr v \<Rightarrow>
                    (case new_response (rm_id m) v of
                       Inl _ \<Rightarrow> new_error_response (rm_id m) (err_of Internal)
                     | Inr resp \<Rightarrow> resp)]))"

text \<open>What a connection starts for the messages it reads, until one does not decode; then it is closed.\<close>

definition handle_conn :: "(string \<Rightarrow> rpc_message option) \<Rightarrow> (string \<rightharpoonup> ipc_handler) \<Rightarrow> string \<Rightarrow> rpc_message list list" where
  "handle_conn dec handlers s = map (ipc_dispatch handlers) (filter is_request (conn_read_all dec s))"

text \<open>The goroutines write under one lock: what the client sees is an interleaving of what each writes.\<close>

definition interleaved :: "'a list list \<Rightarrow> 'a list \<Rightarrow> bool" where
  "interleaved xss ys \<longleftrightarrow> ys \<in> foldr (\<lambda>xs S. \<Union>s \<in> S. shuffles xs s) xss {[]}"

lemma interleaved_filter:
  "interleaved xss ys \<Longrightarrow> (\<And>xs. xs \<in> set xss \<Longrightarrow> filter P xs = [r xs]) \<Longrightarrow> mset (filter P ys) = mset (map r xss)"
proof (induction xss arbitrary: ys)
  case (Cons xs xss)
  from Cons.prems(1) obtain s where s: "interleaved xss s" "ys \<in> shuffles xs s"
    by (auto simp: interleaved_def)
  from s(2) have "mset (filter P ys) = mset (filter P xs) + mset (filter P s)"
    by (metis filter_union_mset mset_filter mset_shuffles)
  with Cons.IH[OF s(1)] Cons.prems(2) show ?case by simp
qed (simp add: interleaved_def)

lemma notify_no_response: "filter is_response (concat (map ipc_notify ns)) = []"
  by (induction ns) (auto simp: ipc_notify_def new_notification_def is_response_def split: option.splits sum.splits)

lemma ipc_dispatch_response:
  assumes "is_request m"
  shows "\<exists>r. filter is_response (ipc_dispatch handlers m) = [r] \<and> last (ipc_dispatch handlers m) = r \<and> rm_id r = rm_id m"
proof -
  have i: "rm_id m \<noteq> []" using assms by (auto simp: is_request_def)
  then have e: "is_response (new_error_response (rm_id m) x)" "rm_id (new_error_response (rm_id m) x) = rm_id m" for x
    by (simp_all add: new_error_response_def is_response_def)
  have r: "new_response (rm_id m) v = Inr x \<Longrightarrow> rm_id x = rm_id m \<and> is_response x" for v x
    using i by (auto simp: new_response_def is_response_def split: option.splits)
  show ?thesis
  proof (cases "handlers (rm_method m)")
    case None
    with e show ?thesis by (simp add: ipc_dispatch_def)
  next
    case (Some h)
    obtain ns x where h: "h (rm_params m) = (ns, x)" by fastforce
    show ?thesis
    proof (cases x)
      case (Inl err)
      with Some h e show ?thesis by (simp add: ipc_dispatch_def notify_no_response)
    next
      case (Inr v)
      with Some h e r show ?thesis
        by (cases "new_response (rm_id m) v") (simp_all add: ipc_dispatch_def notify_no_response)
    qed
  qed
qed


definition ask :: "string \<Rightarrow> rpc_message" where
  "ask i = \<lparr>rm_id = i, rm_method = ''room/list'', rm_params = [], rm_result = [], rm_error = None\<rparr>"

definition ask_dec :: "string \<Rightarrow> rpc_message option" where
  "ask_dec b = Some (ask (butlast b))"


subsection \<open>Client\<close>

definition client_step :: "(string \<Rightarrow> int option) \<Rightarrow> conn_act \<Rightarrow> conn \<Rightarrow> conn option" where
  "client_step parse a c = (if a = WaitClose then None else conn_step parse a c)"

definition client_inv :: "(string \<Rightarrow> int option) \<Rightarrow> conn \<Rightarrow> bool" where
  "client_inv parse c \<longleftrightarrow> conn_inv parse c \<and> cn_pending c \<noteq> None"

lemma keeps_table: "conn_step parse a c = Some c' \<Longrightarrow> a \<noteq> WaitClose \<Longrightarrow> cn_pending c \<noteq> None \<Longrightarrow> cn_pending c' \<noteq> None"
  by (cases a) (auto simp: conn_step_def call_register_def call_written_def call_receive_def call_give_up_def call_see_done_def
      read_response_def send_held_def wait_done_def panic_def call_end_def Let_def split: if_splits option.splits list.splits)

interpretation client_calls: call_table "client_step parse" "client_inv parse" conn_answer cn_received parse for parse
proof
  show "client_inv parse c \<Longrightarrow> client_step parse a c = Some c' \<Longrightarrow> client_inv parse c'" for a c c'
    using conn_step_inv keeps_table by (auto simp: client_step_def client_inv_def split: if_splits)
  show "client_step parse a c = Some c' \<Longrightarrow> set (cn_received c) \<subseteq> set (cn_received c')" for a c c'
    using received_mono by (auto simp: client_step_def split: if_splits)
  show "client_inv parse c \<Longrightarrow> conn_answer c i = Some m \<Longrightarrow> parse (rm_id m) = Some i \<and> m \<in> set (cn_received c)" for c i m
    by (auto simp: client_inv_def dest: conn_calls.inv_answer)
qed

text \<open>The command line's client never panics, also when calls and the end of the connection overlap, and
  a call that is answered got a response with its id.\<close>

theorem client_never_panics:
  assumes "run_steps (client_step parse) acts new_conn = Some c"
  shows "\<not> cn_panicked c \<and> (\<forall>i m. cn_phase c i = Some (Answered m) \<longrightarrow> parse (rm_id m) = Some i \<and> m \<in> set (cn_received c))"
proof -
  have init: "client_inv parse new_conn" using new_conn_inv by (simp add: client_inv_def new_conn_def)
  have "\<not> cn_panicked c" using client_calls.run_inv[OF init assms] by (auto simp: client_inv_def conn_inv_def)
  moreover have "parse (rm_id m) = Some i \<and> m \<in> set (cn_received c)" if "cn_phase c i = Some (Answered m)" for i m
    using client_calls.own_answer[OF init assms, of i m] that by (simp add: conn_answer_def)
  ultimately show ?thesis by blast
qed

theorem client_never_panics_witness:
  "\<exists>c. run_steps (client_step parse_12) [Call, WaitDone, Wrote 1 True, Call, Wrote 2 False, SeeDone 1] new_conn = Some c \<and> \<not> cn_panicked c"
proof -
  obtain c where "run_steps (client_step parse_12) [Call, WaitDone, Wrote 1 True, Call, Wrote 2 False, SeeDone 1] new_conn = Some c"
    by (simp add: client_step_def conn_eval)
  with client_never_panics show ?thesis by blast
qed

end
