(* ===== verification/Log_Rotate.thy ===== *)
theory Log_Rotate
  imports Hive_Prelude
begin

section \<open>Rotating logs (internal/daemon/logrotate.go)\<close>

text \<open>
  An agent's standard error goes to a file of bounded size with one backup. The state is the log's
  descriptor (none once the log is closed; a descriptor that was closed for a rotation that then
  failed stays and refuses writes), the size the code keeps, and the contents of the file and of its
  backup. The outcomes of the system calls are arguments: of a rotation the three of \<open>rot_io\<close>, of a
  write how many of its bytes were written.
\<close>

datatype fd = FdOpen | FdDead

record rlog =
  lg_fd :: "fd option"
  lg_size :: nat
  lg_max :: nat
  lg_cur :: "string option"
  lg_bak :: "string option"

record rot_io =
  ro_close :: bool
  ro_rename :: bool
  ro_reopen :: bool

definition rot_good :: rot_io where
  "rot_good = \<lparr>ro_close = True, ro_rename = True, ro_reopen = True\<rparr>"

definition default_log_max :: nat where "default_log_max = 10485760"

definition log_max_bytes :: "(string \<Rightarrow> int option) \<Rightarrow> string \<Rightarrow> int" where
  "log_max_bytes parse env =
     (if env \<noteq> [] then (case parse env of Some n \<Rightarrow> if 0 < n then n else int default_log_max | None \<Rightarrow> int default_log_max)
      else int default_log_max)"

definition contents :: "string option \<Rightarrow> string" where
  "contents f = (case f of None \<Rightarrow> [] | Some s \<Rightarrow> s)"

lemma contents_simps [simp]: "contents None = []" "contents (Some s) = s"
  by (simp_all add: contents_def)

definition open_log :: "nat \<Rightarrow> string option \<Rightarrow> string option \<Rightarrow> rlog" where
  "open_log m cur bak = \<lparr>lg_fd = Some FdOpen, lg_size = length (contents cur), lg_max = m, lg_cur = Some (contents cur), lg_bak = bak\<rparr>"

text \<open>Close, remove the old backup, rename, reopen. A descriptor that is dead cannot be closed again.\<close>

definition rotate :: "rot_io \<Rightarrow> rlog \<Rightarrow> rlog" where
  "rotate w l =
     (if lg_fd l \<noteq> Some FdOpen \<or> \<not> ro_close w then l\<lparr>lg_fd := Some FdDead\<rparr>
      else if \<not> ro_rename w then l\<lparr>lg_bak := None, lg_fd := Some (if ro_reopen w then FdOpen else FdDead)\<rparr>
      else if \<not> ro_reopen w then l\<lparr>lg_bak := lg_cur l, lg_cur := None, lg_fd := Some FdDead\<rparr>
      else l\<lparr>lg_bak := lg_cur l, lg_cur := Some [], lg_fd := Some FdOpen, lg_size := 0\<rparr>)"

text \<open>The number of bytes a write reports and whether it succeeded.\<close>

definition log_write :: "rot_io \<Rightarrow> nat \<Rightarrow> string \<Rightarrow> rlog \<Rightarrow> (nat \<times> bool) \<times> rlog" where
  "log_write w n p l =
     (case lg_fd l of
        None \<Rightarrow> ((0, False), l)
      | Some _ \<Rightarrow>
          (let l = (if 0 < lg_size l \<and> lg_max l < lg_size l + length p then rotate w l else l) in
           if lg_fd l = Some FdOpen
           then ((min n (length p), length p \<le> n),
                 l\<lparr>lg_cur := Some (contents (lg_cur l) @ take n p), lg_size := lg_size l + min n (length p)\<rparr>)
           else ((0, False), l)))"

definition close_log :: "rlog \<Rightarrow> rlog" where
  "close_log l = l\<lparr>lg_fd := None\<rparr>"

text \<open>A run of writes, and the bytes they reported as written.\<close>

fun log_writes :: "(rot_io \<times> nat \<times> string) list \<Rightarrow> rlog \<Rightarrow> string \<times> rlog" where
  "log_writes [] l = ([], l)"
| "log_writes ((w, n, p) # ps) l =
     (let ((k, ok), l) = log_write w n p l; (out, l) = log_writes ps l in (take k p @ out, l))"

subsection \<open>The tail is kept\<close>

definition log_inv :: "rlog \<Rightarrow> bool" where
  "log_inv l \<longleftrightarrow> (lg_fd l = Some FdOpen \<longrightarrow> lg_cur l \<noteq> None \<and> lg_size l = length (contents (lg_cur l)))"

definition on_disk :: "rlog \<Rightarrow> string" where
  "on_disk l = contents (lg_bak l) @ contents (lg_cur l)"

lemma rotate_inv: "log_inv l \<Longrightarrow> log_inv (rotate w l)"
  by (auto simp: log_inv_def rotate_def)

lemma rotate_suffix: "suffix (on_disk (rotate w l)) (on_disk l)"
  by (auto simp: on_disk_def rotate_def suffix_def)

lemma log_write_inv: "log_inv l \<Longrightarrow> log_write w n p l = (r, l') \<Longrightarrow> log_inv l'"
  using rotate_inv[of l w] by (auto simp: log_write_def log_inv_def Let_def split: option.splits if_splits)

lemma log_write_suffix:
  assumes "log_write w n p l = ((k, ok), l')"
  shows "suffix (on_disk l') (on_disk l @ take k p)"
proof -
  have app: "suffix (on_disk m @ x) (on_disk l @ x)" if "suffix (on_disk m) (on_disk l)" for m x
    using that by (auto simp: suffix_def)
  show ?thesis
    using assms app[of "rotate w l" "take k p"] rotate_suffix[of w l]
    by (auto simp: log_write_def on_disk_def Let_def min_def split: option.splits if_splits)
qed

lemma log_writes_suffix: "log_writes ps l = (out, l') \<Longrightarrow> suffix (on_disk l') (on_disk l @ out)"
proof (induction ps arbitrary: l out l')
  case (Cons x ps)
  obtain w n p where x: "x = (w, n, p)" by (cases x) auto
  obtain k ok l1 where a: "log_write w n p l = ((k, ok), l1)" by (metis prod.collapse)
  obtain out1 l2 where b: "log_writes ps l1 = (out1, l2)" by fastforce
  from Cons.prems x a b have e: "out = take k p @ out1" "l' = l2" by simp_all
  have "suffix (on_disk l1 @ out1) ((on_disk l @ take k p) @ out1)"
    using log_write_suffix[OF a] by (auto simp: suffix_def)
  with Cons.IH[OF b] e show ?case by (metis append_assoc suffix_order.trans)
qed simp

text \<open>Whatever the system calls of the rotations do, the backup followed by the log is at every moment
  the end of all that was written: rotation loses only bytes older than those it keeps, and never
  reorders or repeats any.\<close>

theorem log_keeps_tail:
  assumes "log_writes ps (open_log m cur bak) = (out, l)"
  shows "suffix (contents (lg_bak l) @ contents (lg_cur l)) (contents bak @ contents cur @ out)"
  using log_writes_suffix[OF assms] by (simp add: on_disk_def open_log_def)

lemma log_keeps_tail_witness:
  "\<exists>l. log_writes [(rot_good, 2, ''ab''), (rot_good, 2, ''cd''), (rot_good, 2, ''ef'')] (open_log 3 None None) = (''abcdef'', l)
     \<and> contents (lg_bak l) @ contents (lg_cur l) = ''cdef'' \<and> suffix ''cdef'' ''abcdef''"
proof -
  obtain out l where r: "log_writes [(rot_good, 2, ''ab''), (rot_good, 2, ''cd''), (rot_good, 2, ''ef'')] (open_log 3 None None) = (out, l)"
    by fastforce
  then have "out = ''abcdef''" "contents (lg_bak l) @ contents (lg_cur l) = ''cdef''"
    by (auto simp: log_write_def rotate_def rot_good_def open_log_def Let_def numeral_2_eq_2 numeral_3_eq_3)
  with log_keeps_tail[OF r] r show ?thesis by auto
qed

subsection \<open>The size is bounded\<close>

definition bounded_by :: "nat \<Rightarrow> rlog \<Rightarrow> bool" where
  "bounded_by b l \<longleftrightarrow> lg_max l \<le> b \<and> length (contents (lg_cur l)) \<le> b \<and> length (contents (lg_bak l)) \<le> b"

lemma log_write_bounded:
  assumes "log_inv l" "lg_fd l = Some FdOpen" "bounded_by b l" "length p \<le> b" "log_write rot_good n p l = (r, l')"
  shows "bounded_by b l' \<and> lg_fd l' = Some FdOpen"
  using assms
  by (auto simp: log_write_def bounded_by_def rotate_def rot_good_def log_inv_def Let_def split: if_splits)

lemma log_writes_bounded:
  "log_inv l \<Longrightarrow> lg_fd l = Some FdOpen \<Longrightarrow> bounded_by b l \<Longrightarrow>
     \<forall>(w, n, p) \<in> set ps. w = rot_good \<and> length p \<le> b \<Longrightarrow> log_writes ps l = (out, l') \<Longrightarrow> bounded_by b l'"
proof (induction ps arbitrary: l out l')
  case (Cons x ps)
  obtain n p where x: "x = (rot_good, n, p)" "length p \<le> b" using Cons.prems(4) by (cases x) auto
  obtain r l1 where a: "log_write rot_good n p l = (r, l1)" by fastforce
  have l1: "bounded_by b l1" "lg_fd l1 = Some FdOpen" "log_inv l1"
    using log_write_bounded[OF Cons.prems(1-3) x(2) a] log_write_inv[OF Cons.prems(1) a] by auto
  obtain out1 l2 where b: "log_writes ps l1 = (out1, l2)" by fastforce
  from Cons.prems(5) x a b have "l' = l2" by (simp add: split_def Let_def)
  with Cons.IH[OF l1(3,2,1) _ b] Cons.prems(4) show ?case by auto
qed simp

text \<open>With rotations that succeed, neither the log nor its backup ever holds more than the limit, or
  than the longest single write where that is longer.\<close>

theorem log_size_bounded:
  assumes "\<forall>(w, n, p) \<in> set ps. w = rot_good \<and> length p \<le> b" "m \<le> b"
    and "length (contents cur) \<le> b" "length (contents bak) \<le> b"
    and "log_writes ps (open_log m cur bak) = (out, l)"
  shows "length (contents (lg_cur l)) \<le> b \<and> length (contents (lg_bak l)) \<le> b"
proof -
  have "log_inv (open_log m cur bak)" "lg_fd (open_log m cur bak) = Some FdOpen" "bounded_by b (open_log m cur bak)"
    using assms(2-4) by (simp_all add: log_inv_def open_log_def bounded_by_def)
  from log_writes_bounded[OF this assms(1,5)] show ?thesis by (simp add: bounded_by_def)
qed

lemma log_size_bounded_witness:
  "\<exists>out l. log_writes [(rot_good, 4, ''abcd''), (rot_good, 2, ''ef'')] (open_log 3 None None) = (out, l)
     \<and> length (contents (lg_cur l)) \<le> 4 \<and> length (contents (lg_bak l)) \<le> 4"
proof -
  obtain out l where r: "log_writes [(rot_good, 4, ''abcd''), (rot_good, 2, ''ef'')] (open_log 3 None None) = (out, l)"
    by fastforce
  have "length (contents (lg_cur l)) \<le> 4 \<and> length (contents (lg_bak l)) \<le> 4"
    by (rule log_size_bounded[OF _ _ _ _ r]) simp_all
  with r show ?thesis by blast
qed

text \<open>A rotation whose reopen fails leaves a descriptor that refuses every later write.\<close>

lemma dead_log_stays_dead:
  "lg_fd l = Some FdDead \<Longrightarrow> log_write w n p l = (r, l') \<Longrightarrow> r = (0, False) \<and> lg_fd l' = Some FdDead"
  by (auto simp: log_write_def rotate_def Let_def split: if_splits)

lemma failed_reopen_kills_log:
  assumes "ro_close w" "\<not> ro_reopen w" "lg_fd l = Some FdOpen" "0 < lg_size l" "lg_max l < lg_size l + length p"
  shows "lg_fd (snd (log_write w n p l)) = Some FdDead"
  using assms by (auto simp: log_write_def rotate_def Let_def)

text \<open>A rotation whose rename fails has removed the backup all the same.\<close>

lemma failed_rename_drops_backup:
  "ro_close w \<Longrightarrow> \<not> ro_rename w \<Longrightarrow> lg_fd l = Some FdOpen \<Longrightarrow> lg_bak (rotate w l) = None"
  by (simp add: rotate_def)

end
