(* ===== verification/Providers.thy ===== *)
theory Providers
  imports Metered_Proxies Ipc_Types
begin

section \<open>The providers behind the metered proxies (llmproxy.go, aitoolproxy.go, daemon.go New)\<close>

text \<open>
  Which language model and which AI tool the daemon uses is decided at its start by the environment:
  an OpenAI-compatible server when there is a key, Claude Code when there is a key and a binary, the
  offline mocks otherwise. The request to the server is JSON, of which the encoder \<open>js\<close> and the decoder
  \<open>unjs\<close> are arguments, as are the HTTP client and the processes.
\<close>

subsection \<open>An OpenAI-compatible server\<close>

record oa_provider =
  oa_key :: string
  oa_base :: string

definition new_openai_from_env :: "(string \<Rightarrow> string) \<Rightarrow> oa_provider option" where
  "new_openai_from_env getenv =
     (let key = getenv ''OPENAI_API_KEY'' in
      if key = [] then None
      else (let base = getenv ''OPENAI_BASE_URL'';
                base = (if base = [] then ''https://api.openai.com/v1'' else base)
            in Some \<lparr>oa_key = key, oa_base = trim_right base ''/''\<rparr>))"

definition oa_fields :: "oa_request \<Rightarrow> fields" where
  "oa_fields q =
     [(''model'', WStr (oa_model q)),
      (''messages'', if oa_messages q = [] then WNull
         else WArr (map (\<lambda>(r, c). WObj [(''role'', WStr r), (''content'', WStr c)]) (oa_messages q)))]
     @ some_int ''max_tokens'' (oa_max_tokens q) @ some_int ''max_completion_tokens'' (oa_max_completion_tokens q)"

definition oa_http :: "(wval \<Rightarrow> string) \<Rightarrow> oa_provider \<Rightarrow> llm_params \<Rightarrow> net_request" where
  "oa_http js o_p p =
     \<lparr>nr_method = ''POST'', nr_url = oa_base o_p @ ''/chat/completions'',
      nr_headers = [(''Authorization'', ''Bearer '' @ oa_key o_p), (''Content-Type'', ''application/json'')],
      nr_body = js (WObj (oa_fields (openai_request p)))\<rparr>"

text \<open>The reply: the text of the first choice, empty without one, and the usage, zeros where it is left out.\<close>

definition decode_choice :: "wval \<Rightarrow> string option" where
  "decode_choice v =
     (case v of WNull \<Rightarrow> Some [] | WObj m \<Rightarrow> fld_obj (\<lambda>m. fld_str m ''content'') m ''message'' | _ \<Rightarrow> None)"

definition decode_choices :: "fields \<Rightarrow> string list option" where
  "decode_choices m =
     (case map_of m ''choices'' of
        None \<Rightarrow> Some [] | Some WNull \<Rightarrow> Some [] | Some (WArr vs) \<Rightarrow> all_some (map decode_choice vs) | _ \<Rightarrow> None)"

definition decode_completion :: "(string \<Rightarrow> wval option) \<Rightarrow> string \<Rightarrow> llm_result option" where
  "decode_completion unjs body =
     (case (case unjs body of Some WNull \<Rightarrow> Some [] | Some (WObj m) \<Rightarrow> Some m | _ \<Rightarrow> None) of
        None \<Rightarrow> None
      | Some m \<Rightarrow>
          bind2 (decode_choices m) (decode_usage m)
            (\<lambda>cs (p, c, t). \<lparr>lr_text = (case cs of [] \<Rightarrow> [] | x # _ \<Rightarrow> x), lr_prompt_tokens = p, lr_completion_tokens = c, lr_total_tokens = t\<rparr>))"

definition openai_complete ::
  "(wval \<Rightarrow> string) \<Rightarrow> (string \<Rightarrow> wval option) \<Rightarrow> net_world \<Rightarrow> oa_provider \<Rightarrow> llm_params \<Rightarrow> llm_result option \<times> net_request list" where
  "openai_complete js unjs w o_p p =
     (let r = oa_http js o_p p in
      if \<not> nw_valid w r then (None, [])
      else case nw_http w r of
          None \<Rightarrow> (None, [r])
        | Some resp \<Rightarrow> (if ns_status resp \<ge> 400 then None else decode_completion unjs (ns_body resp), [r]))"

definition openai_provider :: "(wval \<Rightarrow> string) \<Rightarrow> (string \<Rightarrow> wval option) \<Rightarrow> net_world \<Rightarrow> oa_provider \<Rightarrow> llm_provider" where
  "openai_provider js unjs w o_p = \<lparr>pv_name = ''openai'', pv_complete = (\<lambda>p. fst (openai_complete js unjs w o_p p))\<rparr>"

definition choose_llm :: "(string \<Rightarrow> string) \<Rightarrow> (oa_provider \<Rightarrow> llm_provider) \<Rightarrow> llm_provider" where
  "choose_llm getenv openai = (case new_openai_from_env getenv of None \<Rightarrow> mock_provider | Some o_p \<Rightarrow> openai o_p)"

subsection \<open>AI tools\<close>

text \<open>The path to Claude Code's binary; \<open>look_path\<close> says whether it can be run.\<close>

definition new_claude_from_env :: "(string \<Rightarrow> string) \<Rightarrow> (string \<Rightarrow> bool) \<Rightarrow> string option" where
  "new_claude_from_env getenv look_path =
     (if getenv ''ANTHROPIC_API_KEY'' = [] then None
      else (let bin = (if getenv ''CLAUDE_CODE_BIN'' = [] then ''claude'' else getenv ''CLAUDE_CODE_BIN'') in
        if look_path bin then Some bin else None))"

text \<open>The mock leaves a line in the workspace when that is a directory; \<open>wr\<close> says whether the write succeeds.\<close>

definition mock_trace :: "(string \<Rightarrow> bool) \<Rightarrow> (string \<Rightarrow> bool) \<Rightarrow> string \<Rightarrow> string \<Rightarrow> string \<Rightarrow> string disk \<Rightarrow> string disk" where
  "mock_trace is_dir wr now cwd prompt d =
     (let f = cwd @ ''/.hive-ai-tool-mock.log'' in
      if cwd \<noteq> [] \<and> is_dir cwd \<and> wr f
      then d(f \<mapsto> ''mock invocation at '' @ now @ [CHR 0x0A] @ ''prompt: '' @ prompt @ [CHR 0x0A]) else d)"

definition claude_provider :: "(string \<Rightarrow> string \<Rightarrow> int \<Rightarrow> ai_result option) \<Rightarrow> ai_provider" where
  "claude_provider run = \<lparr>ai_name = ''claude-code'', ai_invoke = run\<rparr>"

definition mock_ai_provider :: ai_provider where
  "mock_ai_provider = \<lparr>ai_name = ''claude-code'', ai_invoke = mock_invoke\<rparr>"

definition choose_ai :: "(string \<Rightarrow> string) \<Rightarrow> (string \<Rightarrow> bool) \<Rightarrow> (string \<Rightarrow> ai_provider) \<Rightarrow> ai_provider" where
  "choose_ai getenv look_path claude =
     (case new_claude_from_env getenv look_path of None \<Rightarrow> mock_ai_provider | Some bin \<Rightarrow> claude bin)"

subsection \<open>What goes out, and what is charged\<close>

lemma trim_right_end: "trim_right s cs = [] \<or> last (trim_right s cs) \<notin> set cs"
proof -
  have "trim_left t cs = [] \<or> hd (trim_left t cs) \<notin> set cs" for t
    by (induction t) (auto simp: trim_left_def)
  then show ?thesis by (auto simp: trim_right_def last_rev)
qed

lemma decode_choice_obj: "decode_choice (WObj [(''message'', WObj [(''content'', WStr t)])]) = Some t"
  by (simp add: decode_choice_def fld_obj_def fld_str_def)

lemma fld_some_int [simp]:
  "fld_int (some_int k n @ m) k = (if n \<noteq> 0 then Some n else fld_int m k)"
  "j \<noteq> k \<Longrightarrow> fld_int (some_int j n @ m) k = fld_int m k" "fld_int [] k = Some 0"
  by (simp_all add: some_int_def fld_int_def)

text \<open>The server reads of the body the model and the messages that the agent gave, and of the two limits
  the one that the model's family takes, the other left out.\<close>

definition read_msg :: "wval \<Rightarrow> llm_message option" where
  "read_msg v = (case v of WObj m \<Rightarrow> bind2 (fld_str m ''role'') (fld_str m ''content'') (\<lambda>r c. \<lparr>lm_role = r, lm_content = c\<rparr>) | _ \<Rightarrow> None)"

definition read_msgs :: "fields \<Rightarrow> llm_message list option" where
  "read_msgs m =
     (case map_of m ''messages'' of Some WNull \<Rightarrow> Some [] | Some (WArr vs) \<Rightarrow> all_some (map read_msg vs) | _ \<Rightarrow> None)"

lemma all_some_id: "all_some (map (\<lambda>x. Some (f x)) xs) = Some (map f xs)"
  by (induction xs) simp_all

lemma body_arrives:
  "read_msgs (oa_fields (openai_request p)) = Some (lp_messages p)"
  "fld_str (oa_fields (openai_request p)) ''model'' = Some (lp_model p)"
  "fld_int (oa_fields (openai_request p)) ''max_tokens'' = Some (if uses_max_completion_tokens (lp_model p) then 0 else lp_max_tokens p)"
  "fld_int (oa_fields (openai_request p)) ''max_completion_tokens'' = Some (if uses_max_completion_tokens (lp_model p) then lp_max_tokens p else 0)"
proof -
  have "read_msg (WObj [(''role'', WStr (lm_role x)), (''content'', WStr (lm_content x))]) = Some x" for x
    by (cases x) (simp add: read_msg_def bind2_def fld_str_def)
  then show "read_msgs (oa_fields (openai_request p)) = Some (lp_messages p)"
    by (simp add: read_msgs_def oa_fields_def openai_request_def Let_def comp_def all_some_id)
qed (simp_all add: oa_fields_def openai_request_def Let_def fld_str_def fld_int_def some_int_def)


text \<open>A provider is always there: the answer that none is configured never happens.\<close>

lemma provider_configured:
  assumes "\<not> stopped a"
  shows "fst (llm_complete (Some (choose_llm getenv openai)) p params a) \<noteq> Inl Internal"
  using assms by (auto simp: llm_complete_def consume_def Let_def call_def split: option.splits prod.splits)

text \<open>A server that leaves the usage out is not metered: its completions cost nothing.\<close>

lemma no_usage_is_free:
  assumes "unjs body = Some (WObj [(''choices'', WArr [WObj [(''message'', WObj [(''content'', WStr t)])]])])"
    and "nw_valid w = (\<lambda>_. True)" "nw_http w = (\<lambda>_. Some \<lparr>ns_status = 200, ns_headers = [], ns_body = body\<rparr>)"
    and "llm_allowed (mt_rank m)" "\<not> stopped a" "limits a (meter_key m (''tokens:'' @ lp_model p)) = Some cap"
    and "0 \<le> used a (meter_key m (''tokens:'' @ lp_model p))" "used a (meter_key m (''tokens:'' @ lp_model p)) \<le> cap" "cap < max_int64"
    and "lp_model p \<noteq> []" "lp_provider p \<noteq> []"
  shows "\<exists>r b. llm_complete (Some (openai_provider js unjs w o_p)) m (Some p) a = (Inr r, [p], b) \<and> lr_text r = t
    \<and> used b (meter_key m (''tokens:'' @ lp_model p)) = used a (meter_key m (''tokens:'' @ lp_model p))"
proof -
  have "decode_completion unjs body = Some \<lparr>lr_text = t, lr_prompt_tokens = 0, lr_completion_tokens = 0, lr_total_tokens = 0\<rparr>"
    using assms(1) by (simp add: decode_completion_def decode_choices_def decode_usage_def bind2_def decode_choice_obj)
  moreover have "wrap64 (used a k) = used a k" if "k = meter_key m (''tokens:'' @ lp_model p)" for k
    using assms(7-9) that by (intro wrap64_id) (simp add: in_int64_def min_int64_def max_int64_def)
  ultimately show ?thesis using assms(2-) consume_limited[OF assms(5), of 0 _ cap]
    by (auto simp: llm_complete_def openai_provider_def openai_complete_def Let_def answer_def)
qed

text \<open>A completion asked of a server at a base URL with a trailing slash.\<close>

definition env_key :: "string \<Rightarrow> string" where
  "env_key v = (if v = ''OPENAI_API_KEY'' then ''k'' else if v = ''OPENAI_BASE_URL'' then ''http://x/'' else [])"

definition ask_x :: llm_params where
  "ask_x = \<lparr>lp_provider = [], lp_model = ''o1'', lp_messages = [\<lparr>lm_role = ''user'', lm_content = ''hi''\<rparr>], lp_max_tokens = 9\<rparr>"

definition x_says :: "string \<Rightarrow> wval option" where
  "x_says s =
     (if s = ''q'' then Some (WObj (oa_fields (openai_request ask_x)))
      else if s = ''a'' then Some (WObj [(''choices'', WArr [WObj [(''message'', WObj [(''content'', WStr ''yes'')])]])])
      else None)"

definition x_net :: net_world where
  "x_net = \<lparr>nw_valid = (\<lambda>_. True), nw_http = (\<lambda>_. Some \<lparr>ns_status = 200, ns_headers = [], ns_body = ''a''\<rparr>)\<rparr>"


end
