(* ===== verification/Workflow.thy ===== *)
theory Workflow
  imports Tools
begin

section \<open>Workflows (internal/workflow) and their runner (cmd/hive-workflow-runner)\<close>

text \<open>
  A workflow is a list of tool calls whose arguments may refer to the task's input and to the
  results of earlier steps. Values are those of \<open>Tools\<close>; raw messages and slices of strings or structs are passed on
  but cannot be walked into. Objects are association lists; Go ranges over them in any order. The
  tools, the language model and the JSON decoder are arguments; a tool changes a state of any type.
\<close>

record step =
  st_id :: string
  st_tool :: string
  st_args :: "(string \<times> wval) list"

record workflow =
  wf_description :: string
  wf_steps :: "step list"
  wf_output :: string

record wcontext =
  wc_input :: wval
  wc_steps :: "(string \<times> wval) list"

subsection \<open>Validation\<close>

fun valid_steps :: "step list \<Rightarrow> string list \<Rightarrow> bool" where
  "valid_steps [] seen = True"
| "valid_steps (s # ss) seen \<longleftrightarrow>
     st_id s \<noteq> [] \<and> st_id s \<notin> set seen \<and> st_tool s \<noteq> [] \<and> valid_steps ss (st_id s # seen)"

definition validate_workflow :: "workflow \<Rightarrow> bool" where
  "validate_workflow flow \<longleftrightarrow> wf_steps flow \<noteq> [] \<and> valid_steps (wf_steps flow) []"

definition parse_workflow :: "(string \<Rightarrow> workflow option) \<Rightarrow> string \<Rightarrow> workflow option" where
  "parse_workflow unmarshal raw =
     (case unmarshal raw of None \<Rightarrow> None | Some flow \<Rightarrow> if validate_workflow flow then Some flow else None)"

subsection \<open>References\<close>

fun walk_path :: "wval \<Rightarrow> string list \<Rightarrow> wval option" where
  "walk_path v [] = Some v"
| "walk_path v (k # ks) =
     (case v of
        WObj kvs \<Rightarrow> (case map_of kvs k of None \<Rightarrow> None | Some v \<Rightarrow> walk_path v ks)
      | _ \<Rightarrow> None)"

definition lookup_ref :: "string \<Rightarrow> wcontext \<Rightarrow> wval option" where
  "lookup_ref ref ctx =
     (let parts = split_on CHR ''.'' (trim_prefix ref ''$'') in
      if hd parts = ''input'' then walk_path (wc_input ctx) (tl parts)
      else if hd parts = ''steps'' then walk_path (WObj (wc_steps ctx)) (tl parts)
      else None)"

fun resolve_val :: "wcontext \<Rightarrow> wval \<Rightarrow> wval option"
  and resolve_fields :: "wcontext \<Rightarrow> (string \<times> wval) list \<Rightarrow> (string \<times> wval) list option"
  and resolve_items :: "wcontext \<Rightarrow> wval list \<Rightarrow> wval list option" where
  "resolve_val ctx (WStr s) = (if has_prefix s ''$'' then lookup_ref s ctx else Some (WStr s))"
| "resolve_val ctx (WObj kvs) = map_option WObj (resolve_fields ctx kvs)"
| "resolve_val ctx (WArr vs) = map_option WArr (resolve_items ctx vs)"
| "resolve_val ctx WNull = Some WNull"
| "resolve_val ctx (WBool b) = Some (WBool b)"
| "resolve_val ctx (WNum n) = Some (WNum n)"
| "resolve_val ctx (WInt n) = Some (WInt n)"
| "resolve_val ctx (WStrs ss) = Some (WStrs ss)"
| "resolve_val ctx (WRaw x) = Some (WRaw x)"
| "resolve_val ctx (WGo x) = Some (WGo x)"
| "resolve_fields ctx [] = Some []"
| "resolve_fields ctx ((k, v) # kvs) =
     (case resolve_val ctx v of
        None \<Rightarrow> None
      | Some v' \<Rightarrow> (case resolve_fields ctx kvs of None \<Rightarrow> None | Some r \<Rightarrow> Some ((k, v') # r)))"
| "resolve_items ctx [] = Some []"
| "resolve_items ctx (v # vs) =
     (case resolve_val ctx v of
        None \<Rightarrow> None
      | Some v' \<Rightarrow> (case resolve_items ctx vs of None \<Rightarrow> None | Some r \<Rightarrow> Some (v' # r)))"

definition resolve_output :: "workflow \<Rightarrow> wcontext \<Rightarrow> wval option" where
  "resolve_output flow ctx =
     (if wf_output flow = [] then
        Some (if wf_steps flow = [] then WNull
              else (case map_of (wc_steps ctx) (st_id (last (wf_steps flow))) of None \<Rightarrow> WNull | Some v \<Rightarrow> v))
      else resolve_val ctx (WStr (wf_output flow)))"

subsection \<open>The runner\<close>

definition set_field :: "string \<Rightarrow> wval \<Rightarrow> (string \<times> wval) list \<Rightarrow> (string \<times> wval) list" where
  "set_field k v kvs = (k, v) # filter (\<lambda>x. fst x \<noteq> k) kvs"

definition field_unset :: "string \<Rightarrow> (string \<times> wval) list \<Rightarrow> bool" where
  "field_unset k kvs \<longleftrightarrow> map_of kvs k = None \<or> map_of kvs k = Some WNull \<or> map_of kvs k = Some (WStr [])"

text \<open>The defaults the runner fills in before a tool is called: the model of a completion, the
  conversation of a peer message.\<close>

definition default_args :: "string \<Rightarrow> string \<Rightarrow> string \<Rightarrow> (string \<times> wval) list \<Rightarrow> (string \<times> wval) list" where
  "default_args env_model conv tool kvs =
     (let kvs = (if tool = ''llm_complete'' \<and> field_unset ''model'' kvs \<and> env_model \<noteq> []
                 then set_field ''model'' (WStr env_model) kvs else kvs)
      in if tool = ''peer_send'' \<and> conv \<noteq> [] \<and> field_unset ''conv_id'' kvs
         then set_field ''conv_id'' (WStr conv) kvs else kvs)"

type_synonym 'w tools = "string \<Rightarrow> (string \<times> wval) list \<Rightarrow> 'w \<Rightarrow> wval res \<times> 'w"

record wrun =
  wr_tools :: "string list"
  wr_model :: string
  wr_conv :: string

text \<open>The loop over the steps: an exit code or the context, the tools called with their arguments, in
  order, and the tools' state.\<close>

fun run_wf_steps ::
  "wrun \<Rightarrow> 'w tools \<Rightarrow> step list \<Rightarrow> wcontext \<Rightarrow> 'w
    \<Rightarrow> (int + wcontext) \<times> (string \<times> (string \<times> wval) list) list \<times> 'w" where
  "run_wf_steps r dispatch [] ctx w = (Inr ctx, [], w)"
| "run_wf_steps r dispatch (s # ss) ctx w =
     (if \<not> tool_allowed (st_tool s) (wr_tools r) then (Inl 3, [], w)
      else case resolve_fields ctx (st_args s) of
          None \<Rightarrow> (Inl 4, [], w)
        | Some args \<Rightarrow>
            (let args = default_args (wr_model r) (wr_conv r) (st_tool s) args in
             case dispatch (st_tool s) args w of
               (Inl e, w) \<Rightarrow> (Inl 5, [(st_tool s, args)], w)
             | (Inr v, w) \<Rightarrow>
                 (let (x, calls, w) = run_wf_steps r dispatch ss (ctx\<lparr>wc_steps := (st_id s, v) # wc_steps ctx\<rparr>) w
                  in (x, (st_tool s, args) # calls, w))))"

definition execute_workflow ::
  "wrun \<Rightarrow> 'w tools \<Rightarrow> workflow \<Rightarrow> wval \<Rightarrow> 'w
    \<Rightarrow> (int + wval \<times> (string \<times> wval) list) \<times> (string \<times> (string \<times> wval) list) list \<times> 'w" where
  "execute_workflow r dispatch flow input w =
     (case run_wf_steps r dispatch (wf_steps flow) \<lparr>wc_input = input, wc_steps = []\<rparr> w of
        (Inl code, calls, w) \<Rightarrow> (Inl code, calls, w)
      | (Inr ctx, calls, w) \<Rightarrow>
          (case resolve_output flow ctx of
             None \<Rightarrow> (Inl 6, calls, w)
           | Some out \<Rightarrow> (Inr (out, wc_steps ctx), calls, w)))"

text \<open>The planner: at most \<open>max_planner_attempts\<close> questions, each with the error of the one before.
  The text between the first brace and the last one is the second try at the reply.\<close>

definition max_planner_attempts :: nat where "max_planner_attempts = 3"

definition json_obj_match :: "string \<Rightarrow> string option" where
  "json_obj_match s =
     (case index_of CHR ''{'' s of
        None \<Rightarrow> None
      | Some i \<Rightarrow>
          (case last_index CHR ''}'' (drop i s) of
             None \<Rightarrow> None
           | Some j \<Rightarrow> Some (take (Suc j) (drop i s))))"

definition parse_planner_reply :: "(string \<Rightarrow> workflow option) \<Rightarrow> string \<Rightarrow> workflow option" where
  "parse_planner_reply unmarshal text =
     (let trimmed = trim_space text in
      case parse_workflow unmarshal trimmed of
        Some flow \<Rightarrow> Some flow
      | None \<Rightarrow>
          (case json_obj_match trimmed of None \<Rightarrow> None | Some m \<Rightarrow> parse_workflow unmarshal m))"

text \<open>The model answers from the replies rejected so far, none when the call fails.\<close>

fun plan_attempts ::
  "(string list \<Rightarrow> string option) \<Rightarrow> (string \<Rightarrow> workflow option) \<Rightarrow> nat \<Rightarrow> string list \<Rightarrow> workflow option" where
  "plan_attempts llm unmarshal 0 rejected = None"
| "plan_attempts llm unmarshal (Suc n) rejected =
     (case llm rejected of
        None \<Rightarrow> None
      | Some text \<Rightarrow>
          (case parse_planner_reply unmarshal text of
             Some flow \<Rightarrow> Some flow
           | None \<Rightarrow> plan_attempts llm unmarshal n (rejected @ [text])))"

definition plan_workflow :: "(string list \<Rightarrow> string option) \<Rightarrow> (string \<Rightarrow> workflow option) \<Rightarrow> workflow option" where
  "plan_workflow llm unmarshal = plan_attempts llm unmarshal max_planner_attempts []"

text \<open>What the runner answers a task: the code of a failed run, 2 for a planner that gave nothing.\<close>

datatype run_mode = StaticMode workflow | PlannerMode

definition run_task ::
  "run_mode \<Rightarrow> (string list \<Rightarrow> string option) \<Rightarrow> (string \<Rightarrow> workflow option) \<Rightarrow> wrun \<Rightarrow> 'w tools \<Rightarrow> wval \<Rightarrow> 'w
    \<Rightarrow> (int + wval \<times> (string \<times> wval) list) \<times> (string \<times> (string \<times> wval) list) list \<times> 'w" where
  "run_task mode llm unmarshal r dispatch input w =
     (case (case mode of StaticMode flow \<Rightarrow> Some flow | PlannerMode \<Rightarrow> plan_workflow llm unmarshal) of
        None \<Rightarrow> (Inl 2, [], w)
      | Some flow \<Rightarrow> execute_workflow r dispatch flow input w)"


text \<open>The mode comes from two environment variables naming files; the first wins.\<close>

definition detect_mode ::
  "(string \<Rightarrow> workflow option) \<Rightarrow> (string \<Rightarrow> string option) \<Rightarrow> string \<Rightarrow> string \<Rightarrow> run_mode option" where
  "detect_mode unmarshal read_file workflow_path planner_path =
     (if workflow_path \<noteq> [] then
        (case read_file workflow_path of
           None \<Rightarrow> None
         | Some raw \<Rightarrow> (case parse_workflow unmarshal raw of None \<Rightarrow> None | Some flow \<Rightarrow> Some (StaticMode flow)))
      else if planner_path \<noteq> [] then
        (case read_file planner_path of None \<Rightarrow> None | Some raw \<Rightarrow> Some PlannerMode)
      else None)"

text \<open>An empty list of tools in the environment means these, not none.\<close>

definition workflow_tools :: "string \<Rightarrow> string list" where
  "workflow_tools env = (if parse_csv env = [] then [''net'', ''fs'', ''peer'', ''llm''] else parse_csv env)"

definition mode_name :: "run_mode \<Rightarrow> string" where
  "mode_name mode = (case mode of StaticMode _ \<Rightarrow> ''static'' | PlannerMode \<Rightarrow> ''llm'')"

text \<open>An input that is no JSON is a plain string.\<close>

definition decode_input :: "(string \<Rightarrow> wval option) \<Rightarrow> string \<Rightarrow> wval" where
  "decode_input decode raw =
     (if raw = [] then WNull else case decode raw of None \<Rightarrow> WStr raw | Some v \<Rightarrow> v)"

definition run_reply :: "run_mode \<Rightarrow> wval \<times> (string \<times> wval) list \<Rightarrow> wval" where
  "run_reply mode r = WObj [(''output'', fst r), (''mode'', WStr (mode_name mode)), (''steps'', WObj (snd r))]"

text \<open>The tools of the runner: the two that wait for replies of peers, and the shared ones.\<close>

definition wf_dispatch ::
  "(fields \<Rightarrow> 'w \<Rightarrow> wval res \<times> 'w) \<Rightarrow> (fields \<Rightarrow> 'w \<Rightarrow> wval res \<times> 'w) \<Rightarrow> 'w agent \<Rightarrow> 'w tools" where
  "wf_dispatch peer_call peer_call_many a tool args w =
     (if tool = ''peer_call'' then peer_call args w
      else if tool = ''peer_call_many'' then peer_call_many args w
      else dispatch_tool a tool args w)"

text \<open>A task is answered with the result or failed with the code; a peer message outside a
  conversation is dropped, one inside is answered to its sender, in the conversation.\<close>

datatype task_end = TaskDone wval | TaskError int

definition run_one ::
  "run_mode \<Rightarrow> (string list \<Rightarrow> string option) \<Rightarrow> (string \<Rightarrow> workflow option) \<Rightarrow> (string \<Rightarrow> wval option) \<Rightarrow> wrun
    \<Rightarrow> 'w tools \<Rightarrow> string \<Rightarrow> 'w \<Rightarrow> task_end \<times> 'w" where
  "run_one mode llm unmarshal decode r dispatch input w =
     (case run_task mode llm unmarshal r dispatch (decode_input decode input) w of
        (Inl code, calls, w) \<Rightarrow> (TaskError code, w)
      | (Inr out, calls, w) \<Rightarrow> (TaskDone (run_reply mode out), w))"

definition run_from_peer ::
  "run_mode \<Rightarrow> (string list \<Rightarrow> string option) \<Rightarrow> (string \<Rightarrow> workflow option) \<Rightarrow> (string \<Rightarrow> wval option)
    \<Rightarrow> (int \<Rightarrow> string) \<Rightarrow> wrun \<Rightarrow> 'w agent \<Rightarrow> 'w tools \<Rightarrow> string \<Rightarrow> string \<Rightarrow> string \<Rightarrow> 'w \<Rightarrow> 'w" where
  "run_from_peer mode llm unmarshal decode err_text r a dispatch sender conv payload w =
     (if conv = [] then w
      else case run_task mode llm unmarshal (r\<lparr>wr_conv := conv\<rparr>) dispatch (decode_input decode payload) w of
          (Inl code, calls, w) \<Rightarrow> snd (a (PeerSend sender (WObj [(''error'', WStr (err_text code))]) conv) w)
        | (Inr out, calls, w) \<Rightarrow> snd (a (PeerSend sender (run_reply mode out) conv) w))"


subsection \<open>What a reference gives\<close>

lemma split_on_join:
  "xs \<noteq> [] \<Longrightarrow> \<forall>x \<in> set xs. c \<notin> set x \<Longrightarrow> split_on c (join_with c xs) = xs"
  using split_join by (simp add: list_all_iff)

text \<open>A reference to a step reaches into that step's result, for an id without dots; the id of a step
  that has one cannot be named.\<close>

lemma step_reference:
  assumes "CHR ''.'' \<notin> set i" "\<forall>k \<in> set path. CHR ''.'' \<notin> set k" "map_of (wc_steps ctx) i = Some v"
  shows "resolve_val ctx (WStr (''$steps.'' @ join_with CHR ''.'' (i # path))) = walk_path v path"
proof -
  have "''steps.'' @ join_with CHR ''.'' (i # path) = join_with CHR ''.'' (''steps'' # i # path)" by simp
  then have "split_on CHR ''.'' (''steps.'' @ join_with CHR ''.'' (i # path)) = ''steps'' # i # path"
    using assms(1,2) by (simp only:) (rule split_on_join, auto)
  with assms(3) show ?thesis by (simp add: lookup_ref_def trim_prefix_def)
qed

lemma dotted_step_unreachable:
  assumes "CHR ''.'' \<notin> set a" "map_of (wc_steps ctx) a = None"
  shows "resolve_val ctx (WStr (''$steps.'' @ a @ ''.'' @ b)) = None"
proof -
  have "split_on CHR ''.'' (''steps.'' @ a @ ''.'' @ b) = ''steps'' # a # split_on CHR ''.'' b"
    using assms(1) by (simp add: split_on_app split_on_id)
  with assms(2) show ?thesis by (simp add: lookup_ref_def trim_prefix_def)
qed

text \<open>A value without strings that begin with a dollar is passed as it is.\<close>

fun plain_val :: "wval \<Rightarrow> bool" where
  "plain_val (WStr s) = (\<not> has_prefix s ''$'')"
| "plain_val (WArr vs) = list_all plain_val vs"
| "plain_val (WObj kvs) = list_all (\<lambda>(k, v). plain_val v) kvs"
| "plain_val _ = True"

lemma plain_val_resolve:
  "plain_val v \<Longrightarrow> resolve_val ctx v = Some v"
  "list_all (\<lambda>(k, v). plain_val v) kvs \<Longrightarrow> resolve_fields ctx kvs = Some kvs"
  "list_all plain_val vs \<Longrightarrow> resolve_items ctx vs = Some vs"
  by (induction ctx v and ctx kvs and ctx vs rule: resolve_val_resolve_fields_resolve_items.induct) auto

subsection \<open>A run\<close>

lemma valid_steps_distinct:
  "valid_steps ss seen \<Longrightarrow> distinct (map st_id ss) \<and> set (map st_id ss) \<inter> set seen = {}"
  by (induction ss seen rule: valid_steps.induct) auto

lemma field_unset_set [simp]: "\<not> field_unset k (set_field k (WStr s) kvs) \<longleftrightarrow> s \<noteq> []"
  by (auto simp: field_unset_def set_field_def)

lemma default_args_conv:
  "conv \<noteq> [] \<Longrightarrow> \<not> field_unset ''conv_id'' (default_args m conv ''peer_send'' kvs)"
  by (auto simp: default_args_def)

lemma run_wf_steps_calls:
  assumes "run_wf_steps r dispatch ss ctx w = (x, calls, w')"
  shows "map fst calls = take (length calls) (map st_tool ss)
    \<and> (\<forall>(t, args) \<in> set calls. tool_allowed t (wr_tools r)
          \<and> (t = ''peer_send'' \<and> wr_conv r \<noteq> [] \<longrightarrow> \<not> field_unset ''conv_id'' args))
    \<and> (\<forall>code. x = Inl code \<longrightarrow> code \<in> {3, 4, 5})
    \<and> (\<forall>ctx'. x = Inr ctx' \<longrightarrow> length calls = length ss \<and> wc_input ctx' = wc_input ctx
          \<and> map fst (wc_steps ctx') = rev (map st_id ss) @ map fst (wc_steps ctx))"
  using assms
proof (induction ss arbitrary: ctx w x calls w')
  case (Cons s ss)
  show ?case
  proof (cases "tool_allowed (st_tool s) (wr_tools r) \<and> resolve_fields ctx (st_args s) \<noteq> None")
    case False
    with Cons.prems show ?thesis by (auto split: if_splits option.splits)
  next
    case True
    then obtain as0 where as0: "resolve_fields ctx (st_args s) = Some as0" by auto
    let ?args = "default_args (wr_model r) (wr_conv r) (st_tool s) as0"
    obtain v u where d: "dispatch (st_tool s) ?args w = (v, u)" by fastforce
    have conv: "st_tool s = ''peer_send'' \<and> wr_conv r \<noteq> [] \<longrightarrow> \<not> field_unset ''conv_id'' ?args"
      using default_args_conv by auto
    show ?thesis
    proof (cases v)
      case (Inl e)
      with True as0 d Cons.prems conv show ?thesis by auto
    next
      case (Inr y)
      obtain x' cs u' where rest: "run_wf_steps r dispatch ss (ctx\<lparr>wc_steps := (st_id s, y) # wc_steps ctx\<rparr>) u = (x', cs, u')"
        by (metis prod.exhaust)
      have "run_wf_steps r dispatch (s # ss) ctx w = (x', (st_tool s, ?args) # cs, u')"
        using True as0 d Inr rest by (simp add: Let_def)
      with Cons.prems have e: "x = x'" "calls = (st_tool s, ?args) # cs" by simp_all
      note ih1 = Cons.IH[OF rest, THEN conjunct1]
      note ih2 = Cons.IH[OF rest, THEN conjunct2, THEN conjunct1]
      note ih3 = Cons.IH[OF rest, THEN conjunct2, THEN conjunct2, THEN conjunct1]
      note ih4 = Cons.IH[OF rest, THEN conjunct2, THEN conjunct2, THEN conjunct2]
      show ?thesis
        unfolding e
      proof (intro conjI)
        show "map fst ((st_tool s, ?args) # cs) = take (length ((st_tool s, ?args) # cs)) (map st_tool (s # ss))"
          by (simp add: ih1)
        show "\<forall>(t, args) \<in> set ((st_tool s, ?args) # cs). tool_allowed t (wr_tools r)
          \<and> (t = ''peer_send'' \<and> wr_conv r \<noteq> [] \<longrightarrow> \<not> field_unset ''conv_id'' args)"
          using ih2 True conv by (simp only: list.set ball_simps prod.case simp_thms)
        show "\<forall>code. x' = Inl code \<longrightarrow> code \<in> {3, 4, 5}" by (rule ih3)
        show "\<forall>ctx'. x' = Inr ctx' \<longrightarrow> length ((st_tool s, ?args) # cs) = length (s # ss) \<and> wc_input ctx' = wc_input ctx
          \<and> map fst (wc_steps ctx') = rev (map st_id (s # ss)) @ map fst (wc_steps ctx)"
        proof (intro allI impI)
          fix ctx' assume "x' = Inr ctx'"
          with ih4 have "length cs = length ss \<and> wc_input ctx' = wc_input ctx
            \<and> map fst (wc_steps ctx') = rev (map st_id ss) @ st_id s # map fst (wc_steps ctx)" by simp
          then show "length ((st_tool s, ?args) # cs) = length (s # ss) \<and> wc_input ctx' = wc_input ctx
            \<and> map fst (wc_steps ctx') = rev (map st_id (s # ss)) @ map fst (wc_steps ctx)" by simp
        qed
      qed
    qed
  qed
qed simp


definition two_steps :: workflow where
  "two_steps = \<lparr>wf_description = [],
     wf_steps = [\<lparr>st_id = ''get'', st_tool = ''fs_read'', st_args = [(''path'', WStr ''$input.path'')]\<rparr>,
                 \<lparr>st_id = ''say'', st_tool = ''peer_send'', st_args = [(''to'', WStr ''bob''), (''payload'', WStr ''$steps.get'')]\<rparr>],
     wf_output = ''$steps.get''\<rparr>"

definition echo_tools :: "nat tools" where
  "echo_tools tool args n = (Inr (WStr tool), n + 1)"


text \<open>The planner asks at most three times: what the model would answer to more rejected replies
  does not matter.\<close>

lemma plan_attempts_bound:
  "(\<And>rs. length rs < length rejected + n \<Longrightarrow> llm rs = llm' rs) \<Longrightarrow>
     plan_attempts llm unmarshal n rejected = plan_attempts llm' unmarshal n rejected"
proof (induction n arbitrary: rejected)
  case (Suc n)
  then have "llm rejected = llm' rejected" by simp
  moreover have "plan_attempts llm unmarshal n (rejected @ [x]) = plan_attempts llm' unmarshal n (rejected @ [x])" for x
    by (rule Suc.IH) (use Suc.prems in simp)
  ultimately show ?case by (simp split: option.split)
qed simp

lemma plan_workflow_bound:
  "(\<And>rs. length rs < 3 \<Longrightarrow> llm rs = llm' rs) \<Longrightarrow> plan_workflow llm unmarshal = plan_workflow llm' unmarshal"
  unfolding plan_workflow_def by (rule plan_attempts_bound) (simp add: max_planner_attempts_def)

end
