(* ===== verification/Skill.thy ===== *)
theory Skill
  imports Workflow Awaiter
begin

section \<open>The skill runner (cmd/hive-skill-runner/main.go)\<close>

text \<open>
  A skill agent lets a language model choose tools: each turn sends the whole conversation, reads the
  reply as a tool call or an answer, and appends the tool's result. The JSON decoder, the daemon and
  the two tools that wait for peers are arguments. \<open>top_level_objects\<close> scans a reply for the JSON
  objects in it, byte by byte as the code does.
\<close>

subsection \<open>Reading a reply\<close>

record skill_reply =
  rl_tool :: string
  rl_args :: fields
  rl_answer :: string

definition no_skill_reply :: skill_reply where
  "no_skill_reply = \<lparr>rl_tool = [], rl_args = [], rl_answer = []\<rparr>"

definition usable :: "skill_reply \<Rightarrow> bool" where
  "usable r \<longleftrightarrow> rl_tool r \<noteq> [] \<or> rl_answer r \<noteq> []"

definition quote_char :: char where "quote_char = CHR 0x22"
definition backslash :: char where "backslash = CHR 0x5C"

record scan_state =
  sc_depth :: nat
  sc_start :: "nat option"
  sc_in_str :: bool
  sc_escape :: bool

definition scan_init :: scan_state where
  "scan_init = \<lparr>sc_depth = 0, sc_start = None, sc_in_str = False, sc_escape = False\<rparr>"

text \<open>One byte: the next state and the object that ends here, given by where it starts.\<close>

definition scan_byte :: "nat \<Rightarrow> char \<Rightarrow> scan_state \<Rightarrow> scan_state \<times> nat option" where
  "scan_byte i c st =
     (if sc_escape st then (st\<lparr>sc_escape := False\<rparr>, None)
      else if sc_in_str st then
        (if c = backslash then (st\<lparr>sc_escape := True\<rparr>, None)
         else if c = quote_char then (st\<lparr>sc_in_str := False\<rparr>, None)
         else (st, None))
      else if c = quote_char then (st\<lparr>sc_in_str := True\<rparr>, None)
      else if c = CHR ''{'' then
        (st\<lparr>sc_depth := Suc (sc_depth st), sc_start := (if sc_depth st = 0 then Some i else sc_start st)\<rparr>, None)
      else if c = CHR ''}'' then
        (if 0 < sc_depth st then
           (if sc_depth st = 1 \<and> sc_start st \<noteq> None
            then (st\<lparr>sc_depth := 0, sc_start := None\<rparr>, sc_start st)
            else (st\<lparr>sc_depth := sc_depth st - 1\<rparr>, None))
         else (st, None))
      else (st, None))"

fun scan_objects :: "string \<Rightarrow> string \<Rightarrow> nat \<Rightarrow> scan_state \<Rightarrow> string list" where
  "scan_objects s [] i st = []"
| "scan_objects s (c # cs) i st =
     (case scan_byte i c st of
        (st, None) \<Rightarrow> scan_objects s cs (Suc i) st
      | (st, Some j) \<Rightarrow> take (Suc i - j) (drop j s) # scan_objects s cs (Suc i) st)"

definition top_level_objects :: "string \<Rightarrow> string list" where
  "top_level_objects s = scan_objects s s 0 scan_init"

definition try_reply :: "(string \<Rightarrow> skill_reply option) \<Rightarrow> string \<Rightarrow> skill_reply option" where
  "try_reply unmarshal s = (case unmarshal s of None \<Rightarrow> None | Some r \<Rightarrow> if usable r then Some r else None)"

definition first_usable :: "(string \<Rightarrow> skill_reply option) \<Rightarrow> string list \<Rightarrow> skill_reply" where
  "first_usable unmarshal objs =
     (case List.map_filter (try_reply unmarshal) objs of [] \<Rightarrow> no_skill_reply | r # _ \<Rightarrow> r)"

definition parse_reply :: "(string \<Rightarrow> skill_reply option) \<Rightarrow> string \<Rightarrow> skill_reply" where
  "parse_reply unmarshal text =
     (let trimmed = trim_space text in
      case try_reply unmarshal trimmed of
        Some r \<Rightarrow> r
      | None \<Rightarrow>
          (case (case json_obj_match trimmed of None \<Rightarrow> None | Some m \<Rightarrow> try_reply unmarshal m) of
             Some r \<Rightarrow> r
           | None \<Rightarrow> first_usable unmarshal (top_level_objects trimmed)))"

subsection \<open>The loop\<close>

definition max_skill_iterations :: nat where "max_skill_iterations = 20"
definition tool_result_cap :: nat where "tool_result_cap = 2000"
definition llm_max_completion_tokens :: int where "llm_max_completion_tokens = 4000"

text \<open>Go's formatting of values, errors and JSON.\<close>

record formats =
  ft_quote :: "string \<Rightarrow> string"
  ft_list :: "string list \<Rightarrow> string"
  ft_err :: "herr \<Rightarrow> string"
  ft_marshal :: "wval \<Rightarrow> string option"
  ft_sprint :: "wval \<Rightarrow> string"

definition user_msg :: "string \<Rightarrow> llm_msg" where
  "user_msg t = \<lparr>mg_role = ''user'', mg_content = t\<rparr>"

definition assistant_msg :: "string \<Rightarrow> llm_msg" where
  "assistant_msg t = \<lparr>mg_role = ''assistant'', mg_content = t\<rparr>"

definition tool_note :: "formats \<Rightarrow> string \<Rightarrow> wval res \<Rightarrow> llm_msg" where
  "tool_note ft tool r =
     user_msg (case r of
         Inl e \<Rightarrow> ''tool '' @ tool @ '' failed: '' @ ft_err ft e
       | Inr v \<Rightarrow> ''tool '' @ tool @ '' returned: '' @ result_text (ft_marshal ft) (ft_sprint ft) v tool_result_cap)"

definition deny_note :: "formats \<Rightarrow> string \<Rightarrow> string list \<Rightarrow> llm_msg" where
  "deny_note ft tool tools = user_msg (''tool '' @ ft_quote ft tool @ '' is not in the allow-list '' @ ft_list ft tools)"

definition with_conv :: "string \<Rightarrow> string \<Rightarrow> fields \<Rightarrow> fields" where
  "with_conv conv tool args =
     (if tool = ''peer_send'' \<and> conv \<noteq> [] \<and> map_of args ''conv_id'' = None
      then set_field ''conv_id'' (WStr conv) args else args)"

record skill_run =
  sk_model :: string
  sk_tools :: "string list"
  sk_conv :: string

definition answer_value :: "string \<Rightarrow> nat \<Rightarrow> bool \<Rightarrow> wval" where
  "answer_value ans n plain =
     WObj ([(''answer'', WStr ans), (''iterations'', WInt (int n))] @ (if plain then [(''format'', WStr ''plain'')] else []))"

text \<open>The turns from number \<open>n\<close> on, \<open>k\<close> of them at most. The result comes with the tools dispatched, in
  order, and the number of times the model was asked.\<close>

fun react_turns ::
  "formats \<Rightarrow> (string \<Rightarrow> skill_reply option) \<Rightarrow> 'w agent \<Rightarrow> 'w tools \<Rightarrow> skill_run \<Rightarrow> nat \<Rightarrow> nat \<Rightarrow> llm_msg list \<Rightarrow> 'w
    \<Rightarrow> wval res \<times> (string \<times> fields) list \<times> nat \<times> 'w" where
  "react_turns ft unmarshal a dispatch r n 0 msgs w = (Inl Plain, [], 0, w)"
| "react_turns ft unmarshal a dispatch r n (Suc k) msgs w =
     (case a (LlmComplete [] (sk_model r) msgs llm_max_completion_tokens) w of
        (Inl e, w) \<Rightarrow> (Inl e, [], 1, w)
      | (Inr rep, w) \<Rightarrow>
          (let text = rp_text rep;
               msgs = msgs @ [assistant_msg text];
               p = parse_reply unmarshal text in
           if rl_answer p \<noteq> [] then (Inr (answer_value (rl_answer p) n False), [], 1, w)
           else if rl_tool p = [] then (Inr (answer_value (trim_space text) n True), [], 1, w)
           else if \<not> tool_allowed (rl_tool p) (sk_tools r) then
             (let (x, used, asked, w) =
                react_turns ft unmarshal a dispatch r (Suc n) k (msgs @ [deny_note ft (rl_tool p) (sk_tools r)]) w
              in (x, used, Suc asked, w))
           else
             (let args = with_conv (sk_conv r) (rl_tool p) (rl_args p);
                  (v, w) = dispatch (rl_tool p) args w;
                  (x, used, asked, w) =
                    react_turns ft unmarshal a dispatch r (Suc n) k (msgs @ [tool_note ft (rl_tool p) v]) w
              in (x, (rl_tool p, args) # used, Suc asked, w))))"

definition react ::
  "formats \<Rightarrow> (string \<Rightarrow> skill_reply option) \<Rightarrow> 'w agent \<Rightarrow> 'w tools \<Rightarrow> skill_run \<Rightarrow> string \<Rightarrow> string \<Rightarrow> 'w
    \<Rightarrow> wval res \<times> (string \<times> fields) list \<times> nat \<times> 'w" where
  "react ft unmarshal a dispatch r system input w =
     react_turns ft unmarshal a dispatch r 1 max_skill_iterations
       [\<lparr>mg_role = ''system'', mg_content = system\<rparr>, user_msg input] w"

definition skill_run_one ::
  "formats \<Rightarrow> (string \<Rightarrow> skill_reply option) \<Rightarrow> 'w agent \<Rightarrow> 'w tools \<Rightarrow> skill_run \<Rightarrow> string \<Rightarrow> string \<Rightarrow> 'w \<Rightarrow> task_end \<times> 'w" where
  "skill_run_one ft unmarshal a dispatch r system input w =
     (case react ft unmarshal a dispatch r system input w of
        (Inl e, _, _, w) \<Rightarrow> (TaskError 2, w)
      | (Inr v, _, _, w) \<Rightarrow> (TaskDone v, w))"

definition skill_run_from_peer ::
  "formats \<Rightarrow> (string \<Rightarrow> skill_reply option) \<Rightarrow> 'w agent \<Rightarrow> 'w tools \<Rightarrow> skill_run \<Rightarrow> string \<Rightarrow> peer_note \<Rightarrow> 'w \<Rightarrow> 'w" where
  "skill_run_from_peer ft unmarshal a dispatch r system p w =
     (if pn_conv p = [] then w
      else case react ft unmarshal a dispatch (r\<lparr>sk_conv := pn_conv p\<rparr>) system (pn_payload p) w of
          (Inl e, _, _, w) \<Rightarrow> snd (a (PeerSend (pn_from p) (WObj [(''error'', WStr (ft_err ft e))]) (pn_conv p)) w)
        | (Inr v, _, _, w) \<Rightarrow> snd (a (PeerSend (pn_from p) v (pn_conv p)) w))"

text \<open>The tools without a list in the environment: an empty list means these, not none.\<close>

definition skill_tools :: "string \<Rightarrow> string list" where
  "skill_tools env = (if parse_csv env = [] then [''net'', ''fs'', ''peer''] else parse_csv env)"

definition skill_model :: "string \<Rightarrow> string" where
  "skill_model env = or_else env ''gpt-4o-mini''"

subsection \<open>The loop ends and stays within the manifest's tools\<close>

lemma react_turns_bounds:
  "react_turns ft unmarshal a dispatch r n k msgs w = (x, used, asked, w') \<Longrightarrow>
     asked \<le> k \<and> length used \<le> asked
     \<and> (\<forall>(t, args) \<in> set used. tool_allowed t (sk_tools r)
          \<and> (t = ''peer_send'' \<and> sk_conv r \<noteq> [] \<longrightarrow> map_of args ''conv_id'' \<noteq> None))
     \<and> (\<forall>v. x = Inr v \<longrightarrow> length used < asked
          \<and> (\<exists>ans plain. v = answer_value ans (n + asked - 1) plain))"
proof (induction k arbitrary: n msgs w x used asked w')
  case (Suc k)
  obtain q u where q: "a (LlmComplete [] (sk_model r) msgs llm_max_completion_tokens) w = (q, u)" by fastforce
  show ?case
  proof (cases q)
    case (Inl e)
    with q Suc.prems show ?thesis by auto
  next
    case (Inr rep)
    let ?p = "parse_reply unmarshal (rp_text rep)"
    let ?m = "msgs @ [assistant_msg (rp_text rep)]"
    consider (ans) "rl_answer ?p \<noteq> []" | (plain) "rl_answer ?p = []" "rl_tool ?p = []"
      | (deny) "rl_answer ?p = []" "rl_tool ?p \<noteq> []" "\<not> tool_allowed (rl_tool ?p) (sk_tools r)"
      | (run) "rl_answer ?p = []" "rl_tool ?p \<noteq> []" "tool_allowed (rl_tool ?p) (sk_tools r)" by blast
    then show ?thesis
    proof cases
      case ans
      with Inr q Suc.prems show ?thesis by (auto simp: Let_def)
    next
      case plain
      with Inr q Suc.prems show ?thesis by (auto simp: Let_def)
    next
      case deny
      obtain x1 u1 a1 w1 where rest:
        "react_turns ft unmarshal a dispatch r (Suc n) k (?m @ [deny_note ft (rl_tool ?p) (sk_tools r)]) u = (x1, u1, a1, w1)"
        by (metis prod_cases4)
      with deny Inr q Suc.prems have "x = x1" "used = u1" "asked = Suc a1" by (simp_all add: Let_def)
      with Suc.IH[OF rest] show ?thesis by auto
    next
      case run
      let ?args = "with_conv (sk_conv r) (rl_tool ?p) (rl_args ?p)"
      obtain v u0 where d: "dispatch (rl_tool ?p) ?args u = (v, u0)" by fastforce
      obtain x1 u1 a1 w1 where rest:
        "react_turns ft unmarshal a dispatch r (Suc n) k (?m @ [tool_note ft (rl_tool ?p) v]) u0 = (x1, u1, a1, w1)"
        by (metis prod_cases4)
      with run d Inr q Suc.prems have e: "x = x1" "used = (rl_tool ?p, ?args) # u1" "asked = Suc a1" by (simp_all add: Let_def)
      have "rl_tool ?p = ''peer_send'' \<and> sk_conv r \<noteq> [] \<longrightarrow> map_of ?args ''conv_id'' \<noteq> None"
        by (simp add: with_conv_def set_field_def)
      with Suc.IH[OF rest] run(3) show ?thesis unfolding e by auto
    qed
  qed
qed simp

text \<open>C13. A skill task asks the model at most twenty times and uses at most one tool for each reply, only
  tools of the groups the manifest lists, and a peer message inside a conversation always
  carries a conversation id; a result has a tool for fewer turns than it counts, and counts the turns
  truly.\<close>

theorem skill_run_bounded:
  assumes "react ft unmarshal a dispatch r system input w = (x, used, asked, w')"
  shows "asked \<le> 20 \<and> length used \<le> asked
     \<and> (\<forall>(t, args) \<in> set used. tool_allowed t (sk_tools r)
          \<and> (t = ''peer_send'' \<and> sk_conv r \<noteq> [] \<longrightarrow> map_of args ''conv_id'' \<noteq> None))
     \<and> (\<forall>v. x = Inr v \<longrightarrow> length used < asked \<and> (\<exists>ans plain. v = answer_value ans asked plain))"
  using react_turns_bounds[OF assms[unfolded react_def]] by (simp add: max_skill_iterations_def)

text \<open>A model that sends a peer message and then answers.\<close>

definition chatty :: "nat agent" where
  "chatty c n = (Inr (no_reply\<lparr>rp_text := (if n = 0 then ''S'' else ''A'')\<rparr>), n + 1)"

definition chatty_reply :: "string \<Rightarrow> skill_reply option" where
  "chatty_reply s =
     (if s = ''S'' then Some (no_skill_reply\<lparr>rl_tool := ''peer_send'', rl_args := [(''to'', WStr ''bob'')]\<rparr>)
      else if s = ''A'' then Some (no_skill_reply\<lparr>rl_answer := ''yes''\<rparr>) else None)"

definition plain_formats :: formats where
  "plain_formats = \<lparr>ft_quote = (\<lambda>s. s), ft_list = concat, ft_err = (\<lambda>_. ''error''), ft_marshal = (\<lambda>_. None), ft_sprint = (\<lambda>_. [])\<rparr>"

lemma skill_run_bounded_witness:
  "react plain_formats chatty_reply chatty (dispatch_tool chatty) \<lparr>sk_model = ''m'', sk_tools = [''peer''], sk_conv = ''c1''\<rparr>
     ''be brief'' ''hi'' 0
   = (Inr (answer_value ''yes'' 2 False), [(''peer_send'', [(''conv_id'', WStr ''c1''), (''to'', WStr ''bob'')])], 2, 3)
   \<and> (2::nat) \<le> 20 \<and> tool_allowed ''peer_send'' [''peer'']"
proof -
  have e: "react plain_formats chatty_reply chatty (dispatch_tool chatty) \<lparr>sk_model = ''m'', sk_tools = [''peer''], sk_conv = ''c1''\<rparr>
     ''be brief'' ''hi'' 0
   = (Inr (answer_value ''yes'' 2 False), [(''peer_send'', [(''conv_id'', WStr ''c1''), (''to'', WStr ''bob'')])], 2, 3)"
    by (simp add: react_def max_skill_iterations_def numeral_nat chatty_def chatty_reply_def parse_reply_def try_reply_def
        usable_def no_skill_reply_def no_reply_def trim_space_def trim_set_def trim_left_def trim_right_def white_def
        tool_allowed_def tool_group_def with_conv_def set_field_def dispatch_tool_def tool_call_def need_def get_string_def
        get_any_def Let_def)
  with skill_run_bounded[OF e] show ?thesis by simp
qed

subsection \<open>What the scan finds\<close>

text \<open>A reply as the scan sees it: single bytes, string literals, and objects. The closing brace is an
  ordinary byte outside objects.\<close>

datatype quoted = Lit char | Esc char
datatype piece = Junk char | Quoted "quoted list" | Obj "piece list"

fun render_quoted :: "quoted \<Rightarrow> string" where
  "render_quoted (Lit c) = [c]"
| "render_quoted (Esc c) = [backslash, c]"

fun render :: "piece \<Rightarrow> string" where
  "render (Junk c) = [c]"
| "render (Quoted qs) = quote_char # concat (map render_quoted qs) @ [quote_char]"
| "render (Obj ps) = ''{'' @ concat (map render ps) @ ''}''"

fun quoted_ok :: "quoted \<Rightarrow> bool" where
  "quoted_ok (Lit c) \<longleftrightarrow> c \<noteq> quote_char \<and> c \<noteq> backslash"
| "quoted_ok (Esc c) \<longleftrightarrow> True"

fun piece_ok :: "bool \<Rightarrow> piece \<Rightarrow> bool" where
  "piece_ok outer (Junk c) \<longleftrightarrow> c \<noteq> quote_char \<and> c \<noteq> CHR ''{'' \<and> (c = CHR ''}'' \<longrightarrow> outer)"
| "piece_ok outer (Quoted qs) \<longleftrightarrow> list_all quoted_ok qs"
| "piece_ok outer (Obj ps) \<longleftrightarrow> list_all (piece_ok False) ps"

fun is_obj :: "piece \<Rightarrow> bool" where
  "is_obj (Obj _) = True"
| "is_obj _ = False"

definition at_depth :: "nat \<Rightarrow> nat option \<Rightarrow> scan_state" where
  "at_depth d st = \<lparr>sc_depth = d, sc_start = st, sc_in_str = False, sc_escape = False\<rparr>"

lemma quote_chars [simp]:
  "quote_char \<noteq> backslash" "quote_char \<noteq> CHR ''{''" "quote_char \<noteq> CHR ''}''"
  "backslash \<noteq> quote_char" "CHR ''{'' \<noteq> quote_char" "CHR ''}'' \<noteq> quote_char"
  by (simp_all add: quote_char_def backslash_def)

lemma scan_quoted:
  "list_all quoted_ok qs \<Longrightarrow>
     scan_objects s (concat (map render_quoted qs) @ rest) i (at_depth d st\<lparr>sc_in_str := True\<rparr>) =
     scan_objects s rest (i + length (concat (map render_quoted qs))) (at_depth d st\<lparr>sc_in_str := True\<rparr>)"
proof (induction qs arbitrary: i)
  case (Cons q qs)
  then show ?case by (cases q) (simp_all add: scan_byte_def at_depth_def)
qed simp

lemma scan_string:
  "list_all quoted_ok qs \<Longrightarrow>
     scan_objects s (render (Quoted qs) @ rest) i (at_depth d st) = scan_objects s rest (i + length (render (Quoted qs))) (at_depth d st)"
  using scan_quoted[of qs s "quote_char # rest" "Suc i" d st] by (simp add: scan_byte_def at_depth_def)

text \<open>Inside an object nothing is found and the state comes back to the same depth.\<close>

lemma scan_inner:
  "piece_ok False p \<Longrightarrow> 0 < d \<Longrightarrow>
     scan_objects s (render p @ rest) i (at_depth d (Some j)) = scan_objects s rest (i + length (render p)) (at_depth d (Some j))"
proof (induction p arbitrary: i d rest)
  case (Junk c)
  then show ?case by (simp add: scan_byte_def at_depth_def)
next
  case (Quoted qs)
  then show ?case using scan_string by simp
next
  case (Obj ps)
  have inner: "scan_objects s (concat (map render qs) @ more) k (at_depth e (Some j)) =
      scan_objects s more (k + length (concat (map render qs))) (at_depth e (Some j))"
    if "set qs \<subseteq> set ps" "list_all (piece_ok False) qs" "0 < e" for qs k more e
    using that
  proof (induction qs arbitrary: k)
    case (Cons q qs)
    then show ?case using Obj.IH[of q e "concat (map render qs) @ more" k] by (simp add: add.assoc)
  qed simp
  show ?case
    using Obj.prems inner[of ps "Suc d" "CHR ''}'' # rest" "Suc i"] by (simp add: scan_byte_def at_depth_def)
qed

lemma scan_inner_list:
  "list_all (piece_ok False) ps \<Longrightarrow> 0 < d \<Longrightarrow>
     scan_objects s (concat (map render ps) @ rest) i (at_depth d (Some j)) =
     scan_objects s rest (i + length (concat (map render ps))) (at_depth d (Some j))"
proof (induction ps arbitrary: i)
  case (Cons p ps)
  then show ?case using scan_inner[of p d s "concat (map render ps) @ rest" i j] by (simp add: add.assoc)
qed simp

lemma scan_top:
  assumes "piece_ok True p"
  shows "scan_objects (pre @ render p @ rest) (render p @ rest) (length pre) (at_depth 0 None) =
    (if is_obj p then [render p] else []) @ scan_objects (pre @ render p @ rest) rest (length pre + length (render p)) (at_depth 0 None)"
proof (cases p)
  case (Junk c)
  with assms show ?thesis by (simp add: scan_byte_def at_depth_def)
next
  case (Quoted qs)
  with assms show ?thesis using scan_string[of qs "pre @ render p @ rest" rest "length pre" 0 None] by simp
next
  case (Obj ps)
  let ?s = "pre @ render p @ rest" and ?b = "concat (map render ps)"
  have r: "render p = ''{'' @ ?b @ ''}''" by (simp add: Obj)
  have "scan_objects ?s (render p @ rest) (length pre) (at_depth 0 None)
      = scan_objects ?s (?b @ CHR ''}'' # rest) (Suc (length pre)) (at_depth 1 (Some (length pre)))"
    unfolding r by (simp add: scan_byte_def at_depth_def)
  also have "\<dots> = scan_objects ?s (CHR ''}'' # rest) (Suc (length pre) + length ?b) (at_depth 1 (Some (length pre)))"
    using assms Obj by (intro scan_inner_list) simp_all
  also have "\<dots> = take (length ?b + 2) (render p @ rest) # scan_objects ?s rest (length pre + length (render p)) (at_depth 0 None)"
    by (simp add: scan_byte_def at_depth_def r)
  also have "take (length ?b + 2) (render p @ rest) = render p" by (simp add: r)
  finally show ?thesis by (simp add: Obj)
qed

lemma top_level_objects_render:
  assumes "list_all (piece_ok True) ps"
  shows "top_level_objects (concat (map render ps)) = map render (filter is_obj ps)"
proof -
  have "scan_objects (pre @ concat (map render ps)) (concat (map render ps)) (length pre) (at_depth 0 None) = map render (filter is_obj ps)" for pre
    using assms
  proof (induction ps arbitrary: pre)
    case (Cons p ps)
    then show ?case
      using scan_top[of p pre "concat (map render ps)"] Cons.IH[of "pre @ render p"] by simp
  qed simp
  from this[of "[]"] show ?thesis by (simp add: top_level_objects_def scan_init_def at_depth_def)
qed

text \<open>C15. The scan finds exactly the outermost objects of a reply, in order and whole: braces in string
  literals do not count, escaped quotes do not end them, text between the objects is skipped.\<close>

theorem scan_finds_objects:
  assumes "list_all (piece_ok True) ps"
  shows "top_level_objects (concat (map render ps)) = map render (filter is_obj ps)"
  using assms by (rule top_level_objects_render)

lemma scan_finds_objects_witness:
  "top_level_objects (concat (map render [Junk CHR ''a'', Obj [Quoted [Lit CHR ''}'', Esc quote_char], Obj []], Junk CHR ''}'', Obj []]))
   = [''{'' @ [quote_char] @ ''}'' @ [backslash, quote_char, quote_char] @ ''{}}'', ''{}'']"
  by (subst scan_finds_objects) (simp_all add: quote_char_def backslash_def)

text \<open>So of a reply with several objects, none of which the whole text parses as, the first usable one is
  the model's choice.\<close>

lemma parse_reply_first:
  assumes "list_all (piece_ok True) ps" "trim_space text = concat (map render ps)"
    "try_reply unmarshal (trim_space text) = None"
    "\<And>m. json_obj_match (trim_space text) = Some m \<Longrightarrow> try_reply unmarshal m = None"
  shows "parse_reply unmarshal text = first_usable unmarshal (map render (filter is_obj ps))"
  using assms by (auto simp: parse_reply_def Let_def top_level_objects_render split: option.splits)

end
