(* ===== verification/Runner.thy ===== *)
theory Runner
  imports Skill Ipc_Types Room_Handlers "HOL-Library.Sublist"
begin

section \<open>The runners' processes (the mains of hive-skill-runner and hive-workflow-runner, and how a task ends)\<close>

text \<open>
  A runner is the process of a skill or workflow agent. Its main goroutine serves one task or follow-up message
  at a time; a second goroutine hands the messages of peers to the calls that wait for them. The first part
  is what the model is told of its tools, the second what becomes of a task's answer on its way to the
  daemon's \<open>Room.Run\<close>, the third the two goroutines. Texts are typeset: a backquote stands for a double
  quote, a tilde for a dash and a caret for an arrow, which are three bytes each in UTF-8.
\<close>

subsection \<open>What the model is told\<close>

definition nl :: string where "nl = [CHR 0x0A]"

definition typeset :: "string \<Rightarrow> string" where
  "typeset s = concat (map (\<lambda>c.
     if c = CHR 0x60 then [CHR 0x22]
     else if c = CHR ''~'' then [CHR 0xE2, CHR 0x80, CHR 0x94]
     else if c = CHR ''^'' then [CHR 0xE2, CHR 0x86, CHR 0x92] else [c]) s)"

text \<open>A group of tools with a line for each.\<close>

type_synonym tool_lines = "string \<times> (string \<times> string) list"

definition contains_any :: "string list \<Rightarrow> string list \<Rightarrow> bool" where
  "contains_any hay needles = list_ex (\<lambda>n. n \<in> set hay) needles"

definition has_tool :: "string list \<Rightarrow> string \<Rightarrow> bool" where
  "has_tool tools want = list_ex (\<lambda>t. t = want) tools"

definition offered :: "(string \<Rightarrow> bool) \<Rightarrow> tool_lines list \<Rightarrow> (string \<times> string) list" where
  "offered allowed ts = concat (map snd (filter (\<lambda>g. allowed (fst g)) ts))"

definition skill_lines :: "tool_lines list" where
  "skill_lines =
     [(''net'',
        [(''net_fetch'', typeset ('' ~ args {`url`: string}; returns JSON {`status`:int,`body`:string}''))]),
      (''fs'',
        [(''fs_read'', typeset (''  ~ args {`path`: string}; returns file contents'')),
         (''fs_write'', typeset ('' ~ args {`path`: string, `content`: string}; returns `ok`'')),
         (''fs_list'', typeset (''  ~ args {`path`: string}; returns JSON array of entries''))]),
      (''peer'',
        [(''peer_send'', typeset ('' ~ args {`to`: string, `payload`: any}; fire-and-forget message to another Agent in the same Room. Returns ''
          @ ''`sent` immediately. Use it when you don't need the other Agent's reply (one-way notify) or when subsequent flow ''
          @ ''is volume-mediated.'')),
         (''peer_call'', typeset ('' ~ args {`to`: string, `payload`: any, `timeout_seconds`?: int}; SYNCHRONOUS request/reply variant. Sends the ''
          @ ''message AND waits for the target's peer_send reply (matched by from-name + conv_id), then returns the reply ''
          @ ''payload as the tool result so you can include it in your final answer. Default timeout 60s, max 300s. Only ''
          @ ''works inside a Conversation (needs conv_id to route the reply). This is the right tool for ''
          @ ''delegate-and-integrate patterns: hire_junior a worker, peer_call them with the task, weave their output into ''
          @ ''your answer.'')),
         (''peer_call_many'', typeset ('' ~ args {`calls`: [{`to`: string, `payload`: any}, ...], `timeout_seconds`?: int}; PARALLEL fan-out variant. ''
          @ ''Issues all peer_calls concurrently and returns once every reply (or timeout) is in. Wall-clock = max(individual ''
          @ ''reply time), not sum. Returns {`replies`: [{`to`: string, `ok`: bool, `from`?: string, `payload`?: any, ''
          @ ''`error`?: string}]} in the same order as calls. Use it when you need feedback from N independent subordinates ''
          @ ''on the same artifact (e.g. supervisor ^ critic-A + critic-B reviewing the same draft).''))]),
      (''memory'',
        [(''memory_put'', typeset (''  ~ args {`scope`: string, `key`: string, `value`: string}; scope=`` is Room-private, scope=`<volume>` is ''
          @ ''cross-Room'')),
         (''memory_get'', typeset (''  ~ args {`scope`: string, `key`: string}; returns {`exists`:bool,`value`:string}'')),
         (''memory_list'', typeset ('' ~ args {`scope`: string, `prefix`: string}; returns {`keys`:[string]}'')),
         (''memory_delete'', typeset ('' ~ args {`scope`: string, `key`: string}''))]),
      (''ai_tool'',
        [(''ai_tool_invoke'', typeset ('' ~ args {`tool`: `claude-code`, `prompt`: string}; runs Claude Code CLI in the Room's /workspace dir, returns ''
          @ ''{`output`: string}''))]),
      (''hire'',
        [(''hire_junior'', typeset ('' ~ args {`ref`: `name:version`, `rank`: `intern|staff`, `quota`?: {`tokens`: {model: int}, `api_calls`: {key: ''
          @ ''int}}, `volumes`?: [{`name`,`mode`,`mountpoint`}]}; spawns a subordinate Agent (manager+ rank only). Daemon ''
          @ ''enforces rank.CanHire (strictly lower) and atomically carves the quota out of your remaining budget. Returns ''
          @ ''{`image`: string} ~ peer_send to that image to delegate work. Use this when a task needs a role that isn't ''
          @ ''already in the Room.''))])]"

definition skill_intro :: string where
  "skill_intro =
     nl @ nl @ ''--- Hive runtime instructions ---'' @ nl @ nl
     @ ''You are running inside Hive. You MUST respond with a single JSON object and nothing else.'' @ nl
     @ ''Two reply shapes:'' @ nl
     @ typeset ''  {`tool`: `<name>`, `args`: {...}}   ~ call a tool; you'll get the result back in the next user turn'' @ nl
     @ typeset ''  {`answer`: `<text>`}                ~ final answer; Hive stops the loop'' @ nl @ nl"

definition build_system_prompt :: "string \<Rightarrow> string list \<Rightarrow> string" where
  "build_system_prompt skill tools =
     skill @ skill_intro @ concat (map (\<lambda>(t, txt). ''Tool: '' @ t @ txt @ nl) (offered (\<lambda>g. contains_any tools [g]) skill_lines))"

definition planner_lines :: "tool_lines list" where
  "planner_lines =
     [(''net'',
        [(''net_fetch'', typeset (''    args {url,method?,headers?,body?} ^ {status,body}''))]),
      (''fs'',
        [(''fs_read'', typeset (''      args {path} ^ string'')),
         (''fs_write'', typeset (''     args {path,content} ^ `ok`'')),
         (''fs_list'', typeset (''      args {path} ^ [{name,is_dir,size}...]''))]),
      (''peer'',
        [(''peer_send'', typeset (''       args {to,payload} ^ `sent`  (fire-and-forget; returns immediately)'')),
         (''peer_call'', typeset (''       args {to,payload,timeout_seconds?} ^ {from,payload}  (sync await; only inside a Conversation)'')),
         (''peer_call_many'', typeset (''  args {calls:[{to,payload},...],timeout_seconds?} ^ {replies:[{to,ok,from,payload,error},...]}  (parallel ''
          @ ''fan-out)''))]),
      (''llm'',
        [(''llm_complete'', typeset ('' args {model,messages,max_tokens?} ^ {text,usage}''))]),
      (''memory'',
        [(''memory_put'', typeset (''    args {scope,key,value} ^ `ok`  (scope=`` private, `<vol>` shared)'')),
         (''memory_get'', typeset (''    args {scope,key} ^ {exists,value}'')),
         (''memory_list'', typeset (''   args {scope,prefix} ^ {keys}'')),
         (''memory_delete'', typeset ('' args {scope,key} ^ `ok`''))]),
      (''ai_tool'',
        [(''ai_tool_invoke'', typeset ('' args {tool,prompt} ^ {output}   (runs Claude Code CLI with cwd=/workspace)''))])]"

definition planner_instructions :: "string list \<Rightarrow> string" where
  "planner_instructions tools =
     ''You are producing a Hive workflow. Respond with ONLY a JSON object matching this schema:'' @ nl
     @ typeset ''  {`steps`:[{`id`:`<str>`,`tool`:`<str>`,`args`:{...}}...],`output`:`$steps.<id>.<field>`}'' @ nl @ nl
     @ ''Values in args may reference:'' @ nl
     @ typeset ''  $input.<path>       ~ the task's JSON input'' @ nl
     @ typeset ''  $steps.<id>.<path>  ~ a previous step's result'' @ nl @ nl
     @ ''Available tools (gated by manifest allow-list):'' @ nl
     @ concat (map (\<lambda>(t, txt). ''  '' @ t @ txt @ nl) (offered (has_tool tools) planner_lines))
     @ nl @ ''Do NOT wrap the JSON in markdown fences. Return the bare object.'' @ nl"

text \<open>The tools a runner can run: those it sends on to the daemon, and the two that wait for replies.\<close>

definition runnable :: "string \<Rightarrow> bool" where
  "runnable t \<longleftrightarrow> t = ''peer_call'' \<or> t = ''peer_call_many'' \<or> (\<exists>m c. tool_call t m = Inr c)"

definition tool_names :: "string list" where
  "tool_names = [''net_fetch'', ''fs_read'', ''fs_write'', ''fs_list'', ''peer_send'', ''peer_call'', ''peer_call_many'',
     ''memory_put'', ''memory_get'', ''memory_list'', ''memory_delete'', ''ai_tool_invoke'', ''hire_junior'', ''llm_complete'']"

lemma runnable_names: "runnable t \<longleftrightarrow> t \<in> set tool_names"
proof
  assume "runnable t"
  then show "t \<in> set tool_names"
    by (auto simp: runnable_def tool_names_def tool_call_def Let_def split: if_splits)
next
  let ?m = "[(''url'', WStr ''x''), (''path'', WStr ''x''), (''to'', WStr ''x''), (''prompt'', WStr ''x''), (''ref'', WStr ''x''), (''rank'', WStr ''x'')]"
  assume "t \<in> set tool_names"
  then have "t = ''peer_call'' \<or> t = ''peer_call_many'' \<or> (\<exists>c. tool_call t ?m = Inr c)"
    by (auto simp: tool_names_def tool_call_def Let_def need_def get_string_def)
  then show "runnable t" by (auto simp: runnable_def)
qed

text \<open>The names in the lines, by group.\<close>

definition names_by_group :: "tool_lines list \<Rightarrow> (string \<times> string list) list" where
  "names_by_group ts = map (\<lambda>(g, ls). (g, map fst ls)) ts"

definition grouped :: "(string \<times> string list) list \<Rightarrow> bool" where
  "grouped = list_all (\<lambda>(g, ns). g \<noteq> [] \<and> list_all (\<lambda>t. tool_group t = g) ns)"

lemma offered_by_group:
  assumes "grouped (names_by_group ts)" "\<And>g. allowed g \<longleftrightarrow> g \<in> set tools"
  shows "t \<in> fst ` set (offered allowed ts) \<longleftrightarrow> t \<in> set (concat (map snd (names_by_group ts))) \<and> tool_allowed t tools"
  using assms(1)
proof (induction ts)
  case (Cons x ts)
  obtain g ls where x: "x = (g, ls)" by (cases x)
  have "t \<in> fst ` set ls \<Longrightarrow> tool_allowed t tools = (g \<in> set tools)"
    using Cons.prems by (auto simp: x names_by_group_def grouped_def list_all_iff tool_allowed_def)
  moreover have "(t \<in> fst ` set (offered allowed (x # ts))) = (g \<in> set tools \<and> t \<in> fst ` set ls \<or> t \<in> fst ` set (offered allowed ts))"
    by (simp add: offered_def assms(2) x image_Un)
  moreover have "set (concat (map snd (names_by_group (x # ts)))) = fst ` set ls \<union> set (concat (map snd (names_by_group ts)))"
    by (simp add: x names_by_group_def)
  moreover have "grouped (names_by_group ts)" using Cons.prems by (simp add: x names_by_group_def grouped_def)
  ultimately show ?case using Cons.IH by blast
qed (simp add: offered_def names_by_group_def)

lemma names_skill:
  "names_by_group skill_lines =
     [(''net'', [''net_fetch'']), (''fs'', [''fs_read'', ''fs_write'', ''fs_list'']),
      (''peer'', [''peer_send'', ''peer_call'', ''peer_call_many'']),
      (''memory'', [''memory_put'', ''memory_get'', ''memory_list'', ''memory_delete'']), (''ai_tool'', [''ai_tool_invoke'']),
      (''hire'', [''hire_junior''])]"
  by (simp only: names_by_group_def skill_lines_def list.map prod.case fst_conv)

lemma names_planner:
  "names_by_group planner_lines =
     [(''net'', [''net_fetch'']), (''fs'', [''fs_read'', ''fs_write'', ''fs_list'']),
      (''peer'', [''peer_send'', ''peer_call'', ''peer_call_many'']), (''llm'', [''llm_complete'']),
      (''memory'', [''memory_put'', ''memory_get'', ''memory_list'', ''memory_delete'']), (''ai_tool'', [''ai_tool_invoke''])]"
  by (simp only: names_by_group_def planner_lines_def list.map prod.case fst_conv)

lemma names_grouped: "grouped (names_by_group skill_lines)" "grouped (names_by_group planner_lines)"
  unfolding names_skill names_planner by code_simp+

lemma names_are:
  "concat (map snd (names_by_group skill_lines)) = filter (\<lambda>t. t \<noteq> ''llm_complete'') tool_names"
  "set (concat (map snd (names_by_group planner_lines))) = {t \<in> set tool_names. t \<noteq> ''hire_junior''}"
proof -
  show "concat (map snd (names_by_group skill_lines)) = filter (\<lambda>t. t \<noteq> ''llm_complete'') tool_names"
    unfolding names_skill tool_names_def by code_simp
  let ?xs = "concat (map snd (names_by_group planner_lines))" and ?ys = "filter (\<lambda>t. t \<noteq> ''hire_junior'') tool_names"
  have "list_all (\<lambda>t. t \<in> set ?ys) ?xs \<and> list_all (\<lambda>t. t \<in> set ?xs) ?ys"
    unfolding names_planner tool_names_def by code_simp
  then show "set ?xs = {t \<in> set tool_names. t \<noteq> ''hire_junior''}" unfolding list_all_iff by auto
qed

text \<open>C29. A model is told of the tools it may use: a line of the skill runner's prompt is there for exactly the tools
  that the runner can run and the manifest allows, asking a model itself left out; the planner's for the
  same, hiring left out.\<close>

theorem prompts_offer_allowed:
  "(t \<in> fst ` set (offered (\<lambda>g. contains_any tools [g]) skill_lines) \<longleftrightarrow> runnable t \<and> tool_allowed t tools \<and> t \<noteq> ''llm_complete'')
   \<and> (t \<in> fst ` set (offered (has_tool tools) planner_lines) \<longleftrightarrow> runnable t \<and> tool_allowed t tools \<and> t \<noteq> ''hire_junior'')"
proof -
  have "contains_any tools [g] \<longleftrightarrow> g \<in> set tools" "has_tool tools g \<longleftrightarrow> g \<in> set tools" for g
    by (auto simp: contains_any_def has_tool_def list_ex_iff)
  note o = offered_by_group[OF names_grouped(1) this(1)] offered_by_group[OF names_grouped(2) this(2)]
  show ?thesis unfolding o names_are runnable_names by auto
qed


subsection \<open>A task's answer (agent.go Reply, Fail and notify; room.go Run)\<close>

text \<open>\<open>js\<close> writes the fields of a message and \<open>marshal\<close> a value; none for one without JSON.\<close>

definition notify :: "(fields \<Rightarrow> string) \<Rightarrow> string \<Rightarrow> fields \<Rightarrow> rpc_message" where
  "notify js meth ps = \<lparr>rm_id = [], rm_method = meth, rm_params = js ps, rm_result = [], rm_error = None\<rparr>"

definition done_fields :: "string \<Rightarrow> string \<Rightarrow> fields" where
  "done_fields tid raw = [(''task_id'', WStr tid), (''output'', WRaw raw)]"

definition error_fields :: "string \<Rightarrow> int \<Rightarrow> string \<Rightarrow> fields" where
  "error_fields tid code msg = [(''task_id'', WStr tid), (''code'', WInt code), (''message'', WStr msg)]"

definition task_reply :: "(fields \<Rightarrow> string) \<Rightarrow> (wval \<Rightarrow> string option) \<Rightarrow> string \<Rightarrow> wval \<Rightarrow> rpc_message option" where
  "task_reply js marshal tid v =
     (case marshal v of None \<Rightarrow> None | Some raw \<Rightarrow> Some (notify js ''task/done'' (done_fields tid raw)))"

definition task_fail :: "(fields \<Rightarrow> string) \<Rightarrow> string \<Rightarrow> int \<Rightarrow> string \<Rightarrow> rpc_message" where
  "task_fail js tid code msg = notify js ''task/error'' (error_fields tid code msg)"

definition agent_log :: "(fields \<Rightarrow> string) \<Rightarrow> string \<Rightarrow> string \<Rightarrow> fields list \<Rightarrow> rpc_message" where
  "agent_log js level msg fs =
     notify js ''log'' ([(''level'', WStr level), (''msg'', WStr msg)] @ (case fs of [] \<Rightarrow> [] | f # _ \<Rightarrow> [(''fields'', WObj f)]))"

text \<open>What the runner sends at the end of a task; an answer without JSON is dropped.\<close>

definition end_notice :: "(fields \<Rightarrow> string) \<Rightarrow> (wval \<Rightarrow> string option) \<Rightarrow> string \<Rightarrow> string \<Rightarrow> task_end \<Rightarrow> rpc_message option" where
  "end_notice js marshal tid err e =
     (case e of TaskDone v \<Rightarrow> task_reply js marshal tid v | TaskError code \<Rightarrow> Some (task_fail js tid code err))"

text \<open>The handlers that \<open>Run\<close> installs for its task. The errors of the decoder are ignored: a field that
  does not decode is its zero value.\<close>

datatype run_note = NoteDone string | NoteError int string

definition lenient :: "'a \<Rightarrow> 'a option \<Rightarrow> 'a" where
  "lenient z x = (case x of None \<Rightarrow> z | Some v \<Rightarrow> v)"

definition task_note :: "(string \<Rightarrow> fields option) \<Rightarrow> string \<Rightarrow> rpc_message \<Rightarrow> run_note option" where
  "task_note unjs tid m =
     (let ps = lenient [] (unjs (rm_params m)) in
      if lenient [] (fld_str ps ''task_id'') \<noteq> tid then None
      else if rm_method m = ''task/done'' then Some (NoteDone (lenient [] (fld_raw ps ''output'')))
      else if rm_method m = ''task/error'' then
        Some (NoteError (lenient 0 (fld_int ps ''code'')) (lenient [] (fld_str ps ''message'')))
      else None)"

text \<open>\<open>Run\<close> waits on four channels, the first two with one place: a second note waits there for ever and
  changes nothing. Select takes any that is ready, so the ends that \<open>Run\<close> may have are those ready
  at some moment of the run of events.\<close>

datatype run_event = Note rpc_message | ConnDone | CtxDone

record run_wait =
  rw_done :: "string option"
  rw_err :: "(int \<times> string) option"
  rw_exited :: bool
  rw_cancelled :: bool

definition run_begun :: run_wait where
  "run_begun = \<lparr>rw_done = None, rw_err = None, rw_exited = False, rw_cancelled = False\<rparr>"

fun run_sees :: "(string \<Rightarrow> fields option) \<Rightarrow> string \<Rightarrow> run_event \<Rightarrow> run_wait \<Rightarrow> run_wait" where
  "run_sees unjs tid (Note m) w =
     (case task_note unjs tid m of
        None \<Rightarrow> w
      | Some (NoteDone raw) \<Rightarrow> (if rw_done w = None then w\<lparr>rw_done := Some raw\<rparr> else w)
      | Some (NoteError code msg) \<Rightarrow> (if rw_err w = None then w\<lparr>rw_err := Some (code, msg)\<rparr> else w))"
| "run_sees unjs tid ConnDone w = w\<lparr>rw_exited := True\<rparr>"
| "run_sees unjs tid CtxDone w = w\<lparr>rw_cancelled := True\<rparr>"

definition ready_ends :: "run_wait \<Rightarrow> run_end list" where
  "ready_ends w =
     (case rw_done w of None \<Rightarrow> [] | Some raw \<Rightarrow> [RunDone raw]) @ (if rw_err w = None then [] else [RunFailed])
     @ (if rw_cancelled w then [RunCancelled] else []) @ (if rw_exited w then [RunExited] else [])"

definition possible_ends :: "(string \<Rightarrow> fields option) \<Rightarrow> string \<Rightarrow> run_event list \<Rightarrow> run_end list" where
  "possible_ends unjs tid evs =
     concat (map (\<lambda>n. ready_ends (fold (run_sees unjs tid) (take n evs) run_begun)) [0..<Suc (length evs)])"

lemma possible_mem:
  "x \<in> set (possible_ends unjs tid evs) \<longleftrightarrow> (\<exists>n \<le> length evs. x \<in> set (ready_ends (fold (run_sees unjs tid) (take n evs) run_begun)))"
  by (auto simp: possible_ends_def less_Suc_eq_le simp del: upt_Suc)

text \<open>The end that an answer of the runner stands for.\<close>

definition end_seen :: "(wval \<Rightarrow> string option) \<Rightarrow> task_end \<Rightarrow> run_end" where
  "end_seen marshal e = (case e of TaskDone v \<Rightarrow> RunDone (lenient [] (marshal v)) | TaskError code \<Rightarrow> RunFailed)"

definition reads_notice :: "(fields \<Rightarrow> string) \<Rightarrow> (string \<Rightarrow> fields option) \<Rightarrow> (wval \<Rightarrow> string option) \<Rightarrow> string \<Rightarrow> string \<Rightarrow> task_end \<Rightarrow> bool" where
  "reads_notice js unjs marshal tid err e \<longleftrightarrow>
     (let ps = (case e of TaskDone v \<Rightarrow> done_fields tid (lenient [] (marshal v)) | TaskError code \<Rightarrow> error_fields tid code err)
      in unjs (js ps) = Some ps)"

lemma notice_note:
  assumes "end_notice js marshal tid err e = Some n" "reads_notice js unjs marshal tid err e"
  shows "task_note unjs tid n =
    Some (case e of TaskDone v \<Rightarrow> NoteDone (lenient [] (marshal v)) | TaskError code \<Rightarrow> NoteError code err)"
proof (cases e)
  case (TaskDone v)
  with assms(1) obtain raw where "marshal v = Some raw" "n = notify js ''task/done'' (done_fields tid raw)"
    by (auto simp: end_notice_def task_reply_def split: option.splits)
  with TaskDone assms(2) show ?thesis
    by (simp add: reads_notice_def notify_def task_note_def lenient_def done_fields_def fld_str_def fld_raw_def Let_def)
next
  case (TaskError code)
  with assms(1) have "n = notify js ''task/error'' (error_fields tid code err)"
    by (auto simp: end_notice_def task_fail_def)
  with TaskError assms(2) show ?thesis
    by (simp add: reads_notice_def notify_def task_note_def lenient_def error_fields_def fld_str_def fld_int_def Let_def)
qed

lemma notice_seen:
  assumes "end_notice js marshal tid err e = Some n" "reads_notice js unjs marshal tid err e"
  shows "ready_ends (run_sees unjs tid (Note n) run_begun) = [end_seen marshal e]"
  by (cases e) (simp_all add: notice_note[OF assms] end_seen_def ready_ends_def run_begun_def)

lemma other_notes:
  "\<forall>m \<in> set ms. task_note unjs tid m = None \<Longrightarrow> fold (run_sees unjs tid) (map Note ms) w = w"
  by (induction ms arbitrary: w) auto

lemma ready_stays: "set (ready_ends w) \<subseteq> set (ready_ends (fold (run_sees unjs tid) evs w))"
proof (induction evs arbitrary: w)
  case (Cons e evs)
  have "set (ready_ends w) \<subseteq> set (ready_ends (run_sees unjs tid e w))"
    by (cases e) (auto simp: ready_ends_def split: option.splits run_note.splits)
  with Cons.IH[of "run_sees unjs tid e w"] show ?case by auto
qed simp



text \<open>An agent that answers and exits at once can lose the answer: the run finds both the note and the end of the
  connection, and the select takes either.\<close>

lemma answer_lost_on_exit:
  assumes "end_notice js marshal tid err e = Some n" "reads_notice js unjs marshal tid err e"
  shows "{end_seen marshal e, RunExited} \<subseteq> set (possible_ends unjs tid [Note n, ConnDone])"
proof -
  have "ready_ends (fold (run_sees unjs tid) [Note n, ConnDone] run_begun) = [end_seen marshal e, RunExited]"
    by (cases e) (simp_all add: notice_note[OF assms] end_seen_def ready_ends_def run_begun_def)
  then show ?thesis unfolding possible_mem subset_iff by (auto intro!: exI[of _ "2::nat"] simp del: fold_simps)
qed

definition js_a :: "fields \<Rightarrow> string" where
  "js_a ps = (if ps = done_fields ''r1-1'' ''7'' then ''d'' else ''x'')"

definition unjs_a :: "string \<Rightarrow> fields option" where
  "unjs_a s = (if s = ''d'' then Some (done_fields ''r1-1'' ''7'') else None)"


subsection \<open>The two goroutines (main of both runners)\<close>

text \<open>\<open>ru_tasks\<close> and \<open>ru_peers\<close> are the queues of the SDK, \<open>ru_sys\<close> the registry of waiting calls with the message the
  router holds, \<open>ru_open\<close> the calls of the running job with their keys. The two last fields are what has arrived so far.\<close>

record sdk_task =
  tk_id :: string
  tk_input :: string
  tk_conv :: string

datatype job = TaskJob sdk_task | PeerJob peer_note
datatype main_at = AtSelect | Busy job | Returned

record runner =
  ru_tasks :: "sdk_task list"
  ru_peers :: "peer_note list"
  ru_closed :: bool
  ru_sys :: asys
  ru_main :: main_at
  ru_open :: "(string \<times> nat) list"
  ru_served :: "job list"
  ru_tasks_in :: "sdk_task list"
  ru_peers_in :: "peer_note list"

definition new_runner :: runner where
  "new_runner = \<lparr>ru_tasks = [], ru_peers = [], ru_closed = False, ru_sys = new_asys, ru_main = AtSelect, ru_open = [],
     ru_served = [], ru_tasks_in = [], ru_peers_in = []\<rparr>"

definition pop_fallback :: "peer_note list \<Rightarrow> asys \<Rightarrow> asys" where
  "pop_fallback q y = y\<lparr>as_aw := (as_aw y)\<lparr>aw_fallback := q\<rparr>\<rparr>"

definition read_chan :: "nat \<Rightarrow> asys \<Rightarrow> asys" where
  "read_chan c y = y\<lparr>as_aw := (as_aw y)\<lparr>aw_chans := (aw_chans (as_aw y))(c := (aw_chans (as_aw y) c)\<lparr>ch_buf := None\<rparr>)\<rparr>\<rparr>"

inductive rstep :: "runner \<Rightarrow> runner \<Rightarrow> bool" where
  task_in: "\<not> ru_closed s \<Longrightarrow> length (ru_tasks s) < sdk_buffer \<Longrightarrow>
      rstep s (s\<lparr>ru_tasks := ru_tasks s @ [t], ru_tasks_in := ru_tasks_in s @ [t]\<rparr>)"
| peer_in: "\<not> ru_closed s \<Longrightarrow> length (ru_peers s) < sdk_buffer \<Longrightarrow>
      rstep s (s\<lparr>ru_peers := ru_peers s @ [p], ru_peers_in := ru_peers_in s @ [p]\<rparr>)"
| closes: "rstep s (s\<lparr>ru_closed := True\<rparr>)"
| route_take: "\<not> as_done (ru_sys s) \<Longrightarrow> as_held (ru_sys s) = None \<Longrightarrow> ru_peers s = p # ps \<Longrightarrow> aw_take p (as_aw (ru_sys s)) = (oc, a) \<Longrightarrow>
      rstep s (s\<lparr>ru_peers := ps, ru_sys := (ru_sys s)\<lparr>as_aw := a, as_held := Some (oc, p)\<rparr>\<rparr>)"
| route_put: "as_held (ru_sys s) = Some (oc, p) \<Longrightarrow>
      rstep s (s\<lparr>ru_sys := (ru_sys s)\<lparr>as_aw := aw_put oc p (as_aw (ru_sys s)), as_held := None\<rparr>\<rparr>)"
| route_ends: "\<not> as_done (ru_sys s) \<Longrightarrow> as_held (ru_sys s) = None \<Longrightarrow> ru_closed s \<Longrightarrow>
      rstep s (s\<lparr>ru_sys := (ru_sys s)\<lparr>as_aw := aw_close (as_aw (ru_sys s)), as_done := True\<rparr>\<rparr>)"
| take_task: "ru_main s = AtSelect \<Longrightarrow> ru_tasks s = t # ts \<Longrightarrow> rstep s (s\<lparr>ru_tasks := ts, ru_main := Busy (TaskJob t)\<rparr>)"
| take_peer: "ru_main s = AtSelect \<Longrightarrow> aw_fallback (as_aw (ru_sys s)) = p # q \<Longrightarrow>
      rstep s (s\<lparr>ru_sys := pop_fallback q (ru_sys s), ru_main := Busy (PeerJob p)\<rparr>)"
| no_more_peers: "ru_main s = AtSelect \<Longrightarrow> aw_fallback (as_aw (ru_sys s)) = [] \<Longrightarrow> aw_fallback_closed (as_aw (ru_sys s)) \<Longrightarrow>
      rstep s (s\<lparr>ru_main := Returned\<rparr>)"
| main_ends: "ru_main s = AtSelect \<Longrightarrow> ru_closed s \<Longrightarrow> rstep s (s\<lparr>ru_main := Returned\<rparr>)"
| call_begins: "ru_main s = Busy j \<Longrightarrow> aw_register to conv (as_aw (ru_sys s)) = (c, a) \<Longrightarrow>
      rstep s (s\<lparr>ru_sys := (ru_sys s)\<lparr>as_aw := a, as_key := (as_key (ru_sys s))(c := await_key to conv)\<rparr>,
                 ru_open := (await_key to conv, c) # ru_open s\<rparr>)"
| call_reads: "ru_main s = Busy j \<Longrightarrow> (k, c) \<in> set (ru_open s) \<Longrightarrow> ch_buf (aw_chans (as_aw (ru_sys s)) c) = Some p \<Longrightarrow>
      rstep s (s\<lparr>ru_sys := read_chan c (ru_sys s)\<rparr>)"
| call_ends: "ru_main s = Busy j \<Longrightarrow> (k, c) \<in> set (ru_open s) \<Longrightarrow>
      rstep s (s\<lparr>ru_sys := (ru_sys s)\<lparr>as_aw := aw_cancel k c (as_aw (ru_sys s))\<rparr>, ru_open := remove1 (k, c) (ru_open s)\<rparr>)"
| finish: "ru_main s = Busy j \<Longrightarrow> ru_open s = [] \<Longrightarrow> rstep s (s\<lparr>ru_main := AtSelect, ru_served := ru_served s @ [j]\<rparr>)"

inductive_cases rstep_cases: "rstep s t"

text \<open>What is running, and what the router holds for the fallback.\<close>

definition jobs_of :: "runner \<Rightarrow> job list" where
  "jobs_of s = ru_served s @ (case ru_main s of Busy j \<Rightarrow> [j] | _ \<Rightarrow> [])"

definition job_tasks :: "job list \<Rightarrow> sdk_task list" where
  "job_tasks = List.map_filter (\<lambda>j. case j of TaskJob t \<Rightarrow> Some t | PeerJob p \<Rightarrow> None)"

definition job_peers :: "job list \<Rightarrow> peer_note list" where
  "job_peers = List.map_filter (\<lambda>j. case j of TaskJob t \<Rightarrow> None | PeerJob p \<Rightarrow> Some p)"

definition held_over :: "asys \<Rightarrow> peer_note list" where
  "held_over y = (case as_held y of Some (None, p) \<Rightarrow> [p] | _ \<Rightarrow> [])"

definition runner_inv :: "runner \<Rightarrow> bool" where
  "runner_inv s \<longleftrightarrow> astep\<^sup>*\<^sup>* new_asys (ru_sys s)
     \<and> (\<forall>(k, c) \<in> set (ru_open s). c < aw_next (as_aw (ru_sys s)) \<and> as_key (ru_sys s) c = k)
     \<and> job_tasks (jobs_of s) @ ru_tasks s = ru_tasks_in s
     \<and> subseq (job_peers (jobs_of s) @ aw_fallback (as_aw (ru_sys s)) @ held_over (ru_sys s) @ ru_peers s) (ru_peers_in s)"

lemma job_simps [simp]:
  "job_tasks [] = []" "job_tasks (TaskJob t # js) = t # job_tasks js" "job_tasks (PeerJob p # js) = job_tasks js"
  "job_peers [] = []" "job_peers (TaskJob t # js) = job_peers js" "job_peers (PeerJob p # js) = p # job_peers js"
  "job_tasks (js @ ks) = job_tasks js @ job_tasks ks" "job_peers (js @ ks) = job_peers js @ job_peers ks"
  by (simp_all add: job_tasks_def job_peers_def map_filter_simps map_filter_def)

lemma close_chan_parts [simp]:
  "aw_next (close_chan c a) = aw_next a" "aw_fallback (close_chan c a) = aw_fallback a"
  "aw_fallback_closed (close_chan c a) = aw_fallback_closed a"
  by (simp_all add: close_chan_def)

lemma register_parts:
  assumes "aw_register sender conv a = (c, b)"
  shows "c = aw_next a" "aw_next b = Suc c" "aw_fallback b = aw_fallback a" "aw_fallback_closed b = aw_fallback_closed a"
  using assms by (auto simp: aw_register_def Let_def split: option.splits)

lemma aw_parts [simp]:
  "aw_next (aw_cancel k c a) = aw_next a" "aw_fallback (aw_cancel k c a) = aw_fallback a"
  "aw_next (aw_put oc p a) = aw_next a" "aw_next (aw_close a) = aw_next a" "aw_fallback (aw_close a) = aw_fallback a"
  "aw_take p a = (oc, b) \<Longrightarrow> aw_next b = aw_next a" "aw_take p a = (oc, b) \<Longrightarrow> aw_fallback b = aw_fallback a"
  by (auto simp: aw_cancel_def aw_put_def aw_close_def aw_take_def Let_def split: option.splits)

text \<open>A step of the runner is one of the registry, or none.\<close>

lemma runner_simulates:
  assumes "rstep s t" "runner_inv s"
  shows "ru_sys t = ru_sys s \<or> astep (ru_sys s) (ru_sys t)"
  using assms
proof (induction rule: rstep.induct)
  case (route_take s p ps oc a)
  then show ?case using astep.take[of "ru_sys s" p oc a] by simp
next
  case (route_put s oc p)
  then show ?case using astep.put[of "ru_sys s" oc p] by simp
next
  case (route_ends s)
  then show ?case using astep.stop[of "ru_sys s"] by simp
next
  case (take_peer s p q)
  then show ?case using astep.fall[of "ru_sys s" p q] by (simp add: pop_fallback_def)
next
  case (call_begins s j to conv c a)
  then show ?case using astep.reg[of to conv "ru_sys s" c a] by simp
next
  case (call_reads s j k c p)
  then have "c < aw_next (as_aw (ru_sys s))" by (auto simp: runner_inv_def)
  then show ?case using call_reads astep.recv[of c "ru_sys s" p] by (simp add: read_chan_def)
next
  case (call_ends s j k c)
  then have "c < aw_next (as_aw (ru_sys s))" "as_key (ru_sys s) c = k" by (auto simp: runner_inv_def)
  then show ?case using astep.cancel[of c "ru_sys s"] by simp
qed simp_all

lemma runner_inv_new: "runner_inv new_runner"
  by (simp add: runner_inv_def new_runner_def jobs_of_def held_over_def new_asys_def new_awaiter_def)

lemma subseq_drop_mid: "subseq (us @ vs @ xs @ y # zs) ws \<Longrightarrow> subseq (us @ vs @ xs @ zs) ws"
proof -
  assume "subseq (us @ vs @ xs @ y # zs) ws"
  moreover have "subseq (us @ vs @ xs @ zs) (us @ vs @ xs @ y # zs)" by (intro list_emb_append_mono) auto
  ultimately show ?thesis by (rule subseq_order.trans[rotated])
qed

lemma subseq_snoc: "subseq (us @ vs @ xs @ zs) ws \<Longrightarrow> subseq (us @ vs @ xs @ zs @ [p]) (ws @ [p])"
  using list_emb_append_mono[of "(=)" "us @ vs @ xs @ zs" ws "[p]" "[p]"] by simp

lemma put_fallback: "\<exists>f. aw_fallback (aw_put oc p a) = aw_fallback a @ f \<and> (f = [] \<or> f = [p] \<and> oc = None)"
  by (auto simp: aw_put_def split: option.splits)

lemma runner_inv_step:
  assumes "rstep s t" "runner_inv s"
  shows "runner_inv t"
proof -
  have sys: "astep\<^sup>*\<^sup>* new_asys (ru_sys t)"
    using runner_simulates[OF assms] assms(2) by (auto simp: runner_inv_def intro: rtranclp.rtrancl_into_rtrancl)
  from assms(1,2) sys show ?thesis
  proof (induction rule: rstep.induct)
    case (peer_in s p)
    then show ?case
      using subseq_snoc[of "job_peers (jobs_of s)" "aw_fallback (as_aw (ru_sys s))" "held_over (ru_sys s)" "ru_peers s" "ru_peers_in s" p]
      by (simp add: runner_inv_def jobs_of_def held_over_def)
  next
    case (route_take s p ps oc a)
    then show ?case
      by (cases oc) (auto simp: runner_inv_def jobs_of_def held_over_def dest: subseq_drop_mid)
  next
    case (route_put s oc p)
    obtain f where f: "aw_fallback (aw_put oc p (as_aw (ru_sys s))) = aw_fallback (as_aw (ru_sys s)) @ f" "f = [] \<or> f = [p] \<and> oc = None"
      using put_fallback by blast
    then show ?case using route_put
      by (cases oc) (auto simp: runner_inv_def jobs_of_def held_over_def dest: subseq_drop_mid)
  next
    case (call_begins s j to conv c a)
    then show ?case using register_parts[OF call_begins(2)]
      by (auto simp: runner_inv_def jobs_of_def held_over_def)
  next
    case (call_ends s j k c)
    then show ?case
      by (auto simp: runner_inv_def jobs_of_def held_over_def dest: subsetD[OF set_remove1_subset])
  qed (auto simp: runner_inv_def jobs_of_def held_over_def pop_fallback_def read_chan_def split: main_at.splits)
qed

lemma runner_inv_reach: "rstep\<^sup>*\<^sup>* new_runner s \<Longrightarrow> runner_inv s"
  by (induction rule: rtranclp_induct) (auto intro: runner_inv_new runner_inv_step)

text \<open>C17. A runner serves what it gets one at a time and in order, however its goroutines interleave: the tasks begun are
  those that arrived, in their order, each once, the rest still waiting; the follow-up messages begun, waiting and
  still to be routed are among those that arrived, in their order, none twice; and it never panics.\<close>

theorem runner_serves_in_order:
  assumes "rstep\<^sup>*\<^sup>* new_runner s"
  shows "job_tasks (jobs_of s) @ ru_tasks s = ru_tasks_in s
    \<and> subseq (job_peers (jobs_of s) @ aw_fallback (as_aw (ru_sys s)) @ ru_peers s) (ru_peers_in s)
    \<and> \<not> aw_panic (as_aw (ru_sys s)) \<and> length (aw_fallback (as_aw (ru_sys s))) \<le> 16"
proof -
  note inv = runner_inv_reach[OF assms]
  then have y: "astep\<^sup>*\<^sup>* new_asys (ru_sys s)"
    and sub: "subseq (job_peers (jobs_of s) @ aw_fallback (as_aw (ru_sys s)) @ held_over (ru_sys s) @ ru_peers s) (ru_peers_in s)"
    and tasks: "job_tasks (jobs_of s) @ ru_tasks s = ru_tasks_in s"
    by (simp_all add: runner_inv_def)
  have "subseq (job_peers (jobs_of s) @ aw_fallback (as_aw (ru_sys s)) @ ru_peers s) (ru_peers_in s)"
  proof (cases "held_over (ru_sys s)")
    case (Cons p ps)
    then have "ps = []" by (auto simp: held_over_def split: option.splits)
    with sub Cons subseq_drop_mid[of "job_peers (jobs_of s)" "aw_fallback (as_aw (ru_sys s))" "[]" p "ru_peers s" "ru_peers_in s"]
    show ?thesis by simp
  qed (use sub in simp)
  with tasks asys_inv_reach[OF y] show ?thesis by (simp add: asys_inv_def fallback_buffer_def)
qed

text \<open>A message matches a call when it has the call's key.\<close>

definition note_key :: "peer_note \<Rightarrow> string" where
  "note_key p = await_key (pn_from p) (pn_conv p)"

definition route :: "peer_note \<Rightarrow> asys \<Rightarrow> asys" where
  "route p y = (case aw_take p (as_aw y) of (oc, a) \<Rightarrow> y\<lparr>as_aw := aw_put oc p a, as_held := None\<rparr>)"

lemma route_steps:
  assumes "\<not> as_done (ru_sys s)" "as_held (ru_sys s) = None" "ru_peers s = p # ps"
  shows "rstep\<^sup>*\<^sup>* s (s\<lparr>ru_peers := ps, ru_sys := route p (ru_sys s)\<rparr>)"
proof -
  obtain oc a where t: "aw_take p (as_aw (ru_sys s)) = (oc, a)" by fastforce
  let ?m = "s\<lparr>ru_peers := ps, ru_sys := (ru_sys s)\<lparr>as_aw := a, as_held := Some (oc, p)\<rparr>\<rparr>"
  have "rstep s ?m" using rstep.route_take[OF assms t] .
  moreover have "rstep ?m (?m\<lparr>ru_sys := (ru_sys ?m)\<lparr>as_aw := aw_put oc p (as_aw (ru_sys ?m)), as_held := None\<rparr>\<rparr>)"
    by (rule rstep.route_put) simp
  ultimately have "rstep\<^sup>*\<^sup>* s (?m\<lparr>ru_sys := (ru_sys ?m)\<lparr>as_aw := aw_put oc p (as_aw (ru_sys ?m)), as_held := None\<rparr>\<rparr>)"
    by (meson converse_rtranclp_into_rtranclp rtranclp.rtrancl_refl)
  then show ?thesis by (simp add: route_def t)
qed

lemma route_hits:
  assumes "asys_inv y" "aw_waiters (as_aw y) (note_key p) = Some c"
  shows "ch_buf (aw_chans (as_aw (route p y)) c) = Some p"
  using asys_inv_waiting[OF assms] assms(2)
  by (simp add: route_def aw_take_def note_key_def aw_put_def chan_ready_def)

lemma route_misses:
  assumes "note_key q \<noteq> k" "aw_waiters (as_aw y) k = Some c"
  shows "aw_waiters (as_aw (route q y)) k = Some c" "as_done (route q y) = as_done y" "as_held (route q y) = None"
proof -
  obtain oc a where t: "aw_take q (as_aw y) = (oc, a)" by fastforce
  then have "aw_waiters a k = aw_waiters (as_aw y) k"
    using assms(1) by (auto simp: aw_take_def note_key_def Let_def split: option.splits)
  moreover have "aw_waiters (aw_put oc q a) = aw_waiters a" by (simp add: aw_put_def split: option.split)
  ultimately show "aw_waiters (as_aw (route q y)) k = Some c" "as_done (route q y) = as_done y" "as_held (route q y) = None"
    using assms(2) by (simp_all add: route_def t)
qed

text \<open>C20. A reply reaches the call that waits for it, whatever the main goroutine is doing: the steps of the router alone
  take the messages before it, none of which is for that call, and put the reply on the call's channel.\<close>

theorem reply_reaches_call:
  assumes "rstep\<^sup>*\<^sup>* new_runner s" "\<not> as_done (ru_sys s)" "as_held (ru_sys s) = None"
    and "ru_peers s = before @ p # after" "aw_waiters (as_aw (ru_sys s)) (note_key p) = Some c" "\<forall>q \<in> set before. note_key q \<noteq> note_key p"
  shows "\<exists>t. rstep\<^sup>*\<^sup>* s t \<and> ch_buf (aw_chans (as_aw (ru_sys t)) c) = Some p \<and> ru_peers t = after
    \<and> ru_main t = ru_main s \<and> ru_tasks t = ru_tasks s \<and> ru_open t = ru_open s"
  using assms
proof (induction before arbitrary: s)
  case Nil
  have "asys_inv (ru_sys s)" using runner_inv_reach[OF Nil.prems(1)] by (simp add: runner_inv_def asys_inv_reach)
  from route_hits[OF this Nil.prems(5)] route_steps[OF Nil.prems(2,3), of p after] Nil.prems(4) show ?case
    by (intro exI[of _ "s\<lparr>ru_peers := after, ru_sys := route p (ru_sys s)\<rparr>"]) simp
next
  case (Cons q qs)
  let ?s = "s\<lparr>ru_peers := qs @ p # after, ru_sys := route q (ru_sys s)\<rparr>"
  have st: "rstep\<^sup>*\<^sup>* s ?s" using route_steps[OF Cons.prems(2,3)] Cons.prems(4) by simp
  have m: "note_key q \<noteq> note_key p" using Cons.prems(6) by simp
  note miss = route_misses[OF m Cons.prems(5)]
  have "rstep\<^sup>*\<^sup>* new_runner ?s" using Cons.prems(1) st by simp
  from Cons.IH[OF this] miss Cons.prems(2,6) obtain t where
    t: "rstep\<^sup>*\<^sup>* ?s t" "ch_buf (aw_chans (as_aw (ru_sys t)) c) = Some p" "ru_peers t = after" "ru_main t = ru_main s"
      "ru_tasks t = ru_tasks s" "ru_open t = ru_open s" by auto
  from st t(1) have "rstep\<^sup>*\<^sup>* s t" by simp
  with t show ?case by blast
qed

text \<open>A task that calls Bob, while a message of Ann and then Bob's reply are in the queue, and another task waits.\<close>

definition task_n :: "string \<Rightarrow> sdk_task" where
  "task_n i = \<lparr>tk_id = i, tk_input = [], tk_conv = ''c1''\<rparr>"

definition ann_note :: peer_note where
  "ann_note = \<lparr>pn_from = ''ann'', pn_payload = [], pn_conv = ''c1''\<rparr>"

definition calling :: "peer_note list \<Rightarrow> runner" where
  "calling ps = new_runner\<lparr>ru_tasks := [task_n ''2''], ru_tasks_in := [task_n ''1'', task_n ''2''], ru_main := Busy (TaskJob (task_n ''1'')),
     ru_sys := new_asys\<lparr>as_aw := snd (aw_register ''bob'' ''c1'' new_awaiter), as_key := (\<lambda>_. [])(0 := await_key ''bob'' ''c1'')\<rparr>,
     ru_open := [(await_key ''bob'' ''c1'', 0)], ru_peers := ps, ru_peers_in := ps\<rparr>"

lemma new_runner_simps [simp]:
  "ru_tasks new_runner = []" "ru_tasks_in new_runner = []" "ru_main new_runner = AtSelect" "\<not> ru_closed new_runner"
  "ru_sys new_runner = new_asys" "ru_open new_runner = []" "as_aw new_asys = new_awaiter" "as_key new_asys = (\<lambda>_. [])"
  by (simp_all add: new_runner_def new_asys_def)

lemma register_bob: "aw_register ''bob'' ''c1'' new_awaiter = (0, snd (aw_register ''bob'' ''c1'' new_awaiter))"
  by (simp add: aw_register_def new_awaiter_def Let_def)

lemma calling_reached: "rstep\<^sup>*\<^sup>* new_runner (calling [ann_note, bob_note])"
proof -
  let ?s1 = "new_runner\<lparr>ru_tasks := [task_n ''1''], ru_tasks_in := [task_n ''1'']\<rparr>"
  let ?s2 = "?s1\<lparr>ru_tasks := [task_n ''1'', task_n ''2''], ru_tasks_in := [task_n ''1'', task_n ''2'']\<rparr>"
  let ?s3 = "?s2\<lparr>ru_tasks := [task_n ''2''], ru_main := Busy (TaskJob (task_n ''1''))\<rparr>"
  have 1: "rstep new_runner ?s1" using rstep.task_in[of new_runner "task_n ''1''"] by (simp add: sdk_buffer_def)
  have 2: "rstep ?s1 ?s2" using rstep.task_in[of ?s1 "task_n ''2''"] by (simp add: sdk_buffer_def)
  have 3: "rstep ?s2 ?s3" using rstep.take_task[of ?s2 "task_n ''1''" "[task_n ''2'']"] by simp
  have "rstep ?s3 (?s3\<lparr>ru_sys := (ru_sys ?s3)\<lparr>as_aw := snd (aw_register ''bob'' ''c1'' new_awaiter),
      as_key := (as_key (ru_sys ?s3))(0 := await_key ''bob'' ''c1'')\<rparr>, ru_open := (await_key ''bob'' ''c1'', 0) # ru_open ?s3\<rparr>)"
    by (rule rstep.call_begins[where j = "TaskJob (task_n ''1'')" and to = "''bob''" and conv = "''c1''"]) (simp_all add: register_bob[symmetric])
  then have 4: "rstep ?s3 (calling [])" by (simp add: calling_def new_runner_def)
  have 5: "rstep (calling []) (calling [ann_note])" using rstep.peer_in[of "calling []" ann_note] by (simp add: calling_def sdk_buffer_def)
  have 6: "rstep (calling [ann_note]) (calling [ann_note, bob_note])"
    using rstep.peer_in[of "calling [ann_note]" bob_note] by (simp add: calling_def sdk_buffer_def)
  from 1 2 3 4 5 6 show ?thesis by (meson converse_rtranclp_into_rtranclp rtranclp.rtrancl_refl)
qed

theorem runner_serves_in_order_witness:
  "job_tasks (jobs_of (calling [ann_note, bob_note])) @ ru_tasks (calling [ann_note, bob_note]) = [task_n ''1'', task_n ''2'']
   \<and> \<not> aw_panic (as_aw (ru_sys (calling [ann_note, bob_note])))"
proof -
  have "ru_tasks_in (calling [ann_note, bob_note]) = [task_n ''1'', task_n ''2'']" by (simp add: calling_def)
  with runner_serves_in_order[OF calling_reached] show ?thesis by simp
qed

theorem reply_reaches_call_witness:
  "\<exists>t. rstep\<^sup>*\<^sup>* (calling [ann_note, bob_note]) t \<and> ch_buf (aw_chans (as_aw (ru_sys t)) 0) = Some bob_note
     \<and> ru_main t = Busy (TaskJob (task_n ''1''))"
proof -
  have main: "ru_main (calling ps) = Busy (TaskJob (task_n ''1''))" for ps by (simp add: calling_def)
  have "\<not> as_done (ru_sys (calling ps))" "as_held (ru_sys (calling ps)) = None" for ps
    by (simp_all add: calling_def new_asys_def)
  moreover have "ru_peers (calling [ann_note, bob_note]) = [ann_note] @ bob_note # []" by (simp add: calling_def)
  moreover have "aw_waiters (as_aw (ru_sys (calling [ann_note, bob_note]))) (note_key bob_note) = Some 0"
    by (simp add: calling_def note_key_def bob_note_def aw_register_def new_awaiter_def Let_def)
  moreover have "\<forall>q \<in> set [ann_note]. note_key q \<noteq> note_key bob_note"
    by (simp add: note_key_def ann_note_def bob_note_def await_key_def)
  ultimately show ?thesis using reply_reaches_call[OF calling_reached] main by metis
qed

subsection \<open>The start\<close>

text \<open>A runner that finds nothing to run exits with 2. \<open>sk_conv\<close> is that of each task.\<close>

definition skill_start :: "(string \<Rightarrow> string) \<Rightarrow> (string \<Rightarrow> string option) \<Rightarrow> int + (skill_run \<times> string)" where
  "skill_start getenv read_file =
     (let path = getenv ''HIVE_SKILL_PATH'' in
      if path = [] then Inl 2
      else case read_file path of
          None \<Rightarrow> Inl 2
        | Some skill \<Rightarrow>
            (let tools = skill_tools (getenv ''HIVE_TOOLS'')
             in Inr (\<lparr>sk_model = skill_model (getenv ''HIVE_MODEL''), sk_tools = tools, sk_conv = []\<rparr>, build_system_prompt skill tools)))"

definition workflow_start ::
  "(string \<Rightarrow> workflow option) \<Rightarrow> (string \<Rightarrow> string) \<Rightarrow> (string \<Rightarrow> string option) \<Rightarrow> int + (run_mode \<times> string \<times> string list)" where
  "workflow_start unmarshal getenv read_file =
     (case detect_mode unmarshal read_file (getenv ''HIVE_WORKFLOW_PATH'') (getenv ''HIVE_PLANNER_PATH'') of
        None \<Rightarrow> Inl 2
      | Some mode \<Rightarrow> Inr (mode, or_else (getenv ''HIVE_MODEL'') ''gpt-4o-mini'', workflow_tools (getenv ''HIVE_TOOLS'')))"

text \<open>The tools of the skill runner are those of the other one, with its own copy of the two calls.\<close>

definition skill_peer_call ::
  "string \<Rightarrow> 'w agent \<Rightarrow> (nat \<Rightarrow> int \<Rightarrow> awaiter \<times> 'w \<Rightarrow> wait_end \<times> awaiter \<times> 'w)
    \<Rightarrow> fields \<Rightarrow> awaiter \<times> 'w \<Rightarrow> wval res \<times> awaiter \<times> 'w" where
  "skill_peer_call conv a wait args s =
     (let callee = get_string args ''to'' in
      if callee = [] then (Inl Plain, s)
      else if conv = [] then (Inl Plain, s)
      else (case aw_register callee conv (fst s) of (c, aw) \<Rightarrow>
         (case a (PeerSend callee (get_any args ''payload'') conv) (snd s) of
            (Inl e, w) \<Rightarrow> (Inl Plain, aw_cancel (await_key callee conv) c aw, w)
          | (Inr _, w) \<Rightarrow>
              (case wait c (peer_timeout args) (aw, w) of
                 (e, aw, w) \<Rightarrow> (reply_value e, aw_cancel (await_key callee conv) c aw, w)))))"

lemma peer_calls_agree: "skill_peer_call = peer_call"
  by (intro ext) (simp add: skill_peer_call_def peer_call_def Let_def split: prod.split sum.split)

text \<open>Nothing but the skill's text and the environment decides what a skill agent is told and may do: without a list
  of tools it is told of the network, the files and its peers, and these are the ones it may use.\<close>

lemma skill_start_default:
  assumes "getenv ''HIVE_SKILL_PATH'' \<noteq> []" "read_file (getenv ''HIVE_SKILL_PATH'') = Some txt" "parse_csv (getenv ''HIVE_TOOLS'') = []"
  shows "\<exists>r. skill_start getenv read_file = Inr (r, build_system_prompt txt [''net'', ''fs'', ''peer'']) \<and> sk_tools r = [''net'', ''fs'', ''peer'']"
  using assms by (simp add: skill_start_def skill_tools_def Let_def)

end
