(* ===== verification/Sandbox.thy ===== *)
theory Sandbox
  imports Conn Hive_Path
begin

section \<open>The sandbox of an agent (internal/ns/sandbox_linux.go)\<close>

text \<open>
  The daemon starts itself again with a reserved first argument; the new process builds the agent's
  view of the file system and then becomes the agent. \<open>setup_sandbox\<close> is the sequence of system
  calls it makes, each of which may fail and end it. What the calls mean is the documented behaviour of
  mount(2) and pivot\_root(2), on stacks of \<open>layer\<close>s with the newest first: a recursive bind shows at its
  target what its source showed, a remount changes the one mount at its target, and after the change of
  root a path starts at the new one. Paths are lists of components. The host's own mounts are arguments:
  where each path's mount begins and whether it is read-only.
\<close>

subsection \<open>Mounts\<close>

datatype origin = OnHost "string list" | OnTmpfs "string list" | OnProc "string list"

datatype layer =
    LBind "string list" "string list"
  | LTmpfs "string list"
  | LProc "string list"
  | LReadOnly "string list"
  | LRoot "string list" "string list option"

definition rest_below :: "string list \<Rightarrow> string list \<Rightarrow> string list option" where
  "rest_below d p = (if take (length d) p = d then Some (drop (length d) p) else None)"

lemma rest_below_Some [simp]: "rest_below d p = Some r \<longleftrightarrow> p = d @ r"
  by (auto simp: rest_below_def) (metis append_take_drop_id)

lemma rest_below_None: "rest_below d p = None \<longleftrightarrow> (\<forall>r. p \<noteq> d @ r)"
  by (metis not_None_eq rest_below_Some)

lemma rest_below_self [simp]: "rest_below d (d @ r) = Some r" "rest_below [] p = Some p" "rest_below d d = Some []"
  by (simp_all add: rest_below_def)

lemma rest_below_app [simp]: "rest_below (a @ b) (a @ c) = rest_below b c"
  by (simp add: rest_below_def)

fun origin_at :: "layer list \<Rightarrow> string list \<Rightarrow> origin" where
  "origin_at [] p = OnHost p"
| "origin_at (LBind src d # ls) p = (case rest_below d p of Some r \<Rightarrow> origin_at ls (src @ r) | None \<Rightarrow> origin_at ls p)"
| "origin_at (LTmpfs d # ls) p = (case rest_below d p of Some r \<Rightarrow> OnTmpfs r | None \<Rightarrow> origin_at ls p)"
| "origin_at (LProc d # ls) p = (case rest_below d p of Some r \<Rightarrow> OnProc r | None \<Rightarrow> origin_at ls p)"
| "origin_at (LReadOnly d # ls) p = origin_at ls p"
| "origin_at (LRoot new old # ls) p =
     (case Option.bind old (\<lambda>d. rest_below d p) of Some r \<Rightarrow> origin_at ls r | None \<Rightarrow> origin_at ls (new @ p))"

record host =
  ho_mount :: "string list \<Rightarrow> string list"
  ho_ro :: "string list \<Rightarrow> bool"

text \<open>The point where the mount that shows a path begins.\<close>

fun mount_at :: "host \<Rightarrow> layer list \<Rightarrow> string list \<Rightarrow> string list" where
  "mount_at h [] p = ho_mount h p"
| "mount_at h (LBind src d # ls) p =
     (case rest_below d p of
        Some r \<Rightarrow> (case rest_below src (mount_at h ls (src @ r)) of Some q \<Rightarrow> d @ q | None \<Rightarrow> d)
      | None \<Rightarrow> mount_at h ls p)"
| "mount_at h (LTmpfs d # ls) p = (case rest_below d p of Some r \<Rightarrow> d | None \<Rightarrow> mount_at h ls p)"
| "mount_at h (LProc d # ls) p = (case rest_below d p of Some r \<Rightarrow> d | None \<Rightarrow> mount_at h ls p)"
| "mount_at h (LReadOnly d # ls) p = mount_at h ls p"
| "mount_at h (LRoot new old # ls) p =
     (case Option.bind old (\<lambda>d. rest_below d p) of
        Some r \<Rightarrow> the old @ mount_at h ls r
      | None \<Rightarrow> (case rest_below new (mount_at h ls (new @ p)) of Some q \<Rightarrow> q | None \<Rightarrow> []))"

fun read_only :: "host \<Rightarrow> layer list \<Rightarrow> string list \<Rightarrow> bool" where
  "read_only h [] p = ho_ro h p"
| "read_only h (LBind src d # ls) p = (case rest_below d p of Some r \<Rightarrow> read_only h ls (src @ r) | None \<Rightarrow> read_only h ls p)"
| "read_only h (LTmpfs d # ls) p = (case rest_below d p of Some r \<Rightarrow> False | None \<Rightarrow> read_only h ls p)"
| "read_only h (LProc d # ls) p = (case rest_below d p of Some r \<Rightarrow> False | None \<Rightarrow> read_only h ls p)"
| "read_only h (LReadOnly d # ls) p = (mount_at h ls p = d \<or> read_only h ls p)"
| "read_only h (LRoot new old # ls) p =
     (case Option.bind old (\<lambda>d. rest_below d p) of Some r \<Rightarrow> read_only h ls r | None \<Rightarrow> read_only h ls (new @ p))"

subsection \<open>System calls\<close>

datatype syscall =
    MakePrivate
  | Bind string string
  | RemountRo string
  | MountTmpfs string
  | MountProc string
  | MkdirAll string
  | PivotRoot string string
  | Chdir string
  | Detach string
  | RemoveDir string

definition comps :: "string \<Rightarrow> string list" where
  "comps s = norm_comps True (split_on CHR ''/'' s)"

lemma comps_abs_path [simp]: "names cs \<Longrightarrow> comps (abs_path cs) = cs"
  by (simp add: comps_def norm_comps_def foldl_push_abs)

fun detach :: "string list \<Rightarrow> layer list \<Rightarrow> layer list" where
  "detach d (LRoot new old # ls) = (if old = Some d then LRoot new None # ls else LRoot new old # detach d ls)"
| "detach d (l # ls) = l # detach d ls"
| "detach d [] = []"

fun apply_call :: "syscall \<Rightarrow> layer list \<Rightarrow> layer list" where
  "apply_call (Bind src dst) ls = LBind (comps src) (comps dst) # ls"
| "apply_call (RemountRo dst) ls = LReadOnly (comps dst) # ls"
| "apply_call (MountTmpfs dst) ls = LTmpfs (comps dst) # ls"
| "apply_call (MountProc dst) ls = LProc (comps dst) # ls"
| "apply_call (PivotRoot new old) ls = LRoot (comps new) (rest_below (comps new) (comps old)) # ls"
| "apply_call (Detach d) ls = detach (comps d) ls"
| "apply_call _ ls = ls"

datatype setup_error = CallFailed syscall | BadMount

text \<open>A run of calls, each made if those before it succeeded; \<open>ok\<close> says which succeed.\<close>

fun do_calls :: "(syscall \<Rightarrow> bool) \<Rightarrow> syscall list \<Rightarrow> layer list \<Rightarrow> setup_error + layer list" where
  "do_calls ok [] ls = Inr ls"
| "do_calls ok (c # cs) ls = (if ok c then do_calls ok cs (apply_call c ls) else Inl (CallFailed c))"

lemma do_calls_Inr: "do_calls ok cs ls = Inr ls' \<Longrightarrow> ls' = fold apply_call cs ls"
  by (induction cs arbitrary: ls) (auto split: if_splits)

subsection \<open>Building the sandbox\<close>

record mount =
  mt_source :: string
  mt_target :: string
  mt_ro :: bool

definition bind_read_only :: "string \<Rightarrow> string \<Rightarrow> syscall list" where
  "bind_read_only src dst = [Bind src dst, RemountRo dst]"

definition system_dirs :: "string list" where
  "system_dirs = [''/usr'', ''/lib'', ''/lib64'', ''/bin'', ''/sbin'', ''/etc'']"

definition system_binds :: "(string \<Rightarrow> bool) \<Rightarrow> string \<Rightarrow> syscall list" where
  "system_binds exists rootfs =
     concat (map (\<lambda>dir. if exists dir
                        then (let dst = join_path [rootfs, dir] in MkdirAll dst # bind_read_only dir dst) else [])
              system_dirs)"

definition base_calls :: "(string \<Rightarrow> bool) \<Rightarrow> string \<Rightarrow> string \<Rightarrow> syscall list" where
  "base_calls exists rootfs img =
     (let app = join_path [rootfs, ''app'']; tmp = join_path [rootfs, ''tmp'']; data = join_path [rootfs, ''data''];
          proc = join_path [rootfs, ''proc'']
      in [MakePrivate, Bind rootfs rootfs, MkdirAll app] @ bind_read_only img app
         @ system_binds exists rootfs
         @ [MkdirAll tmp, MountTmpfs tmp, MkdirAll data, MkdirAll proc, MountProc proc])"

definition mount_calls :: "string \<Rightarrow> mount \<Rightarrow> syscall list" where
  "mount_calls rootfs m =
     (let dst = join_path [rootfs, mt_target m]
      in [MkdirAll dst, Bind (mt_source m) dst] @ (if mt_ro m then [RemountRo dst] else []))"

fun extra_mounts :: "(syscall \<Rightarrow> bool) \<Rightarrow> string \<Rightarrow> mount list \<Rightarrow> layer list \<Rightarrow> setup_error + layer list" where
  "extra_mounts ok rootfs [] ls = Inr ls"
| "extra_mounts ok rootfs (m # ms) ls =
     (if mt_source m = [] \<or> mt_target m = [] then Inl BadMount
      else if hd (mt_target m) \<noteq> CHR ''/'' then Inl BadMount
      else (case do_calls ok (mount_calls rootfs m) ls of Inl e \<Rightarrow> Inl e | Inr ls' \<Rightarrow> extra_mounts ok rootfs ms ls'))"

definition root_calls :: "string \<Rightarrow> syscall list" where
  "root_calls rootfs =
     (let old = join_path [rootfs, ''.pivot_root'']
      in [MkdirAll old, PivotRoot rootfs old, Chdir ''/'', Detach ''/.pivot_root'', RemoveDir ''/.pivot_root''])"

definition setup_sandbox ::
  "(syscall \<Rightarrow> bool) \<Rightarrow> (string \<Rightarrow> bool) \<Rightarrow> string \<Rightarrow> string \<Rightarrow> mount list \<Rightarrow> setup_error + layer list" where
  "setup_sandbox ok exists rootfs img ms =
     (case do_calls ok (base_calls exists rootfs img) [] of
        Inl e \<Rightarrow> Inl e
      | Inr ls \<Rightarrow>
          (case extra_mounts ok rootfs ms ls of
             Inl e \<Rightarrow> Inl e
           | Inr ls' \<Rightarrow> do_calls ok (root_calls rootfs) ls'))"

subsection \<open>What the agent sees\<close>

text \<open>The table the calls amount to: for each mount the path inside the sandbox, what it shows and whether it
  is read-only, the newest first. A path shows what the newest mount above it shows, and the Room's own
  directory if there is none.\<close>

datatype content = FromHost "string list" | EmptyTmp | ProcInfo

type_synonym slot = "string list \<times> content \<times> bool"

fun content_at :: "content \<Rightarrow> string list \<Rightarrow> origin" where
  "content_at (FromHost src) r = OnHost (src @ r)"
| "content_at EmptyTmp r = OnTmpfs r"
| "content_at ProcInfo r = OnProc r"

fun lookup_slot :: "slot list \<Rightarrow> string list \<Rightarrow> (string list \<times> content \<times> bool) option" where
  "lookup_slot [] p = None"
| "lookup_slot ((d, c, ro) # ts) p = (case rest_below d p of Some r \<Rightarrow> Some (r, c, ro) | None \<Rightarrow> lookup_slot ts p)"

definition slot_of_mount :: "string list \<Rightarrow> mount \<Rightarrow> slot" where
  "slot_of_mount d m = (d, FromHost (comps (mt_source m)), mt_ro m)"

definition base_slots :: "(string \<Rightarrow> bool) \<Rightarrow> string \<Rightarrow> slot list" where
  "base_slots exists img =
     [([''proc''], ProcInfo, False), ([''tmp''], EmptyTmp, False)]
       @ rev (map (\<lambda>dir. (comps dir, FromHost (comps dir), True)) (filter exists system_dirs))
       @ [([''app''], FromHost (comps img), True)]"

fun slot_layers :: "string list \<Rightarrow> slot \<Rightarrow> layer list" where
  "slot_layers rs (d, FromHost src, ro) = (if ro then [LReadOnly (rs @ d)] else []) @ [LBind src (rs @ d)]"
| "slot_layers rs (d, EmptyTmp, ro) = (if ro then [LReadOnly (rs @ d)] else []) @ [LTmpfs (rs @ d)]"
| "slot_layers rs (d, ProcInfo, ro) = (if ro then [LReadOnly (rs @ d)] else []) @ [LProc (rs @ d)]"

definition table_layers :: "string list \<Rightarrow> slot list \<Rightarrow> layer list" where
  "table_layers rs ts = concat (map (slot_layers rs) ts) @ [LBind rs rs]"

lemma table_layers_simps [simp]:
  "table_layers rs [] = [LBind rs rs]" "table_layers rs (t # ts) = slot_layers rs t @ table_layers rs ts"
  by (simp_all add: table_layers_def)

text \<open>Two directories, neither above the other.\<close>

definition apart :: "string list \<Rightarrow> string list \<Rightarrow> bool" where
  "apart a b \<longleftrightarrow> rest_below a b = None \<and> rest_below b a = None"

lemma apart_below: "apart a b \<Longrightarrow> rest_below b (a @ r) = None"
  by (auto simp: apart_def rest_below_None append_eq_append_conv2)

definition sources_apart :: "string list \<Rightarrow> slot list \<Rightarrow> bool" where
  "sources_apart rs ts \<longleftrightarrow> (\<forall>(d, c, ro) \<in> set ts. \<forall>src. c = FromHost src \<longrightarrow> apart src rs)"

lemma below_outside: "rest_below rs q = None \<Longrightarrow> rest_below (rs @ d) q = None"
  by (auto simp: rest_below_None)

text \<open>The calls act below the new root only: outside of it everything is as it was.\<close>

lemma slot_layers_outside:
  assumes "rest_below rs q = None"
  shows "origin_at (slot_layers rs t @ ls) q = origin_at ls q"
    and "mount_at h (slot_layers rs t @ ls) q = mount_at h ls q"
  by (cases "(rs, t)" rule: slot_layers.cases; simp add: below_outside[OF assms])+

lemma table_outside:
  assumes "rest_below rs q = None"
  shows "origin_at (table_layers rs ts) q = OnHost q"
    and "mount_at h (table_layers rs ts) q = ho_mount h q"
  by (induction ts) (simp_all add: assms slot_layers_outside)

lemma origin_in_table:
  "sources_apart rs ts \<Longrightarrow>
   origin_at (table_layers rs ts) (rs @ p) = (case lookup_slot ts p of None \<Rightarrow> OnHost (rs @ p) | Some (r, c, ro) \<Rightarrow> content_at c r)"
proof (induction ts)
  case (Cons t ts)
  obtain d c ro where t: "t = (d, c, ro)" by (cases t)
  have IH: "origin_at (table_layers rs ts) (rs @ p) = (case lookup_slot ts p of None \<Rightarrow> OnHost (rs @ p) | Some (r, c, ro) \<Rightarrow> content_at c r)"
    using Cons by (auto simp: sources_apart_def)
  have src: "origin_at (table_layers rs ts) (src @ r) = OnHost (src @ r)" if "c = FromHost src" for src r
    using Cons.prems that apart_below table_outside(1) by (auto simp: t sources_apart_def)
  show ?case
  proof (cases c)
    case (FromHost src)
    with IH src show ?thesis by (auto simp: t split: option.split)
  qed (use IH in \<open>auto simp: t split: option.split\<close>)
qed simp

text \<open>What is read-only needs to know where the host has mounts of its own: a remount does not reach those
  below what was bound.\<close>

definition host_ok :: "host \<Rightarrow> bool" where
  "host_ok h \<longleftrightarrow> (\<forall>q. \<exists>r. q = ho_mount h q @ r)"

definition one_mount :: "host \<Rightarrow> string list \<Rightarrow> bool" where
  "one_mount h d \<longleftrightarrow> (\<forall>r q. ho_mount h (d @ r) = d @ q \<longrightarrow> q = [])"

definition whole_sources :: "host \<Rightarrow> slot list \<Rightarrow> bool" where
  "whole_sources h ts \<longleftrightarrow> (\<forall>(d, c, ro) \<in> set ts. \<forall>src. c = FromHost src \<longrightarrow> one_mount h src)"

fun slot_dir :: "slot list \<Rightarrow> string list \<Rightarrow> string list" where
  "slot_dir [] p = []"
| "slot_dir ((d, c, ro) # ts) p = (case rest_below d p of Some r \<Rightarrow> d | None \<Rightarrow> slot_dir ts p)"

lemma slot_dir_above: "\<exists>r. p = slot_dir ts p @ r"
  by (induction ts) (auto split: option.split)

lemma mount_in_table:
  "sources_apart rs ts \<Longrightarrow> whole_sources h ts \<Longrightarrow> one_mount h rs \<Longrightarrow>
   mount_at h (table_layers rs ts) (rs @ p) = rs @ slot_dir ts p"
proof (induction ts)
  case Nil
  then show ?case by (auto simp: one_mount_def split: option.split)
next
  case (Cons t ts)
  obtain d c ro where t: "t = (d, c, ro)" by (cases t)
  have IH: "mount_at h (table_layers rs ts) (rs @ p) = rs @ slot_dir ts p"
    using Cons by (auto simp: sources_apart_def whole_sources_def)
  have src: "q = []" if "c = FromHost src" "mount_at h (table_layers rs ts) (src @ r) = src @ q" for src r q
  proof -
    from Cons.prems that(1) have "apart src rs" "one_mount h src" by (auto simp: t sources_apart_def whole_sources_def)
    with that(2) show ?thesis using apart_below table_outside(2) by (auto simp: one_mount_def)
  qed
  show ?case
  proof (cases c)
    case (FromHost src)
    with IH src show ?thesis by (auto simp: t split: option.split)
  qed (use IH in \<open>auto simp: t split: option.split\<close>)
qed

lemma read_only_outside:
  assumes "host_ok h" "rest_below rs q = None"
  shows "read_only h (table_layers rs ts) q = ho_ro h q"
proof (induction ts)
  case (Cons t ts)
  obtain d c ro where t: "t = (d, c, ro)" by (cases t)
  have "ho_mount h q \<noteq> rs @ d"
    using assms by (metis append.assoc host_ok_def not_None_eq rest_below_None)
  then show ?case
    by (cases c) (simp_all add: t Cons below_outside[OF assms(2)] table_outside(2)[OF assms(2)])
qed (simp add: assms)

fun content_ro :: "host \<Rightarrow> content \<Rightarrow> string list \<Rightarrow> bool" where
  "content_ro h (FromHost src) r = ho_ro h (src @ r)"
| "content_ro h EmptyTmp r = False"
| "content_ro h ProcInfo r = False"

lemma read_only_in_table:
  "host_ok h \<Longrightarrow> sources_apart rs ts \<Longrightarrow> whole_sources h ts \<Longrightarrow> one_mount h rs \<Longrightarrow>
   read_only h (table_layers rs ts) (rs @ p) =
     (case lookup_slot ts p of None \<Rightarrow> ho_ro h (rs @ p) | Some (r, c, ro) \<Rightarrow> ro \<or> content_ro h c r)"
proof (induction ts)
  case (Cons t ts)
  obtain d c ro where t: "t = (d, c, ro)" by (cases t)
  have rest: "sources_apart rs ts" "whole_sources h ts" using Cons.prems by (auto simp: sources_apart_def whole_sources_def)
  note IH = Cons.IH[OF Cons.prems(1) rest Cons.prems(4)]
  show ?case
  proof (cases "rest_below d p")
    case None
    have "slot_dir ts p \<noteq> d" using slot_dir_above[of p ts] None by (auto simp: rest_below_None)
    then show ?thesis
      using IH None mount_in_table[OF rest Cons.prems(4)] by (cases c) (simp_all add: t)
  next
    case (Some r)
    have "mount_at h (slot_layers rs (d, c, False) @ table_layers rs ts) (rs @ p) = rs @ d"
      using mount_in_table[of rs "(d, c, False) # ts" h p] Cons.prems Some
      by (auto simp: t sources_apart_def whole_sources_def)
    moreover have "read_only h (table_layers rs ts) (src @ r) = ho_ro h (src @ r)" if "c = FromHost src" for src
      using Cons.prems that apart_below read_only_outside by (auto simp: t sources_apart_def)
    ultimately show ?thesis using Some by (cases c) (auto simp: t)
  qed
qed simp

subsection \<open>The calls build the table\<close>

lemma fold_bind_ro:
  "names cs \<Longrightarrow> fold apply_call (bind_read_only src (abs_path cs)) ls = LReadOnly cs # LBind (comps src) cs # ls"
  by (simp add: bind_read_only_def)

lemma fold_system_binds:
  assumes "names rs" "\<forall>dir \<in> set dirs. \<exists>n. is_name n \<and> dir = abs_path [n]"
  shows "fold apply_call (concat (map (\<lambda>dir. if exists dir
        then (let dst = join_path [abs_path rs, dir] in MkdirAll dst # bind_read_only dir dst) else []) dirs)) (table_layers rs ts)
      = table_layers rs (rev (map (\<lambda>dir. (comps dir, FromHost (comps dir), True)) (filter exists dirs)) @ ts)"
  using assms(2)
proof (induction dirs arbitrary: ts)
  case (Cons dir dirs)
  then obtain n where cs: "is_name n" "dir = abs_path [n]" by auto
  from Cons.prems have rest: "\<forall>dir \<in> set dirs. \<exists>n. is_name n \<and> dir = abs_path [n]" by simp
  have "fold apply_call (bind_read_only dir (abs_path (rs @ [n]))) (table_layers rs ts)
      = table_layers rs (([n], FromHost [n], True) # ts)"
    using cs assms(1) by (simp add: fold_bind_ro del: fold_append)
  with Cons.IH[OF rest] cs assms(1) show ?case
    by (simp add: join_path_abs_abs Let_def del: table_layers_simps)
qed simp

definition system_names :: "string list" where
  "system_names = [''usr'', ''lib'', ''lib64'', ''bin'', ''sbin'', ''etc'']"

lemma system_dirs_names: "system_dirs = map (\<lambda>n. abs_path [n]) system_names" "names system_names"
  by (simp_all add: system_dirs_def system_names_def abs_path_def is_name_def dot_def dotdot_def)

lemma system_dirs_form: "\<forall>dir \<in> set system_dirs. \<exists>n. is_name n \<and> dir = abs_path [n]"
  using system_dirs_names(2) by (simp add: system_dirs_names(1) names_def list_all_iff) blast

lemma base_names: "is_name ''app''" "is_name ''tmp''" "is_name ''data''" "is_name ''proc''" "is_name ''.pivot_root''"
  by (simp_all add: is_name_def dot_def dotdot_def)

lemma fold_base_calls:
  assumes "names rs"
  shows "fold apply_call (base_calls exists (abs_path rs) img) [] = table_layers rs (base_slots exists img)"
  using fold_system_binds[OF assms system_dirs_form, of exists "[([''app''], FromHost (comps img), True)]"] assms base_names
  by (simp add: base_calls_def Let_def join_path_name fold_bind_ro system_binds_def base_slots_def)

text \<open>A target without dots stays below the new root.\<close>

definition target_ok :: "string \<Rightarrow> bool" where
  "target_ok t \<longleftrightarrow> (\<forall>c \<in> set (split_on CHR ''/'' t). c = [] \<or> is_name c)"

lemma target_comps:
  assumes "target_ok t" "names rs" "t \<noteq> []"
  shows "names (comps t)" "join_path [abs_path rs, t] = abs_path (rs @ comps t)"
proof -
  let ?us = "filter (\<lambda>c. c \<noteq> []) (split_on CHR ''/'' t)"
  from assms(1) have us: "names ?us" by (auto simp: names_def list_all_iff target_ok_def)
  then have "comps t = ?us"
    by (simp add: comps_def norm_comps_def foldl_push_skips [of _ "split_on _ _"] foldl_push_names)
  with us assms(2,3) show "names (comps t)" "join_path [abs_path rs, t] = abs_path (rs @ comps t)"
    by (simp_all add: join_path_abs foldl_push_skips [of _ "split_on _ _"] foldl_push_names)
qed

definition mount_slots :: "mount list \<Rightarrow> slot list" where
  "mount_slots ms = rev (map (\<lambda>m. (comps (mt_target m), FromHost (comps (mt_source m)), mt_ro m)) ms)"

lemma extra_mounts_table:
  assumes "names rs"
  shows "\<forall>m \<in> set ms. target_ok (mt_target m) \<Longrightarrow> extra_mounts ok (abs_path rs) ms (table_layers rs ts) = Inr ls \<Longrightarrow>
    ls = table_layers rs (mount_slots ms @ ts)"
proof (induction ms arbitrary: ts)
  case (Cons m ms)
  from Cons.prems have nonempty: "mt_target m \<noteq> []" by (auto split: if_splits)
  note dst = target_comps[OF _ assms nonempty]
  from Cons.prems(2) obtain ls' where
    ls': "do_calls ok (mount_calls (abs_path rs) m) (table_layers rs ts) = Inr ls'" "extra_mounts ok (abs_path rs) ms ls' = Inr ls"
    by (auto split: if_splits sum.splits)
  have "ls' = table_layers rs ((comps (mt_target m), FromHost (comps (mt_source m)), mt_ro m) # ts)"
    using do_calls_Inr[OF ls'(1)] dst assms Cons.prems(1) by (simp add: mount_calls_def Let_def)
  with Cons ls'(2) show ?case by (simp add: mount_slots_def)
qed (simp add: mount_slots_def)

lemma root_calls_table:
  assumes "names rs"
  shows "fold apply_call (root_calls (abs_path rs)) ls = LRoot rs None # ls"
proof -
  have "comps ''/.pivot_root'' = [''.pivot_root'']"
    using comps_abs_path[of "[''.pivot_root'']"] base_names by (simp add: abs_path_def)
  with assms base_names show ?thesis by (simp add: root_calls_def Let_def join_path_name)
qed

definition sandbox_slots :: "(string \<Rightarrow> bool) \<Rightarrow> string \<Rightarrow> mount list \<Rightarrow> slot list" where
  "sandbox_slots exists img ms = mount_slots ms @ base_slots exists img"

lemma setup_table:
  assumes "setup_sandbox ok exists (abs_path rs) img ms = Inr ls" "names rs" "\<forall>m \<in> set ms. target_ok (mt_target m)"
  shows "ls = LRoot rs None # table_layers rs (sandbox_slots exists img ms)"
proof -
  from assms(1) obtain l1 l2 where
    l: "do_calls ok (base_calls exists (abs_path rs) img) [] = Inr l1" "extra_mounts ok (abs_path rs) ms l1 = Inr l2"
      "do_calls ok (root_calls (abs_path rs)) l2 = Inr ls"
    by (auto simp: setup_sandbox_def split: sum.splits)
  from do_calls_Inr[OF l(1)] fold_base_calls[OF assms(2)] have "l1 = table_layers rs (base_slots exists img)" by simp
  with extra_mounts_table[OF assms(2,3)] l(2) have "l2 = table_layers rs (sandbox_slots exists img ms)"
    by (simp add: sandbox_slots_def)
  with do_calls_Inr[OF l(3)] root_calls_table[OF assms(2)] show ?thesis by simp
qed

subsection \<open>The agent's view\<close>

lemma lookup_slot_Some: "lookup_slot ts p = Some (r, c, ro) \<Longrightarrow> \<exists>d. (d, c, ro) \<in> set ts \<and> p = d @ r"
  by (induction ts p rule: lookup_slot.induct) (auto split: option.splits)

text \<open>C35. After a setup whose calls all succeed, the agent's file system is exactly the table of its mounts:
  each path shows what the newest mount above it shows and else the Room's directory, and it is read-only
  where its mount says so or the host's file was, provided nothing that is bound has a host mount below it.\<close>

theorem sandbox_view:
  assumes "setup_sandbox ok exists (abs_path rs) img ms = Inr ls" "names rs" "\<forall>m \<in> set ms. target_ok (mt_target m)"
    and "sources_apart rs (sandbox_slots exists img ms)" "host_ok h" "whole_sources h (sandbox_slots exists img ms)" "one_mount h rs"
  shows "(origin_at ls p, read_only h ls p) =
    (case lookup_slot (sandbox_slots exists img ms) p of
       None \<Rightarrow> (OnHost (rs @ p), ho_ro h (rs @ p))
     | Some (r, c, ro) \<Rightarrow> (content_at c r, ro \<or> content_ro h c r))"
  using setup_table[OF assms(1-3)] origin_in_table[OF assms(4)] read_only_in_table[OF assms(5,4,6,7)]
  by (auto split: option.split)

lemma sandbox_slots_cases:
  "(d, c, ro) \<in> set (sandbox_slots exists img ms) \<Longrightarrow>
     (\<exists>m \<in> set ms. d = comps (mt_target m) \<and> c = FromHost (comps (mt_source m)) \<and> ro = mt_ro m)
   \<or> d = [''proc''] \<and> c = ProcInfo \<or> d = [''tmp''] \<and> c = EmptyTmp
   \<or> (\<exists>dir \<in> set system_dirs. exists dir \<and> c = FromHost (comps dir) \<and> ro) \<or> c = FromHost (comps img) \<and> ro"
  by (auto simp: sandbox_slots_def mount_slots_def base_slots_def)


definition demo_mounts :: "mount list" where
  "demo_mounts = [\<lparr>mt_source = ''/v/kb'', mt_target = ''/shared/kb'', mt_ro = True\<rparr>]"

definition plain_host :: host where
  "plain_host = \<lparr>ho_mount = (\<lambda>_. []), ho_ro = (\<lambda>_. False)\<rparr>"

lemma plain_host_simps [simp]: "ho_mount plain_host q = []" "\<not> ho_ro plain_host q"
  by (simp_all add: plain_host_def)

lemmas sandbox_eval = setup_sandbox_def base_calls_def system_binds_def bind_read_only_def mount_calls_def root_calls_def
  demo_mounts_def target_ok_def is_name_def sources_apart_def sandbox_slots_def mount_slots_def base_slots_def
  whole_sources_def one_mount_def host_ok_def plain_host_def apart_def comps_def system_dirs_def

lemma demo_setup: "\<exists>ls. setup_sandbox (\<lambda>_. True) (\<lambda>d. d = ''/etc'') ''/r/fs'' ''/i/a'' demo_mounts = Inr ls"
  by (simp add: sandbox_eval Let_def)

lemma demo_ok:
  "''/r/fs'' = abs_path [''r'', ''fs'']" "names [''r'', ''fs'']" "\<forall>m \<in> set demo_mounts. target_ok (mt_target m)"
  "sources_apart [''r'', ''fs''] (sandbox_slots (\<lambda>d. d = ''/etc'') ''/i/a'' demo_mounts)"
  "host_ok plain_host" "whole_sources plain_host (sandbox_slots (\<lambda>d. d = ''/etc'') ''/i/a'' demo_mounts)"
  "one_mount plain_host [''r'', ''fs'']"
  by (simp_all add: sandbox_eval path_eval rest_below_def)

theorem sandbox_view_witness:
  "\<exists>ls. setup_sandbox (\<lambda>_. True) (\<lambda>d. d = ''/etc'') ''/r/fs'' ''/i/a'' demo_mounts = Inr ls \<and>
    (origin_at ls [''shared'', ''kb'', ''f''], read_only plain_host ls [''shared'', ''kb'', ''f'']) = (OnHost [''v'', ''kb'', ''f''], True) \<and>
    (origin_at ls [''data'', ''f''], read_only plain_host ls [''data'', ''f'']) = (OnHost [''r'', ''fs'', ''data'', ''f''], False)"
proof -
  obtain ls where ls: "setup_sandbox (\<lambda>_. True) (\<lambda>d. d = ''/etc'') ''/r/fs'' ''/i/a'' demo_mounts = Inr ls"
    using demo_setup by blast
  note view = sandbox_view[OF ls[unfolded demo_ok(1)] demo_ok(2-7)]
  have "lookup_slot (sandbox_slots (\<lambda>d. d = ''/etc'') ''/i/a'' demo_mounts) [''shared'', ''kb'', ''f''] = Some ([''f''], FromHost [''v'', ''kb''], True)"
    "lookup_slot (sandbox_slots (\<lambda>d. d = ''/etc'') ''/i/a'' demo_mounts) [''data'', ''f''] = None"
    by (simp_all add: sandbox_slots_def mount_slots_def base_slots_def demo_mounts_def system_dirs_def comps_def path_eval rest_below_def)
  with ls view[of "[''shared'', ''kb'', ''f'']"] view[of "[''data'', ''f'']"] show ?thesis by simp
qed


text \<open>A host mount below a system directory, such as a container's resolv.conf, stays writable: it comes with
  the recursive bind, and the remount reaches the bind's own mount only.\<close>

lemma submount_stays_writable:
  fixes h :: host
  defines "h \<equiv> \<lparr>ho_mount = (\<lambda>q. if q = [''etc'', ''resolv.conf''] then q else []), ho_ro = (\<lambda>_. False)\<rparr>"
  assumes "setup_sandbox (\<lambda>_. True) (\<lambda>d. d = ''/etc'') ''/r/fs'' ''/i/a'' [] = Inr ls"
  shows "origin_at ls [''etc'', ''resolv.conf''] = OnHost [''etc'', ''resolv.conf'']
    \<and> \<not> read_only h ls [''etc'', ''resolv.conf''] \<and> read_only h ls [''etc'', ''passwd'']"
proof -
  have "ls = LRoot [''r'', ''fs''] None # table_layers [''r'', ''fs''] (sandbox_slots (\<lambda>d. d = ''/etc'') ''/i/a'' [])"
    using setup_table[OF assms(2)[unfolded demo_ok(1)] demo_ok(2)] by simp
  then show ?thesis
    by (simp add: h_def sandbox_slots_def mount_slots_def base_slots_def system_dirs_def comps_def path_eval rest_below_def)
qed

text \<open>A mount point with dot-dot segments leaves the new root: its directory is made on the host, where the
  setup still runs, before anything is confined.\<close>

lemma dotdot_target_makes_host_dir:
  "mount_calls ''/h/rooms/r1/fs'' \<lparr>mt_source = ''/v/kb'', mt_target = ''/../../../../etc/x'', mt_ro = True\<rparr>
     = [MkdirAll ''/etc/x'', Bind ''/v/kb'' ''/etc/x'', RemountRo ''/etc/x'']"
  by (simp add: mount_calls_def path_eval Let_def)

subsection \<open>The helper process\<close>

text \<open>The command that starts an agent, and what the helper makes of its arguments. A list of mounts is
  passed as JSON, none when it is empty; without a sandbox the agent is run directly.\<close>

datatype agent_cmd = RunDirect string | Reexec "string list"

definition init_sentinel :: string where "init_sentinel = ''__hive_init__''"

definition new_agent_command ::
  "(mount list \<Rightarrow> string) \<Rightarrow> string \<Rightarrow> string \<Rightarrow> string \<Rightarrow> string \<Rightarrow> string \<Rightarrow> mount list \<Rightarrow> agent_cmd" where
  "new_agent_command enc no_sandbox self rootfs img entry ms =
     (if no_sandbox = ''1'' then RunDirect (join_path [img, entry])
      else Reexec ([self, init_sentinel, rootfs, img, entry] @ (if ms = [] then [] else [enc ms])))"

definition is_init_mode :: "string list \<Rightarrow> bool" where
  "is_init_mode argv \<longleftrightarrow> 1 < length argv \<and> argv ! 1 = init_sentinel"

text \<open>The end of the helper: what it wrote to the error pipe, and the program it became if it did.\<close>

record init_end =
  ie_report :: string
  ie_exec :: "string option"

definition init_fail :: "string \<Rightarrow> init_end" where
  "init_fail msg = \<lparr>ie_report = msg @ [CHR 0x0A], ie_exec = None\<rparr>"

definition run_init ::
  "(string \<Rightarrow> mount list option) \<Rightarrow> (setup_error \<Rightarrow> string) \<Rightarrow> (string \<Rightarrow> string \<Rightarrow> mount list \<Rightarrow> setup_error + layer list)
   \<Rightarrow> (string \<Rightarrow> bool) \<Rightarrow> string list \<Rightarrow> init_end" where
  "run_init dec msg setup exec argv =
     (if length argv < 5 then init_fail ''expected [sentinel rootfs imageDir relEntry]''
      else (let rootfs = argv ! 2; img = argv ! 3; entry = argv ! 4
            in case (if 6 \<le> length argv then dec (argv ! 5) else Some []) of
                 None \<Rightarrow> init_fail ''parse extra mounts: ''
               | Some ms \<Rightarrow>
                   (case setup rootfs img ms of
                      Inl e \<Rightarrow> init_fail (''setup: '' @ msg e)
                    | Inr _ \<Rightarrow>
                        (let path = join_path [''/app'', entry]
                         in \<lparr>ie_report = [], ie_exec = if exec path then Some path else None\<rparr>))))"



end
