(* ===== verification/Spec2Isabelle.thy ===== *)
theory Spec2Isabelle
  imports Agent_Server Awaiter Cmd_Hire Cmd_Line Cmd_Remote Conn Conv_Bus Conv_Handlers Conversation Event_Bus Examples Fs_Proxy Hire Hived Http_Routes Http_Volumes Images Ipc Ipc_Daemon Ipc_Types Isolation Log_Rotate Mem_Proxy Metered_Proxies Peer Protocol Providers Quota Rank Remote Room_Handlers Runner Sandbox Sdk Skill Tools Workflow
begin

text \<open>
  Hive is a daemon that runs AI agents in Rooms. An agent is a sandboxed process hired from an
  image; all it does goes through the daemon: files, network, language models, memory, events,
  messages to its peers. The command line and a web page drive the daemon. This development models
  the daemon's own logic, one theory for each part (paths are below src/):

  \<^item> \<open>Hive_Prelude\<close>: errors with their codes (internal/protocol/errors.go), results as sums, Go's
    64-bit integers, the string functions of Go's library that the code uses, and the write by
    temp file and rename as the sequence of disk states it goes through.
  \<^item> \<open>Hive_Path\<close>: filepath.Clean, Join, Base and Dir, and the interface \<open>path_guard\<close> of
    everything that must keep a path inside a directory.
  \<^item> \<open>Quota\<close>: the quota actor (internal/quota/actor.go), with the interface \<open>metered\<close>.
  \<^item> \<open>Rank\<close>: ranks, the hiring rule and the path checks (internal/rank/rank.go), and the merge
    of a rank's quota with an override.
  \<^item> \<open>Fs_Proxy\<close>: an agent's view of files (internal/proxy/fsproxy) and how the daemon builds it.
  \<^item> \<open>Images\<close>, \<open>Remote\<close>: image manifests and the image store, volumes, references to
    repositories, pulls and Hivefiles (internal/image, store, volume, remote, hivefile).
  \<^item> \<open>Hire\<close>: hiring, hiring of juniors with quota carving and refund, exits, state files and
    recovery (internal/daemon/daemon.go, hire_junior.go, runners.go, internal/room, roomstate).
  \<^item> \<open>Conversation\<close>: conversation records and their store (internal/conversation/types.go,
    store.go), with the interface \<open>record_store\<close>.
  \<^item> \<open>Peer\<close>: peer messages, the round cap and cross-Room forwarding (internal/router,
    internal/room/room.go, internal/daemon/peer_forward.go and the hooks of daemon.go).
  \<^item> \<open>Conv_Handlers\<close>: the conversation requests of the UI and the run of a conversation
    (internal/daemon/conversation.go, conv_outputs.go).
  \<^item> \<open>Conv_Bus\<close>: the UI's event stream (internal/conversation/bus.go).
  \<^item> \<open>Mem_Proxy\<close>: agents' memory (internal/proxy/memproxy), with the interface \<open>keyed_store\<close>.
  \<^item> \<open>Event_Bus\<close>: agents' events (internal/eventbus, internal/proxy/eventproxy).
  \<^item> \<open>Metered_Proxies\<close>: network, language model and AI tool calls (internal/proxy/netproxy,
    llmproxy, aitoolproxy), with the interface \<open>pays_first\<close>.
  \<^item> \<open>Tools\<close>: the tools of the agent runners and the requests they make (internal/runners,
    sdk/go/agent.go).
  \<^item> \<open>Workflow\<close>: workflow files, references and the workflow runner (internal/workflow,
    cmd/hive-workflow-runner).
  \<^item> \<open>Awaiter\<close>: the registry of calls that wait for a peer's reply, \<open>peer_call\<close> and
    \<open>peer_call_many\<close> (internal/peerawait, the runners' peer_dispatch.go and main.go).
  \<^item> \<open>Skill\<close>: the reply parser and the turns of the skill runner (cmd/hive-skill-runner).
  \<^item> \<open>Room_Handlers\<close>: the requests for images, Rooms, volumes, logs and tasks, the shutdown, and
    any sequence of requests and exits as one life of the daemon (internal/daemon/daemon.go,
    internal/room, internal/roomstate).
  \<^item> \<open>Log_Rotate\<close>: the agents' logs with one backup (internal/daemon/logrotate.go).
  \<^item> \<open>Protocol\<close>: messages and their lines (internal/protocol/message.go, codec.go).
  \<^item> \<open>Conn\<close>: the daemon's side of the connection to an agent (internal/agent/conn.go), with the
    interface \<open>call_table\<close> of everything that matches responses to calls.
  \<^item> \<open>Sdk\<close>: the agent's side: parameters and results of each call, the read loop, task queues and
    subscriptions (sdk/go/agent.go, internal/rpc/params.go).
  \<^item> \<open>Ipc\<close>: the command line's connection, server and client (internal/ipc/server.go, client.go).
  \<^item> \<open>Http_Volumes\<close>, \<open>Http_Routes\<close>: the page's server: files of volumes, uploads and fetches with
    their guards, the dispatch of requests, and the handlers and hooks behind them (internal/httpapi,
    internal/daemon/httpbackend.go).
  \<^item> \<open>Sandbox\<close>: the mounts an agent's process lives in and the helper that makes them (internal/ns).
  \<^item> \<open>Ipc_Types\<close>, \<open>Ipc_Daemon\<close>: the command line's requests and results as JSON (internal/ipc/types.go), with
    the interface \<open>codec\<close>, and the daemon's table of methods over all handlers (daemon.go \<open>Register\<close>).
  \<^item> \<open>Cmd_Remote\<close>, \<open>Cmd_Hire\<close>, \<open>Cmd_Line\<close>: the commands of hive, their arguments, calls and output, and the
    two mains (cmd/hive, cmd/hived).
  \<^item> \<open>Examples\<close>: the sample agents, with the Markdown renderer (examples/).
  \<^item> \<open>Agent_Server\<close>: the daemon as an agent sees it: the proxies a hired agent gets and the table of its methods
    over them, on the state of the whole daemon, with the wire on both sides (daemon.go \<open>installAgentProxies\<close>).
  \<^item> \<open>Isolation\<close>: Rooms do not influence each other through their agents, as the interface \<open>unwinding\<close> of a system
    with a part that acts elsewhere leave alone and do not read, interpreted on \<open>serve_agent\<close>.
  \<^item> \<open>Hived\<close>: the daemon from its start (daemon.go \<open>New\<close>) over any sequence of inputs, its invariants together,
    and the start after a crash.
  \<^item> \<open>Providers\<close>: the language model and AI tool behind the proxies: the choice by the environment, the request to
    an OpenAI-compatible server and its reply (llmproxy.go, aitoolproxy.go, daemon.go \<open>New\<close>).
  \<^item> \<open>Runner\<close>: the processes of skill and workflow agents: what the model is told of its tools, the start, the main
    loop and the router of peer messages, and the way of a task's answer to the daemon (both mains, agent.go, room.go \<open>Run\<close>).

  How code becomes definitions. A struct is a record, an enumeration a datatype, a handler one
  function from the decoded request (none when the JSON does not decode) and the state to the
  answer and the next state, with the code's checks in the code's order. An error is a value of
  \<open>herr\<close>; an error without a protocol code is \<open>Plain\<close>. A Go map is a partial map where it is only
  looked up and an association list where the code ranges over it. Integers are mathematical
  ones with the wrap at 64 bits written out where the code computes with caller-supplied amounts,
  and machine words for the event counter. What the operating system or a remote service answers is
  an argument: a record of outcomes for writes (\<open>io\<close>), processes (\<open>spawn\<close>), connections and HTTP.
  Code that runs concurrently is modelled twice where it matters: each operation as a function, and
  the interleaving of several as an inductive step relation (\<open>Peer.sstep\<close>, \<open>Event_Bus.estep\<close>,
  \<open>Conv_Bus.cstep\<close>, \<open>Awaiter.astep\<close>, \<open>Awaiter.fstep\<close>, \<open>Runner.rstep\<close>), as a run of enabled actions (\<open>Conn.conn_step\<close>,
  \<open>Sdk.sdk_step\<close>, \<open>Ipc.client_step\<close>) or as an arbitrary list of requests.

  What is shown. Isolation: whatever the agents of other Rooms ask for, a Room keeps its record, state file, files
  and quota, and nothing of these shows in their answers; quota keys do not influence each other, file paths stay below the Room's
  root or a mount, events of a Room stay in it, memory is one map by directory and key. Accounting:
  no sequence of charges overspends a limit, carves are exact, calls to the outside are paid
  before they are made. Conversations: transcripts only grow, statuses follow their diagram, a
  crash leaves an old or a new file, and the round cap holds for sends that do not overlap, with the
  exact bound for those that do. Hiring: ranks go strictly down. The daemon's life: the invariants of all
  parts hold together along any inputs, and a start after a crash gives back the Rooms and conversations.
  Connections: each call gets an answer of its own id, each request one response, each task arrives once
  and in order, and what one end encodes the other decodes; a runner serves its tasks one at a time and its answer is
  what the daemon returns. The page: its dispatch is its table of requests,
  no request changes a file outside the directory it names, and Rooms and conversations keep their invariants.
  Where the code falls short of such a statement the development proves what it does instead
  (\<open>rank_bypass_by_dotdot\<close>, \<open>memory_key_escapes\<close>, \<open>round_cap_race\<close>, \<open>agent_exit_panics\<close> and
  others), each with the inputs that show it.

  There is no fuel for loops that may not end: every recursion is structural or over the length of the input,
  and what counts turns has the code's own bound: twenty turns of a skill task, three attempts of the planner,
  the twenty digits of \<open>Http_Volumes.itoa_loop\<close>, which no 64-bit number exceeds.

  The isolation of Rooms is that of the daemon's own requests: named volumes are shared on purpose, peer messages
  and the members' processes are outside of it, and it holds under the limits that \<open>fair_call\<close> and \<open>laid_out\<close> state,
  which \<open>Hived\<close> shows kept: Room names without a slash, directories apart, mounts of workspace and volumes only,
  memory keys and image references without a way out.

  Not modelled: the start of processes and listeners, time other than as stamps in records, symbolic links,
  the texts of error messages and of the help, and what is printed to standard error. The kernel's mounts are
  a list of layers (\<open>Sandbox\<close>). YAML, JSON, DNS, HTTP clients, the Markdown parser and the docx writer are
  arguments of the definitions that use them.
\<close>

end
